(* ===== verification/Prelude.thy ===== *)
theory Prelude
  imports Main "HOL-Library.Word" "HOL-Library.Char_ord" "HOL-Library.List_Lexorder"
begin

unbundle bit_operations_syntax

section \<open>Shared vocabulary of the development\<close>

text \<open>
  What every component of the model of the chat server uses: names for Go's integer and byte
  types, the error-or-value result type that stands for Go's pair of a value and an
  \<^verbatim>\<open>error\<close>, the theorem collections the component theories fill, and generic lemmas on
  words, lists and maps. Go strings are byte strings, so they are \<^typ>\<open>string\<close>; Go's
  lexicographic byte order on strings is the order of \<open>List_Lexorder\<close> over \<open>Char_ord\<close>.
\<close>

type_synonym uint8 = "8 word"
type_synonym uint32 = "32 word"
type_synonym uint64 = "64 word"
type_synonym bytes = "8 word list"

text \<open>An \<^verbatim>\<open>error\<close> is represented by the text its \<^verbatim>\<open>Error()\<close> method returns.\<close>

type_synonym go_error = string
type_synonym 'a go_result = "go_error + 'a"

named_theorems acs_defs \<open>definitions of the access mode bits\<close>
named_theorems mode_bits \<open>single bits of the access mode constants\<close>
named_theorems topic_frame \<open>what an operation on a topic leaves unchanged\<close>
named_theorems topic_inv_intros \<open>preservation of the topic invariant\<close>

subsection \<open>Results\<close>

definition result_or :: "'a \<Rightarrow> 'a go_result \<Rightarrow> 'a" where
  "result_or d r = (case r of Inl _ \<Rightarrow> d | Inr v \<Rightarrow> v)"

lemma result_or_simps [simp]:
  "result_or d (Inl e) = d"
  "result_or d (Inr v) = v"
  by (simp_all add: result_or_def)

fun is_ok :: "'a go_result \<Rightarrow> bool" where
  "is_ok (Inl _) = False"
| "is_ok (Inr _) = True"

lemma is_ok_iff: "is_ok r \<longleftrightarrow> (\<exists>v. r = Inr v)"
  by (cases r) auto

subsection \<open>Words\<close>

lemma word_and_zero_iff_bits:
  fixes a b :: "'a::len word"
  shows "a AND b = 0 \<longleftrightarrow> (\<forall>n < LENGTH('a). \<not> (bit a n \<and> bit b n))"
  by (auto simp: bit_eq_iff bit_simps)

lemma word_and_pow_nonzero_iff:
  fixes a :: "'a::len word"
  shows "n < LENGTH('a) \<Longrightarrow> a AND 2 ^ n \<noteq> 0 \<longleftrightarrow> bit a n"
  by (auto simp: word_and_zero_iff_bits bit_simps)

subsection \<open>Lists\<close>

lemma sorted_distinct_strict:
  fixes xs :: "'a::linorder list"
  shows "sorted_wrt (<) xs \<longleftrightarrow> sorted xs \<and> distinct xs"
  by (induction xs) (auto simp: order_less_le)

lemma take_insert_drop_set:
  "set (take n xs @ x # drop n xs) = insert x (set xs)"
  by (metis append_take_drop_id list.simps(15) set_append Un_insert_right)

lemma map_fst_AList_update_dom: "k \<in> fst ` set xs \<Longrightarrow> \<exists>v. (k, v) \<in> set xs"
  by auto

end
