(* ===== verification/GoStd.thy ===== *)
theory GoStd
  imports Prelude
begin

section \<open>The parts of Go's standard library the server relies on\<close>

text \<open>
  Executable models of the library functions that occur in the translated code:
  \<^verbatim>\<open>strings\<close> (\<open>HasPrefix\<close>, \<open>Replace\<close> with count 1, \<open>ContainsAny\<close>, \<open>IndexAny\<close>,
  \<open>ToLower\<close>), \<^verbatim>\<open>strconv.FormatInt\<close> in base 10, \<^verbatim>\<open>encoding/binary\<close>
  little endian 64-bit integers, the unpadded URL alphabet of \<^verbatim>\<open>encoding/base64\<close>, and
  \<^verbatim>\<open>sort.Search\<close>. The lemmas are the round trips of the codecs and the correctness of the
  binary search.
\<close>

subsection \<open>strings\<close>

definition HasPrefix :: "string \<Rightarrow> string \<Rightarrow> bool" where
  "HasPrefix s p \<longleftrightarrow> take (length p) s = p"

definition TrimPrefix :: "string \<Rightarrow> string \<Rightarrow> string" where
  "TrimPrefix s p = (if HasPrefix s p then drop (length p) s else s)"

text \<open>\<^verbatim>\<open>strings.Replace(s, old, new, 1)\<close> for a non-empty \<open>old\<close>.\<close>

fun Replace1 :: "string \<Rightarrow> string \<Rightarrow> string \<Rightarrow> string" where
  "Replace1 [] old new = []"
| "Replace1 (c # s) old new =
     (if HasPrefix (c # s) old then new @ drop (length old) (c # s)
      else c # Replace1 s old new)"

fun ContainsAny :: "string \<Rightarrow> string \<Rightarrow> bool" where
  "ContainsAny [] chars = False"
| "ContainsAny (c # s) chars = (c \<in> set chars \<or> ContainsAny s chars)"

text \<open>\<^verbatim>\<open>strings.IndexAny\<close>; the result -1 of the library is \<open>None\<close>.\<close>

fun IndexAny :: "string \<Rightarrow> string \<Rightarrow> nat option" where
  "IndexAny [] chars = None"
| "IndexAny (c # s) chars =
     (if c \<in> set chars then Some 0 else map_option Suc (IndexAny s chars))"

text \<open>\<^verbatim>\<open>strings.SplitN(s, sep, n)\<close> for a separator of one byte and \<open>n > 0\<close>.\<close>

fun SplitN_acc :: "string \<Rightarrow> string \<Rightarrow> char \<Rightarrow> nat \<Rightarrow> string list" where
  "SplitN_acc acc [] sep n = [acc]"
| "SplitN_acc acc (c # s) sep n =
     (if n \<le> 1 then [acc @ c # s]
      else if c = sep then acc # SplitN_acc [] s sep (n - 1)
      else SplitN_acc (acc @ [c]) s sep n)"

definition SplitN :: "string \<Rightarrow> char \<Rightarrow> nat \<Rightarrow> string list" where
  "SplitN s sep n = SplitN_acc [] s sep n"

text \<open>\<^verbatim>\<open>strings.Split\<close> has as many parts as it takes.\<close>

definition Split :: "string \<Rightarrow> char \<Rightarrow> string list" where
  "Split s sep = SplitN s sep (length s + 1)"

definition is_ascii :: "char \<Rightarrow> bool" where
  "is_ascii c \<longleftrightarrow> of_char c < (128 :: nat)"

definition ascii_lower :: "char \<Rightarrow> char" where
  "ascii_lower c =
     (let n = of_char c :: nat in if 65 \<le> n \<and> n \<le> 90 then char_of (n + 32) else c)"

text \<open>
  \<^verbatim>\<open>strings.ToLower\<close>: the byte-wise mapping when the string is ASCII; the Unicode tables
  the library uses for other strings are the parameter \<open>ul\<close>.
\<close>

definition ToLower :: "(string \<Rightarrow> string) \<Rightarrow> string \<Rightarrow> string" where
  "ToLower ul s = (if list_all is_ascii s then map ascii_lower s else ul s)"

text \<open>The conversion \<^verbatim>\<open>string(b)\<close> of a byte: its code point in UTF-8.\<close>

definition byte_to_string :: "char \<Rightarrow> string" where
  "byte_to_string c =
     (let n = of_char c :: nat
      in if n < 128 then [c] else [char_of (192 + n div 64), char_of (128 + n mod 64)])"

lemma HasPrefix_append [simp]: "HasPrefix (p @ s) p"
  by (simp add: HasPrefix_def)

lemma HasPrefix_iff: "HasPrefix s p \<longleftrightarrow> (\<exists>t. s = p @ t)"
  by (metis HasPrefix_append HasPrefix_def append_take_drop_id)

lemma Replace1_HasPrefix:
  "p \<noteq> [] \<Longrightarrow> HasPrefix s p \<Longrightarrow> Replace1 s p q = q @ drop (length p) s"
  by (cases s) (auto simp: HasPrefix_def)

lemma Replace1_prefix: "p \<noteq> [] \<Longrightarrow> Replace1 (p @ s) p q = q @ s"
  by (simp add: Replace1_HasPrefix)

lemma ContainsAny_iff: "ContainsAny s chars \<longleftrightarrow> set s \<inter> set chars \<noteq> {}"
  by (induction s) auto

lemma IndexAny_None: "IndexAny s chars = None \<longleftrightarrow> set s \<inter> set chars = {}"
  by (induction s) auto

lemma IndexAny_split:
  "set s \<inter> set chars = {} \<Longrightarrow> c \<in> set chars \<Longrightarrow> IndexAny (s @ c # t) chars = Some (length s)"
  by (induction s) auto

lemma IndexAny_Some_less: "IndexAny s chars = Some n \<Longrightarrow> n < length s"
  by (induction s arbitrary: n) (auto split: if_splits)

subsection \<open>strconv\<close>

fun digits10 :: "nat \<Rightarrow> string" where
  "digits10 n = (if n < 10 then [char_of (48 + n)] else digits10 (n div 10) @ [char_of (48 + n mod 10)])"

declare digits10.simps [simp del]

definition FormatInt :: "int \<Rightarrow> string" where
  "FormatInt i = (if i < 0 then CHR ''-'' # digits10 (nat (- i)) else digits10 (nat i))"

definition is_digit_char :: "char \<Rightarrow> bool" where
  "is_digit_char c \<longleftrightarrow> 48 \<le> (of_char c :: nat) \<and> of_char c \<le> (57 :: nat)"

lemma of_char_digit: "n < 10 \<Longrightarrow> of_char (char_of (48 + n) :: char) = (48 + n :: nat)"
  by simp

lemma digits10_chars: "list_all is_digit_char (digits10 n)"
proof (induction n rule: digits10.induct)
  case (1 n)
  show ?case
  proof (cases "n < 10")
    case True
    then show ?thesis by (subst digits10.simps) (simp add: is_digit_char_def)
  next
    case False
    have "n mod 10 \<le> 9" using mod_less_divisor [of 10 n] by simp
    then have "is_digit_char (char_of (48 + n mod 10))" by (simp add: is_digit_char_def)
    with 1 False show ?thesis by (subst digits10.simps) simp
  qed
qed

fun undigits10 :: "nat \<Rightarrow> string \<Rightarrow> nat" where
  "undigits10 acc [] = acc"
| "undigits10 acc (c # s) = undigits10 (10 * acc + (of_char c - 48)) s"

lemma undigits10_append: "undigits10 a (s @ t) = undigits10 (undigits10 a s) t"
  by (induction s arbitrary: a) auto

lemma undigits10_digits10: "undigits10 0 (digits10 n) = n"
proof (induction n rule: digits10.induct)
  case (1 n)
  show ?case
  proof (cases "n < 10")
    case True
    then show ?thesis by (subst digits10.simps) simp
  next
    case False
    with 1 show ?thesis
      by (subst digits10.simps) (simp add: undigits10_append)
  qed
qed

lemma digits10_inj: "digits10 m = digits10 n \<Longrightarrow> m = n"
  by (metis undigits10_digits10)

lemma FormatInt_pos_inj: "0 \<le> i \<Longrightarrow> 0 \<le> j \<Longrightarrow> FormatInt i = FormatInt j \<Longrightarrow> i = j"
  by (auto simp: FormatInt_def dest: digits10_inj)

lemma FormatInt_pos_digits: "0 \<le> i \<Longrightarrow> list_all is_digit_char (FormatInt i)"
  by (simp add: FormatInt_def digits10_chars)

subsection \<open>encoding/binary, little endian\<close>

fun le_bytes :: "nat \<Rightarrow> uint64 \<Rightarrow> bytes" where
  "le_bytes 0 x = []"
| "le_bytes (Suc n) x = ucast x # le_bytes n (drop_bit 8 x)"

definition PutUint64 :: "uint64 \<Rightarrow> bytes" where
  "PutUint64 x = le_bytes 8 x"

fun of_le_bytes :: "bytes \<Rightarrow> uint64" where
  "of_le_bytes [] = 0"
| "of_le_bytes (c # b) = push_bit 8 (of_le_bytes b) OR ucast c"

text \<open>\<^verbatim>\<open>binary.LittleEndian.Uint64(b)\<close> reads the first eight bytes.\<close>

definition Uint64 :: "bytes \<Rightarrow> uint64" where
  "Uint64 b = of_le_bytes (take 8 b)"

lemma length_le_bytes [simp]: "length (le_bytes n x) = n"
  by (induction n arbitrary: x) auto

lemma length_PutUint64 [simp]: "length (PutUint64 x) = 8"
  by (simp add: PutUint64_def)

lemma of_le_bytes_le_bytes: "of_le_bytes (le_bytes n x) = take_bit (8 * n) x"
proof (induction n arbitrary: x)
  case 0
  then show ?case by simp
next
  case (Suc n)
  show ?case
    by (rule bit_word_eqI) (auto simp: Suc bit_simps)
qed

lemma Uint64_PutUint64_append: "Uint64 (PutUint64 x @ r) = x"
  by (simp add: Uint64_def PutUint64_def of_le_bytes_le_bytes take_bit_word_eq_self)

lemma Uint64_PutUint64 [simp]: "Uint64 (PutUint64 x) = x"
  using Uint64_PutUint64_append [of x "[]"] by simp

lemma bit_of_le_bytes: "bit (of_le_bytes b) n \<Longrightarrow> n < 8 * length b"
proof (induction b arbitrary: n)
  case Nil
  then show ?case by simp
next
  case (Cons c b)
  have "n < 8" if "bit c n" for n using bit_imp_le_length [OF that] by simp
  with Cons.prems Cons.IH [of "n - 8"] show ?case by (fastforce simp: bit_simps)
qed

lemma le_bytes_of_le_bytes: "length b \<le> 8 \<Longrightarrow> le_bytes (length b) (of_le_bytes b) = b"
proof (induction b)
  case Nil
  then show ?case by simp
next
  case (Cons c b)
  have "ucast (push_bit 8 (of_le_bytes b) OR ucast c) = c"
    by (rule bit_word_eqI) (auto simp: bit_simps)
  moreover have "drop_bit 8 (push_bit 8 (of_le_bytes b) OR ucast c) = of_le_bytes b"
  proof (rule bit_word_eqI)
    fix n
    have "\<not> bit c (8 + n)" using bit_imp_le_length [of c "8 + n"] by auto
    moreover have "n < 56" if "bit (of_le_bytes b) n"
      using bit_of_le_bytes [OF that] Cons.prems by simp
    ultimately show "bit (drop_bit 8 (push_bit 8 (of_le_bytes b) OR ucast c)) n
        = bit (of_le_bytes b) n"
      by (auto simp: bit_simps)
  qed
  ultimately show ?case using Cons by simp
qed

lemma PutUint64_Uint64: "length b = 8 \<Longrightarrow> PutUint64 (Uint64 b) = b"
  using le_bytes_of_le_bytes [of b] by (simp add: PutUint64_def Uint64_def)

lemma PutUint64_inj: "PutUint64 x = PutUint64 y \<Longrightarrow> x = y"
  by (metis Uint64_PutUint64)

subsection \<open>encoding/base64, URL alphabet without padding\<close>

definition b64_char :: "nat \<Rightarrow> char" where
  "b64_char v =
     char_of (if v < 26 then 65 + v else if v < 52 then 71 + v else if v < 62 then v - 4
              else if v = 62 then 45 else 95)"

definition b64_value :: "char \<Rightarrow> nat option" where
  "b64_value c =
     (let n = of_char c :: nat in
      if 65 \<le> n \<and> n \<le> 90 then Some (n - 65)
      else if 97 \<le> n \<and> n \<le> 122 then Some (n - 71)
      else if 48 \<le> n \<and> n \<le> 57 then Some (n + 4)
      else if n = 45 then Some 62
      else if n = 95 then Some 63
      else None)"

definition b64_pack :: "uint8 \<Rightarrow> uint8 \<Rightarrow> uint8 \<Rightarrow> nat" where
  "b64_pack a b c = unat a * 65536 + unat b * 256 + unat c"

fun b64_encode :: "bytes \<Rightarrow> string" where
  "b64_encode [] = []"
| "b64_encode [a] =
     (let v = b64_pack a 0 0 in map b64_char [v div 262144, v div 4096 mod 64])"
| "b64_encode [a, b] =
     (let v = b64_pack a b 0 in map b64_char [v div 262144, v div 4096 mod 64, v div 64 mod 64])"
| "b64_encode (a # b # c # r) =
     (let v = b64_pack a b c
      in map b64_char [v div 262144, v div 4096 mod 64, v div 64 mod 64, v mod 64] @ b64_encode r)"

text \<open>
  The bytes of one quantum of two, three or four 6-bit digits. The decoder is not strict: the
  bits of the last digit that belong to no byte are dropped.
\<close>

definition b64_quantum :: "nat list \<Rightarrow> bytes" where
  "b64_quantum q =
     (let d = (\<lambda>i. if i < length q then q ! i else 0);
          v = d 0 * 262144 + d 1 * 4096 + d 2 * 64 + d 3
      in take (length q - 1) [word_of_nat (v div 65536), word_of_nat (v div 256), word_of_nat v])"

text \<open>
  \<^verbatim>\<open>Encoding.Decode\<close>: the bytes written and, for corrupt input, the offset it reports.
  Line breaks are skipped; a character outside the alphabet, or a single left-over digit, is
  corrupt input, and the quantum it belongs to is not written.
\<close>

fun b64_decode_from :: "nat \<Rightarrow> nat list \<Rightarrow> string \<Rightarrow> bytes \<times> nat option" where
  "b64_decode_from si q [] =
     (if q = [] then ([], None)
      else if length q = 1 then ([], Some (si - 1))
      else (b64_quantum q, None))"
| "b64_decode_from si q (c # cs) =
     (case b64_value c of
        Some v \<Rightarrow>
          (if length q = 3
           then (let (bs, e) = b64_decode_from (Suc si) [] cs in (b64_quantum (q @ [v]) @ bs, e))
           else b64_decode_from (Suc si) (q @ [v]) cs)
      | None \<Rightarrow>
          (if c = CHR 0x0A \<or> c = CHR 0x0D then b64_decode_from (Suc si) q cs
           else ([], Some si)))"

definition b64_decode :: "string \<Rightarrow> bytes \<times> nat option" where
  "b64_decode s = b64_decode_from 0 [] s"

text \<open>\<^verbatim>\<open>CorruptInputError.Error()\<close>\<close>

definition b64_error :: "nat \<Rightarrow> go_error" where
  "b64_error n = ''illegal base64 data at input byte '' @ FormatInt (int n)"

lemma b64_value_char [simp]: "v < 64 \<Longrightarrow> b64_value (b64_char v) = Some v"
  by (auto simp: b64_value_def b64_char_def Let_def)

lemma unat_uint8: "unat (a :: uint8) < 256"
  using unsigned_less [of a, where ?'a = nat] by simp

lemma b64_pack_less: "b64_pack a b c < 16777216"
  using unat_uint8 [of a] unat_uint8 [of b] unat_uint8 [of c] by (simp add: b64_pack_def)

lemma b64_digits_less [simp]:
  "b64_pack a b c div 262144 < 64" "(v :: nat) div 4096 mod 64 < 64" "v div 64 mod 64 < 64"
  "v mod 64 < 64"
  using b64_pack_less [of a b c] by simp_all

lemma b64_digits_sum:
  "(v :: nat) div 262144 * 262144 + v div 4096 mod 64 * 4096 + v div 64 mod 64 * 64 + v mod 64 = v"
proof -
  have d: "v div 4096 = v div 64 div 64" "v div 262144 = v div 64 div 64 div 64"
    by (simp_all add: div_mult2_eq [symmetric])
  have "v = 64 * (v div 64) + v mod 64" by simp
  moreover have "v div 64 = 64 * (v div 64 div 64) + v div 64 mod 64" by simp
  moreover have "v div 64 div 64 = 64 * (v div 64 div 64 div 64) + v div 64 div 64 mod 64" by simp
  ultimately show ?thesis unfolding d by linarith
qed

lemma b64_pack_bytes:
  "word_of_nat (b64_pack a b c div 65536) = a"
  "word_of_nat (b64_pack a b c div 256) = b"
  "word_of_nat (b64_pack a b c) = c"
proof -
  note b = unat_uint8 [of a] unat_uint8 [of b] unat_uint8 [of c]
  have "b64_pack a b c div 65536 = unat a" using b by (simp add: b64_pack_def)
  then show "word_of_nat (b64_pack a b c div 65536) = a" by simp
  have "b64_pack a b c div 256 = unat a * 256 + unat b" using b by (simp add: b64_pack_def)
  moreover have z: "(256 :: uint8) = 0" "(65536 :: uint8) = 0" by simp_all
  ultimately show "word_of_nat (b64_pack a b c div 256) = b" by (simp add: z)
  show "word_of_nat (b64_pack a b c) = c" by (simp add: b64_pack_def z)
qed

lemma b64_quantum_simps:
  "b64_quantum [a, b] = (\<lambda>v. [word_of_nat (v div 65536)]) (a * 262144 + b * 4096)"
  "b64_quantum [a, b, c] = (\<lambda>v. [word_of_nat (v div 65536), word_of_nat (v div 256)])
     (a * 262144 + b * 4096 + c * 64)"
  "b64_quantum [a, b, c, d] =
     (\<lambda>v. [word_of_nat (v div 65536), word_of_nat (v div 256), word_of_nat v])
     (a * 262144 + b * 4096 + c * 64 + d)"
  by (simp_all add: b64_quantum_def Let_def)

lemma b64_quantum_4:
  "b64_quantum [v div 262144, v div 4096 mod 64, v div 64 mod 64, v mod 64]
   = [word_of_nat (v div 65536), word_of_nat (v div 256), word_of_nat v]"
  by (simp only: b64_quantum_simps b64_digits_sum)

lemma b64_quantum_3:
  assumes "v mod 64 = 0"
  shows "b64_quantum [v div 262144, v div 4096 mod 64, v div 64 mod 64]
   = [word_of_nat (v div 65536), word_of_nat (v div 256)]"
  using b64_digits_sum [of v] assms by (simp only: b64_quantum_simps add_0_right)

lemma b64_quantum_2:
  assumes "v mod 64 = 0" and "v div 64 mod 64 = 0"
  shows "b64_quantum [v div 262144, v div 4096 mod 64] = [word_of_nat (v div 65536)]"
  using b64_digits_sum [of v] assms by (simp only: b64_quantum_simps add_0_right mult_zero_left)

lemma b64_decode_from_encode: "b64_decode_from si [] (b64_encode bs) = (bs, None)"
proof (induction bs arbitrary: si rule: b64_encode.induct)
  case 1
  then show ?case by simp
next
  case (2 a)
  have "b64_pack a 0 0 = unat a * 16 * 64 * 64" by (simp add: b64_pack_def)
  then have "b64_pack a 0 0 mod 64 = 0" "b64_pack a 0 0 div 64 mod 64 = 0" by simp_all
  then show ?case by (simp add: Let_def b64_quantum_2 b64_pack_bytes)
next
  case (3 a b)
  have "b64_pack a b 0 = (unat a * 1024 + unat b * 4) * 64" by (simp add: b64_pack_def)
  then have "b64_pack a b 0 mod 64 = 0" by simp
  then show ?case by (simp add: Let_def b64_quantum_3 b64_pack_bytes)
next
  case (4 a b c r)
  then show ?case by (simp add: Let_def b64_quantum_4 b64_pack_bytes)
qed

lemma b64_decode_encode [simp]: "b64_decode (b64_encode bs) = (bs, None)"
  by (simp add: b64_decode_def b64_decode_from_encode)

lemma b64_encode_inj: "b64_encode x = b64_encode y \<Longrightarrow> x = y"
  by (metis b64_decode_encode fst_conv)

lemma length_b64_encode: "length (b64_encode bs) = (4 * length bs + 2) div 3"
  by (induction bs rule: b64_encode.induct) (auto simp: Let_def)

subsection \<open>sort.Search\<close>

function Search_loop :: "(nat \<Rightarrow> bool) \<Rightarrow> nat \<Rightarrow> nat \<Rightarrow> nat" where
  "Search_loop f i j =
     (if i < j then
        (let h = (i + j) div 2 in if \<not> f h then Search_loop f (h + 1) j else Search_loop f i h)
      else i)"
  by pat_completeness auto
termination
  by (relation "measure (\<lambda>(f, i, j). j - i)") auto

declare Search_loop.simps [simp del]

definition Search :: "nat \<Rightarrow> (nat \<Rightarrow> bool) \<Rightarrow> nat" where
  "Search n f = Search_loop f 0 n"

lemma Search_loop_spec:
  assumes mono: "\<And>k l. k \<le> l \<Longrightarrow> l < n \<Longrightarrow> f k \<Longrightarrow> f l"
  shows "i \<le> j \<Longrightarrow> j \<le> n \<Longrightarrow> (\<forall>k < i. \<not> f k) \<Longrightarrow> (\<forall>k < n. j \<le> k \<longrightarrow> f k) \<Longrightarrow>
    Search_loop f i j \<le> n \<and> (\<forall>k < n. f k \<longleftrightarrow> Search_loop f i j \<le> k)"
  using mono
proof (induction f i j rule: Search_loop.induct)
  case (1 f i j)
  define h where "h = (i + j) div 2"
  show ?case
  proof (cases "i < j")
    case True
    then have h: "i \<le> h" "h < j" by (simp_all add: h_def)
    show ?thesis
    proof (cases "f h")
      case True
      have up: "\<forall>k < n. h \<le> k \<longrightarrow> f k" using True "1.prems"(5) by blast
      have "Search_loop f i h \<le> n \<and> (\<forall>k < n. f k \<longleftrightarrow> Search_loop f i h \<le> k)"
        using "1.IH"(2) [OF \<open>i < j\<close> h_def] True h "1.prems" up by simp
      with True \<open>i < j\<close> show ?thesis
        by (simp add: Search_loop.simps [of f i j] h_def [symmetric] Let_def)
    next
      case False
      have "h < n" using h "1.prems" by simp
      then have low: "\<forall>k < h + 1. \<not> f k" using False "1.prems"(5) by (auto simp: less_Suc_eq_le)
      have "Search_loop f (h + 1) j \<le> n \<and> (\<forall>k < n. f k \<longleftrightarrow> Search_loop f (h + 1) j \<le> k)"
        using "1.IH"(1) [OF \<open>i < j\<close> h_def] False h "1.prems" low by simp
      with False \<open>i < j\<close> show ?thesis
        by (simp add: Search_loop.simps [of f i j] h_def [symmetric] Let_def)
    qed
  next
    case False
    then have "i = j" using "1.prems" by simp
    then have "f k \<longleftrightarrow> i \<le> k" if "k < n" for k
      using "1.prems"(3,4) that by (cases "k < i") auto
    moreover have "Search_loop f i j = i" using False by (simp add: Search_loop.simps [of f i j])
    ultimately show ?thesis using \<open>i = j\<close> "1.prems"(2) by simp
  qed
qed

text \<open>On a predicate that never turns false again, the search finds where it turns true.\<close>

lemma Search_correct:
  assumes "\<And>k l. k \<le> l \<Longrightarrow> l < n \<Longrightarrow> f k \<Longrightarrow> f l"
  shows "Search n f \<le> n" and "k < n \<Longrightarrow> f k \<longleftrightarrow> Search n f \<le> k"
  using Search_loop_spec [of n f 0 n] assms unfolding Search_def by auto

subsection \<open>Splitting\<close>

lemma SplitN_acc_nosep: "sep \<notin> set s \<Longrightarrow> SplitN_acc acc s sep n = [acc @ s]"
  by (induction s arbitrary: acc) auto

lemma SplitN_acc_sep:
  "sep \<notin> set s \<Longrightarrow> n > 1 \<Longrightarrow> SplitN_acc acc (s @ sep # t) sep n = (acc @ s) # SplitN_acc [] t sep (n - 1)"
  by (induction s arbitrary: acc) auto

lemma SplitN_2:
  assumes "sep \<notin> set a"
  shows "SplitN (a @ sep # b) sep 2 = [a, b]"
  using SplitN_acc_sep [OF assms, of 2 "[]" b] by (cases b) (simp_all add: SplitN_def)

lemma Split_3:
  assumes "sep \<notin> set a" "sep \<notin> set b" "sep \<notin> set c"
  shows "Split (a @ sep # b @ sep # c) sep = [a, b, c]"
  using SplitN_acc_sep [OF assms(1), of "length (a @ sep # b @ sep # c) + 1" "[]" "b @ sep # c"]
    SplitN_acc_sep [OF assms(2), of "length (a @ sep # b @ sep # c)" "[]" c]
    SplitN_acc_nosep [OF assms(3), of "[]" "length (a @ sep # b @ sep # c) - 1"]
  by (simp add: Split_def SplitN_def)

end
