(* ===== verification/AccessModes.thy ===== *)
theory AccessModes
  imports GoStd
begin

section \<open>Access modes (server/store/types/types.go)\<close>

text \<open>
  The permission bit mask every subscription carries twice, as wanted by the user and as given
  by the topic: the bit constants, text form (\<open>MarshalText\<close>, \<open>ParseAcs\<close>, \<open>UnmarshalText\<close>),
  comparison (\<open>BetterThan\<close>, \<open>BetterEqual\<close>), textual differences (\<open>Delta\<close>,
  \<open>ApplyDelta\<close>, \<open>ApplyMutation\<close>) and the single-bit tests. Go's \<^verbatim>\<open>uint\<close> is a 64-bit
  word. The lemmas show that text and delta forms lose nothing of a mode, that parsing is total
  and bounded by the bit mask, and that the tests agree with the bits.
\<close>

type_synonym access_mode = "64 word"

definition ModeJoin :: access_mode where "ModeJoin = 1"
definition ModeRead :: access_mode where "ModeRead = 2"
definition ModeWrite :: access_mode where "ModeWrite = 4"
definition ModePres :: access_mode where "ModePres = 8"
definition ModeApprove :: access_mode where "ModeApprove = 16"
definition ModeShare :: access_mode where "ModeShare = 32"
definition ModeDelete :: access_mode where "ModeDelete = 64"
definition ModeOwner :: access_mode where "ModeOwner = 128"
definition ModeUnset :: access_mode where "ModeUnset = 256"
definition ModeNone :: access_mode where "ModeNone = 0"

definition ModeCPublic :: access_mode where
  "ModeCPublic = ModeJoin OR ModeRead OR ModeWrite OR ModePres OR ModeShare"
definition ModeCMeFnd :: access_mode where
  "ModeCMeFnd = ModeJoin OR ModePres OR ModeShare"
definition ModeCSelf :: access_mode where
  "ModeCSelf = ModeJoin OR ModeRead OR ModeWrite OR ModeDelete OR ModeOwner"
definition ModeCFull :: access_mode where
  "ModeCFull = ModeJoin OR ModeRead OR ModeWrite OR ModePres OR ModeApprove OR ModeShare
     OR ModeDelete OR ModeOwner"
definition ModeCP2P :: access_mode where
  "ModeCP2P = ModeJoin OR ModeRead OR ModeWrite OR ModePres OR ModeApprove"
definition ModeCP2PD :: access_mode where
  "ModeCP2PD = ModeJoin OR ModeRead OR ModeWrite OR ModePres OR ModeApprove OR ModeDelete"
definition ModeCAuth :: access_mode where
  "ModeCAuth = ModeCP2P OR ModeCPublic"
definition ModeCReadOnly :: access_mode where
  "ModeCReadOnly = ModeJoin OR ModeRead"
definition ModeCSys :: access_mode where
  "ModeCSys = ModeJoin OR ModeRead OR ModeWrite OR ModePres OR ModeDelete"
definition ModeCChnWriter :: access_mode where
  "ModeCChnWriter = ModeRead OR ModeWrite OR ModePres OR ModeShare"
definition ModeCChnReader :: access_mode where
  "ModeCChnReader = ModeJoin OR ModeRead OR ModePres"
definition ModeCAdmin :: access_mode where
  "ModeCAdmin = ModeOwner OR ModeApprove"
definition ModeCSharer :: access_mode where
  "ModeCSharer = ModeCAdmin OR ModeShare"
definition ModeInvalid :: access_mode where "ModeInvalid = 0x100000"
definition ModeBitmask :: access_mode where
  "ModeBitmask = ModeJoin OR ModeRead OR ModeWrite OR ModePres OR ModeApprove OR ModeShare
     OR ModeDelete OR ModeOwner"

lemmas mode_base_defs [acs_defs] =
  ModeJoin_def ModeRead_def ModeWrite_def ModePres_def ModeApprove_def ModeShare_def
  ModeDelete_def ModeOwner_def ModeUnset_def ModeNone_def ModeInvalid_def

lemmas mode_set_defs [acs_defs] =
  ModeCPublic_def ModeCMeFnd_def ModeCSelf_def ModeCFull_def ModeCP2P_def ModeCP2PD_def
  ModeCAuth_def ModeCReadOnly_def ModeCSys_def ModeCChnWriter_def ModeCChnReader_def
  ModeCAdmin_def ModeCSharer_def ModeBitmask_def

subsection \<open>Text form\<close>

text \<open>The letters of the bits 0 to 7, in the order \<^verbatim>\<open>MarshalText\<close> writes them.\<close>

definition mode_letters :: "(nat \<times> char) list" where
  "mode_letters =
     [(0, CHR ''J''), (1, CHR ''R''), (2, CHR ''W''), (3, CHR ''P''),
      (4, CHR ''A''), (5, CHR ''S''), (6, CHR ''D''), (7, CHR ''O'')]"

fun mode_text :: "access_mode \<Rightarrow> (nat \<times> char) list \<Rightarrow> string" where
  "mode_text m [] = []"
| "mode_text m ((i, chr) # modes) =
     (if m AND push_bit i 1 \<noteq> 0 then [chr] else []) @ mode_text m modes"

definition AccessMode_MarshalText :: "access_mode \<Rightarrow> string go_result" where
  "AccessMode_MarshalText m =
     (if m = ModeNone then Inr ''N''
      else if m = ModeInvalid then Inl ''AccessMode invalid''
      else Inr (mode_text m mode_letters))"

fun ParseAcs_loop :: "access_mode \<Rightarrow> string \<Rightarrow> access_mode go_result" where
  "ParseAcs_loop m0 [] = Inr m0"
| "ParseAcs_loop m0 (c # b) =
     (if c = CHR ''J'' \<or> c = CHR ''j'' then ParseAcs_loop (m0 OR ModeJoin) b
      else if c = CHR ''R'' \<or> c = CHR ''r'' then ParseAcs_loop (m0 OR ModeRead) b
      else if c = CHR ''W'' \<or> c = CHR ''w'' then ParseAcs_loop (m0 OR ModeWrite) b
      else if c = CHR ''A'' \<or> c = CHR ''a'' then ParseAcs_loop (m0 OR ModeApprove) b
      else if c = CHR ''S'' \<or> c = CHR ''s'' then ParseAcs_loop (m0 OR ModeShare) b
      else if c = CHR ''D'' \<or> c = CHR ''d'' then ParseAcs_loop (m0 OR ModeDelete) b
      else if c = CHR ''P'' \<or> c = CHR ''p'' then ParseAcs_loop (m0 OR ModePres) b
      else if c = CHR ''O'' \<or> c = CHR ''o'' then ParseAcs_loop (m0 OR ModeOwner) b
      else if c = CHR ''N'' \<or> c = CHR ''n'' then
        (if m0 \<noteq> ModeUnset
         then Inl ''AccessMode: access N cannot be combined with any other''
         else Inr ModeNone)
      else Inl (''AccessMode: invalid character '' @ [CHR 0x27] @ byte_to_string c @ [CHR 0x27]))"

definition ParseAcs :: "string \<Rightarrow> access_mode go_result" where
  "ParseAcs b = ParseAcs_loop ModeUnset b"

text \<open>\<^verbatim>\<open>UnmarshalText\<close> assigns through its receiver: the old mode goes in, the new one comes out.\<close>

definition AccessMode_UnmarshalText :: "access_mode \<Rightarrow> string \<Rightarrow> access_mode go_result" where
  "AccessMode_UnmarshalText m b =
     (case ParseAcs b of
        Inl err \<Rightarrow> Inl err
      | Inr m0 \<Rightarrow> Inr (if m0 \<noteq> ModeUnset then m0 AND ModeBitmask else m))"

definition AccessMode_String :: "access_mode \<Rightarrow> string" where
  "AccessMode_String m = result_or [] (AccessMode_MarshalText m)"

definition AccessMode_MarshalJSON :: "access_mode \<Rightarrow> string go_result" where
  "AccessMode_MarshalJSON m =
     (case AccessMode_MarshalText m of
        Inl err \<Rightarrow> Inl err
      | Inr res \<Rightarrow> Inr ([CHR 0x22] @ res @ [CHR 0x22]))"

text \<open>
  \<^verbatim>\<open>UnmarshalJSON\<close> reads \<^verbatim>\<open>b[0]\<close> and slices \<^verbatim>\<open>b[1:len(b)-1]\<close>: on an empty slice, and
  on a lone quote, the runtime panics, which is the result \<open>None\<close>.
\<close>

definition AccessMode_UnmarshalJSON :: "access_mode \<Rightarrow> string \<Rightarrow> access_mode go_result option" where
  "AccessMode_UnmarshalJSON m b =
     (if b = [] then None
      else if hd b \<noteq> CHR 0x22 \<or> last b \<noteq> CHR 0x22 then Some (Inl ''syntax error'')
      else if length b = 1 then None
      else Some (AccessMode_UnmarshalText m (butlast (tl b))))"

subsection \<open>Comparison and difference\<close>

definition BetterThan :: "access_mode \<Rightarrow> access_mode \<Rightarrow> bool" where
  "BetterThan grant want \<longleftrightarrow> ModeBitmask AND grant AND NOT want \<noteq> 0"

definition BetterEqual :: "access_mode \<Rightarrow> access_mode \<Rightarrow> bool" where
  "BetterEqual grant want \<longleftrightarrow> ModeBitmask AND grant AND want = want"

definition AccessMode_Delta :: "access_mode \<Rightarrow> access_mode \<Rightarrow> string" where
  "AccessMode_Delta old new =
     (let o2n = ModeBitmask AND old AND NOT new;
          removed = (if o2n > 0 then
                       (let r = AccessMode_String o2n in if r \<noteq> [] then CHR ''-'' # r else r)
                     else []);
          n2o = ModeBitmask AND new AND NOT old;
          added = (if n2o > 0 then
                     (let a = AccessMode_String n2o in if a \<noteq> [] then CHR ''+'' # a else a)
                   else [])
      in added @ removed)"

text \<open>
  The loop of \<^verbatim>\<open>ApplyDelta\<close> reads a sign, cuts the chunk up to the next sign and continues
  there. Its state is the remaining text \<^verbatim>\<open>delta[next:]\<close>: \<open>next = -1\<close> ends the loop, as does a
  remaining text shorter than two characters.
\<close>

function ApplyDelta_loop :: "string \<Rightarrow> access_mode \<Rightarrow> string \<Rightarrow> access_mode go_result" where
  "ApplyDelta_loop delta m0 s =
     (if length s < 2 then Inr m0
      else
        (let ch = hd s;
             end = IndexAny (tl s) ''+-'';
             chunk = (case end of Some e \<Rightarrow> take e (tl s) | None \<Rightarrow> tl s);
             rest = (case end of Some e \<Rightarrow> drop e (tl s) | None \<Rightarrow> [])
         in case ParseAcs chunk of
              Inl err \<Rightarrow> Inl err
            | Inr upd \<Rightarrow>
                if ch = CHR ''+'' then
                  ApplyDelta_loop delta (if upd \<noteq> ModeUnset then m0 OR (upd AND ModeBitmask) else m0) rest
                else if ch = CHR ''-'' then
                  ApplyDelta_loop delta
                    (if upd \<noteq> ModeUnset then m0 AND NOT (upd AND ModeBitmask) else m0) rest
                else Inl (''Invalid acs delta string: '' @ [CHR 0x27] @ delta @ [CHR 0x27])))"
  by pat_completeness auto
termination
  by (relation "measure (\<lambda>(d, m, s). length s)") (auto split: option.splits)

declare ApplyDelta_loop.simps [simp del]

definition ApplyDelta :: "access_mode \<Rightarrow> string \<Rightarrow> access_mode go_result" where
  "ApplyDelta m delta =
     (if delta = [] \<or> delta = ''N'' then Inr m else ApplyDelta_loop delta m delta)"

definition ApplyMutation :: "access_mode \<Rightarrow> string \<Rightarrow> access_mode go_result" where
  "ApplyMutation m mutation =
     (if mutation = [] then Inr m
      else if ContainsAny mutation ''+-'' then ApplyDelta m mutation
      else AccessMode_UnmarshalText m mutation)"

subsection \<open>Single-bit tests\<close>

definition IsJoiner :: "access_mode \<Rightarrow> bool" where "IsJoiner m \<longleftrightarrow> m AND ModeJoin \<noteq> 0"
definition IsOwner :: "access_mode \<Rightarrow> bool" where "IsOwner m \<longleftrightarrow> m AND ModeOwner \<noteq> 0"
definition IsApprover :: "access_mode \<Rightarrow> bool" where "IsApprover m \<longleftrightarrow> m AND ModeApprove \<noteq> 0"
definition IsAdmin :: "access_mode \<Rightarrow> bool" where "IsAdmin m \<longleftrightarrow> IsOwner m \<or> IsApprover m"
definition IsSharer :: "access_mode \<Rightarrow> bool" where
  "IsSharer m \<longleftrightarrow> IsAdmin m \<or> m AND ModeShare \<noteq> 0"
definition IsWriter :: "access_mode \<Rightarrow> bool" where "IsWriter m \<longleftrightarrow> m AND ModeWrite \<noteq> 0"
definition IsReader :: "access_mode \<Rightarrow> bool" where "IsReader m \<longleftrightarrow> m AND ModeRead \<noteq> 0"
definition IsPresencer :: "access_mode \<Rightarrow> bool" where "IsPresencer m \<longleftrightarrow> m AND ModePres \<noteq> 0"
definition IsDeleter :: "access_mode \<Rightarrow> bool" where "IsDeleter m \<longleftrightarrow> m AND ModeDelete \<noteq> 0"
definition AccessMode_IsZero :: "access_mode \<Rightarrow> bool" where "AccessMode_IsZero m \<longleftrightarrow> m = ModeNone"
definition IsInvalid :: "access_mode \<Rightarrow> bool" where "IsInvalid m \<longleftrightarrow> m = ModeInvalid"
definition IsDefined :: "access_mode \<Rightarrow> bool" where
  "IsDefined m \<longleftrightarrow> m \<noteq> ModeInvalid \<and> m \<noteq> ModeUnset"

record default_access =
  Auth :: access_mode
  Anon :: access_mode

subsection \<open>Bits of the modes\<close>

lemma mode_pow:
  "ModeJoin = 2 ^ 0" "ModeRead = 2 ^ 1" "ModeWrite = 2 ^ 2" "ModePres = 2 ^ 3"
  "ModeApprove = 2 ^ 4" "ModeShare = 2 ^ 5" "ModeDelete = 2 ^ 6" "ModeOwner = 2 ^ 7"
  "ModeUnset = 2 ^ 8" "ModeInvalid = 2 ^ 20" "ModeBitmask = mask 8"
  by (simp_all add: acs_defs mask_eq_exp_minus_1)

lemma bit_mode_pow: "k < 64 \<Longrightarrow> bit (2 ^ k :: access_mode) n \<longleftrightarrow> n = k"
  by (auto simp: bit_simps)

lemma mode_bit_iff [mode_bits]:
  "bit ModeJoin n \<longleftrightarrow> n = 0" "bit ModeRead n \<longleftrightarrow> n = 1" "bit ModeWrite n \<longleftrightarrow> n = 2"
  "bit ModePres n \<longleftrightarrow> n = 3" "bit ModeApprove n \<longleftrightarrow> n = 4" "bit ModeShare n \<longleftrightarrow> n = 5"
  "bit ModeDelete n \<longleftrightarrow> n = 6" "bit ModeOwner n \<longleftrightarrow> n = 7" "bit ModeUnset n \<longleftrightarrow> n = 8"
  "bit ModeInvalid n \<longleftrightarrow> n = 20"
  unfolding mode_pow by (rule bit_mode_pow, simp)+

lemma mode_mask_bit_iff [mode_bits]: "bit ModeBitmask n \<longleftrightarrow> n < 8" "\<not> bit ModeNone n"
  by (auto simp: mode_pow bit_simps ModeNone_def)

lemma mode_and_bit_iff:
  "m AND ModeJoin \<noteq> 0 \<longleftrightarrow> bit m 0" "m AND ModeRead \<noteq> 0 \<longleftrightarrow> bit m 1"
  "m AND ModeWrite \<noteq> 0 \<longleftrightarrow> bit m 2" "m AND ModePres \<noteq> 0 \<longleftrightarrow> bit m 3"
  "m AND ModeApprove \<noteq> 0 \<longleftrightarrow> bit m 4" "m AND ModeShare \<noteq> 0 \<longleftrightarrow> bit m 5"
  "m AND ModeDelete \<noteq> 0 \<longleftrightarrow> bit m 6" "m AND ModeOwner \<noteq> 0 \<longleftrightarrow> bit m 7"
  unfolding mode_pow by (rule word_and_pow_nonzero_iff, simp)+

lemma mode_test_iff [mode_bits]:
  "IsJoiner m \<longleftrightarrow> bit m 0" "IsReader m \<longleftrightarrow> bit m 1" "IsWriter m \<longleftrightarrow> bit m 2"
  "IsPresencer m \<longleftrightarrow> bit m 3" "IsApprover m \<longleftrightarrow> bit m 4" "IsDeleter m \<longleftrightarrow> bit m 6"
  "IsOwner m \<longleftrightarrow> bit m 7" "IsAdmin m \<longleftrightarrow> bit m 7 \<or> bit m 4"
  "IsSharer m \<longleftrightarrow> bit m 7 \<or> bit m 4 \<or> bit m 5"
  unfolding IsJoiner_def IsReader_def IsWriter_def IsPresencer_def IsApprover_def IsDeleter_def
    IsOwner_def IsAdmin_def IsSharer_def mode_and_bit_iff by simp_all

lemma mode_and_zero_iff: "ModeBitmask AND a = 0 \<longleftrightarrow> (\<forall>n < 8. \<not> bit a n)"
  by (auto simp: word_and_zero_iff_bits mode_bits)

text \<open>A mode that uses no bit outside the bit mask: what is stored for users and topics.\<close>

definition valid_mode :: "access_mode \<Rightarrow> bool" where
  "valid_mode m \<longleftrightarrow> m AND NOT ModeBitmask = 0"

lemma valid_mode_bits: "valid_mode m \<longleftrightarrow> (\<forall>n < 64. bit m n \<longrightarrow> n < 8)"
  by (auto simp: valid_mode_def word_and_zero_iff_bits mode_bits bit_not_iff)

lemma valid_mode_and [simp, intro]:
  "valid_mode (m AND ModeBitmask)" "valid_mode a \<Longrightarrow> valid_mode (a AND b)"
  "valid_mode b \<Longrightarrow> valid_mode (a AND b)" "valid_mode a \<Longrightarrow> valid_mode b \<Longrightarrow> valid_mode (a OR b)"
  by (auto simp: valid_mode_bits bit_simps mode_bits)

lemma valid_mode_const [simp, intro]:
  "valid_mode 0" "valid_mode ModeNone" "valid_mode ModeJoin" "valid_mode ModeRead"
  "valid_mode ModeWrite" "valid_mode ModePres" "valid_mode ModeApprove" "valid_mode ModeShare"
  "valid_mode ModeDelete" "valid_mode ModeOwner" "valid_mode ModeBitmask"
  by (auto simp: valid_mode_bits mode_bits)

lemma valid_mode_set [simp, intro]:
  "valid_mode ModeCPublic" "valid_mode ModeCMeFnd" "valid_mode ModeCSelf" "valid_mode ModeCFull"
  "valid_mode ModeCP2P" "valid_mode ModeCP2PD" "valid_mode ModeCAuth" "valid_mode ModeCReadOnly"
  "valid_mode ModeCSys" "valid_mode ModeCChnWriter" "valid_mode ModeCChnReader"
  "valid_mode ModeCAdmin" "valid_mode ModeCSharer"
  by (simp_all add: mode_set_defs valid_mode_and valid_mode_const)

lemma valid_mode_mask: "valid_mode m \<Longrightarrow> m AND ModeBitmask = m"
  by (rule bit_word_eqI) (auto simp: valid_mode_bits bit_simps mode_bits)

lemma BetterThan_iff: "BetterThan g w \<longleftrightarrow> (\<exists>n < 8. bit g n \<and> \<not> bit w n)"
  by (auto simp: BetterThan_def mode_and_zero_iff bit_simps)

lemma BetterEqual_iff: "BetterEqual g w \<longleftrightarrow> valid_mode w \<and> (\<forall>n < 8. bit w n \<longrightarrow> bit g n)"
proof -
  have "BetterEqual g w \<longleftrightarrow> (\<forall>n < 64. n < 8 \<and> bit g n \<and> bit w n \<longleftrightarrow> bit w n)"
    unfolding BetterEqual_def by (auto simp: bit_eq_iff bit_simps mode_bits)
  moreover have "n < 64" if "n < 8" for n :: nat using that by simp
  ultimately show ?thesis unfolding valid_mode_bits by blast
qed

subsection \<open>The text form\<close>

lemma mode_letter_test: "i < 8 \<Longrightarrow> m AND push_bit i 1 \<noteq> 0 \<longleftrightarrow> bit (m :: access_mode) i"
  using word_and_pow_nonzero_iff [of i m] by (simp add: push_bit_eq_mult)

lemma mode_letter_tests:
  "m AND push_bit 0 1 \<noteq> 0 \<longleftrightarrow> bit (m :: access_mode) 0" "m AND push_bit 1 1 \<noteq> 0 \<longleftrightarrow> bit m 1"
  "m AND push_bit 2 1 \<noteq> 0 \<longleftrightarrow> bit m 2" "m AND push_bit 3 1 \<noteq> 0 \<longleftrightarrow> bit m 3"
  "m AND push_bit 4 1 \<noteq> 0 \<longleftrightarrow> bit m 4" "m AND push_bit 5 1 \<noteq> 0 \<longleftrightarrow> bit m 5"
  "m AND push_bit 6 1 \<noteq> 0 \<longleftrightarrow> bit m 6" "m AND push_bit 7 1 \<noteq> 0 \<longleftrightarrow> bit m 7"
  by (rule mode_letter_test, simp)+

lemma mode_text_letters:
  "mode_text m mode_letters =
     (if bit m 0 then ''J'' else []) @ (if bit m 1 then ''R'' else []) @
     (if bit m 2 then ''W'' else []) @ (if bit m 3 then ''P'' else []) @
     (if bit m 4 then ''A'' else []) @ (if bit m 5 then ''S'' else []) @
     (if bit m 6 then ''D'' else []) @ (if bit m 7 then ''O'' else [])"
  unfolding mode_letters_def mode_text.simps mode_letter_tests append_Nil2 ..

lemma ParseAcs_step:
  "ParseAcs_loop m0 ((if P then ''J'' else []) @ s) = ParseAcs_loop (m0 OR (if P then ModeJoin else 0)) s"
  "ParseAcs_loop m0 ((if P then ''R'' else []) @ s) = ParseAcs_loop (m0 OR (if P then ModeRead else 0)) s"
  "ParseAcs_loop m0 ((if P then ''W'' else []) @ s) = ParseAcs_loop (m0 OR (if P then ModeWrite else 0)) s"
  "ParseAcs_loop m0 ((if P then ''P'' else []) @ s) = ParseAcs_loop (m0 OR (if P then ModePres else 0)) s"
  "ParseAcs_loop m0 ((if P then ''A'' else []) @ s) = ParseAcs_loop (m0 OR (if P then ModeApprove else 0)) s"
  "ParseAcs_loop m0 ((if P then ''S'' else []) @ s) = ParseAcs_loop (m0 OR (if P then ModeShare else 0)) s"
  "ParseAcs_loop m0 ((if P then ''D'' else []) @ s) = ParseAcs_loop (m0 OR (if P then ModeDelete else 0)) s"
  "ParseAcs_loop m0 (if P then ''O'' else []) = Inr (m0 OR (if P then ModeOwner else 0))"
  by simp_all

lemma bit_if_zero: "bit (if P then a else 0) n \<longleftrightarrow> P \<and> bit (a :: access_mode) n"
  by simp

lemma less_8_iff:
  "n < (8 :: nat) \<longleftrightarrow> n = 0 \<or> n = 1 \<or> n = 2 \<or> n = 3 \<or> n = 4 \<or> n = 5 \<or> n = 6 \<or> n = 7"
  by arith

lemma mode_letters_sum:
  "ModeUnset OR (if bit m 0 then ModeJoin else 0) OR (if bit m 1 then ModeRead else 0)
      OR (if bit m 2 then ModeWrite else 0) OR (if bit m 3 then ModePres else 0)
      OR (if bit m 4 then ModeApprove else 0) OR (if bit m 5 then ModeShare else 0)
      OR (if bit m 6 then ModeDelete else 0) OR (if bit m 7 then ModeOwner else 0)
      = ModeUnset OR (m AND ModeBitmask)"
proof (rule bit_word_eqI)
  fix n :: nat
  show "bit (ModeUnset OR (if bit m 0 then ModeJoin else 0) OR (if bit m 1 then ModeRead else 0)
      OR (if bit m 2 then ModeWrite else 0) OR (if bit m 3 then ModePres else 0)
      OR (if bit m 4 then ModeApprove else 0) OR (if bit m 5 then ModeShare else 0)
      OR (if bit m 6 then ModeDelete else 0) OR (if bit m 7 then ModeOwner else 0)) n
      = bit (ModeUnset OR (m AND ModeBitmask)) n"
    unfolding bit_or_iff bit_and_iff bit_if_zero mode_bits less_8_iff by blast
qed

lemma ParseAcs_mode_text: "ParseAcs (mode_text m mode_letters) = Inr (ModeUnset OR (m AND ModeBitmask))"
  unfolding ParseAcs_def mode_text_letters ParseAcs_step or.assoc mode_letters_sum ..

lemma Unset_or_mask: "(ModeUnset OR (m AND ModeBitmask)) AND ModeBitmask = m AND ModeBitmask"
  by (rule bit_word_eqI) (auto simp: bit_simps mode_bits)

lemma Unset_or_mask_iff: "ModeUnset OR (m AND ModeBitmask) = ModeUnset \<longleftrightarrow> m AND ModeBitmask = 0"
proof
  assume "ModeUnset OR (m AND ModeBitmask) = ModeUnset"
  then have "m AND ModeBitmask = ModeUnset AND ModeBitmask" by (metis Unset_or_mask)
  then show "m AND ModeBitmask = 0" by (simp add: acs_defs)
qed simp

lemma ParseAcs_loop_bits:
  "ParseAcs_loop m0 b = Inr m \<Longrightarrow> valid_mode (m0 AND NOT ModeUnset) \<Longrightarrow> valid_mode (m AND NOT ModeUnset)"
proof (induction m0 b rule: ParseAcs_loop.induct)
  case (1 m0)
  then show ?case by simp
next
  case (2 m0 c b)
  have "valid_mode ((m0 OR x) AND NOT ModeUnset)" if "valid_mode x" for x
  proof -
    have "(m0 OR x) AND NOT ModeUnset = m0 AND NOT ModeUnset OR x AND NOT ModeUnset"
      by (rule bit_word_eqI) (auto simp: bit_simps)
    with 2 that show ?thesis by (simp add: valid_mode_and)
  qed
  with 2 show ?case by (auto split: if_splits simp: ModeNone_def)
qed

lemma ParseAcs_bits: "ParseAcs b = Inr m \<Longrightarrow> valid_mode (m AND NOT ModeUnset)"
  unfolding ParseAcs_def by (erule ParseAcs_loop_bits) (simp add: ModeUnset_def)

lemma UnmarshalText_valid:
  "AccessMode_UnmarshalText m b = Inr m' \<Longrightarrow> valid_mode m \<Longrightarrow> valid_mode m'"
  by (auto simp: AccessMode_UnmarshalText_def split: sum.splits if_splits)

lemma AccessMode_String_mask:
  assumes "m AND ModeBitmask \<noteq> 0"
  shows "AccessMode_String m = mode_text m mode_letters"
proof -
  have "m \<noteq> ModeNone" "m \<noteq> ModeInvalid"
    using assms by (auto simp: acs_defs)
  then show ?thesis by (simp add: AccessMode_String_def AccessMode_MarshalText_def)
qed

lemma mode_text_no_sign: "set (mode_text m mode_letters) \<inter> set ''+-'' = {}"
  unfolding mode_text_letters by auto

lemma mode_text_empty: "m AND ModeBitmask = 0 \<Longrightarrow> mode_text m mode_letters = []"
  using mode_and_zero_iff [of m] unfolding mode_text_letters and.commute [of m] by simp

lemma mode_text_nonempty: "m AND ModeBitmask \<noteq> 0 \<Longrightarrow> mode_text m mode_letters \<noteq> []"
proof
  assume m: "m AND ModeBitmask \<noteq> 0" and "mode_text m mode_letters = []"
  then have "ModeUnset OR (m AND ModeBitmask) = ModeUnset"
    using ParseAcs_mode_text [of m] by (simp add: ParseAcs_def)
  with m show False by (simp add: Unset_or_mask_iff)
qed

subsection \<open>Properties\<close>

lemma UnmarshalText_mode_text:
  assumes "m AND ModeBitmask \<noteq> 0"
  shows "AccessMode_UnmarshalText m0 (mode_text m mode_letters) = Inr (m AND ModeBitmask)"
  using assms
  by (simp add: AccessMode_UnmarshalText_def ParseAcs_mode_text Unset_or_mask Unset_or_mask_iff)

lemma UnmarshalText_N: "AccessMode_UnmarshalText m0 ''N'' = Inr ModeNone"
  by (simp add: AccessMode_UnmarshalText_def ParseAcs_def) (simp add: acs_defs)

lemma MarshalText_valid:
  assumes "valid_mode m"
  shows "AccessMode_MarshalText m = Inr (if m = ModeNone then ''N'' else mode_text m mode_letters)"
proof -
  have "m \<noteq> ModeInvalid" using assms by (auto simp: valid_mode_def acs_defs)
  then show ?thesis by (simp add: AccessMode_MarshalText_def)
qed

lemma UnmarshalText_MarshalText:
  assumes "valid_mode m"
  shows "AccessMode_UnmarshalText m0 (if m = ModeNone then ''N'' else mode_text m mode_letters) = Inr m"
  using UnmarshalText_mode_text [of m m0] valid_mode_mask [OF assms]
  by (auto simp: UnmarshalText_N ModeNone_def)

text \<open>
  The text form and the quoted JSON form of a stored access mode are read back as the same
  mode, whatever mode the receiver held before, the empty mode (written N) included.
\<close>

theorem mode_text_roundtrip:
  assumes "valid_mode m"
  shows "AccessMode_UnmarshalText m0 (AccessMode_String m) = Inr m \<and>
    (\<exists>j. AccessMode_MarshalJSON m = Inr j \<and> AccessMode_UnmarshalJSON m0 j = Some (Inr m))"
proof
  let ?t = "if m = ModeNone then ''N'' else mode_text m mode_letters"
  note mt = MarshalText_valid [OF assms]
  show "AccessMode_UnmarshalText m0 (AccessMode_String m) = Inr m"
    by (simp only: AccessMode_String_def mt result_or_simps UnmarshalText_MarshalText [OF assms])
  have "AccessMode_UnmarshalJSON m0 ([CHR 0x22] @ ?t @ [CHR 0x22]) = Some (Inr m)"
    using UnmarshalText_MarshalText [OF assms, of m0] by (simp add: AccessMode_UnmarshalJSON_def)
  then show "\<exists>j. AccessMode_MarshalJSON m = Inr j \<and> AccessMode_UnmarshalJSON m0 j = Some (Inr m)"
    by (simp add: AccessMode_MarshalJSON_def mt)
qed

theorem mode_text_roundtrip_witness:
  "valid_mode ModeCPublic \<and> AccessMode_UnmarshalText 0 (AccessMode_String ModeCPublic) = Inr ModeCPublic
   \<and> (\<exists>j. AccessMode_MarshalJSON ModeCPublic = Inr j
        \<and> AccessMode_UnmarshalJSON 0 j = Some (Inr ModeCPublic))"
  using mode_text_roundtrip [of ModeCPublic 0] by simp

lemma ApplyDelta_loop_Nil: "ApplyDelta_loop d m [] = Inr m"
  by (subst ApplyDelta_loop.simps) simp

lemma ApplyDelta_loop_chunk:
  assumes "mode_text u mode_letters \<noteq> []" "rest = [] \<or> hd rest \<in> set ''+-''" "ch = CHR ''+'' \<or> ch = CHR ''-''"
  shows "ApplyDelta_loop d m (ch # mode_text u mode_letters @ rest) =
     ApplyDelta_loop d (if ch = CHR ''+'' then m OR (u AND ModeBitmask) else m AND NOT (u AND ModeBitmask)) rest"
proof -
  let ?t = "mode_text u mode_letters"
  have len: "\<not> length (ch # ?t @ rest) < 2" using assms(1) by (cases ?t) auto
  have idx: "IndexAny (?t @ rest) ''+-'' = (if rest = [] then None else Some (length ?t))"
  proof (cases rest)
    case Nil
    then show ?thesis using iffD2 [OF IndexAny_None mode_text_no_sign, of u] by simp
  next
    case (Cons c r)
    with assms(2) show ?thesis using IndexAny_split [OF mode_text_no_sign [of u], of c r] by simp
  qed
  have "u AND ModeBitmask \<noteq> 0"
    using assms(1) mode_text_empty by blast
  then show ?thesis
    using assms(1,3)
    by (subst ApplyDelta_loop.simps)
      (auto simp: Let_def len idx ParseAcs_mode_text Unset_or_mask Unset_or_mask_iff simp del: length_append)
qed

lemma ApplyDelta_loop_two:
  assumes "a = ModeBitmask AND x" "r = ModeBitmask AND y"
  shows "ApplyDelta_loop d m
     ((if a = 0 then [] else CHR ''+'' # mode_text a mode_letters) @
      (if r = 0 then [] else CHR ''-'' # mode_text r mode_letters))
     = Inr ((m OR (a AND ModeBitmask)) AND NOT (r AND ModeBitmask))"
proof -
  have ne: "mode_text a mode_letters \<noteq> []" if "a \<noteq> 0"
    using that mode_text_nonempty [of a] assms(1) by (simp add: and.commute and.left_commute)
  have nr: "mode_text r mode_letters \<noteq> []" if "r \<noteq> 0"
    using that mode_text_nonempty [of r] assms(2) by (simp add: and.commute and.left_commute)
  have r: "ApplyDelta_loop d m' (if r = 0 then [] else CHR ''-'' # mode_text r mode_letters)
      = Inr (m' AND NOT (r AND ModeBitmask))" for m'
    using ApplyDelta_loop_chunk [of r "[]" "CHR ''-''" d m'] nr by (simp add: ApplyDelta_loop_Nil)
  show ?thesis
  proof (cases "a = 0")
    case True
    with r show ?thesis by simp
  next
    case False
    then show ?thesis
      using ApplyDelta_loop_chunk [OF ne, of "if r = 0 then [] else CHR ''-'' # mode_text r mode_letters"
        "CHR ''+''" d m] r by (auto split: if_splits)
  qed
qed

lemma Delta_eq:
  "AccessMode_Delta old new =
     (if ModeBitmask AND new AND NOT old = 0 then []
      else CHR ''+'' # mode_text (ModeBitmask AND new AND NOT old) mode_letters) @
     (if ModeBitmask AND old AND NOT new = 0 then []
      else CHR ''-'' # mode_text (ModeBitmask AND old AND NOT new) mode_letters)"
proof -
  have "AccessMode_String (ModeBitmask AND x) = mode_text (ModeBitmask AND x) mode_letters
      \<and> mode_text (ModeBitmask AND x) mode_letters \<noteq> []" if "ModeBitmask AND x \<noteq> 0" for x
  proof -
    have "(ModeBitmask AND x) AND ModeBitmask \<noteq> 0" using that by (simp add: and.commute and.left_commute)
    then show ?thesis by (simp add: AccessMode_String_mask mode_text_nonempty)
  qed
  then show ?thesis by (simp add: AccessMode_Delta_def Let_def word_gt_0)
qed

text \<open>
  \<^verbatim>\<open>Delta\<close> and \<^verbatim>\<open>ApplyDelta\<close> are inverse: applying to any old mode the textual difference
  between it and a new mode always succeeds and yields the permission bits of the new mode, with
  the bits outside the bit mask kept from the old one.
\<close>

theorem delta_roundtrip:
  "ApplyDelta old (AccessMode_Delta old new) = Inr ((old AND NOT ModeBitmask) OR (new AND ModeBitmask))"
proof -
  let ?a = "ModeBitmask AND new AND NOT old" and ?r = "ModeBitmask AND old AND NOT new"
  let ?d = "AccessMode_Delta old new"
  have "ApplyDelta_loop ?d old ?d = Inr ((old OR (?a AND ModeBitmask)) AND NOT (?r AND ModeBitmask))"
    unfolding Delta_eq [of old new] by (rule ApplyDelta_loop_two [OF refl refl])
  moreover have "(old OR (?a AND ModeBitmask)) AND NOT (?r AND ModeBitmask)
      = (old AND NOT ModeBitmask) OR (new AND ModeBitmask)"
    by (rule bit_word_eqI) (auto simp: bit_simps)
  moreover have "?d \<noteq> ''N''" by (simp add: Delta_eq)
  ultimately show ?thesis by (auto simp: ApplyDelta_def ApplyDelta_loop_Nil)
qed

lemma ApplyDelta_loop_frame:
  "ApplyDelta_loop d m s = Inr m' \<Longrightarrow> m' AND NOT ModeBitmask = m AND NOT ModeBitmask"
proof (induction d m s rule: ApplyDelta_loop.induct)
  case (1 d m s)
  have "(m OR (u AND ModeBitmask)) AND NOT ModeBitmask = m AND NOT ModeBitmask"
    "(m AND NOT (u AND ModeBitmask)) AND NOT ModeBitmask = m AND NOT ModeBitmask" for u
    by (rule bit_word_eqI; auto simp: bit_simps)+
  with 1 show ?case
    by (simp add: ApplyDelta_loop.simps [of d m s] Let_def split: if_splits sum.splits)
qed

text \<open>
  C40. A client-supplied mutation string can only produce modes made of the eight permission bits:
  a mutation of a stored mode either fails, leaving it to the caller, or gives a stored mode.
\<close>

theorem ApplyMutation_valid:
  assumes "valid_mode m" and "ApplyMutation m mutation = Inr m'"
  shows "valid_mode m'"
  using assms ApplyDelta_loop_frame [of mutation m mutation m'] UnmarshalText_valid [of m mutation m']
  by (auto simp: ApplyMutation_def ApplyDelta_def valid_mode_def split: if_splits)

theorem ApplyMutation_valid_witness:
  "valid_mode ModeCPublic \<and> ApplyMutation ModeCPublic ''-PS+A'' = Inr (ModeCReadOnly OR ModeWrite OR ModeApprove)
   \<and> valid_mode (ModeCReadOnly OR ModeWrite OR ModeApprove)"
proof -
  have "ApplyMutation ModeCPublic ''-PS+A'' = Inr (ModeCReadOnly OR ModeWrite OR ModeApprove)"
    by code_simp
  with ApplyMutation_valid [OF _ this] show ?thesis by simp
qed

end
