(* ===== verification/GoValues.thy ===== *)
theory GoValues
  imports Complex_Main GoStd
begin

section \<open>Values of the type any, and times\<close>

text \<open>
  The dynamically typed values the server receives as decoded JSON and stores as public, private
  and content fields. The constructors separate what the code's type switches separate: \<open>AInt\<close>
  holds the kinds \<^verbatim>\<open>int\<close>, \<^verbatim>\<open>int16\<close>, \<^verbatim>\<open>int32\<close> and \<^verbatim>\<open>int64\<close>, \<open>AFix\<close> the remaining kinds
  of fixed size (\<^verbatim>\<open>int8\<close>, unsigned and complex numbers), \<open>AFloat\<close> a finite floating-point
  number, \<open>AMap\<close> a \<^verbatim>\<open>map[string]any\<close> as an association list with each key once, and
  \<open>AOther\<close> any other type. A time is the number of milliseconds since Go's zero time, so the
  zero time is 0.
\<close>

datatype go_any =
    ANil
  | ABool bool
  | AInt int
  | AFix int
  | AFloat rat
  | AStr string
  | ABytes bytes
  | AArr "go_any list"
  | AMap "(string \<times> go_any) list"
  | AOther nat

type_synonym go_map = "(string \<times> go_any) list"

text \<open>Reading a missing key of a \<^verbatim>\<open>map[string]any\<close> gives \<^verbatim>\<open>nil\<close>.\<close>

definition mget :: "go_map \<Rightarrow> string \<Rightarrow> go_any" where
  "mget m k = (case map_of m k of None \<Rightarrow> ANil | Some v \<Rightarrow> v)"

definition mset_key :: "go_map \<Rightarrow> string \<Rightarrow> go_any \<Rightarrow> go_map" where
  "mset_key m k v = (if k \<in> fst ` set m then map (\<lambda>(j, w). if j = k then (j, v) else (j, w)) m
                     else m @ [(k, v)])"

definition mdel_key :: "go_map \<Rightarrow> string \<Rightarrow> go_map" where
  "mdel_key m k = filter (\<lambda>(j, w). j \<noteq> k) m"

lemma map_of_update_all:
  "map_of (map (\<lambda>(j, w). if j = k then (j, v) else (j, w)) m) x =
     (if x = k \<and> map_of m k \<noteq> None then Some v else map_of m x)"
  by (induction m) auto

lemma map_of_mset_key: "map_of (mset_key m k v) = (map_of m)(k \<mapsto> v)"
proof
  fix x
  show "map_of (mset_key m k v) x = ((map_of m)(k \<mapsto> v)) x"
  proof (cases "k \<in> fst ` set m")
    case True
    then have "map_of m k \<noteq> None" by (simp add: map_of_eq_None_iff)
    with True show ?thesis by (simp add: mset_key_def map_of_update_all)
  next
    case False
    then have "map_of m k = None" by (simp add: map_of_eq_None_iff)
    with False show ?thesis by (simp add: mset_key_def map_add_def split: option.splits)
  qed
qed

lemma map_of_mdel_key: "map_of (mdel_key m k) = (map_of m)(k := None)"
  by (induction m) (auto simp: mdel_key_def)

lemma fst_update_all: "fst \<circ> (\<lambda>(j, w). if j = k then (j, v) else (j, w)) = fst"
  by (auto simp: fun_eq_iff)

lemma distinct_mset_key: "distinct (map fst m) \<Longrightarrow> distinct (map fst (mset_key m k v))"
  by (cases "k \<in> fst ` set m") (simp_all add: mset_key_def fst_update_all)

lemma distinct_mdel_key: "distinct (map fst m) \<Longrightarrow> distinct (map fst (mdel_key m k))"
  by (induction m) (auto simp: mdel_key_def)

type_synonym time = int

definition time_IsZero :: "time \<Rightarrow> bool" where "time_IsZero t \<longleftrightarrow> t = 0"

end
