(* ===== verification/StoreTypes.thy ===== *)
theory StoreTypes
  imports AccessModes Uids GoValues
begin

section \<open>Stored objects (server/store/types/types.go)\<close>

text \<open>
  The records the server persists and their small state machines: object headers with their
  timestamps, object states, subscriptions, topics with their per-user access, and the message
  id ranges used when messages are deleted. The lemmas show that timestamps only move the right
  way, that states survive their text form, that a topic's owner is fixed by the first grant of
  ownership, and what \<open>SliceToRanges\<close> and \<open>Normalize\<close> do to a list of ids.
\<close>

subsection \<open>Store errors\<close>

type_synonym store_error = string

definition types_ErrInternal :: store_error where "types_ErrInternal = ''internal''"
definition types_ErrMalformed :: store_error where "types_ErrMalformed = ''malformed''"
definition types_ErrFailed :: store_error where "types_ErrFailed = ''failed''"
definition types_ErrDuplicate :: store_error where "types_ErrDuplicate = ''duplicate value''"
definition types_ErrUnsupported :: store_error where "types_ErrUnsupported = ''unsupported''"
definition types_ErrExpired :: store_error where "types_ErrExpired = ''expired''"
definition types_ErrPolicy :: store_error where "types_ErrPolicy = ''policy''"
definition types_ErrCredentials :: store_error where "types_ErrCredentials = ''credentials''"
definition types_ErrUserNotFound :: store_error where "types_ErrUserNotFound = ''user not found''"
definition types_ErrTopicNotFound :: store_error where "types_ErrTopicNotFound = ''topic not found''"
definition types_ErrNotFound :: store_error where "types_ErrNotFound = ''not found''"
definition types_ErrPermissionDenied :: store_error where "types_ErrPermissionDenied = ''denied''"
definition types_ErrInvalidResponse :: store_error where "types_ErrInvalidResponse = ''invalid response''"
definition types_ErrRedirected :: store_error where "types_ErrRedirected = ''redirected''"

lemmas store_error_defs =
  types_ErrInternal_def types_ErrMalformed_def types_ErrFailed_def types_ErrDuplicate_def types_ErrUnsupported_def
  types_ErrExpired_def types_ErrPolicy_def types_ErrCredentials_def types_ErrUserNotFound_def types_ErrTopicNotFound_def
  types_ErrNotFound_def types_ErrPermissionDenied_def types_ErrInvalidResponse_def types_ErrRedirected_def

subsection \<open>Object headers\<close>

record obj_header =
  Id :: string
  header_id :: uid
  CreatedAt :: time
  UpdatedAt :: time

text \<open>\<^verbatim>\<open>Uid()\<close> caches the parsed id in the header; a text that does not parse leaves it zero.\<close>

definition ObjHeader_Uid :: "('a obj_header_scheme) \<Rightarrow> uid \<times> 'a obj_header_scheme" where
  "ObjHeader_Uid h =
     (let h' = (if Uid_IsZero (header_id h) \<and> Id h \<noteq> [] then
                  (case Uid_UnmarshalText (Id h) of
                     Inl _ \<Rightarrow> h
                   | Inr u \<Rightarrow> h\<lparr>header_id := u\<rparr>)
                else h)
      in (header_id h', h'))"

definition SetUid :: "'a obj_header_scheme \<Rightarrow> uid \<Rightarrow> 'a obj_header_scheme" where
  "SetUid h u = h\<lparr>header_id := u, Id := Uid_String u\<rparr>"

definition InitTimes :: "time \<Rightarrow> 'a obj_header_scheme \<Rightarrow> 'a obj_header_scheme" where
  "InitTimes now h =
     (let h1 = (if time_IsZero (CreatedAt h) then h\<lparr>CreatedAt := now\<rparr> else h)
      in h1\<lparr>UpdatedAt := CreatedAt h1\<rparr>)"

definition MergeTimes :: "'a obj_header_scheme \<Rightarrow> 'b obj_header_scheme \<Rightarrow> 'a obj_header_scheme" where
  "MergeTimes h h2 =
     (let h1 = (if time_IsZero (CreatedAt h)
                   \<or> (\<not> time_IsZero (CreatedAt h2) \<and> CreatedAt h2 < CreatedAt h)
                then h\<lparr>CreatedAt := CreatedAt h2\<rparr> else h)
      in if UpdatedAt h1 < UpdatedAt h2 then h1\<lparr>UpdatedAt := UpdatedAt h2\<rparr> else h1)"

subsection \<open>Object states\<close>

type_synonym obj_state = int

definition StateOK :: obj_state where "StateOK = 0"
definition StateSuspended :: obj_state where "StateSuspended = 10"
definition StateDeleted :: obj_state where "StateDeleted = 20"
definition StateUndefined :: obj_state where "StateUndefined = 30"

lemmas obj_state_defs = StateOK_def StateSuspended_def StateDeleted_def StateUndefined_def

definition ObjState_String :: "obj_state \<Rightarrow> string" where
  "ObjState_String st =
     (if st = StateOK then ''ok''
      else if st = StateSuspended then ''susp''
      else if st = StateDeleted then ''del''
      else if st = StateUndefined then ''undef''
      else [])"

text \<open>The state is returned also when the text does not parse, so the result is a pair.\<close>

definition NewObjState :: "(string \<Rightarrow> string) \<Rightarrow> string \<Rightarrow> obj_state \<times> go_error option" where
  "NewObjState ul s =
     (let i = ToLower ul s
      in if i = [] \<or> i = ''ok'' then (StateOK, None)
         else if i = ''susp'' then (StateSuspended, None)
         else if i = ''del'' then (StateDeleted, None)
         else if i = ''undef'' then (StateUndefined, None)
         else (StateOK, Some ''failed to parse object state''))"

definition ObjState_MarshalJSON :: "obj_state \<Rightarrow> string" where
  "ObjState_MarshalJSON st = [CHR 0x22] @ ObjState_String st @ [CHR 0x22]"

text \<open>As for access modes, indexing an empty or one-byte slice panics (\<open>None\<close>).\<close>

definition ObjState_UnmarshalJSON ::
  "(string \<Rightarrow> string) \<Rightarrow> obj_state \<Rightarrow> string \<Rightarrow> (obj_state \<times> go_error option) option" where
  "ObjState_UnmarshalJSON ul st b =
     (if b = [] then None
      else if hd b \<noteq> CHR 0x22 \<or> last b \<noteq> CHR 0x22 then Some (st, Some ''syntax error'')
      else if length b = 1 then None
      else
        (case NewObjState ul (butlast (tl b)) of
           (state, None) \<Rightarrow> Some (state, None)
         | (_, Some err) \<Rightarrow> Some (st, Some err)))"

subsection \<open>Subscriptions\<close>

record last_seen_ua =
  When :: time
  LastSeenUA_UserAgent :: string

record subscription = obj_header +
  Sub_TenantID :: tenant_id
  Sub_User :: string
  Sub_Topic :: string
  Sub_DeletedAt :: "time option"
  Sub_DelId :: int
  RecvSeqId :: int
  ReadSeqId :: int
  ModeWant :: access_mode
  ModeGiven :: access_mode
  Sub_Private :: go_any
  sub_public :: go_any
  sub_trusted :: go_any
  sub_seqId :: int
  sub_touchedAt :: time
  sub_lastSeenUA :: "last_seen_ua option"
  subCnt :: int
  sub_with :: string
  modeDefault :: "default_access option"
  sub_state :: obj_state
  dummy :: bool

definition SetTouchedAt :: "subscription \<Rightarrow> time \<Rightarrow> subscription" where
  "SetTouchedAt s touchedAt =
     (if touchedAt > sub_touchedAt s then s\<lparr>sub_touchedAt := touchedAt\<rparr> else s)"

definition LastModified :: "subscription \<Rightarrow> time" where
  "LastModified s = (if UpdatedAt s < sub_touchedAt s then sub_touchedAt s else UpdatedAt s)"

definition GetLastSeen :: "subscription \<Rightarrow> time option" where
  "GetLastSeen s = map_option When (sub_lastSeenUA s)"

definition GetUserAgent :: "subscription \<Rightarrow> string" where
  "GetUserAgent s = (case sub_lastSeenUA s of Some l \<Rightarrow> LastSeenUA_UserAgent l | None \<Rightarrow> [])"

definition SetLastSeenAndUA :: "subscription \<Rightarrow> time option \<Rightarrow> string \<Rightarrow> subscription" where
  "SetLastSeenAndUA s when ua =
     (case when of
        Some w \<Rightarrow>
          if \<not> time_IsZero w
          then s\<lparr>sub_lastSeenUA := Some \<lparr>When = w, LastSeenUA_UserAgent = ua\<rparr>\<rparr>
          else s\<lparr>sub_lastSeenUA := None\<rparr>
      | None \<Rightarrow> s\<lparr>sub_lastSeenUA := None\<rparr>)"

definition SetDefaultAccess :: "subscription \<Rightarrow> access_mode \<Rightarrow> access_mode \<Rightarrow> subscription" where
  "SetDefaultAccess s auth anon = s\<lparr>modeDefault := Some \<lparr>Auth = auth, Anon = anon\<rparr>\<rparr>"

subsection \<open>Topics with per-user data\<close>

record per_user_data =
  pud_private :: go_any
  pud_want :: access_mode
  pud_given :: access_mode

definition empty_per_user_data :: per_user_data where
  "empty_per_user_data = \<lparr>pud_private = ANil, pud_want = 0, pud_given = 0\<rparr>"

text \<open>The stored topic; a nil \<^verbatim>\<open>perUser\<close> map reads like the empty one.\<close>

record stored_topic = obj_header +
  ST_TenantID :: tenant_id
  ST_State :: obj_state
  ST_StateAt :: "time option"
  ST_TouchedAt :: time
  ST_UseBt :: bool
  ST_Owner :: string
  ST_Access :: default_access
  ST_SeqId :: int
  ST_DelId :: int
  ST_SubCnt :: int
  ST_Public :: go_any
  ST_Trusted :: go_any
  ST_Tags :: "string list"
  ST_Aux :: go_map
  ST_perUser :: "uid \<rightharpoonup> per_user_data"

definition the_pud :: "stored_topic \<Rightarrow> uid \<Rightarrow> per_user_data" where
  "the_pud t u = (case ST_perUser t u of None \<Rightarrow> empty_per_user_data | Some p \<Rightarrow> p)"

definition GiveAccess :: "stored_topic \<Rightarrow> uid \<Rightarrow> access_mode \<Rightarrow> access_mode \<Rightarrow> stored_topic" where
  "GiveAccess t u want given =
     (let t1 = t\<lparr>ST_perUser := (ST_perUser t)(u \<mapsto> (the_pud t u)\<lparr>pud_want := want, pud_given := given\<rparr>)\<rparr>
      in if want AND given AND ModeOwner \<noteq> 0 \<and> ST_Owner t1 = []
         then t1\<lparr>ST_Owner := Uid_String u\<rparr> else t1)"

definition SetPrivate :: "stored_topic \<Rightarrow> uid \<Rightarrow> go_any \<Rightarrow> stored_topic" where
  "SetPrivate t u priv =
     t\<lparr>ST_perUser := (ST_perUser t)(u \<mapsto> (the_pud t u)\<lparr>pud_private := priv\<rparr>)\<rparr>"

definition GetPrivate :: "stored_topic \<Rightarrow> uid \<Rightarrow> go_any" where
  "GetPrivate t u = (case ST_perUser t u of None \<Rightarrow> ANil | Some p \<Rightarrow> pud_private p)"

definition GetAccess :: "stored_topic \<Rightarrow> uid \<Rightarrow> access_mode" where
  "GetAccess t u = (case ST_perUser t u of None \<Rightarrow> 0 | Some p \<Rightarrow> pud_given p AND pud_want p)"

subsection \<open>Ranges of message ids\<close>

record range =
  Low :: int
  Hi :: int

definition RangeSorter_Less :: "range \<Rightarrow> range \<Rightarrow> bool" where
  "RangeSorter_Less a b \<longleftrightarrow>
     (if Low a < Low b then True else if Low a = Low b then Hi a \<ge> Hi b else False)"

text \<open>
  \<^verbatim>\<open>Normalize\<close> works in place: \<open>prev\<close> is the index of the last range kept, \<open>i\<close> runs over
  the rest, and the slice is cut after \<open>prev\<close>.
\<close>

function Normalize_loop :: "range list \<Rightarrow> nat \<Rightarrow> nat \<Rightarrow> range list \<times> nat" where
  "Normalize_loop rs prev i =
     (if i < length rs then
        (if Low (rs ! prev) = Low (rs ! i) then Normalize_loop rs prev (i + 1)
         else if Hi (rs ! prev) > 0 \<and> Hi (rs ! prev) + 1 \<ge> Low (rs ! i) then
           (if Hi (rs ! prev) < Hi (rs ! i)
            then Normalize_loop (rs[prev := (rs ! prev)\<lparr>Hi := Hi (rs ! i)\<rparr>]) prev (i + 1)
            else Normalize_loop rs prev (i + 1))
         else Normalize_loop rs (prev + 1) (i + 1))
      else (rs, prev))"
  by pat_completeness auto
termination
  by (relation "measure (\<lambda>(rs, prev, i). length rs - i)") auto

declare Normalize_loop.simps [simp del]

definition Normalize :: "range list \<Rightarrow> range list" where
  "Normalize rs =
     (if length rs > 1 then (let (rs', prev) = Normalize_loop rs 0 1 in take (prev + 1) rs') else rs)"

fun SliceToRanges_loop :: "range list \<Rightarrow> int list \<Rightarrow> range list" where
  "SliceToRanges_loop out [] = out"
| "SliceToRanges_loop out (i # ids) =
     (if out = [] then SliceToRanges_loop [\<lparr>Low = i, Hi = 0\<rparr>] ids
      else
        (let prev = last out
         in if (Hi prev = 0 \<and> i \<noteq> Low prev + 1) \<or> i > Hi prev
            then SliceToRanges_loop (out @ [\<lparr>Low = i, Hi = 0\<rparr>]) ids
            else SliceToRanges_loop (butlast out @ [prev\<lparr>Hi := i + 1\<rparr>]) ids))"

definition SliceToRanges :: "int list \<Rightarrow> range list" where
  "SliceToRanges ids = (if ids = [] then [] else SliceToRanges_loop [] ids)"

fun FlattenDoubleSlice :: "string list list \<Rightarrow> string list" where
  "FlattenDoubleSlice [] = []"
| "FlattenDoubleSlice (el # data) = el @ FlattenDoubleSlice data"

subsection \<open>Timestamps and states\<close>

lemma MergeTimes_times:
  "0 \<le> CreatedAt h2 \<Longrightarrow> CreatedAt (MergeTimes h h2) =
     (if CreatedAt h = 0 then CreatedAt h2 else if CreatedAt h2 = 0 then CreatedAt h
      else min (CreatedAt h) (CreatedAt h2))"
  "UpdatedAt (MergeTimes h h2) = max (UpdatedAt h) (UpdatedAt h2)"
  by (auto simp: MergeTimes_def time_IsZero_def Let_def min_def max_def)

lemma LastModified_max: "LastModified s = max (UpdatedAt s) (sub_touchedAt s)"
  by (auto simp: LastModified_def max_def)

lemma SetTouchedAt_max: "sub_touchedAt (SetTouchedAt s t) = max t (sub_touchedAt s)"
  by (auto simp: SetTouchedAt_def max_def)

lemma ObjHeader_Uid_SetUid: "fst (ObjHeader_Uid (SetUid h u)) = u"
  by (auto simp: ObjHeader_Uid_def SetUid_def Uid_IsZero_def Let_def Uid_String_def Uid_MarshalText_def)

text \<open>
  Each of the four object states survives its JSON form, whatever the receiver held; and
  whenever reading reports an error, the receiver keeps the state it held.
\<close>

theorem obj_state_json_roundtrip:
  assumes "st \<in> {StateOK, StateSuspended, StateDeleted, StateUndefined}"
  shows "ObjState_UnmarshalJSON ul st0 (ObjState_MarshalJSON st) = Some (st, None) \<and>
    (\<forall>b st' e. ObjState_UnmarshalJSON ul st0 b = Some (st', Some e) \<longrightarrow> st' = st0)"
proof
  show "ObjState_UnmarshalJSON ul st0 (ObjState_MarshalJSON st) = Some (st, None)"
    using assms
    by (auto simp: ObjState_UnmarshalJSON_def ObjState_MarshalJSON_def ObjState_String_def
        NewObjState_def ToLower_def is_ascii_def ascii_lower_def obj_state_defs)
  show "\<forall>b st' e. ObjState_UnmarshalJSON ul st0 b = Some (st', Some e) \<longrightarrow> st' = st0"
    by (auto simp: ObjState_UnmarshalJSON_def NewObjState_def Let_def split: if_splits)
qed

theorem obj_state_json_roundtrip_witness:
  "ObjState_UnmarshalJSON id StateOK (ObjState_MarshalJSON StateDeleted) = Some (StateDeleted, None)"
  using obj_state_json_roundtrip [of StateDeleted id StateOK] by simp

subsection \<open>Topic ownership\<close>

type_synonym grant = "uid \<times> access_mode \<times> access_mode"

definition grants_ownership :: "grant \<Rightarrow> bool" where
  "grants_ownership g \<longleftrightarrow> (case g of (u, want, given) \<Rightarrow> u \<noteq> ZeroUid \<and> IsOwner (want AND given))"

lemma GiveAccess_owner:
  assumes "u \<noteq> ZeroUid"
  shows "ST_Owner (GiveAccess t u want given) =
    (if ST_Owner t = [] \<and> grants_ownership (u, want, given) then Uid_String u else ST_Owner t)"
  using assms by (auto simp: GiveAccess_def Let_def grants_ownership_def IsOwner_def and.assoc)

lemma GiveAccess_access:
  "GetAccess (GiveAccess t u want given) v = (if v = u then given AND want else GetAccess t v)"
  "GetPrivate (GiveAccess t u want given) v = GetPrivate t v"
  by (auto simp: GiveAccess_def GetAccess_def GetPrivate_def Let_def the_pud_def
      empty_per_user_data_def split: option.splits)

lemma SetPrivate_access:
  "GetAccess (SetPrivate t u p) v = GetAccess t v" "GetPrivate (SetPrivate t u p) v = (if v = u then p else GetPrivate t v)"
  by (auto simp: SetPrivate_def GetAccess_def GetPrivate_def the_pud_def empty_per_user_data_def
      split: option.splits)

lemma Uid_String_nonempty: "u \<noteq> ZeroUid \<Longrightarrow> Uid_String u \<noteq> []"
  using length_Uid_MarshalText [of u] by (auto simp: Uid_String_def)

lemma owner_kept:
  "ST_Owner t \<noteq> [] \<Longrightarrow> ST_Owner (fold (\<lambda>(u, w, g) t. GiveAccess t u w g) gs t) = ST_Owner t"
  by (induction gs arbitrary: t) (auto simp: GiveAccess_def Let_def)

text \<open>
  A stored topic has the owner named by the first grant whose wanted and given modes both hold
  the owner bit: later grants, whatever their modes, do not change the owner, and while no such
  grant has been made the topic has none. Each user's effective access is the intersection of the
  two modes of the last grant to that user.
\<close>

theorem first_ownership_grant_wins:
  assumes "ST_Owner t = []" and "\<forall>(u, w, g) \<in> set gs. u \<noteq> ZeroUid"
  shows "ST_Owner (fold (\<lambda>(u, w, g) t. GiveAccess t u w g) gs t) =
      (case find grants_ownership gs of None \<Rightarrow> [] | Some (u, _, _) \<Rightarrow> Uid_String u) \<and>
    GetAccess (GiveAccess (fold (\<lambda>(u, w, g) t. GiveAccess t u w g) gs t) v w' g') v = g' AND w'"
  using assms
proof (induction gs arbitrary: t)
  case Nil
  then show ?case by (simp add: GiveAccess_access)
next
  case (Cons a gs)
  obtain u w g where a: "a = (u, w, g)" by (cases a)
  with Cons.prems have u: "u \<noteq> ZeroUid" by auto
  show ?case
  proof (cases "grants_ownership a")
    case True
    then have "ST_Owner (GiveAccess t u w g) = Uid_String u"
      using Cons.prems a GiveAccess_owner [OF u] by simp
    with True a show ?thesis
      using owner_kept [of "GiveAccess t u w g" gs] Uid_String_nonempty [OF u]
      by (simp add: GiveAccess_access)
  next
    case False
    then have "ST_Owner (GiveAccess t u w g) = []"
      using Cons.prems a GiveAccess_owner [OF u] by simp
    with False a Cons show ?thesis by simp
  qed
qed

definition plain_topic :: stored_topic where
  "plain_topic = \<lparr>Id = ''grpX'', header_id = 0, CreatedAt = 1, UpdatedAt = 1, ST_TenantID = 1,
     ST_State = StateOK, ST_StateAt = None, ST_TouchedAt = 1, ST_UseBt = False, ST_Owner = [],
     ST_Access = \<lparr>Auth = ModeCPublic, Anon = ModeNone\<rparr>, ST_SeqId = 0, ST_DelId = 0, ST_SubCnt = 0,
     ST_Public = ANil, ST_Trusted = ANil, ST_Tags = [], ST_Aux = [], ST_perUser = Map.empty\<rparr>"

theorem first_ownership_grant_wins_witness:
  "ST_Owner (fold (\<lambda>(u, w, g) t. GiveAccess t u w g)
     [(4, ModeCPublic, ModeCFull), (5, ModeCFull, ModeCFull), (6, ModeCFull, ModeCFull)] plain_topic)
   = Uid_String 5"
proof -
  let ?gs = "[(4, ModeCPublic, ModeCFull), (5, ModeCFull, ModeCFull), (6, ModeCFull, ModeCFull)] :: grant list"
  have "ST_Owner plain_topic = []" "\<forall>(u, w, g) \<in> set ?gs. u \<noteq> ZeroUid"
    by (simp_all add: plain_topic_def ZeroUid_def)
  moreover have "find grants_ownership ?gs = Some (5, ModeCFull, ModeCFull)"
    by (simp add: grants_ownership_def ZeroUid_def IsOwner_def acs_defs)
  ultimately show ?thesis using first_ownership_grant_wins [of plain_topic ?gs 5 0 0] by simp
qed

subsection \<open>Message id ranges\<close>

text \<open>
  The ids a range stands for, as the type's documentation has it: the low end is included, the
  high end is not, and a range of one id has no high end.
\<close>

definition range_ids :: "range \<Rightarrow> int set" where
  "range_ids r = (if Hi r = 0 then {Low r} else {Low r..<Hi r})"

definition ranges_ids :: "range list \<Rightarrow> int set" where
  "ranges_ids rs = (\<Union>r \<in> set rs. range_ids r)"

lemma SliceToRanges_loop_pos:
  "\<forall>i \<in> set ids. 0 < i \<Longrightarrow> \<forall>r \<in> set out. Hi r = 0 \<Longrightarrow>
   SliceToRanges_loop out ids = out @ map (\<lambda>i. \<lparr>Low = i, Hi = 0\<rparr>) ids"
  by (induction out ids rule: SliceToRanges_loop.induct) (auto simp: Let_def)

text \<open>
  \<^verbatim>\<open>SliceToRanges\<close> on a list of message ids (positive, as all ids are) stands for exactly those
  ids, but it never joins neighbouring ids: every id becomes a range of its own.
\<close>

theorem slice_to_ranges_singletons:
  assumes "\<forall>i \<in> set ids. 0 < i"
  shows "ranges_ids (SliceToRanges ids) = set ids \<and>
    SliceToRanges ids = map (\<lambda>i. \<lparr>Low = i, Hi = 0\<rparr>) ids"
proof -
  have "SliceToRanges ids = map (\<lambda>i. \<lparr>Low = i, Hi = 0\<rparr>) ids"
    using SliceToRanges_loop_pos [OF assms, of "[]"] by (simp add: SliceToRanges_def)
  then show ?thesis by (auto simp: ranges_ids_def range_ids_def)
qed

theorem slice_to_ranges_singletons_witness:
  "SliceToRanges [1, 2, 3] = [\<lparr>Low = 1, Hi = 0\<rparr>, \<lparr>Low = 2, Hi = 0\<rparr>, \<lparr>Low = 3, Hi = 0\<rparr>]"
  using slice_to_ranges_singletons [of "[1, 2, 3]"] by simp

text \<open>Adjacent ranges that \<^verbatim>\<open>Normalize\<close> leaves apart.\<close>

definition separated :: "range \<Rightarrow> range \<Rightarrow> bool" where
  "separated a b \<longleftrightarrow> Low a \<noteq> Low b \<and> \<not> (Hi a > 0 \<and> Hi a + 1 \<ge> Low b)"

lemma Normalize_loop_separated:
  "successively separated (drop prev rs) \<Longrightarrow> i = Suc prev \<Longrightarrow> i \<le> length rs \<Longrightarrow>
   Normalize_loop rs prev i = (rs, length rs - 1)"
proof (induction rs prev i rule: Normalize_loop.induct)
  case (1 rs prev i)
  show ?case
  proof (cases "i < length rs")
    case True
    then have d: "drop prev rs = rs ! prev # rs ! i # drop (Suc i) rs"
      using "1.prems"(2) by (simp add: Cons_nth_drop_Suc)
    with "1.prems"(1) have sep: "separated (rs ! prev) (rs ! i)" by simp
    have "successively separated (drop i rs)"
      using "1.prems"(1) d True by (simp add: Cons_nth_drop_Suc successively_Cons)
    then have "Normalize_loop rs (prev + 1) (i + 1) = (rs, length rs - 1)"
      using "1.IH"(4) True sep "1.prems"(2) by (simp add: separated_def)
    with True sep show ?thesis by (auto simp: Normalize_loop.simps [of rs prev i] separated_def)
  next
    case False
    then have "Normalize_loop rs prev i = (rs, prev)" by (simp add: Normalize_loop.simps [of rs prev i])
    moreover have "prev = length rs - 1" using False "1.prems"(2,3) by simp
    ultimately show ?thesis by simp
  qed
qed

text \<open>
  \<^verbatim>\<open>Normalize\<close> returns a list of ranges unchanged when no two neighbours share their low end,
  overlap or touch.
\<close>

theorem normalize_separated:
  assumes "successively separated rs"
  shows "Normalize rs = rs"
proof (cases "length rs > 1")
  case True
  then show ?thesis
    using Normalize_loop_separated [of 0 rs 1] assms by (simp add: Normalize_def)
qed (simp add: Normalize_def)

theorem normalize_separated_witness:
  "Normalize [\<lparr>Low = 1, Hi = 4\<rparr>, \<lparr>Low = 7, Hi = 0\<rparr>, \<lparr>Low = 8, Hi = 10\<rparr>]
   = [\<lparr>Low = 1, Hi = 4\<rparr>, \<lparr>Low = 7, Hi = 0\<rparr>, \<lparr>Low = 8, Hi = 10\<rparr>]"
  using normalize_separated [of "[\<lparr>Low = 1, Hi = 4\<rparr>, \<lparr>Low = 7, Hi = 0\<rparr>, \<lparr>Low = 8, Hi = 10\<rparr>]"]
  by (simp add: separated_def)

text \<open>
  \<^verbatim>\<open>Normalize\<close> is not faithful on sorted lists of ranges that do overlap or touch: after a merge
  it keeps the wrong element of the slice, so ids of a later range are lost; and since it takes
  the high end as included, it joins \<open>[1, 4)\<close> and \<open>[5, 7)\<close>, adding the id 4 that neither holds.
\<close>

theorem normalize_not_faithful:
  "(\<exists>rs i. sorted_wrt RangeSorter_Less rs \<and> i \<in> ranges_ids rs \<and> i \<notin> ranges_ids (Normalize rs)) \<and>
   (\<exists>rs i. sorted_wrt RangeSorter_Less rs \<and> i \<notin> ranges_ids rs \<and> i \<in> ranges_ids (Normalize rs))"
proof
  let ?a = "[\<lparr>Low = 1, Hi = 5\<rparr>, \<lparr>Low = 2, Hi = 3\<rparr>, \<lparr>Low = 10, Hi = 20\<rparr>]"
  have "Normalize ?a = [\<lparr>Low = 1, Hi = 5\<rparr>, \<lparr>Low = 2, Hi = 3\<rparr>]"
    by (simp add: Normalize_def Normalize_loop.simps)
  then have "10 \<in> ranges_ids ?a \<and> 10 \<notin> ranges_ids (Normalize ?a)"
    by (simp add: ranges_ids_def range_ids_def)
  moreover have "sorted_wrt RangeSorter_Less ?a" by (simp add: RangeSorter_Less_def)
  ultimately show "\<exists>rs i. sorted_wrt RangeSorter_Less rs \<and> i \<in> ranges_ids rs \<and> i \<notin> ranges_ids (Normalize rs)"
    by blast
next
  let ?b = "[\<lparr>Low = 1, Hi = 4\<rparr>, \<lparr>Low = 5, Hi = 7\<rparr>]"
  have "Normalize ?b = [\<lparr>Low = 1, Hi = 7\<rparr>]"
    by (simp add: Normalize_def Normalize_loop.simps)
  then have "4 \<notin> ranges_ids ?b \<and> 4 \<in> ranges_ids (Normalize ?b)"
    by (simp add: ranges_ids_def range_ids_def)
  moreover have "sorted_wrt RangeSorter_Less ?b" by (simp add: RangeSorter_Less_def)
  ultimately show "\<exists>rs i. sorted_wrt RangeSorter_Less rs \<and> i \<notin> ranges_ids rs \<and> i \<in> ranges_ids (Normalize rs)"
    by blast
qed

end
