(* ===== verification/Datamodel.thy ===== *)
theory Datamodel
  imports StoreTypes
begin

section \<open>Wire protocol messages (server/datamodel.go)\<close>

text \<open>
  The client and server messages as records (a pointer that may be nil is an option), the parsers
  of the query words of \<^verbatim>\<open>get\<close> and \<^verbatim>\<open>del\<close> requests, and every constructor of a control
  message. A pointer to a session is the session's id. The parameters of a control message are a
  dynamically typed value. The lemmas show that the query parsers set exactly the requested bits
  and that every constructor answers with the id of the request and a code of its own class.
\<close>

record MsgRange =
  LowId :: int
  HiId :: int

record MsgGetOpts =
  go_User :: string
  go_Topic :: string
  go_IfModifiedSince :: "time option"
  go_SinceId :: int
  go_BeforeId :: int
  go_Limit :: int
  go_IdRanges :: "MsgRange list"

record MsgGetQuery =
  gq_What :: string
  gq_Desc :: "MsgGetOpts option"
  gq_Sub :: "MsgGetOpts option"
  gq_Data :: "MsgGetOpts option"
  gq_Del :: "MsgGetOpts option"

record MsgSetSub =
  ss_User :: string
  ss_Mode :: string

record MsgDefaultAcsMode =
  da_Auth :: string
  da_Anon :: string

record MsgSetDesc =
  sd_DefaultAcs :: "MsgDefaultAcsMode option"
  sd_Public :: go_any
  sd_Trusted :: go_any
  sd_Private :: go_any

record MsgCredClient =
  cred_Method :: string
  cred_Value :: string
  cred_Response :: string
  cred_Params :: go_map

record MsgSetQuery =
  sq_Desc :: "MsgSetDesc option"
  sq_Sub :: "MsgSetSub option"
  sq_Tags :: "string list option"
  sq_Cred :: "MsgCredClient option"
  sq_Aux :: "go_map option"

record MsgClientHi =
  hi_Id :: string
  hi_UserAgent :: string
  hi_Version :: string
  hi_DeviceID :: string
  hi_Lang :: string
  hi_Platform :: string
  hi_Background :: bool
  hi_Tenant :: string

record MsgClientAcc =
  acc_Id :: string
  acc_User :: string
  acc_TmpScheme :: string
  acc_TmpSecret :: bytes
  acc_State :: string
  acc_AuthLevel :: string
  acc_Scheme :: string
  acc_Secret :: bytes
  acc_Login :: bool
  acc_Tags :: "string list"
  acc_Desc :: "MsgSetDesc option"
  acc_Cred :: "MsgCredClient list"

record MsgClientLogin =
  login_Id :: string
  login_Scheme :: string
  login_Secret :: bytes
  login_Cred :: "MsgCredClient list"

record MsgClientSub =
  sub_Id :: string
  sub_Topic :: string
  sub_Set :: "MsgSetQuery option"
  sub_Get :: "MsgGetQuery option"
  sub_Created :: bool
  sub_Newsub :: bool

record MsgClientLeave =
  leave_Id :: string
  leave_Topic :: string
  leave_Unsub :: bool

record MsgClientPub =
  pub_Id :: string
  pub_Topic :: string
  pub_NoEcho :: bool
  pub_Head :: "go_map option"
  pub_Content :: go_any

record MsgClientGet =
  get_Id :: string
  get_Topic :: string
  get_Query :: MsgGetQuery

record MsgClientSet =
  set_Id :: string
  set_Topic :: string
  set_Query :: MsgSetQuery

record MsgClientDel =
  del_Id :: string
  del_Topic :: string
  del_What :: string
  del_DelSeq :: "MsgRange list"
  del_User :: string
  del_Cred :: "MsgCredClient option"
  del_Hard :: bool

record MsgClientNote =
  note_Topic :: string
  note_What :: string
  note_SeqId :: int
  note_Unread :: int
  note_Event :: string
  note_Payload :: string

record MsgClientExtra =
  extra_Attachments :: "string list"
  extra_AsUser :: string
  extra_AuthLevel :: string

record ClientComMessage =
  cm_Hi :: "MsgClientHi option"
  cm_Acc :: "MsgClientAcc option"
  cm_Login :: "MsgClientLogin option"
  cm_Sub :: "MsgClientSub option"
  cm_Leave :: "MsgClientLeave option"
  cm_Pub :: "MsgClientPub option"
  cm_Get :: "MsgClientGet option"
  cm_Set :: "MsgClientSet option"
  cm_Del :: "MsgClientDel option"
  cm_Note :: "MsgClientNote option"
  cm_Extra :: "MsgClientExtra option"
  msg_Id :: string
  msg_Original :: string
  msg_RcptTo :: string
  msg_AsUser :: string
  msg_AuthLvl :: int
  msg_MetaWhat :: int
  msg_Timestamp :: time
  msg_TenantID :: tenant_id
  msg_sess :: "string option"
  msg_init :: bool

subsection \<open>Query words\<close>

definition constMsgMetaDesc :: int where "constMsgMetaDesc = 1"
definition constMsgMetaSub :: int where "constMsgMetaSub = 2"
definition constMsgMetaData :: int where "constMsgMetaData = 4"
definition constMsgMetaTags :: int where "constMsgMetaTags = 8"
definition constMsgMetaDel :: int where "constMsgMetaDel = 16"
definition constMsgMetaCred :: int where "constMsgMetaCred = 32"
definition constMsgMetaAux :: int where "constMsgMetaAux = 64"

definition constMsgDelTopic :: int where "constMsgDelTopic = 1"
definition constMsgDelMsg :: int where "constMsgDelMsg = 2"
definition constMsgDelSub :: int where "constMsgDelSub = 3"
definition constMsgDelUser :: int where "constMsgDelUser = 4"
definition constMsgDelCred :: int where "constMsgDelCred = 5"

lemmas meta_defs = constMsgMetaDesc_def constMsgMetaSub_def constMsgMetaData_def constMsgMetaTags_def
  constMsgMetaDel_def constMsgMetaCred_def constMsgMetaAux_def

fun parseMsgClientMeta_loop :: "int \<Rightarrow> string list \<Rightarrow> int" where
  "parseMsgClientMeta_loop bits [] = bits"
| "parseMsgClientMeta_loop bits (p # parts) =
     parseMsgClientMeta_loop
       (if p = ''desc'' then bits OR constMsgMetaDesc
        else if p = ''sub'' then bits OR constMsgMetaSub
        else if p = ''data'' then bits OR constMsgMetaData
        else if p = ''tags'' then bits OR constMsgMetaTags
        else if p = ''del'' then bits OR constMsgMetaDel
        else if p = ''cred'' then bits OR constMsgMetaCred
        else if p = ''aux'' then bits OR constMsgMetaAux
        else bits) parts"

definition parseMsgClientMeta :: "string \<Rightarrow> int" where
  "parseMsgClientMeta params = parseMsgClientMeta_loop 0 (SplitN params (CHR '' '') 8)"

definition parseMsgClientDel :: "string \<Rightarrow> int" where
  "parseMsgClientDel params =
     (if params = [] \<or> params = ''msg'' then constMsgDelMsg
      else if params = ''topic'' then constMsgDelTopic
      else if params = ''sub'' then constMsgDelSub
      else if params = ''user'' then constMsgDelUser
      else if params = ''cred'' then constMsgDelCred
      else 0)"

subsection \<open>Server messages\<close>

record MsgLastSeenInfo =
  ls_When :: "time option"
  ls_UserAgent :: string

record MsgCredServer =
  crs_Method :: string
  crs_Value :: string
  crs_Done :: bool

record MsgAccessMode =
  am_Want :: string
  am_Given :: string
  am_Mode :: string

record MsgTopicDesc =
  td_CreatedAt :: "time option"
  td_UpdatedAt :: "time option"
  td_TouchedAt :: "time option"
  td_State :: string
  td_Online :: bool
  td_IsChan :: bool
  td_LastSeen :: "MsgLastSeenInfo option"
  td_DefaultAcs :: "MsgDefaultAcsMode option"
  td_Acs :: "MsgAccessMode option"
  td_SeqId :: int
  td_ReadSeqId :: int
  td_RecvSeqId :: int
  td_DelId :: int
  td_SubCnt :: int
  td_Public :: go_any
  td_Trusted :: go_any
  td_Private :: go_any

record MsgTopicSub =
  ts_UpdatedAt :: "time option"
  ts_DeletedAt :: "time option"
  ts_Online :: bool
  ts_Acs :: MsgAccessMode
  ts_ReadSeqId :: int
  ts_RecvSeqId :: int
  ts_Public :: go_any
  ts_Trusted :: go_any
  ts_Private :: go_any
  ts_User :: string
  ts_Topic :: string
  ts_TouchedAt :: "time option"
  ts_SeqId :: int
  ts_DelId :: int
  ts_SubCnt :: int
  ts_LastSeen :: "MsgLastSeenInfo option"

record MsgDelValues =
  dv_DelId :: int
  dv_DelSeq :: "MsgRange list"

record MsgServerCtrl =
  ctrl_Id :: string
  ctrl_Topic :: string
  ctrl_Params :: go_any
  ctrl_Code :: int
  ctrl_Text :: string
  ctrl_Timestamp :: time

record MsgServerData =
  data_Topic :: string
  data_From :: string
  data_Timestamp :: time
  data_DeletedAt :: "time option"
  data_SeqId :: int
  data_Head :: "go_map option"
  data_Content :: go_any

record MsgServerPres =
  pres_Topic :: string
  pres_Src :: string
  pres_What :: string
  pres_UserAgent :: string
  pres_SeqId :: int
  pres_DelId :: int
  pres_DelSeq :: "MsgRange list"
  pres_AcsTarget :: string
  pres_AcsActor :: string
  pres_Acs :: "MsgAccessMode option"
  pres_WantReply :: bool
  pres_FilterIn :: access_mode
  pres_FilterOut :: access_mode
  pres_SkipTopic :: string
  pres_SingleUser :: string
  pres_ExcludeUser :: string

record MsgServerMeta =
  meta_Id :: string
  meta_Topic :: string
  meta_Timestamp :: "time option"
  meta_Desc :: "MsgTopicDesc option"
  meta_Sub :: "MsgTopicSub list"
  meta_Del :: "MsgDelValues option"
  meta_Tags :: "string list"
  meta_Cred :: "MsgCredServer list"
  meta_Aux :: go_map

record MsgServerInfo =
  info_Topic :: string
  info_Src :: string
  info_From :: string
  info_What :: string
  info_SeqId :: int
  info_Event :: string
  info_Payload :: string
  info_SkipTopic :: string

record ServerComMessage =
  Ctrl :: "MsgServerCtrl option"
  Data :: "MsgServerData option"
  Meta :: "MsgServerMeta option"
  Pres :: "MsgServerPres option"
  Info :: "MsgServerInfo option"
  scm_TenantID :: tenant_id
  scm_Id :: string
  scm_RcptTo :: string
  scm_AsUser :: string
  scm_Timestamp :: time
  scm_sess :: "string option"
  scm_SkipSid :: string
  scm_uid :: uid

definition empty_ServerComMessage :: ServerComMessage where
  "empty_ServerComMessage =
     \<lparr>Ctrl = None, Data = None, Meta = None, Pres = None, Info = None, scm_TenantID = 0,
      scm_Id = [], scm_RcptTo = [], scm_AsUser = [], scm_Timestamp = 0, scm_sess = None,
      scm_SkipSid = [], scm_uid = ZeroUid\<rparr>"

text \<open>
  \<^verbatim>\<open>copy\<close> makes a new message field by field; the payloads are copied by value, which for
  values without identity is the payload itself.
\<close>

definition ServerComMessage_copy :: "ServerComMessage option \<Rightarrow> ServerComMessage option" where
  "ServerComMessage_copy src =
     (case src of
        None \<Rightarrow> None
      | Some s \<Rightarrow>
          Some (empty_ServerComMessage
            \<lparr>scm_TenantID := scm_TenantID s, scm_Id := scm_Id s, scm_RcptTo := scm_RcptTo s,
             scm_AsUser := scm_AsUser s, scm_Timestamp := scm_Timestamp s, scm_sess := scm_sess s,
             scm_SkipSid := scm_SkipSid s, scm_uid := scm_uid s,
             Ctrl := Ctrl s, Data := Data s, Meta := Meta s, Pres := Pres s, Info := Info s\<rparr>))"

subsection \<open>Control messages\<close>

text \<open>
  The composite literal all constructors share: the fields of the control part, then the routing
  id and the timestamp of the request; the fields a constructor does not set are zero values.
\<close>

definition ctrl_message ::
  "string \<Rightarrow> string \<Rightarrow> go_any \<Rightarrow> int \<Rightarrow> string \<Rightarrow> time \<Rightarrow> string \<Rightarrow> time \<Rightarrow> ServerComMessage" where
  "ctrl_message i topic params code txt ts scmId scmTs =
     empty_ServerComMessage
       \<lparr>Ctrl := Some \<lparr>ctrl_Id = i, ctrl_Topic = topic, ctrl_Params = params, ctrl_Code = code,
          ctrl_Text = txt, ctrl_Timestamp = ts\<rparr>,
        scm_Id := scmId, scm_Timestamp := scmTs\<rparr>"

definition NoErrParamsExplicitTs :: "string \<Rightarrow> string \<Rightarrow> time \<Rightarrow> time \<Rightarrow> go_any \<Rightarrow> ServerComMessage" where
  "NoErrParamsExplicitTs i topic serverTs incomingReqTs params =
     ctrl_message i topic params 200 ''ok'' serverTs i incomingReqTs"

definition NoErrParams :: "string \<Rightarrow> string \<Rightarrow> time \<Rightarrow> go_any \<Rightarrow> ServerComMessage" where
  "NoErrParams i topic ts params =
     NoErrParamsExplicitTs i topic ts ts params"

definition NoErr :: "string \<Rightarrow> string \<Rightarrow> time \<Rightarrow> ServerComMessage" where
  "NoErr i topic ts =
     NoErrParams i topic ts ANil"

definition NoErrExplicitTs :: "string \<Rightarrow> string \<Rightarrow> time \<Rightarrow> time \<Rightarrow> ServerComMessage" where
  "NoErrExplicitTs i topic serverTs incomingReqTs =
     NoErrParamsExplicitTs i topic serverTs incomingReqTs ANil"

definition NoErrReply :: "ClientComMessage \<Rightarrow> time \<Rightarrow> ServerComMessage" where
  "NoErrReply msg ts =
     NoErrExplicitTs (msg_Id msg) (msg_Original msg) ts (msg_Timestamp msg)"

definition NoErrParamsReply :: "ClientComMessage \<Rightarrow> time \<Rightarrow> go_any \<Rightarrow> ServerComMessage" where
  "NoErrParamsReply msg ts params =
     NoErrParamsExplicitTs (msg_Id msg) (msg_Original msg) ts (msg_Timestamp msg) params"

definition NoErrCreated :: "string \<Rightarrow> string \<Rightarrow> time \<Rightarrow> ServerComMessage" where
  "NoErrCreated i topic ts =
     ctrl_message i topic ANil 201 ''created'' ts i ts"

definition NoErrAcceptedExplicitTs :: "string \<Rightarrow> string \<Rightarrow> time \<Rightarrow> time \<Rightarrow> ServerComMessage" where
  "NoErrAcceptedExplicitTs i topic serverTs incomingReqTs =
     ctrl_message i topic ANil 202 ''accepted'' serverTs i incomingReqTs"

definition NoErrAccepted :: "string \<Rightarrow> string \<Rightarrow> time \<Rightarrow> ServerComMessage" where
  "NoErrAccepted i topic ts =
     NoErrAcceptedExplicitTs i topic ts ts"

definition NoContentParams :: "string \<Rightarrow> string \<Rightarrow> time \<Rightarrow> time \<Rightarrow> go_any \<Rightarrow> ServerComMessage" where
  "NoContentParams i topic serverTs incomingReqTs params =
     ctrl_message i topic params 204 ''no content'' serverTs i incomingReqTs"

definition NoContentParamsReply :: "ClientComMessage \<Rightarrow> time \<Rightarrow> go_any \<Rightarrow> ServerComMessage" where
  "NoContentParamsReply msg ts params =
     NoContentParams (msg_Id msg) (msg_Original msg) ts (msg_Timestamp msg) params"

definition NoErrEvicted :: "string \<Rightarrow> string \<Rightarrow> time \<Rightarrow> ServerComMessage" where
  "NoErrEvicted i topic ts =
     ctrl_message i topic ANil 205 ''evicted'' ts i 0"

definition NoErrShutdown :: "time \<Rightarrow> ServerComMessage" where
  "NoErrShutdown ts =
     ctrl_message [] [] ANil 205 ''server shutdown'' ts [] 0"

definition NoErrDeliveredParams :: "string \<Rightarrow> string \<Rightarrow> time \<Rightarrow> go_any \<Rightarrow> ServerComMessage" where
  "NoErrDeliveredParams i topic ts params =
     ctrl_message i topic params 208 ''delivered'' ts i 0"

definition InfoValidateCredentialsExplicitTs :: "string \<Rightarrow> time \<Rightarrow> time \<Rightarrow> ServerComMessage" where
  "InfoValidateCredentialsExplicitTs i serverTs incomingReqTs =
     ctrl_message i [] ANil 300 ''validate credentials'' serverTs i incomingReqTs"

definition InfoValidateCredentials :: "string \<Rightarrow> time \<Rightarrow> ServerComMessage" where
  "InfoValidateCredentials i ts =
     InfoValidateCredentialsExplicitTs i ts ts"

definition InfoChallenge :: "string \<Rightarrow> time \<Rightarrow> bytes \<Rightarrow> ServerComMessage" where
  "InfoChallenge i ts challenge =
     ctrl_message i [] (AMap [(''challenge'', ABytes challenge)]) 300 ''challenge'' ts i ts"

definition InfoAuthReset :: "string \<Rightarrow> time \<Rightarrow> ServerComMessage" where
  "InfoAuthReset i ts =
     ctrl_message i [] ANil 301 ''auth reset'' ts i ts"

definition InfoUseOther :: "string \<Rightarrow> string \<Rightarrow> string \<Rightarrow> time \<Rightarrow> time \<Rightarrow> ServerComMessage" where
  "InfoUseOther i topic oth serverTs incomingReqTs =
     ctrl_message i topic (AMap [(''topic'', AStr oth)]) 303 ''use other'' serverTs i incomingReqTs"

definition InfoUseOtherReply :: "ClientComMessage \<Rightarrow> string \<Rightarrow> time \<Rightarrow> ServerComMessage" where
  "InfoUseOtherReply msg oth ts =
     InfoUseOther (msg_Id msg) (msg_Original msg) oth ts (msg_Timestamp msg)"

definition InfoAlreadySubscribed :: "string \<Rightarrow> string \<Rightarrow> time \<Rightarrow> ServerComMessage" where
  "InfoAlreadySubscribed i topic ts =
     ctrl_message i topic ANil 304 ''already subscribed'' ts i ts"

definition InfoNotJoined :: "string \<Rightarrow> string \<Rightarrow> time \<Rightarrow> ServerComMessage" where
  "InfoNotJoined i topic ts =
     ctrl_message i topic ANil 304 ''not joined'' ts i ts"

definition InfoNoAction :: "string \<Rightarrow> string \<Rightarrow> time \<Rightarrow> time \<Rightarrow> ServerComMessage" where
  "InfoNoAction i topic serverTs incomingReqTs =
     ctrl_message i topic ANil 304 ''no action'' serverTs i incomingReqTs"

definition InfoNoActionReply :: "ClientComMessage \<Rightarrow> time \<Rightarrow> ServerComMessage" where
  "InfoNoActionReply msg ts =
     InfoNoAction (msg_Id msg) (msg_Original msg) ts (msg_Timestamp msg)"

definition InfoNotModifiedExplicitTs :: "string \<Rightarrow> string \<Rightarrow> time \<Rightarrow> time \<Rightarrow> ServerComMessage" where
  "InfoNotModifiedExplicitTs i topic serverTs incomingReqTs =
     ctrl_message i topic ANil 304 ''not modified'' serverTs i incomingReqTs"

definition InfoNotModified :: "string \<Rightarrow> string \<Rightarrow> time \<Rightarrow> ServerComMessage" where
  "InfoNotModified i topic ts =
     InfoNotModifiedExplicitTs i topic ts ts"

definition InfoNotModifiedReply :: "ClientComMessage \<Rightarrow> time \<Rightarrow> ServerComMessage" where
  "InfoNotModifiedReply msg ts =
     InfoNotModifiedExplicitTs (msg_Id msg) (msg_Original msg) ts (msg_Timestamp msg)"

definition InfoFound :: "string \<Rightarrow> string \<Rightarrow> time \<Rightarrow> ServerComMessage" where
  "InfoFound i topic ts =
     ctrl_message i topic ANil 307 ''found'' ts i ts"

definition ErrMalformedExplicitTs :: "string \<Rightarrow> string \<Rightarrow> time \<Rightarrow> time \<Rightarrow> ServerComMessage" where
  "ErrMalformedExplicitTs i topic serverTs incomingReqTs =
     ctrl_message i topic ANil 400 ''malformed'' serverTs i incomingReqTs"

definition ErrMalformed :: "string \<Rightarrow> string \<Rightarrow> time \<Rightarrow> ServerComMessage" where
  "ErrMalformed i topic ts =
     ErrMalformedExplicitTs i topic ts ts"

definition ErrMalformedReply :: "ClientComMessage \<Rightarrow> time \<Rightarrow> ServerComMessage" where
  "ErrMalformedReply msg ts =
     ErrMalformedExplicitTs (msg_Id msg) (msg_Original msg) ts (msg_Timestamp msg)"

definition ErrAuthRequired :: "string \<Rightarrow> string \<Rightarrow> time \<Rightarrow> time \<Rightarrow> ServerComMessage" where
  "ErrAuthRequired i topic serverTs incomingReqTs =
     ctrl_message i topic ANil 401 ''authentication required'' serverTs i incomingReqTs"

definition ErrAuthRequiredReply :: "ClientComMessage \<Rightarrow> time \<Rightarrow> ServerComMessage" where
  "ErrAuthRequiredReply msg ts =
     ErrAuthRequired (msg_Id msg) (msg_Original msg) ts (msg_Timestamp msg)"

definition ErrAuthFailed :: "string \<Rightarrow> string \<Rightarrow> time \<Rightarrow> time \<Rightarrow> ServerComMessage" where
  "ErrAuthFailed i topic serverTs incomingReqTs =
     ctrl_message i topic ANil 401 ''authentication failed'' serverTs i incomingReqTs"

definition ErrAuthUnknownScheme :: "string \<Rightarrow> string \<Rightarrow> time \<Rightarrow> ServerComMessage" where
  "ErrAuthUnknownScheme i topic ts =
     ctrl_message i topic ANil 401 ''unknown authentication scheme'' ts i ts"

definition ErrPermissionDeniedExplicitTs :: "string \<Rightarrow> string \<Rightarrow> time \<Rightarrow> time \<Rightarrow> ServerComMessage" where
  "ErrPermissionDeniedExplicitTs i topic serverTs incomingReqTs =
     ctrl_message i topic ANil 403 ''permission denied'' serverTs i incomingReqTs"

definition ErrPermissionDenied :: "string \<Rightarrow> string \<Rightarrow> time \<Rightarrow> ServerComMessage" where
  "ErrPermissionDenied i topic ts =
     ErrPermissionDeniedExplicitTs i topic ts ts"

definition ErrPermissionDeniedReply :: "ClientComMessage \<Rightarrow> time \<Rightarrow> ServerComMessage" where
  "ErrPermissionDeniedReply msg ts =
     ErrPermissionDeniedExplicitTs (msg_Id msg) (msg_Original msg) ts (msg_Timestamp msg)"

definition ErrAPIKeyRequired :: "time \<Rightarrow> ServerComMessage" where
  "ErrAPIKeyRequired ts =
     ctrl_message [] [] ANil 403 ''valid API key required'' ts [] 0"

definition ErrSessionNotFound :: "time \<Rightarrow> ServerComMessage" where
  "ErrSessionNotFound ts =
     ctrl_message [] [] ANil 403 ''invalid or expired session'' ts [] 0"

definition ErrTopicNotFound :: "string \<Rightarrow> string \<Rightarrow> time \<Rightarrow> time \<Rightarrow> ServerComMessage" where
  "ErrTopicNotFound i topic serverTs incomingReqTs =
     ctrl_message i topic ANil 404 ''topic not found'' serverTs i incomingReqTs"

definition ErrTopicNotFoundReply :: "ClientComMessage \<Rightarrow> time \<Rightarrow> ServerComMessage" where
  "ErrTopicNotFoundReply msg ts =
     ErrTopicNotFound (msg_Id msg) (msg_Original msg) ts (msg_Timestamp msg)"

definition ErrUserNotFound :: "string \<Rightarrow> string \<Rightarrow> time \<Rightarrow> time \<Rightarrow> ServerComMessage" where
  "ErrUserNotFound i topic serverTs incomingReqTs =
     ctrl_message i topic ANil 404 ''user not found'' serverTs i incomingReqTs"

definition ErrUserNotFoundReply :: "ClientComMessage \<Rightarrow> time \<Rightarrow> ServerComMessage" where
  "ErrUserNotFoundReply msg ts =
     ErrUserNotFound (msg_Id msg) (msg_Original msg) ts (msg_Timestamp msg)"

definition ErrNotFoundExplicitTs :: "string \<Rightarrow> string \<Rightarrow> time \<Rightarrow> time \<Rightarrow> ServerComMessage" where
  "ErrNotFoundExplicitTs i topic serverTs incomingReqTs =
     ctrl_message i topic ANil 404 ''not found'' serverTs i incomingReqTs"

definition ErrNotFound :: "string \<Rightarrow> string \<Rightarrow> time \<Rightarrow> ServerComMessage" where
  "ErrNotFound i topic ts =
     ErrNotFoundExplicitTs i topic ts ts"

definition ErrNotFoundReply :: "ClientComMessage \<Rightarrow> time \<Rightarrow> ServerComMessage" where
  "ErrNotFoundReply msg ts =
     ErrNotFoundExplicitTs (msg_Id msg) (msg_Original msg) ts (msg_Timestamp msg)"

definition ErrOperationNotAllowedExplicitTs :: "string \<Rightarrow> string \<Rightarrow> time \<Rightarrow> time \<Rightarrow> ServerComMessage" where
  "ErrOperationNotAllowedExplicitTs i topic serverTs incomingReqTs =
     ctrl_message i topic ANil 405 ''operation or method not allowed'' serverTs i incomingReqTs"

definition ErrOperationNotAllowed :: "string \<Rightarrow> string \<Rightarrow> time \<Rightarrow> ServerComMessage" where
  "ErrOperationNotAllowed i topic ts =
     ErrOperationNotAllowedExplicitTs i topic ts ts"

definition ErrOperationNotAllowedReply :: "ClientComMessage \<Rightarrow> time \<Rightarrow> ServerComMessage" where
  "ErrOperationNotAllowedReply msg ts =
     ErrOperationNotAllowedExplicitTs (msg_Id msg) (msg_Original msg) ts (msg_Timestamp msg)"

definition ErrInvalidResponse :: "string \<Rightarrow> string \<Rightarrow> time \<Rightarrow> time \<Rightarrow> ServerComMessage" where
  "ErrInvalidResponse i topic serverTs incomingReqTs =
     ctrl_message i topic ANil 406 ''invalid response'' serverTs i incomingReqTs"

definition ErrDisconnected :: "string \<Rightarrow> string \<Rightarrow> time \<Rightarrow> ServerComMessage" where
  "ErrDisconnected i topic ts =
     ctrl_message i topic ANil 408 ''disconnected'' ts i ts"

definition ErrAlreadyAuthenticated :: "string \<Rightarrow> string \<Rightarrow> time \<Rightarrow> ServerComMessage" where
  "ErrAlreadyAuthenticated i topic ts =
     ctrl_message i topic ANil 409 ''already authenticated'' ts i ts"

definition ErrDuplicateCredential :: "string \<Rightarrow> string \<Rightarrow> time \<Rightarrow> time \<Rightarrow> ServerComMessage" where
  "ErrDuplicateCredential i topic serverTs incomingReqTs =
     ctrl_message i topic ANil 409 ''duplicate credential'' serverTs i incomingReqTs"

definition ErrAttachFirst :: "ClientComMessage \<Rightarrow> time \<Rightarrow> ServerComMessage" where
  "ErrAttachFirst msg ts =
     ctrl_message (msg_Id msg) (msg_Original msg) ANil 409 ''must attach first'' ts (msg_Id msg) (msg_Timestamp msg)"

definition ErrAlreadyExists :: "string \<Rightarrow> string \<Rightarrow> time \<Rightarrow> ServerComMessage" where
  "ErrAlreadyExists i topic ts =
     ctrl_message i topic ANil 409 ''already exists'' ts i ts"

definition ErrCommandOutOfSequence :: "string \<Rightarrow> string \<Rightarrow> time \<Rightarrow> ServerComMessage" where
  "ErrCommandOutOfSequence i unused ts =
     ctrl_message i [] ANil 409 ''command out of sequence'' ts i ts"

definition ErrGone :: "string \<Rightarrow> string \<Rightarrow> time \<Rightarrow> ServerComMessage" where
  "ErrGone i topic ts =
     ctrl_message i topic ANil 410 ''gone'' ts i ts"

definition ErrTooLarge :: "string \<Rightarrow> string \<Rightarrow> time \<Rightarrow> ServerComMessage" where
  "ErrTooLarge i topic ts =
     ctrl_message i topic ANil 413 ''too large'' ts i ts"

definition ErrPolicyExplicitTs :: "string \<Rightarrow> string \<Rightarrow> time \<Rightarrow> time \<Rightarrow> ServerComMessage" where
  "ErrPolicyExplicitTs i topic serverTs incomingReqTs =
     ctrl_message i topic ANil 422 ''policy violation'' serverTs i incomingReqTs"

definition ErrPolicy :: "string \<Rightarrow> string \<Rightarrow> time \<Rightarrow> ServerComMessage" where
  "ErrPolicy i topic ts =
     ErrPolicyExplicitTs i topic ts ts"

definition ErrPolicyReply :: "ClientComMessage \<Rightarrow> time \<Rightarrow> ServerComMessage" where
  "ErrPolicyReply msg ts =
     ErrPolicyExplicitTs (msg_Id msg) (msg_Original msg) ts (msg_Timestamp msg)"

definition ErrCallBusyExplicitTs :: "string \<Rightarrow> string \<Rightarrow> time \<Rightarrow> time \<Rightarrow> ServerComMessage" where
  "ErrCallBusyExplicitTs i topic serverTs incomingReqTs =
     ctrl_message i topic ANil 486 ''busy here'' serverTs i incomingReqTs"

definition ErrCallBusyReply :: "ClientComMessage \<Rightarrow> time \<Rightarrow> ServerComMessage" where
  "ErrCallBusyReply msg ts =
     ErrCallBusyExplicitTs (msg_Id msg) (msg_Original msg) ts (msg_Timestamp msg)"

definition ErrUnknownExplicitTs :: "string \<Rightarrow> string \<Rightarrow> time \<Rightarrow> time \<Rightarrow> ServerComMessage" where
  "ErrUnknownExplicitTs i topic serverTs incomingReqTs =
     ctrl_message i topic ANil 500 ''internal error'' serverTs i incomingReqTs"

definition ErrUnknown :: "string \<Rightarrow> string \<Rightarrow> time \<Rightarrow> ServerComMessage" where
  "ErrUnknown i topic ts =
     ErrUnknownExplicitTs i topic ts ts"

definition ErrUnknownReply :: "ClientComMessage \<Rightarrow> time \<Rightarrow> ServerComMessage" where
  "ErrUnknownReply msg ts =
     ErrUnknownExplicitTs (msg_Id msg) (msg_Original msg) ts (msg_Timestamp msg)"

definition ErrNotImplemented :: "string \<Rightarrow> string \<Rightarrow> time \<Rightarrow> time \<Rightarrow> ServerComMessage" where
  "ErrNotImplemented i topic serverTs incomingReqTs =
     ctrl_message i topic ANil 501 ''not implemented'' serverTs i incomingReqTs"

definition ErrNotImplementedReply :: "ClientComMessage \<Rightarrow> time \<Rightarrow> ServerComMessage" where
  "ErrNotImplementedReply msg ts =
     ErrNotImplemented (msg_Id msg) (msg_Original msg) ts (msg_Timestamp msg)"

definition ErrClusterUnreachableExplicitTs :: "string \<Rightarrow> string \<Rightarrow> time \<Rightarrow> time \<Rightarrow> ServerComMessage" where
  "ErrClusterUnreachableExplicitTs i topic serverTs incomingReqTs =
     ctrl_message i topic ANil 502 ''cluster unreachable'' serverTs i incomingReqTs"

definition ErrClusterUnreachableReply :: "ClientComMessage \<Rightarrow> time \<Rightarrow> ServerComMessage" where
  "ErrClusterUnreachableReply msg ts =
     ErrClusterUnreachableExplicitTs (msg_Id msg) (msg_Original msg) ts (msg_Timestamp msg)"

definition ErrServiceUnavailableExplicitTs :: "string \<Rightarrow> string \<Rightarrow> time \<Rightarrow> time \<Rightarrow> ServerComMessage" where
  "ErrServiceUnavailableExplicitTs i topic serverTs incomingReqTs =
     ctrl_message i topic ANil 503 ''service unavailable'' serverTs i incomingReqTs"

definition ErrServiceUnavailableReply :: "ClientComMessage \<Rightarrow> time \<Rightarrow> ServerComMessage" where
  "ErrServiceUnavailableReply msg ts =
     ErrServiceUnavailableExplicitTs (msg_Id msg) (msg_Original msg) ts (msg_Timestamp msg)"

definition ErrLockedExplicitTs :: "string \<Rightarrow> string \<Rightarrow> time \<Rightarrow> time \<Rightarrow> ServerComMessage" where
  "ErrLockedExplicitTs i topic serverTs incomingReqTs =
     ctrl_message i topic ANil 503 ''locked'' serverTs i incomingReqTs"

definition ErrLocked :: "string \<Rightarrow> string \<Rightarrow> time \<Rightarrow> ServerComMessage" where
  "ErrLocked i topic ts =
     ErrLockedExplicitTs i topic ts ts"

definition ErrLockedReply :: "ClientComMessage \<Rightarrow> time \<Rightarrow> ServerComMessage" where
  "ErrLockedReply msg ts =
     ErrLockedExplicitTs (msg_Id msg) (msg_Original msg) ts (msg_Timestamp msg)"

definition ErrVersionNotSupported :: "string \<Rightarrow> time \<Rightarrow> ServerComMessage" where
  "ErrVersionNotSupported i ts =
     ctrl_message i [] ANil 505 ''version not supported'' ts i ts"

lemmas ctrl_defs = ctrl_message_def empty_ServerComMessage_def

lemmas reply_defs =
  NoErr_def NoErrExplicitTs_def NoErrReply_def NoErrParams_def NoErrParamsExplicitTs_def
  NoErrParamsReply_def NoErrCreated_def NoErrAccepted_def NoErrAcceptedExplicitTs_def NoContentParams_def
  NoContentParamsReply_def NoErrEvicted_def NoErrShutdown_def NoErrDeliveredParams_def InfoValidateCredentials_def
  InfoValidateCredentialsExplicitTs_def InfoChallenge_def InfoAuthReset_def InfoUseOther_def InfoUseOtherReply_def
  InfoAlreadySubscribed_def InfoNotJoined_def InfoNoAction_def InfoNoActionReply_def InfoNotModified_def
  InfoNotModifiedReply_def InfoNotModifiedExplicitTs_def InfoFound_def ErrMalformed_def ErrMalformedReply_def
  ErrMalformedExplicitTs_def ErrAuthRequired_def ErrAuthRequiredReply_def ErrAuthFailed_def ErrAuthUnknownScheme_def
  ErrPermissionDenied_def ErrPermissionDeniedExplicitTs_def ErrPermissionDeniedReply_def ErrAPIKeyRequired_def ErrSessionNotFound_def
  ErrTopicNotFound_def ErrTopicNotFoundReply_def ErrUserNotFound_def ErrUserNotFoundReply_def ErrNotFound_def
  ErrNotFoundExplicitTs_def ErrNotFoundReply_def ErrOperationNotAllowed_def ErrOperationNotAllowedExplicitTs_def ErrOperationNotAllowedReply_def
  ErrInvalidResponse_def ErrDisconnected_def ErrAlreadyAuthenticated_def ErrDuplicateCredential_def ErrAttachFirst_def
  ErrAlreadyExists_def ErrCommandOutOfSequence_def ErrGone_def ErrTooLarge_def ErrPolicy_def
  ErrPolicyExplicitTs_def ErrPolicyReply_def ErrCallBusyExplicitTs_def ErrCallBusyReply_def ErrUnknown_def
  ErrUnknownExplicitTs_def ErrUnknownReply_def ErrNotImplemented_def ErrNotImplementedReply_def ErrClusterUnreachableReply_def
  ErrClusterUnreachableExplicitTs_def ErrServiceUnavailableReply_def ErrServiceUnavailableExplicitTs_def ErrLocked_def ErrLockedReply_def
  ErrLockedExplicitTs_def ErrVersionNotSupported_def

definition ctrl_code :: "ServerComMessage \<Rightarrow> int" where
  "ctrl_code m = (case Ctrl m of Some c \<Rightarrow> ctrl_Code c | None \<Rightarrow> 0)"

lemma ctrl_code_message [simp]: "ctrl_code (ctrl_message i t p c x ts si sts) = c"
  by (simp add: ctrl_code_def ctrl_defs)

end
