(* ===== verification/RingHash.thy ===== *)
theory RingHash
  imports GoStd "HOL-Library.Multiset"
begin

section \<open>The consistent hash ring (server/ringhash/ringhash.go)\<close>

text \<open>
  The ring decides which cluster node owns a topic. Its state is the sorted list of replica
  points; the hash of points and keys is an argument of \<^verbatim>\<open>New\<close>, so it is a field of the model's
  record. The signature is a hash (FNV-128a, printed in ASCII-85) of the bytes of the sorted
  points; that hash is a field too. \<^verbatim>\<open>sort.Sort\<close> by hash and key is the library's sort, as the
  order is total on points.
\<close>

record elem =
  elem_key :: string
  elem_hash :: uint32

definition sortable_Less :: "elem \<Rightarrow> elem \<Rightarrow> bool" where
  "sortable_Less a b \<longleftrightarrow>
     (if elem_hash a < elem_hash b then True
      else if elem_hash a = elem_hash b then elem_key a < elem_key b
      else False)"

instantiation elem_ext :: (linorder) linorder
begin

definition less_eq_elem_ext :: "'a elem_scheme \<Rightarrow> 'a elem_scheme \<Rightarrow> bool" where
  "less_eq_elem_ext a b \<longleftrightarrow>
     (elem_hash a, elem_key a, elem.more a) = (elem_hash b, elem_key b, elem.more b) \<or>
     elem_hash a < elem_hash b \<or>
     (elem_hash a = elem_hash b \<and> (elem_key a < elem_key b \<or>
       (elem_key a = elem_key b \<and> elem.more a < elem.more b)))"

definition less_elem_ext :: "'a elem_scheme \<Rightarrow> 'a elem_scheme \<Rightarrow> bool" where
  "less_elem_ext a b \<longleftrightarrow>
     elem_hash a < elem_hash b \<or>
     (elem_hash a = elem_hash b \<and> (elem_key a < elem_key b \<or>
       (elem_key a = elem_key b \<and> elem.more a < elem.more b)))"

instance
proof
  fix a b c :: "'a elem_scheme"
  show "a < b \<longleftrightarrow> a \<le> b \<and> \<not> b \<le> a"
    by (auto simp: less_eq_elem_ext_def less_elem_ext_def)
  show "a \<le> a" by (simp add: less_eq_elem_ext_def)
  show "a \<le> b \<Longrightarrow> b \<le> c \<Longrightarrow> a \<le> c"
    by (auto simp: less_eq_elem_ext_def)
  show "a \<le> b \<Longrightarrow> b \<le> a \<Longrightarrow> a = b"
    by (cases a; cases b) (auto simp: less_eq_elem_ext_def)
  show "a \<le> b \<or> b \<le> a"
    by (auto simp: less_eq_elem_ext_def)
qed

end

lemma elem_less_iff: "(a :: elem) < b \<longleftrightarrow> sortable_Less a b"
  by (auto simp: less_elem_ext_def sortable_Less_def)

subsection \<open>Hash functions of the standard library\<close>

fun crc32_bits :: "nat \<Rightarrow> uint32 \<Rightarrow> uint32" where
  "crc32_bits 0 c = c"
| "crc32_bits (Suc n) c =
     crc32_bits n (if bit c 0 then drop_bit 1 c XOR 0xEDB88320 else drop_bit 1 c)"

fun crc32_update :: "uint32 \<Rightarrow> string \<Rightarrow> uint32" where
  "crc32_update c [] = c"
| "crc32_update c (b # bs) = crc32_update (crc32_bits 8 (c XOR of_char b)) bs"

text \<open>\<^verbatim>\<open>hash/crc32\<close> with the IEEE polynomial.\<close>

definition crc32_IEEE :: "string \<Rightarrow> uint32" where
  "crc32_IEEE data = NOT (crc32_update (NOT 0) data)"

text \<open>\<^verbatim>\<open>hash/fnv\<close>, the 128-bit variant 1a, and its sum in big-endian order.\<close>

fun fnv128a_update :: "128 word \<Rightarrow> bytes \<Rightarrow> 128 word" where
  "fnv128a_update h [] = h"
| "fnv128a_update h (b # bs) = fnv128a_update ((h XOR ucast b) * 0x1000000000000000000013B) bs"

definition fnv128a :: "bytes \<Rightarrow> 128 word" where
  "fnv128a data = fnv128a_update 0x6C62272E07BB014262B821756295C58D data"

definition fnv_sum :: "128 word \<Rightarrow> bytes" where
  "fnv_sum h = map (\<lambda>i. ucast (drop_bit (8 * (15 - i)) h)) [0..<16]"

text \<open>\<^verbatim>\<open>encoding/ascii85\<close> on whole groups of four bytes: five digits, or a single z for zero.\<close>

fun ascii85_digits :: "nat \<Rightarrow> nat \<Rightarrow> string" where
  "ascii85_digits 0 v = []"
| "ascii85_digits (Suc n) v = ascii85_digits n (v div 85) @ [char_of (33 + v mod 85)]"

fun ascii85_encode :: "bytes \<Rightarrow> string" where
  "ascii85_encode (a # b # c # d # r) =
     (let v = unat a * 16777216 + unat b * 65536 + unat c * 256 + unat d
      in (if v = 0 then ''z'' else ascii85_digits 5 v) @ ascii85_encode r)"
| "ascii85_encode _ = []"

subsection \<open>The ring\<close>

record ring =
  ring_keys :: "elem list"
  ring_signature :: string
  ring_replicas :: int
  hashfunc :: "string \<Rightarrow> uint32"

definition New :: "int \<Rightarrow> (string \<Rightarrow> uint32) option \<Rightarrow> ring" where
  "New replicas fn =
     \<lparr>ring_keys = [], ring_signature = [], ring_replicas = replicas,
      hashfunc = (case fn of Some f \<Rightarrow> f | None \<Rightarrow> crc32_IEEE)\<rparr>"

definition Ring_Len :: "ring \<Rightarrow> nat" where
  "Ring_Len r = length (ring_keys r)"

definition ring_points :: "ring \<Rightarrow> string list \<Rightarrow> elem list" where
  "ring_points r keys =
     concat (map (\<lambda>key. map (\<lambda>i. \<lparr>elem_key = key, elem_hash = hashfunc r (FormatInt i @ key)\<rparr>)
       [0..ring_replicas r - 1]) keys)"

definition elem_bytes :: "elem \<Rightarrow> bytes" where
  "elem_bytes e =
     [ucast (elem_hash e), ucast (drop_bit 8 (elem_hash e)), ucast (drop_bit 16 (elem_hash e)),
      ucast (drop_bit 24 (elem_hash e))] @ map of_char (elem_key e)"

text \<open>
  The code writes the encoding into a buffer of the maximal length 20 and takes the whole buffer
  as the signature, so an encoding shortened by a z is padded with zero bytes.
\<close>

definition ring_sign :: "elem list \<Rightarrow> string" where
  "ring_sign keys =
     (let dst = ascii85_encode (fnv_sum (fnv128a (concat (map elem_bytes keys))))
      in dst @ replicate (20 - length dst) (CHR 0x00))"

definition Ring_Add :: "ring \<Rightarrow> string list \<Rightarrow> ring" where
  "Ring_Add r keys =
     (let ks = sort (ring_keys r @ ring_points r keys)
      in r\<lparr>ring_keys := ks, ring_signature := ring_sign ks\<rparr>)"

definition Ring_Get :: "ring \<Rightarrow> string \<Rightarrow> string" where
  "Ring_Get r key =
     (if Ring_Len r = 0 then []
      else
        (let hash = hashfunc r key;
             idx = Search (length (ring_keys r))
                     (\<lambda>i. let el = ring_keys r ! i
                          in elem_hash el > hash \<or> (elem_hash el = hash \<and> elem_key el \<ge> key));
             idx = (if idx = length (ring_keys r) then 0 else idx)
         in elem_key (ring_keys r ! idx)))"

subsection \<open>Lookup on the sorted ring\<close>

text \<open>A point at or after a key on the ring.\<close>

definition at_or_after :: "ring \<Rightarrow> string \<Rightarrow> elem \<Rightarrow> bool" where
  "at_or_after r key el \<longleftrightarrow>
     elem_hash el > hashfunc r key \<or> (elem_hash el = hashfunc r key \<and> elem_key el \<ge> key)"

definition ring_inv :: "ring \<Rightarrow> bool" where
  "ring_inv r \<longleftrightarrow> sorted (ring_keys r) \<and>
     (ring_keys r \<noteq> [] \<longrightarrow> ring_signature r = ring_sign (ring_keys r))"

lemma at_or_after_mono: "at_or_after r key a \<Longrightarrow> a \<le> b \<Longrightarrow> at_or_after r key b"
  by (auto simp: at_or_after_def less_eq_elem_ext_def)

text \<open>The reference definition: the least point at or after the key, else the least point.\<close>

definition ring_owner :: "ring \<Rightarrow> string \<Rightarrow> elem" where
  "ring_owner r key =
     (let S = {e \<in> set (ring_keys r). at_or_after r key e}
      in if S \<noteq> {} then Min S else Min (set (ring_keys r)))"

lemma sorted_nth_Min:
  assumes "sorted xs" "i < length xs" "P (xs ! i)" "\<And>k. k < i \<Longrightarrow> \<not> P (xs ! k)"
  shows "xs ! i = Min {x \<in> set xs. P (x :: 'a::linorder)}"
proof (rule Min_eqI [symmetric])
  fix y assume "y \<in> {x \<in> set xs. P x}"
  then obtain k where "k < length xs" "y = xs ! k" "P y" by (auto simp: in_set_conv_nth)
  with assms(4) [of k] have "i \<le> k" by (metis not_le)
  with assms(1) \<open>k < length xs\<close> \<open>y = xs ! k\<close> show "xs ! i \<le> y" by (simp add: sorted_nth_mono)
qed (use assms in auto)

lemma Ring_Get_owner:
  assumes "sorted (ring_keys r)" "ring_keys r \<noteq> []"
  shows "Ring_Get r key = elem_key (ring_owner r key)"
proof -
  let ?xs = "ring_keys r" and ?P = "at_or_after r key"
  define idx where "idx = Search (length ?xs) (\<lambda>i. ?P (?xs ! i))"
  have mono: "\<And>k l. k \<le> l \<Longrightarrow> l < length ?xs \<Longrightarrow> ?P (?xs ! k) \<Longrightarrow> ?P (?xs ! l)"
    using at_or_after_mono sorted_nth_mono [OF assms(1)] by blast
  have s: "idx \<le> length ?xs" "\<And>k. k < length ?xs \<Longrightarrow> ?P (?xs ! k) \<longleftrightarrow> idx \<le> k"
    unfolding idx_def using Search_correct [of "length ?xs" "\<lambda>i. ?P (?xs ! i)"] mono by blast+
  have get: "Ring_Get r key = elem_key (?xs ! (if idx = length ?xs then 0 else idx))"
    using assms(2) by (simp add: Ring_Get_def Ring_Len_def Let_def at_or_after_def idx_def)
  show ?thesis
  proof (cases "idx = length ?xs")
    case True
    then have "{e \<in> set ?xs. ?P e} = {}" using s(2) by (auto simp: in_set_conv_nth)
    moreover have "?xs ! 0 = Min {x \<in> set ?xs. True}"
      using assms by (intro sorted_nth_Min) auto
    ultimately show ?thesis using get True by (simp add: ring_owner_def)
  next
    case False
    then have i: "idx < length ?xs" using s(1) by simp
    then have P: "?P (?xs ! idx)" using s(2) by simp
    then have "?xs ! idx = Min {e \<in> set ?xs. ?P e}"
      using s(2) i by (intro sorted_nth_Min [OF assms(1)]) auto
    moreover have "{e \<in> set ?xs. ?P e} \<noteq> {}" using P nth_mem [OF i] by blast
    ultimately show ?thesis using get False by (simp add: ring_owner_def)
  qed
qed

lemma ring_owner_in: "ring_keys r \<noteq> [] \<Longrightarrow> ring_owner r key \<in> set (ring_keys r)"
  using Min_in [of "{e \<in> set (ring_keys r). at_or_after r key e}"] Min_in [of "set (ring_keys r)"]
  by (auto simp: ring_owner_def Let_def)

lemma Ring_Add_keys:
  "set (ring_keys (Ring_Add r keys)) = set (ring_keys r) \<union> set (ring_points r keys)"
  "mset (ring_keys (Ring_Add r keys)) = mset (ring_keys r) + mset (ring_points r keys)"
  "sorted (ring_keys (Ring_Add r keys))" "hashfunc (Ring_Add r keys) = hashfunc r"
  "ring_replicas (Ring_Add r keys) = ring_replicas r"
  by (simp_all add: Ring_Add_def Let_def)

lemma at_or_after_Add: "at_or_after (Ring_Add r keys) = at_or_after r"
  by (simp add: at_or_after_def fun_eq_iff Ring_Add_keys)

lemma ring_points_key: "e \<in> set (ring_points r keys) \<Longrightarrow> elem_key e \<in> set keys"
  by (auto simp: ring_points_def)

lemma Min_Un_cases:
  fixes A B :: "'a::linorder set"
  assumes "finite A" "finite B" "A \<union> B \<noteq> {}"
  shows "Min (A \<union> B) \<in> B \<or> (A \<noteq> {} \<and> Min (A \<union> B) = Min A)"
proof (cases "A = {} \<or> B = {}")
  case True
  then show ?thesis using assms Min_in [OF assms(2)] by (cases "A = {}") auto
next
  case False
  then show ?thesis using assms Min_in [of B] by (simp add: Min_Un min_def)
qed

subsection \<open>Properties\<close>

text \<open>
  C38. Routing is consistent: when nodes join a non-empty ring, a key either stays with the node
  that had it or moves to one of the new nodes, never between two old nodes.
\<close>

theorem ring_join_moves_only_to_new:
  assumes "ring_inv r" "ring_keys r \<noteq> []"
  shows "Ring_Get (Ring_Add r nodes) key = Ring_Get r key \<or> Ring_Get (Ring_Add r nodes) key \<in> set nodes"
proof -
  let ?r' = "Ring_Add r nodes" and ?A = "set (ring_keys r)" and ?B = "set (ring_points r nodes)"
  have ne: "ring_keys ?r' \<noteq> []" using assms(2) Ring_Add_keys(1) [of r nodes] by auto
  note get' = Ring_Get_owner [OF Ring_Add_keys(3) ne, of key]
  note get = Ring_Get_owner [of r key, OF _ assms(2)]
  have "ring_owner ?r' key \<in> ?B \<or> ring_owner ?r' key = ring_owner r key"
  proof (cases "{e \<in> ?A \<union> ?B. at_or_after r key e} = {}")
    case True
    then show ?thesis
      using Min_Un_cases [of ?A ?B] assms(2)
      by (auto simp: ring_owner_def Let_def at_or_after_Add Ring_Add_keys(1))
  next
    case False
    let ?A' = "{e \<in> ?A. at_or_after r key e}" and ?B' = "{e \<in> ?B. at_or_after r key e}"
    have eq: "{e \<in> ?A \<union> ?B. at_or_after r key e} = ?A' \<union> ?B'" by auto
    then have "ring_owner ?r' key = Min (?A' \<union> ?B')"
      using False by (simp add: ring_owner_def Let_def at_or_after_Add Ring_Add_keys(1))
    moreover have "Min (?A' \<union> ?B') \<in> ?B' \<or> (?A' \<noteq> {} \<and> Min (?A' \<union> ?B') = Min ?A')"
      using False unfolding eq by (intro Min_Un_cases) auto
    moreover have "ring_owner r key = Min ?A'" if "?A' \<noteq> {}"
      unfolding ring_owner_def Let_def using that by (rule if_P)
    ultimately show ?thesis by (metis (no_types, lifting) mem_Collect_eq)
  qed
  then show ?thesis
    using get get' assms(1) ring_points_key by (auto simp: ring_inv_def)
qed

theorem ring_join_moves_only_to_new_witness:
  "let r = Ring_Add (New 2 None) [''a'', ''b''] in ring_inv r \<and> ring_keys r \<noteq> [] \<and>
     (Ring_Get (Ring_Add r [''c'']) ''grpX'' = Ring_Get r ''grpX'' \<or> Ring_Get (Ring_Add r [''c'']) ''grpX'' \<in> {''c''})"
proof -
  let ?r = "Ring_Add (New 2 None) [''a'', ''b'']"
  have inv: "ring_inv ?r" by (simp add: ring_inv_def Ring_Add_def Let_def)
  have "set (ring_points (New 2 None) [''a'', ''b'']) \<noteq> {}"
    by (simp add: ring_points_def New_def upto.simps)
  then have ne: "ring_keys ?r \<noteq> []" using Ring_Add_keys(1) [of "New 2 None" "[''a'', ''b'']"] by auto
  from inv ne ring_join_moves_only_to_new [OF inv ne, of "[''c'']" "''grpX''"] show ?thesis
    by (simp add: Let_def)
qed

text \<open>
  The ring depends only on which nodes were added, not on the order or grouping of the
  additions: permuting the names or adding them in two steps gives the same points, the same
  signature (by which nodes compare their rings) and so the same owner of every key.
\<close>

theorem ring_order_irrelevant:
  assumes "mset nodes = mset (ns1 @ ns2)"
  shows "Ring_Add (Ring_Add r ns1) ns2 = Ring_Add r nodes"
proof -
  have pts: "mset (ring_points (Ring_Add r ns1) ns2) = mset (ring_points r ns2)"
    by (simp add: ring_points_def Ring_Add_keys)
  have cat: "mset (ring_points r ks) = (\<Sum>k \<in># mset ks. mset (ring_points r [k]))" for ks
    by (induction ks) (auto simp: ring_points_def)
  have "mset (ring_keys (Ring_Add r ns1) @ ring_points (Ring_Add r ns1) ns2)
      = mset (ring_keys r @ ring_points r nodes)"
    using cat [of ns1] cat [of ns2] cat [of nodes] assms by (simp add: pts Ring_Add_keys(2) add.assoc)
  then have "sort (ring_keys (Ring_Add r ns1) @ ring_points (Ring_Add r ns1) ns2)
      = sort (ring_keys r @ ring_points r nodes)"
    by (metis mset_sort properties_for_sort sorted_sort)
  then show ?thesis by (simp add: Ring_Add_def Let_def)
qed

theorem ring_order_irrelevant_witness:
  "Ring_Add (Ring_Add (New 3 None) [''n2'']) [''n1''] = Ring_Add (New 3 None) [''n1'', ''n2'']"
  by (rule ring_order_irrelevant) simp

text \<open>
  C39. The binary search of \<^verbatim>\<open>Get\<close> implements the ring's definition: on a sorted non-empty ring it
  returns the node of the least point at or after the key's hash, or of the least point when the
  search runs past the end, so the result is always one of the ring's nodes.
\<close>

theorem ring_get_refines_owner:
  assumes "ring_inv r" "ring_keys r \<noteq> []"
  shows "Ring_Get r key = elem_key (ring_owner r key) \<and> ring_owner r key \<in> set (ring_keys r)"
  using assms by (simp add: Ring_Get_owner ring_owner_in ring_inv_def)

theorem ring_get_refines_owner_witness:
  "Ring_Get (Ring_Add (New 1 None) [''solo'']) ''topic'' = ''solo''"
proof -
  let ?r = "Ring_Add (New 1 None) [''solo'']"
  have inv: "ring_inv ?r" by (simp add: ring_inv_def Ring_Add_def Let_def)
  have keys: "set (ring_keys ?r) \<noteq> {}" "\<forall>e \<in> set (ring_keys ?r). elem_key e = ''solo''"
    by (simp_all add: Ring_Add_keys(1) ring_points_def New_def upto.simps)
  then have "ring_keys ?r \<noteq> []" by auto
  from ring_get_refines_owner [OF inv this, of "''topic''"] keys(2) show ?thesis by simp
qed

end
