(* ===== verification/GoUnicode.thy ===== *)
theory GoUnicode
  imports GoStd
begin

section \<open>UTF-8 and character classes\<close>

text \<open>
  The rune-level functions of Go's \<^verbatim>\<open>unicode/utf8\<close>, \<^verbatim>\<open>unicode\<close>, \<^verbatim>\<open>strings\<close> and
  \<^verbatim>\<open>strconv\<close> packages used by the server: decoding of one rune with its width (an invalid byte is
  the replacement rune of width one), the conversion \<^verbatim>\<open>[]rune(s)\<close>, \<^verbatim>\<open>IsDigit\<close>,
  \<^verbatim>\<open>IsLetter\<close>, \<^verbatim>\<open>TrimSpace\<close>, \<^verbatim>\<open>Contains\<close> and \<^verbatim>\<open>Atoi\<close>. The Unicode tables for runes
  outside ASCII are the fields of the record \<open>unicode_tables\<close>, over which everything is
  parametric. The lemmas show that decoding always advances and stays within the string, and that
  \<^verbatim>\<open>Atoi\<close> reads back what \<^verbatim>\<open>FormatInt\<close> writes.
\<close>

record unicode_tables =
  un_letter :: "nat \<Rightarrow> bool"
  un_digit :: "nat \<Rightarrow> bool"
  un_number :: "nat \<Rightarrow> bool"
  un_lower :: "string \<Rightarrow> string"
  un_trim :: "string \<Rightarrow> string"

text \<open>Tables without any letter or digit outside of ASCII.\<close>

definition ascii_tables :: unicode_tables where
  "ascii_tables = \<lparr>un_letter = (\<lambda>_. False), un_digit = (\<lambda>_. False), un_number = (\<lambda>_. False),
     un_lower = id, un_trim = id\<rparr>"

subsection \<open>Decoding\<close>

definition byte_in :: "nat \<Rightarrow> nat \<Rightarrow> char \<Rightarrow> bool" where
  "byte_in lo hi c \<longleftrightarrow> lo \<le> of_char c \<and> of_char c \<le> hi"

definition RuneError :: nat where "RuneError = 0xFFFD"

definition low6 :: "char \<Rightarrow> nat" where "low6 c = of_char c mod 64"

definition second_ok :: "nat \<Rightarrow> char \<Rightarrow> bool" where
  "second_ok b0 c =
     (if b0 = 0xE0 then byte_in 0xA0 0xBF c
      else if b0 = 0xED then byte_in 0x80 0x9F c
      else if b0 = 0xF0 then byte_in 0x90 0xBF c
      else if b0 = 0xF4 then byte_in 0x80 0x8F c
      else byte_in 0x80 0xBF c)"

definition DecodeRune :: "string \<Rightarrow> nat \<times> nat" where
  "DecodeRune s =
     (case s of [] \<Rightarrow> (RuneError, 0)
      | c # t \<Rightarrow>
         let b0 = of_char c :: nat
         in if b0 < 0x80 then (b0, 1)
            else if 0xC2 \<le> b0 \<and> b0 \<le> 0xDF then
              (case t of c1 # _ \<Rightarrow>
                 if second_ok b0 c1 then ((b0 mod 32) * 64 + low6 c1, 2) else (RuneError, 1)
               | _ \<Rightarrow> (RuneError, 1))
            else if 0xE0 \<le> b0 \<and> b0 \<le> 0xEF then
              (case t of c1 # c2 # _ \<Rightarrow>
                 if second_ok b0 c1 \<and> byte_in 0x80 0xBF c2
                 then ((b0 mod 16) * 4096 + low6 c1 * 64 + low6 c2, 3) else (RuneError, 1)
               | _ \<Rightarrow> (RuneError, 1))
            else if 0xF0 \<le> b0 \<and> b0 \<le> 0xF4 then
              (case t of c1 # c2 # c3 # _ \<Rightarrow>
                 if second_ok b0 c1 \<and> byte_in 0x80 0xBF c2 \<and> byte_in 0x80 0xBF c3
                 then ((b0 mod 8) * 262144 + low6 c1 * 4096 + low6 c2 * 64 + low6 c3, 4)
                 else (RuneError, 1)
               | _ \<Rightarrow> (RuneError, 1))
            else (RuneError, 1))"

lemma DecodeRune_Nil [simp]: "DecodeRune [] = (RuneError, 0)"
  by (simp add: DecodeRune_def)

lemma DecodeRune_ascii [simp]:
  "is_ascii c \<Longrightarrow> DecodeRune (c # s) = (of_char c, 1)"
  by (simp add: DecodeRune_def is_ascii_def)

lemma DecodeRune_width:
  assumes "s \<noteq> []"
  shows "0 < snd (DecodeRune s) \<and> snd (DecodeRune s) \<le> length s"
  using assms by (auto simp: DecodeRune_def Let_def split: list.splits)

lemma DecodeRune_width_0: "snd (DecodeRune s) = 0 \<longleftrightarrow> s = []"
  using DecodeRune_width [of s] by (cases s) auto

function runes :: "string \<Rightarrow> nat list" where
  "runes s = (if s = [] then [] else fst (DecodeRune s) # runes (drop (snd (DecodeRune s)) s))"
  by pat_completeness auto
termination
  by (relation "measure length") (use DecodeRune_width in auto)

declare runes.simps [simp del]

lemma runes_ascii: "list_all is_ascii s \<Longrightarrow> runes s = map of_char s"
  by (induction s) (simp_all add: runes.simps [of "[]"] runes.simps [of "_ # _"])

lemma runes_Nil_iff: "runes s = [] \<longleftrightarrow> s = []"
  by (simp add: runes.simps [of s])

subsection \<open>Classes\<close>

definition IsDigit :: "unicode_tables \<Rightarrow> nat \<Rightarrow> bool" where
  "IsDigit un r = (if r < 128 then 48 \<le> r \<and> r \<le> 57 else un_digit un r)"

definition IsLetter :: "unicode_tables \<Rightarrow> nat \<Rightarrow> bool" where
  "IsLetter un r = (if r < 128 then (65 \<le> r \<and> r \<le> 90) \<or> (97 \<le> r \<and> r \<le> 122) else un_letter un r)"

text \<open>The class \<^verbatim>\<open>\pN\<close> of regular expressions.\<close>

definition IsNumber :: "unicode_tables \<Rightarrow> nat \<Rightarrow> bool" where
  "IsNumber un r = (if r < 128 then 48 \<le> r \<and> r \<le> 57 else un_number un r)"

definition is_ascii_space :: "char \<Rightarrow> bool" where
  "is_ascii_space c \<longleftrightarrow> (let n = of_char c :: nat in n = 32 \<or> (9 \<le> n \<and> n \<le> 13))"

definition TrimSpace :: "unicode_tables \<Rightarrow> string \<Rightarrow> string" where
  "TrimSpace un s =
     (if list_all is_ascii s
      then rev (dropWhile is_ascii_space (rev (dropWhile is_ascii_space s)))
      else un_trim un s)"

fun Contains :: "string \<Rightarrow> string \<Rightarrow> bool" where
  "Contains [] sub = (sub = [])"
| "Contains (c # s) sub = (HasPrefix (c # s) sub \<or> Contains s sub)"

lemma Contains_iff: "Contains s sub \<longleftrightarrow> (\<exists>a b. s = a @ sub @ b)"
proof (induction s)
  case Nil
  then show ?case by auto
next
  case (Cons c s)
  show ?case
  proof
    assume "Contains (c # s) sub"
    then consider "HasPrefix (c # s) sub" | "Contains s sub" by auto
    then show "\<exists>a b. c # s = a @ sub @ b"
    proof cases
      case 1
      then have "c # s = [] @ sub @ drop (length sub) (c # s)"
        by (metis HasPrefix_def append_Nil append_take_drop_id)
      then show ?thesis by blast
    next
      case 2
      then obtain a b where "s = a @ sub @ b" using Cons by auto
      then have "c # s = (c # a) @ sub @ b" by simp
      then show ?thesis by blast
    qed
  next
    assume "\<exists>a b. c # s = a @ sub @ b"
    then obtain a b where ab: "c # s = a @ sub @ b" by blast
    show "Contains (c # s) sub"
    proof (cases a)
      case Nil
      with ab have "HasPrefix (c # s) sub" by (simp add: HasPrefix_def)
      then show ?thesis by simp
    next
      case (Cons x a')
      with ab have "s = a' @ sub @ b" by simp
      with \<open>Contains s sub \<longleftrightarrow> _\<close> show ?thesis by auto
    qed
  qed
qed

subsection \<open>Numbers\<close>

text \<open>
  \<^verbatim>\<open>strconv.Atoi\<close> on a 64-bit platform: an optional sign and decimal digits, with a range error
  outside of \<^verbatim>\<open>int\<close>.
\<close>

definition Atoi :: "string \<Rightarrow> int option" where
  "Atoi s =
     (let neg = (s \<noteq> [] \<and> hd s = CHR ''-'');
          d = (if s \<noteq> [] \<and> (hd s = CHR ''-'' \<or> hd s = CHR ''+'') then tl s else s)
      in if d = [] \<or> \<not> list_all is_digit_char d then None
         else
           (let v = (if neg then - int (undigits10 0 d) else int (undigits10 0 d))
            in if - (2 ^ 63) \<le> v \<and> v < 2 ^ 63 then Some v else None))"

lemma digits10_ne: "digits10 n \<noteq> []"
  by (subst digits10.simps) simp

lemma Atoi_FormatInt:
  assumes "0 \<le> i" "i < 2 ^ 63"
  shows "Atoi (FormatInt i) = Some i"
proof -
  let ?d = "digits10 (nat i)"
  have d: "list_all is_digit_char ?d" by (rule digits10_chars)
  then have "is_digit_char (hd ?d)" by (cases ?d) (simp_all add: digits10_ne)
  then have "hd ?d \<noteq> CHR ''-''" "hd ?d \<noteq> CHR ''+''" by (auto simp: is_digit_char_def)
  with assms d show ?thesis
    by (simp add: Atoi_def FormatInt_def digits10_ne undigits10_digits10)
qed

end
