(* ===== verification/AuthTypes.thy ===== *)
theory AuthTypes
  imports StoreTypes GoUnicode
begin

section \<open>Authentication levels, features and records (server/auth/auth.go)\<close>

text \<open>
  The authentication level and the feature bitmap with their text and JSON forms, the server-owned
  authentication context and the record an authenticator returns. The lemmas show the round trips
  of the text forms and that a record can only be bound to the tenant of its context.
\<close>

type_synonym level = int

definition LevelNone :: level where "LevelNone = 0"
definition LevelAnon :: level where "LevelAnon = 10"
definition LevelAuth :: level where "LevelAuth = 20"
definition LevelRoot :: level where "LevelRoot = 30"

lemmas level_defs = LevelNone_def LevelAnon_def LevelAuth_def LevelRoot_def

definition ParseAuthLevel :: "string \<Rightarrow> level" where
  "ParseAuthLevel name =
     (if name = ''anon'' \<or> name = ''ANON'' then LevelAnon
      else if name = ''auth'' \<or> name = ''AUTH'' then LevelAuth
      else if name = ''root'' \<or> name = ''ROOT'' then LevelRoot
      else LevelNone)"

definition Level_MarshalText :: "level \<Rightarrow> string go_result" where
  "Level_MarshalText a =
     (if a = LevelNone then Inr []
      else if a = LevelAnon then Inr ''anon''
      else if a = LevelAuth then Inr ''auth''
      else if a = LevelRoot then Inr ''root''
      else Inl ''auth.Level: invalid level value'')"

definition Level_String :: "level \<Rightarrow> string" where
  "Level_String a = result_or ''unkn'' (Level_MarshalText a)"

definition Level_UnmarshalText :: "string \<Rightarrow> level go_result" where
  "Level_UnmarshalText b =
     (if b = [] then Inr LevelNone
      else if b = ''anon'' \<or> b = ''ANON'' then Inr LevelAnon
      else if b = ''auth'' \<or> b = ''AUTH'' then Inr LevelAuth
      else if b = ''root'' \<or> b = ''ROOT'' then Inr LevelRoot
      else Inl ''auth.Level: unrecognized'')"

definition Level_MarshalJSON :: "level \<Rightarrow> string go_result" where
  "Level_MarshalJSON a =
     (case Level_MarshalText a of Inl e \<Rightarrow> Inl e | Inr res \<Rightarrow> Inr (CHR 0x22 # res @ [CHR 0x22]))"

text \<open>
  Reading an empty slice panics (\<open>None\<close>), as does the one-byte slice holding only a quote, whose
  bounds \<^verbatim>\<open>b[1:0]\<close> are out of order.
\<close>

definition Level_UnmarshalJSON :: "string \<Rightarrow> level go_result option" where
  "Level_UnmarshalJSON b =
     (if b = [] then None
      else if hd b \<noteq> CHR 0x22 \<or> last b \<noteq> CHR 0x22 then Some (Inl ''syntax error'')
      else if length b = 1 then None
      else Some (Level_UnmarshalText (butlast (tl b))))"

subsection \<open>Features\<close>

type_synonym feature = "16 word"

definition FeatureValidated :: feature where "FeatureValidated = 1"
definition FeatureNoLogin :: feature where "FeatureNoLogin = 2"

definition Feature_MarshalText :: "feature \<Rightarrow> string" where
  "Feature_MarshalText f = (if bit f 0 then ''V'' else []) @ (if bit f 1 then ''L'' else [])"

fun Feature_letters :: "int \<Rightarrow> string \<Rightarrow> int \<times> go_error option" where
  "Feature_letters f0 [] = (f0, None)"
| "Feature_letters f0 (c # b) =
     (if c = CHR ''V'' \<or> c = CHR ''v'' then Feature_letters (f0 OR uint FeatureValidated) b
      else if c = CHR ''L'' \<or> c = CHR ''l'' then Feature_letters (f0 OR uint FeatureNoLogin) b
      else (f0, Some (''Feature: invalid character '' @ [CHR 0x27] @ byte_to_string c @ [CHR 0x27])))"

text \<open>
  The new value is assigned even when an error is returned; a failed \<^verbatim>\<open>Atoi\<close> on digits (they can
  only be out of range or followed by other bytes) is given by its two library outcomes: zero for a
  syntax error and the nearest \<^verbatim>\<open>int\<close>, whose low 16 bits are all ones, for a range error.
\<close>

definition Feature_UnmarshalText :: "string \<Rightarrow> feature \<times> bool" where
  "Feature_UnmarshalText b =
     (if b = [] then (0, True)
      else if CHR ''0'' \<le> hd b \<and> hd b \<le> CHR ''9'' then
        (case Atoi b of
           Some v \<Rightarrow> (word_of_int v, True)
         | None \<Rightarrow> (if list_all is_digit_char b then - 1 else 0, False))
      else (case Feature_letters 0 b of (f0, err) \<Rightarrow> (word_of_int f0, err = None)))"

definition Feature_MarshalJSON :: "feature \<Rightarrow> string" where
  "Feature_MarshalJSON f = CHR 0x22 # Feature_MarshalText f @ [CHR 0x22]"

definition Feature_UnmarshalJSON :: "string \<Rightarrow> (feature \<times> bool) option" where
  "Feature_UnmarshalJSON b =
     (if b = [] then None
      else if hd b = CHR 0x22 \<and> last b = CHR 0x22 then
        (if length b = 1 then None else Some (Feature_UnmarshalText (butlast (tl b))))
      else Some (Feature_UnmarshalText b))"

subsection \<open>Contexts and records\<close>

record auth_context =
  ctx_TenantID :: tenant_id
  ctx_RemoteAddr :: string

definition AuthContext_IsValid :: "auth_context \<Rightarrow> bool" where
  "AuthContext_IsValid ctx \<longleftrightarrow> \<not> TenantID_IsZero (ctx_TenantID ctx)"

text \<open>Durations are in nanoseconds, as in Go.\<close>

record auth_rec =
  rec_TenantID :: tenant_id
  rec_Uid :: uid
  rec_AuthLevel :: level
  rec_Lifetime :: int
  rec_Features :: feature
  rec_Tags :: "string list"
  rec_State :: obj_state
  rec_Credential :: string
  rec_DefAcs :: "default_access option"
  rec_Public :: go_any
  rec_Private :: go_any

definition empty_rec :: auth_rec where
  "empty_rec = \<lparr>rec_TenantID = 0, rec_Uid = 0, rec_AuthLevel = 0, rec_Lifetime = 0, rec_Features = 0,
     rec_Tags = [], rec_State = 0, rec_Credential = [], rec_DefAcs = None, rec_Public = ANil,
     rec_Private = ANil\<rparr>"

text \<open>The record is updated in place on success and left alone on failure.\<close>

definition BindRecord :: "auth_context \<Rightarrow> auth_rec option \<Rightarrow> store_error + auth_rec" where
  "BindRecord ctx r =
     (case r of
        None \<Rightarrow> Inl types_ErrMalformed
      | Some rr \<Rightarrow>
          if \<not> AuthContext_IsValid ctx then Inl types_ErrMalformed
          else if \<not> TenantID_IsZero (rec_TenantID rr) \<and> rec_TenantID rr \<noteq> ctx_TenantID ctx
          then Inl types_ErrFailed
          else Inr (rr\<lparr>rec_TenantID := ctx_TenantID ctx\<rparr>))"

subsection \<open>Round trips\<close>

lemma Level_text_roundtrip:
  "Level_MarshalText a = Inr t \<Longrightarrow> Level_UnmarshalText t = Inr a \<and> ParseAuthLevel t = a"
  by (auto simp: Level_MarshalText_def Level_UnmarshalText_def ParseAuthLevel_def split: if_splits)

lemma Level_MarshalText_ok: "is_ok (Level_MarshalText a) \<longleftrightarrow> a \<in> {LevelNone, LevelAnon, LevelAuth, LevelRoot}"
  by (auto simp: Level_MarshalText_def)

lemma Level_json_roundtrip:
  "Level_MarshalJSON a = Inr j \<Longrightarrow> Level_UnmarshalJSON j = Some (Inr a)"
  by (auto simp: Level_MarshalJSON_def Level_UnmarshalJSON_def Level_text_roundtrip split: sum.splits)

lemma Feature_text_roundtrip:
  assumes "take_bit 2 f = f"
  shows "Feature_UnmarshalText (Feature_MarshalText f) = (f, True)"
proof -
  have below: "n = 0 \<or> n = 1" if "bit f n" for n
    using that by (subst (asm) assms [symmetric]) (auto simp: bit_take_bit_iff)
  have "f = (if bit f 0 then 1 else 0) OR (if bit f 1 then 2 else 0)"
  proof (rule bit_word_eqI)
    fix n assume "n < LENGTH(16)"
    consider "n = 0" | "n = 1" | "n \<noteq> 0" "n \<noteq> 1" by blast
    then show "bit f n \<longleftrightarrow> bit ((if bit f 0 then 1 else 0 :: feature) OR (if bit f 1 then 2 else 0)) n"
    proof cases
      case 3
      then have "\<not> bit f n" using below by blast
      moreover have "\<not> bit (1 :: feature) n" "\<not> bit (2 :: feature) n"
        using 3 bit_exp_iff [of 1 n, where 'a = feature] by (auto simp: bit_1_iff)
      ultimately show ?thesis by (simp add: bit_or_iff)
    qed (auto simp: bit_or_iff bit_1_iff bit_0)
  qed
  then show ?thesis
    by (auto simp: Feature_UnmarshalText_def Feature_MarshalText_def FeatureValidated_def FeatureNoLogin_def
        less_eq_char_def split: if_splits)
qed

lemma BindRecord_tenant:
  "BindRecord ctx r = Inr r' \<Longrightarrow> rec_TenantID r' = ctx_TenantID ctx \<and> ctx_TenantID ctx \<noteq> 0 \<and>
     (\<exists>rr. r = Some rr \<and> rec_TenantID rr \<in> {0, ctx_TenantID ctx})"
  by (auto simp: BindRecord_def AuthContext_IsValid_def TenantID_IsZero_def split: option.splits if_splits)

end
