(* ===== verification/Utils.thy ===== *)
theory Utils
  imports Datamodel AuthTypes "HOL-Library.Multiset" "HOL-Library.AList"
begin

section \<open>Data manipulation helpers (server/utils.go)\<close>

text \<open>
  Conversions between wire and database values, the difference of string slices, credential and
  tag normalisation, translation of store errors into replies, version strings and the deep merge of dynamically typed values. Tables of Unicode and the
  iteration order of Go maps are parameters. The lemmas show that the two-pointer difference is the
  multiset difference, what normalised tags and credentials satisfy, how every store error is
  answered, that a version string is read back, and what a merge leaves at every key.
\<close>

subsection \<open>Ranges and slices\<close>

definition rangeDeserialize :: "range list \<Rightarrow> MsgRange list" where
  "rangeDeserialize rs = map (\<lambda>r. \<lparr>LowId = Low r, HiId = Hi r\<rparr>) rs"

definition rangeSerialize :: "MsgRange list \<Rightarrow> range list" where
  "rangeSerialize rs = map (\<lambda>r. \<lparr>Low = LowId r, Hi = HiId r\<rparr>) rs"

text \<open>The main loop of \<^verbatim>\<open>stringSliceDelta\<close> on the parts of the two slices not yet consumed.\<close>

function stringSliceDelta_loop ::
  "string list \<Rightarrow> string list \<Rightarrow> string list \<Rightarrow> string list \<Rightarrow> string list \<Rightarrow>
     string list \<times> string list \<times> string list" where
  "stringSliceDelta_loop rold rnew added removed common =
     (if rold = [] \<and> rnew = [] then (added, removed, common)
      else if rold = [] \<or> (rnew \<noteq> [] \<and> hd rold > hd rnew)
      then stringSliceDelta_loop rold (tl rnew) (added @ [hd rnew]) removed common
      else if rnew = [] \<or> hd rold < hd rnew
      then stringSliceDelta_loop (tl rold) rnew added (removed @ [hd rold]) common
      else stringSliceDelta_loop (tl rold) (tl rnew) added removed (common @ [hd rold]))"
  by pat_completeness auto
termination
  by (relation "measure (\<lambda>(rold, rnew, _). length rold + length rnew)") (auto simp: neq_Nil_conv)

declare stringSliceDelta_loop.simps [simp del]

definition stringSliceDelta :: "string list \<Rightarrow> string list \<Rightarrow> string list \<times> string list \<times> string list" where
  "stringSliceDelta rold rnew =
     (if rold = [] \<and> rnew = [] then ([], [], [])
      else if rold = [] then (rnew, [], [])
      else if rnew = [] then ([], rold, [])
      else stringSliceDelta_loop (sort rold) (sort rnew) [] [] [])"

subsection \<open>Credentials\<close>

text \<open>
  \<^verbatim>\<open>index\<close> is the Go map from methods to credentials as the list of its methods in the order of
  first insertion, with the credential of each; \<open>order\<close> is the unspecified order in which Go
  iterates over it.
\<close>

fun credential_index ::
  "(string \<Rightarrow> bool) \<Rightarrow> bool \<Rightarrow> (string \<times> MsgCredClient) list \<Rightarrow> MsgCredClient list \<Rightarrow>
     (string \<times> MsgCredClient) list" where
  "credential_index validators valueRequired idx [] = idx"
| "credential_index validators valueRequired idx (c # creds) =
     credential_index validators valueRequired
       (if validators (cred_Method c) \<and> (\<not> valueRequired \<or> cred_Value c \<noteq> [])
        then AList.update (cred_Method c) c idx else idx) creds"

definition normalizeCredentials ::
  "((string \<times> MsgCredClient) list \<Rightarrow> (string \<times> MsgCredClient) list) \<Rightarrow> (string \<Rightarrow> bool) \<Rightarrow>
     MsgCredClient list \<Rightarrow> bool \<Rightarrow> MsgCredClient list" where
  "normalizeCredentials order validators creds valueRequired =
     (if creds = [] then []
      else map snd (order (credential_index validators valueRequired [] creds)))"

definition credentialMethods :: "MsgCredClient list \<Rightarrow> string list" where
  "credentialMethods creds = map cred_Method creds"

subsection \<open>Query options and null values\<close>

record query_opt =
  qo_User :: uid
  qo_Topic :: string
  qo_IfModifiedSince :: "time option"
  qo_Since :: int
  qo_Before :: int
  qo_Limit :: int
  qo_IdRanges :: "range list"

definition msgOpts2storeOpts :: "MsgGetOpts option \<Rightarrow> query_opt option" where
  "msgOpts2storeOpts req =
     map_option (\<lambda>r.
       \<lparr>qo_User = ParseUserId (go_User r), qo_Topic = go_Topic r,
        qo_IfModifiedSince = go_IfModifiedSince r, qo_Since = go_SinceId r, qo_Before = go_BeforeId r,
        qo_Limit = go_Limit r, qo_IdRanges = rangeSerialize (go_IdRanges r)\<rparr>) req"

text \<open>The UTF-8 bytes of U+2421.\<close>

definition nullValue :: string where "nullValue = [CHR 0xE2, CHR 0x90, CHR 0xA1]"

definition isNullValue :: "go_any \<Rightarrow> bool" where
  "isNullValue i = (case i of AStr s \<Rightarrow> s = nullValue | _ \<Rightarrow> False)"

subsection \<open>Store errors\<close>

text \<open>What an \<^verbatim>\<open>error\<close> can be for the decoder: nil, a \<^verbatim>\<open>StoreError\<close>, or of another type.\<close>

datatype store_result = NilErr | StoreErr store_error | OtherErr go_error

text \<open>
  The type assertion \<^verbatim>\<open>params["topic"].(string)\<close> of a redirection panics (\<open>None\<close>) when the
  parameter is missing or not a string.
\<close>

definition storeErrorReply ::
  "store_error \<Rightarrow> string \<Rightarrow> string \<Rightarrow> time \<Rightarrow> time \<Rightarrow> go_map option \<Rightarrow> ServerComMessage option" where
  "storeErrorReply err i topic ts its params =
     (if err = types_ErrInternal then Some (ErrUnknownExplicitTs i topic ts its)
      else if err = types_ErrMalformed then Some (ErrMalformedExplicitTs i topic ts its)
      else if err = types_ErrFailed then Some (ErrAuthFailed i topic ts its)
      else if err = types_ErrPermissionDenied then Some (ErrPermissionDeniedExplicitTs i topic ts its)
      else if err = types_ErrDuplicate then Some (ErrDuplicateCredential i topic ts its)
      else if err = types_ErrUnsupported then Some (ErrNotImplemented i topic ts its)
      else if err = types_ErrExpired then Some (ErrAuthFailed i topic ts its)
      else if err = types_ErrPolicy then Some (ErrPolicyExplicitTs i topic ts its)
      else if err = types_ErrCredentials then Some (InfoValidateCredentialsExplicitTs i ts its)
      else if err = types_ErrUserNotFound then Some (ErrUserNotFound i topic ts its)
      else if err = types_ErrTopicNotFound then Some (ErrTopicNotFound i topic ts its)
      else if err = types_ErrNotFound then Some (ErrNotFoundExplicitTs i topic ts its)
      else if err = types_ErrInvalidResponse then Some (ErrInvalidResponse i topic ts its)
      else if err = types_ErrRedirected then
        (case mget (case params of None \<Rightarrow> [] | Some m \<Rightarrow> m) ''topic'' of
           AStr other \<Rightarrow> Some (InfoUseOther i topic other ts its)
         | _ \<Rightarrow> None)
      else Some (ErrUnknownExplicitTs i topic ts its))"

definition decodeStoreErrorExplicitTs ::
  "store_result \<Rightarrow> string \<Rightarrow> string \<Rightarrow> time \<Rightarrow> time \<Rightarrow> go_map option \<Rightarrow> ServerComMessage option" where
  "decodeStoreErrorExplicitTs err i topic ts its params =
     (let errmsg = (case err of
          NilErr \<Rightarrow> Some (NoErrExplicitTs i topic ts its)
        | OtherErr _ \<Rightarrow> Some (ErrUnknownExplicitTs i topic ts its)
        | StoreErr e \<Rightarrow> storeErrorReply e i topic ts its params)
      in case params of
           None \<Rightarrow> errmsg
         | Some m \<Rightarrow> map_option (\<lambda>r. r\<lparr>Ctrl := map_option (\<lambda>c. c\<lparr>ctrl_Params := AMap m\<rparr>) (Ctrl r)\<rparr>) errmsg)"

definition decodeStoreError ::
  "store_result \<Rightarrow> string \<Rightarrow> time \<Rightarrow> go_map option \<Rightarrow> ServerComMessage option" where
  "decodeStoreError err i ts params = decodeStoreErrorExplicitTs err i [] ts ts params"

subsection \<open>Default access\<close>

definition selectAccessMode :: "level \<Rightarrow> access_mode \<Rightarrow> access_mode \<Rightarrow> access_mode \<Rightarrow> access_mode" where
  "selectAccessMode authLvl anonMode authMode rootMode =
     (if authLvl = LevelNone then ModeNone
      else if authLvl = LevelAnon then anonMode
      else if authLvl = LevelAuth then authMode
      else if authLvl = LevelRoot then rootMode
      else ModeNone)"

text \<open>
  \<open>modeP2P\<close> is the configured \<^verbatim>\<open>globals.typesModeCP2P\<close>; the panic on the category \<^verbatim>\<open>sys\<close> is
  \<open>None\<close>.
\<close>

definition getDefaultAccess :: "access_mode \<Rightarrow> topic_cat \<Rightarrow> bool \<Rightarrow> bool \<Rightarrow> access_mode option" where
  "getDefaultAccess modeP2P cat authUser isChan =
     (if \<not> authUser then Some ModeNone
      else (case cat of
          TopicCatP2P \<Rightarrow> Some modeP2P
        | TopicCatFnd \<Rightarrow> Some ModeNone
        | TopicCatGrp \<Rightarrow> Some (if isChan then ModeCChnWriter else ModeCPublic)
        | TopicCatMe \<Rightarrow> Some ModeCMeFnd
        | TopicCatSlf \<Rightarrow> Some ModeCSelf
        | TopicCatSys \<Rightarrow> None))"

text \<open>
  The error of the first field is overwritten by the result of the second when both are present; a
  mode that fails to parse keeps its default.
\<close>

definition parseTopicAccess ::
  "MsgDefaultAcsMode \<Rightarrow> access_mode \<Rightarrow> access_mode \<Rightarrow> access_mode \<times> access_mode \<times> go_error option" where
  "parseTopicAccess acs defAuth defAnon =
     (let ra = AccessMode_UnmarshalText defAuth (da_Auth acs);
          rn = AccessMode_UnmarshalText defAnon (da_Anon acs);
          (authMode, err) = (if da_Auth acs = [] then (defAuth, None)
             else (case ra of Inl e \<Rightarrow> (defAuth, Some e) | Inr m \<Rightarrow> (m, None)));
          (anonMode, err) = (if da_Anon acs = [] then (defAnon, err)
             else (case rn of Inl e \<Rightarrow> (defAnon, Some e) | Inr m \<Rightarrow> (m, None)))
      in (authMode, anonMode, err))"

subsection \<open>Versions\<close>

text \<open>\<^verbatim>\<open>strings.IndexFunc\<close> for the first rune that is not a digit.\<close>

function index_non_digit :: "unicode_tables \<Rightarrow> string \<Rightarrow> nat option" where
  "index_non_digit un s =
     (if s = [] then None
      else
        (let (r, w) = DecodeRune s
         in if \<not> IsDigit un r then Some 0
            else map_option (\<lambda>k. w + k) (index_non_digit un (drop w s))))"
  by pat_completeness auto
termination
proof (relation "measure (\<lambda>(un, s). length s)", goal_cases)
  case (2 un s x xa y)
  then show ?case using DecodeRune_width [of s] by (metis (mono_tags, lifting) case_prod_conv
    diff_less in_measure length_drop length_greater_0_conv snd_conv)
qed simp

declare index_non_digit.simps [simp del]

definition parseVersionPart :: "unicode_tables \<Rightarrow> string \<Rightarrow> int" where
  "parseVersionPart un vers =
     (let end = index_non_digit un vers;
          t = (case end of
                 Some e \<Rightarrow> if e > 0 then Atoi (take e vers)
                           else if length vers > 0 then Atoi vers else Some 0
               | None \<Rightarrow> if length vers > 0 then Atoi vers else Some 0)
      in case t of None \<Rightarrow> 0 | Some v \<Rightarrow> if v > 0x1fff \<or> v \<le> 0 then 0 else v)"

definition parseVersion :: "unicode_tables \<Rightarrow> string \<Rightarrow> int" where
  "parseVersion un vers =
     (let parts = SplitN (TrimPrefix vers ''v'') (CHR ''.'') 3;
          major = (if length parts > 0 then parseVersionPart un (parts ! 0) else 0);
          minor = (if length parts > 1 then parseVersionPart un (parts ! 1) else 0);
          patch = (if length parts > 2 then parseVersionPart un (parts ! 2) else 0)
      in push_bit 16 major OR push_bit 8 minor OR patch)"

definition base10Version :: "int \<Rightarrow> int" where
  "base10Version hex =
     (let major = drop_bit 16 hex AND 0xFF; minor = drop_bit 8 hex AND 0xFF; trailer = hex AND 0xFF
      in major * 10000 + minor * 100 + trailer)"

definition versionToString :: "int \<Rightarrow> string" where
  "versionToString vers =
     FormatInt (drop_bit 16 vers) @ ''.'' @ FormatInt (drop_bit 8 vers AND 0xff) @
     (if vers AND 0xff \<noteq> 0 then ''-'' @ FormatInt (vers AND 0xff) else [])"

definition versionCompare :: "int \<Rightarrow> int \<Rightarrow> int" where
  "versionCompare v1 v2 = drop_bit 8 v1 - drop_bit 8 v2"

subsection \<open>Tags\<close>

definition minTagLength :: nat where "minTagLength = 2"
definition maxTagLength :: nat where "maxTagLength = 96"

text \<open>
  The two regular expressions of tags. The body class is \<^verbatim>\<open>[-_+.!?#@\pL\pN]\<close> over runes; the
  class \<^verbatim>\<open>\w\<close> is ASCII only. A prefix cannot hold a colon and neither can a body, so the only
  possible split is at the first colon. \<open>prefixedTag\<close> gives the two submatches.
\<close>

definition tag_rune :: "unicode_tables \<Rightarrow> nat \<Rightarrow> bool" where
  "tag_rune un r \<longleftrightarrow> r \<in> of_char ` set ''-_+.!?#@'' \<or> IsLetter un r \<or> IsNumber un r"

definition tag_body :: "unicode_tables \<Rightarrow> string \<Rightarrow> bool" where
  "tag_body un s \<longleftrightarrow>
     (let rs = runes s in 1 \<le> length rs \<and> length rs \<le> maxTagLength \<and> list_all (tag_rune un) rs)"

definition word_char :: "char \<Rightarrow> bool" where
  "word_char c \<longleftrightarrow> (let n = of_char c :: nat
     in (48 \<le> n \<and> n \<le> 57) \<or> (65 \<le> n \<and> n \<le> 90) \<or> (97 \<le> n \<and> n \<le> 122) \<or> n = 95)"

definition prefixedTag :: "unicode_tables \<Rightarrow> string \<Rightarrow> (string \<times> string) option" where
  "prefixedTag un s =
     (let p = takeWhile (\<lambda>c. c \<noteq> CHR '':'') s; rest = dropWhile (\<lambda>c. c \<noteq> CHR '':'') s
      in if rest \<noteq> [] \<and> 2 \<le> length p \<and> length p \<le> 16 \<and> CHR ''a'' \<le> hd p \<and> hd p \<le> CHR ''z'' \<and>
            list_all word_char (tl p) \<and> tag_body un (tl rest)
         then Some (p, tl rest) else None)"

definition filterTags :: "unicode_tables \<Rightarrow> string list \<Rightarrow> (string \<Rightarrow> bool) \<Rightarrow> string list" where
  "filterTags un tags namespaces =
     filter (\<lambda>s. case prefixedTag un s of None \<Rightarrow> False | Some (p, _) \<Rightarrow> namespaces p) tags"

text \<open>
  \<open>preCheck\<close> stands for the loop over the configured validators that add tags: the non-empty tag
  of the first of them, in Go's map order, whose \<^verbatim>\<open>PreCheck\<close> recognises the token.
\<close>

definition rewriteTag :: "unicode_tables \<Rightarrow> (string \<Rightarrow> string \<Rightarrow> string option) \<Rightarrow> string \<Rightarrow> string \<Rightarrow> string list" where
  "rewriteTag un preCheck orig countryCode =
     (if prefixedTag un orig \<noteq> None then [orig]
      else (case preCheck orig countryCode of
          Some tag \<Rightarrow> [orig, tag]
        | None \<Rightarrow> if tag_body un orig then [orig] else []))"

fun rewriteTagSlice ::
  "unicode_tables \<Rightarrow> (string \<Rightarrow> string \<Rightarrow> string option) \<Rightarrow> string list \<Rightarrow> string \<Rightarrow> string list" where
  "rewriteTagSlice un preCheck [] countryCode = []"
| "rewriteTagSlice un preCheck (tag # tags) countryCode =
     rewriteTag un preCheck tag countryCode @ rewriteTagSlice un preCheck tags countryCode"

definition restrictedTagsEqual ::
  "unicode_tables \<Rightarrow> string list \<Rightarrow> string list \<Rightarrow> (string \<Rightarrow> bool) \<Rightarrow> bool" where
  "restrictedTagsEqual un oldTags newTags namespaces =
     (let rold = filterTags un oldTags namespaces; rnew = filterTags un newTags namespaces
      in if length rold \<noteq> length rnew then False
         else list_all2 (=) (sort rold) (sort rnew))"

fun normalizeTags_loop :: "unicode_tables \<Rightarrow> string \<Rightarrow> string list \<Rightarrow> string list \<Rightarrow> string list option" where
  "normalizeTags_loop un prev dst [] = Some dst"
| "normalizeTags_loop un prev dst (tag # src) =
     (if tag = nullValue then None
      else
        (let utag = runes tag
         in if length utag < minTagLength \<or> length utag > maxTagLength \<or> tag = prev
            then normalizeTags_loop un prev dst src
            else if IsLetter un (hd utag) \<or> IsDigit un (hd utag)
            then normalizeTags_loop un tag (dst @ [tag]) src
            else normalizeTags_loop un prev dst src))"

text \<open>
  A nil slice is \<open>None\<close>. The non-nil empty slice that asks to clear the tags is \<open>Some []\<close>; a run that
  keeps nothing leaves \<^verbatim>\<open>dst\<close> nil.
\<close>

definition normalizeTags :: "unicode_tables \<Rightarrow> string list option \<Rightarrow> nat \<Rightarrow> string list option" where
  "normalizeTags un src maxTags =
     (case src of
        None \<Rightarrow> None
      | Some src \<Rightarrow>
          (let src = (if length src > maxTags then take maxTags src else src);
               src = sort (map (\<lambda>s. ToLower (un_lower un) (TrimSpace un s)) src)
           in case normalizeTags_loop un [] [] src of
                None \<Rightarrow> Some []
              | Some dst \<Rightarrow> if dst = [] then None else Some dst))"

definition validateTag :: "unicode_tables \<Rightarrow> string \<Rightarrow> string \<times> string" where
  "validateTag un tag =
     (case prefixedTag un tag of
        Some (p, b) \<Rightarrow> (p, b)
      | None \<Rightarrow> if tag_body un tag then ([], tag) else ([], []))"

fun hasDuplicateNamespaceTags_loop ::
  "unicode_tables \<Rightarrow> string set \<Rightarrow> string list \<Rightarrow> string \<Rightarrow> bool" where
  "hasDuplicateNamespaceTags_loop un found [] uniqueNS = False"
| "hasDuplicateNamespaceTags_loop un found (tag # src) uniqueNS =
     (case prefixedTag un tag of
        None \<Rightarrow> hasDuplicateNamespaceTags_loop un found src uniqueNS
      | Some (p, _) \<Rightarrow>
          if uniqueNS = p \<and> p \<in> found then True
          else hasDuplicateNamespaceTags_loop un (insert p found) src uniqueNS)"

definition hasDuplicateNamespaceTags :: "unicode_tables \<Rightarrow> string list \<Rightarrow> string \<Rightarrow> bool" where
  "hasDuplicateNamespaceTags un src uniqueNS = hasDuplicateNamespaceTags_loop un {} src uniqueNS"

subsection \<open>Small string functions\<close>

definition truncateStringIfTooLong :: "string \<Rightarrow> string" where
  "truncateStringIfTooLong s = (if length s \<le> 1024 then s else take 1024 s @ ''...'')"

definition platformFromUA :: "unicode_tables \<Rightarrow> string \<Rightarrow> string" where
  "platformFromUA un ua0 =
     (let ua = ToLower (un_lower un) ua0
      in if Contains ua ''reactnative'' then
           (if Contains ua ''iphone'' \<or> Contains ua ''ipad'' then ''ios''
            else if Contains ua ''android'' then ''android''
            else [])
         else if Contains ua ''tinodejs'' then ''web''
         else if Contains ua ''tindroid'' then ''android''
         else if Contains ua ''tinodios'' then ''ios''
         else [])"

definition isUnixAddr :: "string \<Rightarrow> bool" where
  "isUnixAddr addr = (let addrParts = SplitN addr (CHR '':'') 2
     in length addrParts = 2 \<and> addrParts ! 0 = ''unix'')"

subsection \<open>Deep merge\<close>

text \<open>
  \<^verbatim>\<open>mergeMaps\<close> and \<^verbatim>\<open>mergeInterfaces\<close>. A nil \<^verbatim>\<open>map[string]any\<close> is \<open>None\<close> as an argument;
  stored inside a value it is the empty map. A string equal to the null value deletes a key.
\<close>

definition as_map :: "go_any \<Rightarrow> go_map option" where
  "as_map v = (case v of AMap m \<Rightarrow> Some m | _ \<Rightarrow> None)"

definition map_value :: "go_map option \<Rightarrow> go_any" where
  "map_value m = AMap (case m of None \<Rightarrow> [] | Some a \<Rightarrow> a)"

text \<open>\<open>merge_entries\<close> is the loop over the source map, started on a non-nil destination.\<close>

fun merge_entries :: "go_map \<Rightarrow> bool \<Rightarrow> go_map \<Rightarrow> go_map \<times> bool" where
  "merge_entries dst changed [] = (dst, changed)"
| "merge_entries dst changed ((key, AMap xsrc) # src) =
     (let xdst = as_map (mget dst key);
          (v, lchange) =
            (if xsrc = [] then (xdst, False)
             else (let (m, c) = merge_entries (case xdst of None \<Rightarrow> [] | Some a \<Rightarrow> a) False xsrc in (Some m, c)))
      in merge_entries (mset_key dst key (map_value v)) (changed \<or> lchange) src)"
| "merge_entries dst changed ((key, AStr s) # src) =
     merge_entries (if s = nullValue then mdel_key dst key else mset_key dst key (AStr s)) True src"
| "merge_entries dst changed ((key, ANil) # src) = merge_entries dst changed src"
| "merge_entries dst changed ((key, val) # src) = merge_entries (mset_key dst key val) True src"

definition mergeMaps :: "go_map option \<Rightarrow> go_map \<Rightarrow> go_map option \<times> bool" where
  "mergeMaps dst src =
     (if src = [] then (dst, False)
      else (let (m, c) = merge_entries (case dst of None \<Rightarrow> [] | Some a \<Rightarrow> a) False src in (Some m, c)))"

definition mergeInterfaces :: "go_any \<Rightarrow> go_any \<Rightarrow> go_any \<times> bool" where
  "mergeInterfaces dst src =
     (case src of
        ANil \<Rightarrow> (dst, False)
      | AMap xsrc \<Rightarrow> (let (m, c) = mergeMaps (as_map dst) xsrc in (map_value m, c))
      | AStr s \<Rightarrow> if s = nullValue then (ANil, dst \<noteq> ANil) else (src, True)
      | _ \<Rightarrow> (src, True))"

subsection \<open>Slices as multisets\<close>

lemma stringSliceDelta_loop_mset:
  assumes "sorted rold" "sorted rnew" "stringSliceDelta_loop rold rnew a r c = (a', r', c')"
  shows "mset a' = mset a + (mset rnew - mset rold) \<and> mset r' = mset r + (mset rold - mset rnew) \<and>
    mset c' = mset c + (mset rold \<inter># mset rnew)"
  using assms
proof (induction rold rnew a r c rule: stringSliceDelta_loop.induct)
  case (1 rold rnew a r c)
  note unfold = stringSliceDelta_loop.simps [of rold rnew a r c]
  consider (fin) "rold = []" "rnew = []" | (add) "rold = [] \<or> hd rold > hd rnew" "rnew \<noteq> []"
    | (rem) "rnew = [] \<or> hd rold < hd rnew" "rold \<noteq> []"
    | (both) "rold \<noteq> []" "rnew \<noteq> []" "hd rold = hd rnew" by fastforce
  then show ?case
  proof cases
    case fin
    with 1 unfold show ?thesis by simp
  next
    case add
    then obtain n ns where new: "rnew = n # ns" by (cases rnew) auto
    have "n \<notin># mset rold" using add 1(4) by (cases rold) (auto simp: new)
    moreover have "stringSliceDelta_loop rold ns (a @ [n]) r c = (a', r', c')"
      using add 1(6) unfold by (auto simp: new)
    ultimately show ?thesis
      using 1(1) 1(4,5) add
      by (auto simp: new diff_add_mset_swap minus_add_mset_if_not_in_lhs inter_add_right1)
  next
    case rem
    then obtain x xs where old: "rold = x # xs" by (cases rold) auto
    have "x \<notin># mset rnew" using rem 1(5) by (cases rnew) (auto simp: old)
    moreover have nx: "\<not> (rnew \<noteq> [] \<and> hd rold > hd rnew)" using rem by (auto simp: old)
    then have "stringSliceDelta_loop xs rnew a (r @ [x]) c = (a', r', c')"
      using rem 1(6) unfold by (auto simp: old)
    ultimately show ?thesis
      using 1(2) 1(4,5) rem nx
      by (auto simp: old diff_add_mset_swap minus_add_mset_if_not_in_lhs inter_add_left1)
  next
    case both
    then obtain x xs ns where l: "rold = x # xs" "rnew = x # ns" by (cases rold; cases rnew) auto
    have "stringSliceDelta_loop xs ns a r (c @ [x]) = (a', r', c')"
      using 1(6) unfold by (auto simp: l)
    then show ?thesis using 1(3) 1(4,5) by (auto simp: l inter_add_right2)
  qed
qed

lemma stringSliceDelta_mset:
  assumes "stringSliceDelta rold rnew = (added, removed, common)"
  shows "mset added = mset rnew - mset rold \<and> mset removed = mset rold - mset rnew \<and>
     mset common = mset rold \<inter># mset rnew"
proof -
  obtain a r c where loop: "stringSliceDelta_loop (sort rold) (sort rnew) [] [] [] = (a, r, c)"
    by (metis prod_cases3)
  then show ?thesis
    using stringSliceDelta_loop_mset [OF _ _ loop] assms by (auto simp: stringSliceDelta_def split: if_splits)
qed

text \<open>
  The single pass over the two sorted slices computes multiset differences: the strings added
  are those of the new slice beyond the old one, the strings removed those of the old slice beyond
  the new one, and the intersection is what both have, each with its multiplicity, also in the
  early returns for empty slices.
\<close>

theorem string_slice_delta_multisets:
  "\<exists>added removed common. stringSliceDelta rold rnew = (added, removed, common) \<and>
     mset added = mset rnew - mset rold \<and> mset removed = mset rold - mset rnew \<and>
     mset common = mset rold \<inter># mset rnew"
  using stringSliceDelta_mset [of rold rnew] by (cases "stringSliceDelta rold rnew") blast

lemma sort_eq_iff_mset: "sort xs = sort ys \<longleftrightarrow> mset xs = mset ys"
  by (metis mset_sort properties_for_sort sorted_sort)

lemma restrictedTagsEqual_mset:
  "restrictedTagsEqual un oldTags newTags ns \<longleftrightarrow>
     mset (filterTags un oldTags ns) = mset (filterTags un newTags ns)"
  by (simp add: restrictedTagsEqual_def Let_def list.rel_eq sort_eq_iff_mset) (metis size_mset)

subsection \<open>Normalised tags\<close>

definition valid_tag :: "unicode_tables \<Rightarrow> string \<Rightarrow> bool" where
  "valid_tag un t \<longleftrightarrow>
     (let rs = runes t
      in minTagLength \<le> length rs \<and> length rs \<le> maxTagLength \<and> (IsLetter un (hd rs) \<or> IsDigit un (hd rs)))"

lemma normalizeTags_loop_valid:
  assumes "sorted src" "nullValue \<notin> set src" "prev = (if dst = [] then [] else last dst)"
    "sorted_wrt (<) dst" "\<forall>d \<in> set dst. \<forall>t \<in> set src. d \<le> t"
  shows "\<exists>ts. normalizeTags_loop un prev dst src = Some ts \<and> sorted_wrt (<) ts \<and>
    set ts = set dst \<union> {t \<in> set src. valid_tag un t}"
  using assms
proof (induction src arbitrary: prev dst)
  case Nil
  then show ?case by simp
next
  case (Cons t src)
  have tl: "sorted src" "nullValue \<notin> set src" "t \<noteq> nullValue" and rest: "\<forall>u \<in> set src. t \<le> u"
    using Cons.prems by auto
  show ?case
  proof (cases "valid_tag un t \<and> t \<noteq> prev")
    case True
    have "t \<notin> set dst"
    proof
      assume mem: "t \<in> set dst"
      then have "last dst \<in> set dst" by (cases dst) auto
      then have "last dst \<le> t" using Cons.prems(5) by auto
      moreover have "t \<le> last dst"
        using mem Cons.prems(4) by (cases dst rule: rev_cases) (auto simp: sorted_wrt_append less_imp_le)
      ultimately show False using True mem Cons.prems(3) by (auto split: if_splits)
    qed
    with Cons.prems(5) have lt: "\<forall>d \<in> set dst. d < t" by (auto simp: order.strict_iff_order)
    have "\<exists>ts. normalizeTags_loop un t (dst @ [t]) src = Some ts \<and> sorted_wrt (<) ts \<and>
        set ts = set (dst @ [t]) \<union> {t \<in> set src. valid_tag un t}"
      using Cons.prems lt rest tl by (intro Cons.IH) (auto simp: sorted_wrt_append)
    with True tl(3) show ?thesis by (auto simp: valid_tag_def Let_def)
  next
    case False
    have dup: "t \<in> set dst" if "valid_tag un t" "t = prev"
    proof -
      have "t \<noteq> []" using that(1) by (auto simp: valid_tag_def minTagLength_def Let_def runes.simps [of "[]"])
      then show ?thesis using that(2) Cons.prems(3) by (auto split: if_splits)
    qed
    have skip: "normalizeTags_loop un prev dst (t # src) = normalizeTags_loop un prev dst src"
      using False tl(3) by (auto simp: valid_tag_def Let_def)
    have IH: "\<exists>ts. normalizeTags_loop un prev dst src = Some ts \<and> sorted_wrt (<) ts \<and>
        set ts = set dst \<union> {t \<in> set src. valid_tag un t}"
      using Cons.prems tl by (intro Cons.IH) auto
    have "valid_tag un t \<longrightarrow> t \<in> set dst" using dup False by blast
    then have "set dst \<union> {u \<in> set (t # src). valid_tag un u} = set dst \<union> {u \<in> set src. valid_tag un u}"
      unfolding list.set by blast
    with IH show ?thesis by (simp only: skip)
  qed
qed

lemma normalizeTags_loop_null: "nullValue \<in> set src \<Longrightarrow> normalizeTags_loop un prev dst src = None"
  by (induction src arbitrary: prev dst) (auto simp: Let_def)

text \<open>
  Normalised tags are determined: of the first \<open>maxTags\<close> tags, trimmed and in lower case, the
  result is the ascending list without repetition of those that have between 2 and 96 characters and
  start with a letter or a digit; no tag left gives nil, and the null value among them clears the tags.
\<close>

theorem normalize_tags_spec:
  "normalizeTags un (Some src) maxTags =
     (let cand = (\<lambda>s. ToLower (un_lower un) (TrimSpace un s)) ` set (take maxTags src);
          ts = sorted_list_of_set {t \<in> cand. valid_tag un t}
      in if nullValue \<in> cand then Some [] else if ts = [] then None else Some ts)"
proof -
  let ?f = "\<lambda>s. ToLower (un_lower un) (TrimSpace un s)"
  let ?s = "sort (map ?f (take maxTags src))"
  have set_s: "set ?s = ?f ` set (take maxTags src)" by simp
  have trunc: "(if length src > maxTags then take maxTags src else src) = take maxTags src" by simp
  show ?thesis
  proof (cases "nullValue \<in> set ?s")
    case True
    then show ?thesis
      using normalizeTags_loop_null [OF True] by (simp only: normalizeTags_def trunc option.case Let_def set_s) simp
  next
    case False
    obtain ts where ts: "normalizeTags_loop un [] [] ?s = Some ts" "sorted_wrt (<) ts"
        "set ts = {t \<in> set ?s. valid_tag un t}"
      using normalizeTags_loop_valid [of ?s "[]" "[]" un] False by auto
    then have "ts = sorted_list_of_set {t \<in> ?f ` set (take maxTags src). valid_tag un t}"
      by (metis set_s sorted_list_of_set.idem_if_sorted_distinct strict_sorted_iff)
    with ts(1) False show ?thesis
      by (simp only: normalizeTags_def trunc option.case Let_def set_s) simp
  qed
qed

subsection \<open>Credentials\<close>

definition eligible :: "(string \<Rightarrow> bool) \<Rightarrow> bool \<Rightarrow> MsgCredClient \<Rightarrow> bool" where
  "eligible validators valueRequired c \<longleftrightarrow> validators (cred_Method c) \<and> (\<not> valueRequired \<or> cred_Value c \<noteq> [])"

lemma credential_index_map:
  "map_of (credential_index v r idx creds) m =
     (case find (\<lambda>d. eligible v r d \<and> cred_Method d = m) (rev creds) of
        Some c \<Rightarrow> Some c | None \<Rightarrow> map_of idx m)"
proof (induction creds arbitrary: idx)
  case (Cons c creds)
  have "find P (xs @ [c]) = (case find P xs of Some d \<Rightarrow> Some d | None \<Rightarrow> if P c then Some c else None)"
    for P xs by (induction xs) auto
  then show ?case
    by (auto simp: Cons.IH eligible_def update_conv split: option.splits)
qed simp

lemma credential_index_keys:
  "distinct (map fst idx) \<Longrightarrow> distinct (map fst (credential_index v r idx creds))"
  by (induction creds arbitrary: idx) (simp_all add: distinct_update)

lemma update_methods:
  "(\<And>m c. (m, c) \<in> set idx \<Longrightarrow> m = cred_Method c) \<Longrightarrow>
     (m, c) \<in> set (AList.update (cred_Method d) d idx) \<Longrightarrow> m = cred_Method c"
  by (induction idx) (auto split: if_splits)

lemma credential_index_methods:
  assumes "\<And>m c. (m, c) \<in> set idx \<Longrightarrow> m = cred_Method c"
    and "(m, c) \<in> set (credential_index v r idx creds)"
  shows "m = cred_Method c"
  using assms
proof (induction creds arbitrary: idx)
  case (Cons d creds)
  show ?case
  proof (rule Cons.IH)
    show "(m, c) \<in> set (credential_index v r (if v (cred_Method d) \<and> (\<not> r \<or> cred_Value d \<noteq> [])
        then AList.update (cred_Method d) d idx else idx) creds)"
      using Cons.prems(2) by simp
    show "m' = cred_Method c'" if "(m', c') \<in> set (if v (cred_Method d) \<and> (\<not> r \<or> cred_Value d \<noteq> [])
        then AList.update (cred_Method d) d idx else idx)" for m' c'
      using that Cons.prems(1) update_methods [of idx m' c' d, OF Cons.prems(1)] by (simp split: if_splits)
  qed
qed simp

lemma credential_index_find:
  "map_of (credential_index v r [] creds) m = find (\<lambda>d. eligible v r d \<and> cred_Method d = m) (rev creds)"
  by (simp add: credential_index_map split: option.split)

text \<open>
  Whatever order Go iterates the index in, normalised credentials have each method at most once,
  and for every method with an eligible credential (a known method, with a value when one is
  required) exactly the last eligible one of the request.
\<close>

theorem normalize_credentials_last:
  assumes "\<And>idx. mset (order idx) = mset idx"
  shows "distinct (credentialMethods (normalizeCredentials order v creds r)) \<and>
    (c \<in> set (normalizeCredentials order v creds r) \<longleftrightarrow>
       find (\<lambda>d. eligible v r d \<and> cred_Method d = cred_Method c) (rev creds) = Some c)"
proof (cases "creds = []")
  case False
  let ?idx = "credential_index v r [] creds"
  have keys: "distinct (map fst ?idx)" by (rule credential_index_keys) simp
  have meth: "p \<in> set ?idx \<Longrightarrow> fst p = cred_Method (snd p)" for p
    using credential_index_methods [of "[]" "fst p" "snd p" v r creds] by simp
  then have "map (cred_Method \<circ> snd) ?idx = map fst ?idx" by simp
  moreover have "mset (map (cred_Method \<circ> snd) (order ?idx)) = mset (map (cred_Method \<circ> snd) ?idx)"
    using assms [of ?idx] by (metis mset_map)
  ultimately have "distinct (map (cred_Method \<circ> snd) (order ?idx))"
    using keys by (metis distinct_count_atmost_1 set_mset_mset)
  then have "distinct (credentialMethods (normalizeCredentials order v creds r))"
    using False by (simp add: credentialMethods_def normalizeCredentials_def)
  moreover have "c \<in> set (normalizeCredentials order v creds r) \<longleftrightarrow> c \<in> snd ` set ?idx"
    using False mset_eq_setD [OF assms [of ?idx]] by (simp add: normalizeCredentials_def)
  moreover have "c \<in> snd ` set ?idx \<longleftrightarrow> (cred_Method c, c) \<in> set ?idx"
  proof
    assume "c \<in> snd ` set ?idx"
    then obtain p where "p \<in> set ?idx" "c = snd p" by blast
    with meth [of p] show "(cred_Method c, c) \<in> set ?idx" by (cases p) simp
  next
    assume "(cred_Method c, c) \<in> set ?idx"
    then show "c \<in> snd ` set ?idx" by force
  qed
  moreover have "(cred_Method c, c) \<in> set ?idx \<longleftrightarrow> map_of ?idx (cred_Method c) = Some c"
    using keys by (simp only: map_of_eq_Some_iff)
  ultimately show ?thesis by (simp only: credential_index_find)
qed (simp add: normalizeCredentials_def credentialMethods_def)

theorem normalize_credentials_last_witness:
  "let c1 = \<lparr>cred_Method = ''email'', cred_Value = ''a'', cred_Response = [], cred_Params = []\<rparr>;
       c2 = c1\<lparr>cred_Value := ''b''\<rparr>
   in c2 \<in> set (normalizeCredentials rev (\<lambda>m. m = ''email'') [c1, c2] True) \<and>
      c1 \<notin> set (normalizeCredentials rev (\<lambda>m. m = ''email'') [c1, c2] True)"
proof -
  have "mset (rev xs) = mset xs" for xs :: "(string \<times> MsgCredClient) list" by simp
  note last = normalize_credentials_last [of rev, OF this, THEN conjunct2]
  show ?thesis unfolding Let_def by (simp add: last eligible_def)
qed

subsection \<open>Store errors\<close>

lemmas store_error_defs = types_ErrInternal_def types_ErrMalformed_def types_ErrFailed_def
  types_ErrDuplicate_def types_ErrUnsupported_def types_ErrExpired_def types_ErrPolicy_def
  types_ErrCredentials_def types_ErrUserNotFound_def types_ErrTopicNotFound_def types_ErrNotFound_def
  types_ErrPermissionDenied_def types_ErrInvalidResponse_def types_ErrRedirected_def

lemma storeErrorReply_Some:
  assumes "storeErrorReply e i topic ts its params = Some m"
  shows "scm_Id m = i \<and> scm_Timestamp m = its \<and> (\<exists>c. Ctrl m = Some c \<and> ctrl_Id c = i \<and>
      (300 \<le> ctrl_Code c \<and> ctrl_Code c < 400 \<longleftrightarrow> e \<in> {types_ErrCredentials, types_ErrRedirected}) \<and>
      (400 \<le> ctrl_Code c \<and> ctrl_Code c < 600 \<longleftrightarrow> e \<notin> {types_ErrCredentials, types_ErrRedirected}))"
  using assms
  by (auto simp: storeErrorReply_def reply_defs ctrl_defs store_error_defs
      split: if_splits go_any.splits)

lemma storeErrorReply_None:
  "storeErrorReply e i topic ts its params = None \<longleftrightarrow>
     e = types_ErrRedirected \<and> (\<nexists>other. mget (case params of None \<Rightarrow> [] | Some m \<Rightarrow> m) ''topic'' = AStr other)"
  by (auto simp: storeErrorReply_def store_error_defs split: if_splits go_any.splits)

text \<open>
  Every outcome of a store operation is answered: the reply carries the id of the request, a
  code of the 200s exactly for success, of the 300s exactly for a credential validation or a
  redirection and of the 400s or 500s for every other error; the only outcome without a reply is the
  panic on a redirection whose parameters hold no topic name.
\<close>

theorem store_error_reply_class:
  "(decodeStoreErrorExplicitTs err i topic ts its params = None \<longleftrightarrow>
      err = StoreErr types_ErrRedirected \<and>
      (\<nexists>other. mget (case params of None \<Rightarrow> [] | Some m \<Rightarrow> m) ''topic'' = AStr other)) \<and>
   (\<forall>m. decodeStoreErrorExplicitTs err i topic ts its params = Some m \<longrightarrow>
      scm_Id m = i \<and> scm_Timestamp m = its \<and>
      (200 \<le> ctrl_code m \<and> ctrl_code m < 300 \<longleftrightarrow> err = NilErr) \<and>
      (300 \<le> ctrl_code m \<and> ctrl_code m < 400 \<longleftrightarrow>
         err \<in> {StoreErr types_ErrCredentials, StoreErr types_ErrRedirected}))"
proof (intro conjI allI impI)
  show "decodeStoreErrorExplicitTs err i topic ts its params = None \<longleftrightarrow>
      err = StoreErr types_ErrRedirected \<and>
      (\<nexists>other. mget (case params of None \<Rightarrow> [] | Some m \<Rightarrow> m) ''topic'' = AStr other)"
    by (cases err; cases params) (simp_all add: decodeStoreErrorExplicitTs_def storeErrorReply_None)
next
  fix m assume dec: "decodeStoreErrorExplicitTs err i topic ts its params = Some m"
  obtain r where r: "(case err of NilErr \<Rightarrow> Some (NoErrExplicitTs i topic ts its)
        | OtherErr _ \<Rightarrow> Some (ErrUnknownExplicitTs i topic ts its)
        | StoreErr e \<Rightarrow> storeErrorReply e i topic ts its params) = Some r"
      and m: "scm_Id m = scm_Id r" "scm_Timestamp m = scm_Timestamp r" "ctrl_code m = ctrl_code r"
    using dec by (cases params) (auto simp: decodeStoreErrorExplicitTs_def Let_def ctrl_code_def
        split: option.splits)
  have "scm_Id r = i \<and> scm_Timestamp r = its \<and>
      (200 \<le> ctrl_code r \<and> ctrl_code r < 300 \<longleftrightarrow> err = NilErr) \<and>
      (300 \<le> ctrl_code r \<and> ctrl_code r < 400 \<longleftrightarrow>
         err \<in> {StoreErr types_ErrCredentials, StoreErr types_ErrRedirected})"
  proof (cases err)
    case (StoreErr e)
    with r storeErrorReply_Some [of e i topic ts its params r] show ?thesis
      by (auto simp: ctrl_code_def)
  qed (use r in \<open>auto simp: reply_defs ctrl_defs ctrl_code_def\<close>)
  with m show "scm_Id m = i" "scm_Timestamp m = its"
      "200 \<le> ctrl_code m \<and> ctrl_code m < 300 \<longleftrightarrow> err = NilErr"
      "300 \<le> ctrl_code m \<and> ctrl_code m < 400 \<longleftrightarrow>
         err \<in> {StoreErr types_ErrCredentials, StoreErr types_ErrRedirected}"
    by simp_all
qed

theorem store_error_reply_class_witness:
  "\<exists>m. decodeStoreErrorExplicitTs (StoreErr types_ErrPolicy) ''42'' ''grpA'' 5 4 None = Some m \<and>
     scm_Id m = ''42'' \<and> \<not> (200 \<le> ctrl_code m \<and> ctrl_code m < 300)"
  using store_error_reply_class [of "StoreErr types_ErrPolicy" "''42''" "''grpA''" 5 4 None]
  by (auto simp: store_error_defs)

subsection \<open>Versions\<close>

lemma digit_char_facts:
  assumes "is_digit_char c"
  shows "is_ascii c" "IsDigit un (of_char c)" "c \<noteq> CHR ''.''" "c \<noteq> CHR ''v''"
proof -
  show "c \<noteq> CHR ''.''" "c \<noteq> CHR ''v''" using assms by (auto simp: is_digit_char_def)
qed (use assms in \<open>simp_all add: is_digit_char_def is_ascii_def IsDigit_def\<close>)

lemma index_non_digit_digits:
  "list_all is_digit_char ds \<Longrightarrow>
     index_non_digit un (ds @ rest) = map_option (\<lambda>k. length ds + k) (index_non_digit un rest)"
proof (induction ds)
  case Nil
  then show ?case by (cases "index_non_digit un rest") simp_all
next
  case (Cons c ds)
  have "(+) (Suc 0) = Suc" by (simp add: fun_eq_iff)
  with Cons have "index_non_digit un ((c # ds) @ rest) = map_option Suc (index_non_digit un (ds @ rest))"
    by (simp add: index_non_digit.simps [of un "c # ds @ rest"] digit_char_facts)
  with Cons show ?case by (simp add: option.map_comp comp_def)
qed

lemma parseVersionPart_FormatInt:
  assumes "0 \<le> i" "i \<le> 0x1fff" "rest = [] \<or> (\<exists>t. rest = CHR ''-'' # t)"
  shows "parseVersionPart un (FormatInt i @ rest) = i"
proof -
  have atoi: "Atoi (FormatInt i) = Some i" using assms by (intro Atoi_FormatInt) auto
  have ne: "FormatInt i \<noteq> []" using assms(1) by (simp add: FormatInt_def digits10_ne)
  have "index_non_digit un rest = (if rest = [] then None else Some 0)"
    using assms(3) by (auto simp: index_non_digit.simps [of un "[]"] index_non_digit.simps [of un "_ # _"]
        is_ascii_def IsDigit_def)
  then have "index_non_digit un (FormatInt i @ rest) = (if rest = [] then None else Some (length (FormatInt i)))"
    by (simp add: index_non_digit_digits [OF FormatInt_pos_digits [OF assms(1)]])
  with atoi ne assms show ?thesis by (auto simp: parseVersionPart_def)
qed

lemma SplitN_acc_skip:
  "sep \<notin> set s \<Longrightarrow> n > 1 \<Longrightarrow> SplitN_acc acc (s @ t) sep n = SplitN_acc (acc @ s) t sep n"
  by (induction s arbitrary: acc) auto

lemma SplitN_two:
  assumes "sep \<notin> set a" "sep \<notin> set b"
  shows "SplitN (a @ sep # b) sep 3 = [a, b]"
  using SplitN_acc_skip [OF assms(1), of 3 "[]" "sep # b"] SplitN_acc_skip [OF assms(2), of 2 "[]" "[]"]
  by (simp add: SplitN_def)

lemma FormatInt_no_dot: "0 \<le> i \<Longrightarrow> CHR ''.'' \<notin> set (FormatInt i)"
  using FormatInt_pos_digits [of i] digit_char_facts(3) by (auto simp: list_all_iff)

text \<open>
  A version number survives its text form up to the trailer: parsing the string of any version
  with a major part up to 8191 gives back its major and minor parts with a zero trailer, so the two
  compare as equal.
\<close>

theorem version_string_roundtrip:
  assumes "0 \<le> v" "v < 2 ^ 29"
  shows "parseVersion un (versionToString v) = push_bit 8 (drop_bit 8 v) \<and>
    versionCompare (parseVersion un (versionToString v)) v = 0"
proof -
  let ?M = "drop_bit 16 v" and ?m = "drop_bit 8 v AND 0xff" and ?p = "v AND 0xff"
  let ?t = "if ?p \<noteq> 0 then ''-'' @ FormatInt ?p else []"
  have M: "0 \<le> ?M" "?M \<le> 0x1fff" using assms by (simp_all add: drop_bit_eq_div)
  have mod: "x AND 0xff = x mod 256" for x :: int using take_bit_eq_mask [of 8 x]
    by (simp add: take_bit_eq_mod mask_eq_exp_minus_1)
  have m: "0 \<le> ?m" "?m \<le> 0x1fff" "0 \<le> ?p"
    using pos_mod_bound [of 256 "drop_bit 8 v"] by (simp_all add: mod)
  have dots: "CHR ''.'' \<notin> set (FormatInt ?M)" "CHR ''.'' \<notin> set (FormatInt ?m @ ?t)"
    using M m by (auto simp: FormatInt_no_dot)
  have "hd (FormatInt ?M) \<noteq> CHR ''v''" "FormatInt ?M \<noteq> []"
    using M(1) FormatInt_pos_digits [OF M(1)] digit_char_facts(4)
    by (cases "FormatInt ?M"; auto simp: FormatInt_def digits10_ne)+
  then have "TrimPrefix (versionToString v) ''v'' = versionToString v"
    by (cases "FormatInt ?M") (simp_all add: TrimPrefix_def HasPrefix_def versionToString_def)
  moreover have "versionToString v = FormatInt ?M @ CHR ''.'' # (FormatInt ?m @ ?t)"
    by (simp add: versionToString_def)
  ultimately have parts: "SplitN (TrimPrefix (versionToString v) ''v'') (CHR ''.'') 3 = [FormatInt ?M, FormatInt ?m @ ?t]"
    using SplitN_two [OF dots] by metis
  have "parseVersionPart un (FormatInt ?M) = ?M" "parseVersionPart un (FormatInt ?m @ ?t) = ?m"
    using parseVersionPart_FormatInt [OF M, of "[]" un] parseVersionPart_FormatInt [OF m(1,2), of ?t un] by auto
  then have eq: "parseVersion un (versionToString v) = push_bit 16 ?M OR push_bit 8 ?m"
    by (simp add: parseVersion_def parts)
  also have "\<dots> = push_bit 8 (drop_bit 8 v)"
  proof (rule bit_eqI)
    fix n :: nat
    have ff: "bit (0xff :: int) k \<longleftrightarrow> k < 8" for k
      using bit_mask_iff [of 8 k, where 'a = int] by (simp add: mask_eq_exp_minus_1)
    have "8 \<le> n \<Longrightarrow> 8 + (n - 8) = n" "16 \<le> n \<Longrightarrow> 16 + (n - 16) = n"
      "n - 8 < 8 \<longleftrightarrow> \<not> 16 \<le> n" by linarith+
    then show "bit (push_bit 16 ?M OR push_bit 8 ?m) n \<longleftrightarrow> bit (push_bit 8 (drop_bit 8 v)) n"
      by (simp only: bit_or_iff bit_push_bit_iff_int bit_drop_bit_eq bit_and_iff ff comp_def) auto
  qed
  finally show ?thesis by (simp add: versionCompare_def drop_bit_eq_div push_bit_eq_mult)
qed

theorem version_string_roundtrip_witness:
  "parseVersion ascii_tables (versionToString 0x1604) = 0x1600 \<and>
   versionCompare (parseVersion ascii_tables (versionToString 0x1604)) 0x1604 = 0"
proof -
  have v: "0 \<le> (0x1604 :: int)" "0x1604 < (2 :: int) ^ 29" by simp_all
  have "push_bit 8 (drop_bit 8 (0x1604 :: int)) = 0x1600" by simp
  with version_string_roundtrip [OF v, of ascii_tables] show ?thesis by metis
qed

subsection \<open>Deep merge\<close>

text \<open>What a merge leaves at a key that held \<open>old\<close> when the source has \<open>v\<close> there.\<close>

fun merged :: "go_any option \<Rightarrow> go_any \<Rightarrow> go_any option" where
  "merged old (AMap x) = Some (map_value (fst (mergeMaps (Option.bind old as_map) x)))"
| "merged old (AStr s) = (if s = nullValue then None else Some (AStr s))"
| "merged old ANil = old"
| "merged old v = Some v"

lemma as_map_mget: "as_map (mget m k) = Option.bind (map_of m k) as_map"
  by (cases "map_of m k") (simp_all add: mget_def as_map_def)

lemma merge_entries_Cons:
  "merge_entries dst c ((k, v) # src) =
     merge_entries
       (case v of ANil \<Rightarrow> dst
        | _ \<Rightarrow> (case merged (map_of dst k) v of None \<Rightarrow> mdel_key dst k | Some w \<Rightarrow> mset_key dst k w))
       (c \<or> (case v of ANil \<Rightarrow> False | AMap x \<Rightarrow> snd (mergeMaps (as_map (mget dst k)) x) | _ \<Rightarrow> True)) src"
proof (cases v)
  case (AMap x)
  then show ?thesis
    by (cases "as_map (mget dst k)")
      (auto simp: mergeMaps_def Let_def as_map_mget split: prod.splits)
qed simp_all

lemma merge_entries_step:
  "\<exists>dst' c'. merge_entries dst c ((k, v) # src) = merge_entries dst' c' src \<and>
     map_of dst' = (map_of dst)(k := merged (map_of dst k) v)"
proof (cases "v = ANil")
  case True
  have "map_of dst = (map_of dst)(k := map_of dst k)" by simp
  with True show ?thesis by (metis merge_entries.simps(4) merged.simps(3))
next
  case False
  then show ?thesis
    unfolding merge_entries_Cons
    by (cases v; cases "merged (map_of dst k) v") (auto simp: map_of_mset_key map_of_mdel_key)
qed

lemma merge_entries_lookup:
  assumes "distinct (map fst src)"
  shows "map_of (fst (merge_entries dst c src)) k =
    (case map_of src k of None \<Rightarrow> map_of dst k | Some v \<Rightarrow> merged (map_of dst k) v)"
  using assms
proof (induction src arbitrary: dst c)
  case (Cons p src)
  obtain key v where p: "p = (key, v)" by (cases p)
  obtain dst' c' where step: "merge_entries dst c (p # src) = merge_entries dst' c' src"
      "map_of dst' = (map_of dst)(key := merged (map_of dst key) v)"
    using merge_entries_step [of dst c key v src] p by blast
  have "map_of src key = None" using Cons.prems by (simp add: p map_of_eq_None_iff)
  with step Cons show ?case by (simp add: p split: option.splits)
qed simp

text \<open>
  A deep merge acts key by key: a key the source does not have keeps its value, the null value
  removes a key, nil leaves it alone, a nested map is merged recursively into the map that was there
  (or into an empty one), and any other value replaces the old one.
\<close>

theorem merge_maps_lookup:
  assumes "distinct (map fst src)" "mergeMaps (Some dst) src = (Some res, c)"
  shows "map_of res k =
    (case map_of src k of None \<Rightarrow> map_of dst k | Some v \<Rightarrow> merged (map_of dst k) v)"
  using merge_entries_lookup [OF assms(1), of dst False k] assms(2)
  by (auto simp: mergeMaps_def split: if_splits prod.splits)

theorem merge_maps_lookup_witness:
  "map_of [(''a'', AInt 1), (''n'', AMap [(''y'', AInt 2), (''z'', AInt 3)])] ''n'' =
     merged (Some (AMap [(''x'', AInt 1), (''y'', AInt 2)])) (AMap [(''x'', AStr nullValue), (''z'', AInt 3)])"
proof -
  have "mergeMaps (Some [(''a'', AInt 1), (''n'', AMap [(''x'', AInt 1), (''y'', AInt 2)])])
      [(''n'', AMap [(''x'', AStr nullValue), (''z'', AInt 3)])] =
      (Some [(''a'', AInt 1), (''n'', AMap [(''y'', AInt 2), (''z'', AInt 3)])], True)"
    by code_simp
  from merge_maps_lookup [OF _ this, of "''n''"] show ?thesis by simp
qed

text \<open>
  \<^verbatim>\<open>mergeInterfaces\<close> reports no change although it changes the value: merging an empty map into
  a value that is not a map replaces the value by an empty map and returns false.
\<close>

theorem merge_empty_map_loses_value:
  "mergeInterfaces (AStr s) (AMap []) = (AMap [], False)"
  by (simp add: mergeInterfaces_def mergeMaps_def as_map_def map_value_def)

end
