(* ===== verification/SearchQuery.thy ===== *)
theory SearchQuery
  imports Utils
begin

section \<open>The parser of search queries (server/utils.go)\<close>

text \<open>
  \<^verbatim>\<open>parseSearchQuery\<close> splits the text of a contact search into required and optional tags. The
  model keeps its one-pass loop over runes with its lexer, context and emission of tokens; the loop
  always ends because every rune has a positive width. The lemmas run the loop over queries made of
  plain words.
\<close>

text \<open>
  The lexer states of \<^verbatim>\<open>parseSearchQuery\<close>. The loop keeps the previous lexeme, the byte position
  \<open>i\<close>, the rune position \<open>pos\<close>, the context and the tokens found; \<open>None\<close> is the panic of an index out
  of range. The three errors carry the position their message names.
\<close>

datatype lexeme = LNone | LQuo | LAnd | LOr | LEnd | LOrd

datatype search_error = MissingOperator nat | InvalidSequence nat | UnterminatedQuote nat

record search_context =
  preOp :: lexeme
  postOp :: lexeme
  quo :: bool
  tok_start :: nat
  tok_end :: nat

type_synonym search_token = "lexeme \<times> string"

definition lex :: "bool \<Rightarrow> nat \<Rightarrow> nat \<Rightarrow> lexeme" where
  "lex quoted r w =
     (if w = 0 then LEnd
      else if r = 0x22 then LQuo
      else if \<not> quoted then
        (if r = 0x20 \<or> r = 0x09 then LAnd else if r = 0x2C then LOr else LOrd)
      else LOrd)"

text \<open>The part of the parser between the lexer and the emission: the new context and \<^verbatim>\<open>emit\<close>.\<close>

definition search_parse ::
  "lexeme \<Rightarrow> lexeme \<Rightarrow> nat \<Rightarrow> nat \<Rightarrow> search_context \<Rightarrow> search_error + (search_context \<times> bool)" where
  "search_parse prev cur i pos ctx =
     (case cur of
        LOr \<Rightarrow>
          if postOp ctx = LOr then Inl (InvalidSequence pos)
          else (let ctx = ctx\<lparr>postOp := LOr\<rparr>
                in Inr (if prev = LOrd then ctx\<lparr>tok_end := i\<rparr> else ctx, False))
      | LAnd \<Rightarrow>
          Inr (if prev = LOrd then ctx\<lparr>tok_end := i, postOp := LAnd\<rparr>
               else if postOp ctx \<noteq> LOr then ctx\<lparr>postOp := LAnd\<rparr> else ctx, False)
      | LOrd \<Rightarrow> Inr (ctx, prev = LOr \<or> prev = LAnd)
      | LEnd \<Rightarrow> Inr (if prev = LOrd then ctx\<lparr>tok_end := i\<rparr> else ctx, True)
      | _ \<Rightarrow> Inr (ctx, False))"

text \<open>
  The token of the current context: \<open>None\<close> when \<^verbatim>\<open>query[start]\<close> or \<^verbatim>\<open>query[end-1]\<close> is out of range.
\<close>

definition search_token :: "(string \<Rightarrow> string) \<Rightarrow> string \<Rightarrow> search_context \<Rightarrow> search_token list option" where
  "search_token ul query ctx =
     (let op = (if postOp ctx = LOr then LOr else preOp ctx); s = tok_start ctx; e = tok_end ctx
      in if s \<ge> length query then None
         else if query ! s = CHR 0x22 \<and> (e = 0 \<or> e > length query) then None
         else
           (let (s, e) = (if query ! s = CHR 0x22 \<and> query ! (e - 1) = CHR 0x22 then (s + 1, e - 1) else (s, e))
            in Some (if s < e then [(op, ToLower ul (drop s (take e query)))] else [])))"

function search_loop ::
  "(string \<Rightarrow> string) \<Rightarrow> string \<Rightarrow> lexeme \<Rightarrow> nat \<Rightarrow> nat \<Rightarrow> search_context \<Rightarrow> search_token list \<Rightarrow>
     (search_error + search_token list) option" where
  "search_loop ul query prev i pos ctx out =
     (let (r, w) = DecodeRune (drop i query);
          cur = lex (quo ctx) r w
      in if cur = LQuo \<and> \<not> quo ctx \<and> prev = LOrd then Some (Inl (MissingOperator pos))
         else
           (let ctx = (if cur = LQuo then ctx\<lparr>quo := \<not> quo ctx\<rparr> else ctx);
                cur = (if cur = LQuo then LOrd else cur)
            in case search_parse prev cur i pos ctx of
                 Inl e \<Rightarrow> Some (Inl e)
               | Inr (ctx, emit) \<Rightarrow>
                   if emit then
                     (if quo ctx \<and> cur = LEnd then Some (Inl (UnterminatedQuote pos))
                      else (case search_token ul query ctx of
                          None \<Rightarrow> None
                        | Some t \<Rightarrow>
                            if w = 0 then Some (Inr (out @ t))
                            else search_loop ul query cur (i + w) (pos + 1)
                                   (ctx\<lparr>tok_start := i, preOp := postOp ctx, postOp := LNone\<rparr>) (out @ t)))
                   else if w = 0 then Some (Inr out)
                   else search_loop ul query cur (i + w) (pos + 1) ctx out))"
  by pat_completeness auto
termination
proof (relation "measure (\<lambda>(ul, query, prev, i, pos, ctx, out). length query - i)", goal_cases)
  case 1
  then show ?case by simp
next
  case (2 ul query prev i pos ctx out)
  have "drop i query \<noteq> []"
    using 2 by (metis DecodeRune_Nil prod.inject)
  with 2 show ?case by simp
next
  case (3 ul query prev i pos ctx out)
  have "drop i query \<noteq> []"
    using 3 by (metis DecodeRune_Nil prod.inject)
  with 3 show ?case by simp
qed

declare search_loop.simps [simp del]

text \<open>
  The result is a pair of the required and the optional tags. The trailing \<^verbatim>\<open>nil\<close> results of a query
  without tokens are empty lists.
\<close>

definition parseSearchQuery ::
  "unicode_tables \<Rightarrow> string \<Rightarrow> (search_error + (string list \<times> string list)) option" where
  "parseSearchQuery un query =
     map_option (\<lambda>res. case res of
         Inl e \<Rightarrow> Inl e
       | Inr out \<Rightarrow> Inr (map snd (filter (\<lambda>t. fst t = LAnd) out), map snd (filter (\<lambda>t. fst t = LOr) out)))
     (search_loop (un_lower un) (TrimSpace un query) LNone 0 0
        \<lparr>preOp = LAnd, postOp = LNone, quo = False, tok_start = 0, tok_end = 0\<rparr> [])"

subsection \<open>Queries made of plain words\<close>

definition plain_char :: "char \<Rightarrow> bool" where
  "plain_char c \<longleftrightarrow> is_ascii c \<and> \<not> is_ascii_space c \<and> c \<noteq> CHR '','' \<and> c \<noteq> CHR 0x22"

definition plain_word :: "string \<Rightarrow> bool" where
  "plain_word w \<longleftrightarrow> w \<noteq> [] \<and> list_all plain_char w"

fun join :: "char \<Rightarrow> string list \<Rightarrow> string" where
  "join sep [] = []"
| "join sep (w # ws) = w @ concat (map (\<lambda>u. sep # u) ws)"

lemma plain_char_code:
  assumes "plain_char c"
  shows "is_ascii c" "of_char c \<noteq> (0x22 :: nat)" "of_char c \<noteq> (0x20 :: nat)" "of_char c \<noteq> (0x09 :: nat)"
    "of_char c \<noteq> (0x2C :: nat)" "c \<noteq> CHR 0x22"
proof -
  have inj: "c = d" if "of_char c = (of_char d :: nat)" for d using that by (simp add: of_char_eq_iff)
  show "of_char c \<noteq> (0x22 :: nat)" "of_char c \<noteq> (0x2C :: nat)"
    using assms inj [of "CHR 0x22"] inj [of "CHR '',''"] by (auto simp: plain_char_def)
qed (use assms in \<open>auto simp: plain_char_def is_ascii_space_def Let_def\<close>)

lemma search_step_ord:
  assumes "drop i q = c # rest" "plain_char c" "\<not> quo ctx" "prev \<noteq> LOr" "prev \<noteq> LAnd"
  shows "search_loop ul q prev i pos ctx out = search_loop ul q LOrd (i + 1) (pos + 1) ctx out"
  using assms plain_char_code [OF assms(2)]
  by (simp add: search_loop.simps [of ul q prev i] lex_def search_parse_def)

lemma search_word:
  "drop i q = w @ rest \<Longrightarrow> list_all plain_char w \<Longrightarrow> \<not> quo ctx \<Longrightarrow>
     search_loop ul q LOrd i pos ctx out = search_loop ul q LOrd (i + length w) (pos + length w) ctx out"
proof (induction w arbitrary: i pos)
  case (Cons c w)
  have "drop (i + 1) q = w @ rest" using Cons.prems(1) by (metis append_Cons drop_drop add.commute drop0 drop_Suc_Cons One_nat_def)
  then show ?case
    using Cons search_step_ord [of i q c "w @ rest" ctx LOrd ul pos out] by simp
qed simp

definition sep_op :: "char \<Rightarrow> lexeme" where
  "sep_op sep = (if sep = CHR '','' then LOr else LAnd)"

lemma search_step_sep:
  assumes "drop i q = sep # rest" "sep = CHR '' '' \<or> sep = CHR '',''" "\<not> quo ctx" "postOp ctx = LNone"
  shows "search_loop ul q LOrd i pos ctx out =
    search_loop ul q (sep_op sep) (i + 1) (pos + 1) (ctx\<lparr>tok_end := i, postOp := sep_op sep\<rparr>) out"
  using assms
  by (cases ctx) (auto simp: search_loop.simps [of ul q LOrd i] is_ascii_def lex_def search_parse_def sep_op_def)

lemma search_step_first:
  assumes "drop i q = c # rest" "plain_char c" "\<not> quo ctx" "prev = LAnd \<or> prev = LOr"
    and "tok_start ctx < tok_end ctx" "tok_end ctx \<le> i" "q ! tok_start ctx \<noteq> CHR 0x22"
  shows "search_loop ul q prev i pos ctx out =
    search_loop ul q LOrd (i + 1) (pos + 1) (ctx\<lparr>tok_start := i, preOp := postOp ctx, postOp := LNone\<rparr>)
      (out @ [(if postOp ctx = LOr then LOr else preOp ctx,
               ToLower ul (drop (tok_start ctx) (take (tok_end ctx) q)))])"
proof -
  have "i < length q" using assms(1) by (metis drop_all list.distinct(1) not_less)
  then have "search_token ul q ctx = Some [(if postOp ctx = LOr then LOr else preOp ctx,
      ToLower ul (drop (tok_start ctx) (take (tok_end ctx) q)))]"
    using assms(5-7) by (simp add: search_token_def Let_def)
  with assms(1-4) plain_char_code [OF assms(2)] show ?thesis
    by (auto simp: search_loop.simps [of ul q prev i] lex_def search_parse_def)
qed

lemma search_end:
  assumes "drop i q = []" "i \<le> length q" "\<not> quo ctx" "postOp ctx = LNone" "tok_start ctx < i"
    "q ! tok_start ctx \<noteq> CHR 0x22"
  shows "search_loop ul q LOrd i pos ctx out =
    Some (Inr (out @ [(preOp ctx, ToLower ul (drop (tok_start ctx) (take i q)))]))"
proof -
  have "i = length q" using assms(1,2) by simp
  then have "search_token ul q (ctx\<lparr>tok_end := i\<rparr>) = Some [(preOp ctx, ToLower ul (drop (tok_start ctx) (take i q)))]"
    using assms(4-6) by (simp add: search_token_def Let_def)
  with assms show ?thesis
    by (simp add: search_loop.simps [of ul q LOrd i] lex_def search_parse_def)
qed

text \<open>
  The loop after a word \<open>w\<close> that started at the context's token start, in front of the remaining
  words, each preceded by the separator.
\<close>

lemma search_words:
  assumes "sep = CHR '' '' \<or> sep = CHR '',''" "list_all plain_word ws" "plain_word w"
    "q = pre @ w @ concat (map (\<lambda>u. sep # u) ws)"
    "\<not> quo ctx" "postOp ctx = LNone" "tok_start ctx = length pre" "preOp ctx = LAnd \<or> preOp ctx = sep_op sep"
  shows "search_loop ul q LOrd (length pre + length w) pos ctx out =
    Some (Inr (out @ [(if ws = [] then preOp ctx else sep_op sep, ToLower ul w)] @
      map (\<lambda>u. (sep_op sep, ToLower ul u)) ws))"
  using assms
proof (induction ws arbitrary: pre w pos ctx out)
  case Nil
  have "q ! length pre \<noteq> CHR 0x22"
    using Nil.prems(3,4) plain_char_code(6) by (cases w) (auto simp: plain_word_def nth_append)
  with Nil show ?case
    by (subst search_end) (auto simp: plain_word_def)
next
  case (Cons u ws)
  obtain c u' where u: "u = c # u'" "plain_char c" "list_all plain_char u'"
    using Cons.prems(2) by (cases u) (auto simp: plain_word_def)
  let ?i = "length pre + length w"
  let ?rest = "concat (map (\<lambda>u. sep # u) ws)"
  let ?ctx1 = "ctx\<lparr>tok_end := ?i, postOp := sep_op sep\<rparr>"
  let ?ctx2 = "?ctx1\<lparr>tok_start := ?i + 1, preOp := sep_op sep, postOp := LNone\<rparr>"
  let ?out = "out @ [(sep_op sep, ToLower ul w)]"
  have q: "q = pre @ w @ sep # u @ ?rest" using Cons.prems(4) by simp
  have ne: "w \<noteq> []" and w0: "q ! length pre \<noteq> CHR 0x22"
    using Cons.prems(3,4) plain_char_code(6) by (cases w; auto simp: plain_word_def nth_append)+
  have op: "(if sep_op sep = LOr then LOr else preOp ctx) = sep_op sep"
    using Cons.prems(1,8) by (auto simp: sep_op_def)
  have "search_loop ul q LOrd ?i pos ctx out = search_loop ul q (sep_op sep) (?i + 1) (pos + 1) ?ctx1 out"
    by (rule search_step_sep [OF _ Cons.prems(1,5,6)]) (simp add: q)
  also have "\<dots> = search_loop ul q LOrd (?i + 1 + 1) (pos + 1 + 1) ?ctx2 ?out"
    using search_step_first [of "?i + 1" q c "u' @ ?rest" ?ctx1 "sep_op sep" ul "pos + 1" out] ne w0 op
      Cons.prems(5,7) u by (auto simp: q sep_op_def split: if_splits)
  also have "\<dots> = search_loop ul q LOrd (?i + 1 + 1 + length u') (pos + 1 + 1 + length u') ?ctx2 ?out"
    using u Cons.prems(5) by (intro search_word [where rest = ?rest]) (simp_all add: q)
  also have "?i + 1 + 1 + length u' = length (pre @ w @ [sep]) + length u" by (simp add: u)
  also have "search_loop ul q LOrd (length (pre @ w @ [sep]) + length u) (pos + 1 + 1 + length u') ?ctx2 ?out =
      Some (Inr (?out @ [(if ws = [] then preOp ?ctx2 else sep_op sep, ToLower ul u)] @
        map (\<lambda>u. (sep_op sep, ToLower ul u)) ws))"
    using Cons.prems by (intro Cons.IH) (auto simp: q)
  finally show ?case by simp
qed

lemma TrimSpace_plain:
  assumes "list_all is_ascii s" "s \<noteq> []" "\<not> is_ascii_space (hd s)" "\<not> is_ascii_space (last s)"
  shows "TrimSpace un s = s"
proof -
  have "dropWhile is_ascii_space s = s" using assms(2,3) by (cases s) auto
  moreover have "dropWhile is_ascii_space (rev s) = rev s" using assms(2,4) by (cases s rule: rev_cases) auto
  ultimately show ?thesis using assms(1) by (simp add: TrimSpace_def)
qed

lemma join_last:
  assumes "list_all plain_word ws" "ws \<noteq> []"
  shows "join sep ws \<noteq> [] \<and> last (join sep ws) = last (last ws)"
proof -
  obtain us u where ws: "ws = us @ [u]" using assms(2) by (cases ws rule: rev_cases) auto
  have "u \<noteq> []" using assms(1) by (simp add: ws plain_word_def)
  then show ?thesis by (cases us) (simp_all add: ws)
qed

lemma TrimSpace_join:
  assumes "list_all plain_word ws" "ws \<noteq> []" "is_ascii sep"
  shows "TrimSpace un (join sep ws) = join sep ws"
proof (rule TrimSpace_plain)
  have w: "w \<noteq> []" "c \<in> set w \<Longrightarrow> plain_char c" if "w \<in> set ws" for w c
    using assms(1) that by (auto simp: plain_word_def list_all_iff)
  show "list_all is_ascii (join sep ws)"
    using w(2) assms(3) by (cases ws) (auto simp: list_all_iff plain_char_def)
  show "join sep ws \<noteq> []" using join_last assms by blast
  show "\<not> is_ascii_space (hd (join sep ws))"
    using w [of "hd ws"] assms(2) by (cases ws) (auto simp: plain_char_def)
  show "\<not> is_ascii_space (last (join sep ws))"
    using w [of "last ws"] assms join_last [of ws sep] by (simp add: plain_char_def)
qed

lemma search_loop_join:
  assumes "sep = CHR '' '' \<or> sep = CHR '',''" "list_all plain_word (w # ws)"
  shows "search_loop ul (join sep (w # ws)) LNone 0 0
      \<lparr>preOp = LAnd, postOp = LNone, quo = False, tok_start = 0, tok_end = 0\<rparr> [] =
    Some (Inr ((if ws = [] then LAnd else sep_op sep, ToLower ul w) # map (\<lambda>u. (sep_op sep, ToLower ul u)) ws))"
proof -
  let ?q = "join sep (w # ws)" and ?rest = "concat (map (\<lambda>u. sep # u) ws)"
  let ?ctx = "\<lparr>preOp = LAnd, postOp = LNone, quo = False, tok_start = 0, tok_end = 0\<rparr>"
  obtain c w' where w: "w = c # w'" "plain_char c" "list_all plain_char w'"
    using assms(2) by (cases w) (auto simp: plain_word_def)
  have "search_loop ul ?q LNone 0 0 ?ctx [] = search_loop ul ?q LOrd 1 1 ?ctx []"
    using search_step_ord [of 0 ?q c "w' @ ?rest" ?ctx LNone ul 0 "[]"] w by simp
  also have "\<dots> = search_loop ul ?q LOrd (1 + length w') (1 + length w') ?ctx []"
    using w by (intro search_word [where rest = ?rest]) simp_all
  also have "1 + length w' = length ([] :: string) + length w" by (simp add: w)
  also have "search_loop ul ?q LOrd (length ([] :: string) + length w) (length ([] :: string) + length w) ?ctx [] =
      Some (Inr ([] @ [(if ws = [] then preOp ?ctx else sep_op sep, ToLower ul w)] @
        map (\<lambda>u. (sep_op sep, ToLower ul u)) ws))"
    using assms by (intro search_words) simp_all
  finally show ?thesis by simp
qed

text \<open>
  Words separated by single spaces are all required tags and words separated by single commas
  (two or more) are all optional tags, each in lower case and in the order of the query; the parser
  neither fails nor panics on such queries.
\<close>

theorem search_query_words:
  assumes "list_all plain_word ws" "ws \<noteq> []"
  shows "parseSearchQuery un (join (CHR '' '') ws) = Some (Inr (map (ToLower (un_lower un)) ws, [])) \<and>
    (length ws > 1 \<longrightarrow>
       parseSearchQuery un (join (CHR '','') ws) = Some (Inr ([], map (ToLower (un_lower un)) ws)))"
proof -
  obtain w us where ws: "ws = w # us" using assms(2) by (cases ws) auto
  have "is_ascii (CHR '' '')" "is_ascii (CHR '','')" by (simp_all add: is_ascii_def)
  note trim = this [THEN TrimSpace_join [OF assms], of un]
  show ?thesis
    using search_loop_join [of "CHR '' ''" w us "un_lower un"] search_loop_join [of "CHR '',''" w us "un_lower un"]
      assms(1) unfolding parseSearchQuery_def trim unfolding ws
    by (auto simp: sep_op_def filter_map comp_def)
qed

theorem search_query_words_witness:
  "parseSearchQuery ascii_tables ''Alice bob'' = Some (Inr ([''alice'', ''bob''], [])) \<and>
   parseSearchQuery ascii_tables ''Alice,bob'' = Some (Inr ([], [''alice'', ''bob'']))"
proof -
  have "list_all plain_word [''Alice'', ''bob'']"
    by (simp add: plain_word_def plain_char_def is_ascii_def is_ascii_space_def)
  note words = search_query_words [OF this, of ascii_tables]
  have "map (ToLower (un_lower ascii_tables)) [''Alice'', ''bob''] = [''alice'', ''bob'']" by code_simp
  with words show ?thesis by simp
qed

text \<open>
  A query of white space only panics: after trimming nothing is left, and the emission of the
  token at the end of the text reads the first byte of the empty query.
\<close>

theorem blank_search_query_panics:
  assumes "list_all is_ascii_space q"
  shows "parseSearchQuery un q = None"
proof -
  have "list_all is_ascii q"
    using assms by (auto simp: list_all_iff is_ascii_space_def is_ascii_def Let_def)
  moreover have "dropWhile is_ascii_space q = []" using assms by (simp add: list_all_iff)
  ultimately have "TrimSpace un q = []" by (simp only: TrimSpace_def if_True) simp
  then show ?thesis
    by (simp add: parseSearchQuery_def search_loop.simps [of _ "[]"] lex_def search_parse_def search_token_def)
qed

theorem blank_search_query_panics_witness:
  "parseSearchQuery ascii_tables '' '' = None"
  by (rule blank_search_query_panics) (simp add: is_ascii_space_def)

end
