(* ===== verification/Crypto.thy ===== *)
theory Crypto
  imports GoStd
begin

section \<open>Keyed hashes of Go's standard library\<close>

text \<open>
  \<^verbatim>\<open>crypto/sha256\<close> and \<^verbatim>\<open>crypto/hmac\<close> over byte lists. The proofs use the hash only through the
  length of its result; it is executable so that signatures of concrete tokens can be computed.
\<close>

text \<open>
  The constants of SHA-256 are the first 32 bits of the fractional parts of the cube roots (round
  constants) and square roots (initial state) of the first primes; \<open>root_bits\<close> finds such a root one
  bit at a time.
\<close>

definition sha_primes :: "int list" where
  "sha_primes =
     [2, 3, 5, 7, 11, 13, 17, 19, 23, 29, 31, 37, 41, 43, 47, 53,
      59, 61, 67, 71, 73, 79, 83, 89, 97, 101, 103, 107, 109, 113, 127, 131,
      137, 139, 149, 151, 157, 163, 167, 173, 179, 181, 191, 193, 197, 199, 211, 223,
      227, 229, 233, 239, 241, 251, 257, 263, 269, 271, 277, 281, 283, 293, 307, 311]"

fun root_bits :: "nat \<Rightarrow> int \<Rightarrow> nat \<Rightarrow> int \<Rightarrow> int" where
  "root_bits k n 0 r = r"
| "root_bits k n (Suc b) r = root_bits k n b (if (r + 2 ^ b) ^ k \<le> n then r + 2 ^ b else r)"

definition sha_K :: "uint32 list" where
  "sha_K = map (\<lambda>p. of_int (root_bits 3 (p * 2 ^ 96) 35 0)) sha_primes"

definition sha_H0 :: "uint32 list" where
  "sha_H0 = map (\<lambda>p. of_int (root_bits 2 (p * 2 ^ 64) 35 0)) (take 8 sha_primes)"

lemma length_sha_H0 [simp]: "length sha_H0 = 8"
  by (simp add: sha_H0_def sha_primes_def)

definition rotr :: "nat \<Rightarrow> uint32 \<Rightarrow> uint32" where
  "rotr n w = drop_bit n w OR push_bit (32 - n) w"

definition be_word :: "bytes \<Rightarrow> uint32" where
  "be_word b = fold (\<lambda>x w. push_bit 8 w OR ucast x) b 0"

definition be_bytes :: "uint32 \<Rightarrow> bytes" where
  "be_bytes w = [ucast (drop_bit 24 w), ucast (drop_bit 16 w), ucast (drop_bit 8 w), ucast w]"

fun chunks :: "nat \<Rightarrow> nat \<Rightarrow> 'a list \<Rightarrow> 'a list list" where
  "chunks n 0 xs = []"
| "chunks n (Suc k) xs = take n xs # chunks n k (drop n xs)"

definition sha_pad :: "bytes \<Rightarrow> bytes" where
  "sha_pad m =
     (let l = length m; z = (119 - l mod 64) mod 64
      in m @ [0x80] @ replicate z 0 @ rev (le_bytes 8 (of_nat (8 * l))))"

fun sha_extend :: "nat \<Rightarrow> uint32 list \<Rightarrow> uint32 list" where
  "sha_extend 0 w = w"
| "sha_extend (Suc k) w =
     (let n = length w;
          w15 = w ! (n - 15); w2 = w ! (n - 2);
          s0 = rotr 7 w15 XOR rotr 18 w15 XOR drop_bit 3 w15;
          s1 = rotr 17 w2 XOR rotr 19 w2 XOR drop_bit 10 w2
      in sha_extend k (w @ [w ! (n - 16) + s0 + w ! (n - 7) + s1]))"

fun sha_rounds :: "(uint32 \<times> uint32) list \<Rightarrow> uint32 list \<Rightarrow> uint32 list" where
  "sha_rounds ((k, w) # kws) [a, b, c, d, e, f, g, h] =
     (let S1 = rotr 6 e XOR rotr 11 e XOR rotr 25 e;
          ch = (e AND f) XOR (NOT e AND g);
          t1 = h + S1 + ch + k + w;
          S0 = rotr 2 a XOR rotr 13 a XOR rotr 22 a;
          maj = (a AND b) XOR (a AND c) XOR (b AND c)
      in sha_rounds kws [t1 + S0 + maj, a, b, c, d + t1, e, f, g])"
| "sha_rounds _ s = s"

definition sha_block :: "bytes \<Rightarrow> uint32 list \<Rightarrow> uint32 list" where
  "sha_block b hs = map2 (+) hs (sha_rounds (zip sha_K (sha_extend 48 (map be_word (chunks 4 16 b)))) hs)"

definition sha256 :: "bytes \<Rightarrow> bytes" where
  "sha256 m =
     (let p = sha_pad m
      in concat (map be_bytes (fold sha_block (chunks 64 (length p div 64) p) sha_H0)))"

definition sha256_Size :: nat where "sha256_Size = 32"

lemma length_sha_rounds: "length s = 8 \<Longrightarrow> length (sha_rounds kws s) = 8"
  by (induction kws s rule: sha_rounds.induct) (simp_all add: Let_def)

lemma length_sha_block: "length hs = 8 \<Longrightarrow> length (sha_block b hs) = 8"
  by (simp add: sha_block_def length_sha_rounds)

lemma length_sha_fold: "length hs = 8 \<Longrightarrow> length (fold sha_block bs hs) = 8"
  by (induction bs arbitrary: hs) (simp_all add: length_sha_block)

lemma length_sha256 [simp]: "length (sha256 m) = sha256_Size"
proof -
  have "length (concat (map be_bytes ws)) = 4 * length ws" for ws
    by (induction ws) (simp_all add: be_bytes_def)
  then show ?thesis by (simp add: sha256_def Let_def length_sha_fold sha256_Size_def)
qed

text \<open>HMAC with a block of 64 bytes; a longer key is hashed first.\<close>

definition hmac_sha256 :: "bytes \<Rightarrow> bytes \<Rightarrow> bytes" where
  "hmac_sha256 key msg =
     (let k0 = (if length key > 64 then sha256 key else key);
          k = k0 @ replicate (64 - length k0) 0
      in sha256 (map (\<lambda>b. b XOR 0x5c) k @ sha256 (map (\<lambda>b. b XOR 0x36) k @ msg)))"

lemma length_hmac [simp]: "length (hmac_sha256 key msg) = sha256_Size"
  by (simp add: hmac_sha256_def Let_def)

end
