(* ===== verification/PCache.thy ===== *)
theory PCache
  imports StoreTypes
begin

section \<open>The persistent cache (server/store/store.go, server/db/mysql)\<close>

text \<open>
  The key-value table behind \<^verbatim>\<open>store.PCache\<close>: the tenant checks and key scoping of the store and
  of the tenant adapter, over a table \<open>kvmeta\<close> from keys to a creation time and a value. A statement
  sent to the database either fails with an error of the driver, leaving the table as it was, or does
  what its text says; \<open>fail\<close> gives the error, if any. The locale states what clients of the cache
  rely on, and its interpretation shows that the scoped table has those laws.
\<close>

record kvmeta =
  kv_rows :: "string \<rightharpoonup> time \<times> string"
  kv_fail :: "store_error option"
  kv_now :: time

definition validTenant :: "tenant_id \<Rightarrow> store_error option" where
  "validTenant i = (if \<not> TenantID_IsValid i then Some types_ErrMalformed else None)"

definition tenantCacheKey :: "tenant_id \<Rightarrow> string \<Rightarrow> store_error + string" where
  "tenantCacheKey i key =
     (if key = [] \<or> CHR ''%'' \<in> set key then Inl types_ErrMalformed
      else Inr (''tenant:'' @ FormatInt i @ '':'' @ key))"

definition PCacheGet :: "kvmeta \<Rightarrow> string \<Rightarrow> store_error + string" where
  "PCacheGet db key =
     (case kv_fail db of
        Some e \<Rightarrow> Inl e
      | None \<Rightarrow> (case kv_rows db key of None \<Rightarrow> Inl types_ErrNotFound | Some (_, v) \<Rightarrow> Inr v))"

definition PCacheUpsert :: "kvmeta \<Rightarrow> string \<Rightarrow> string \<Rightarrow> bool \<Rightarrow> kvmeta \<times> store_error option" where
  "PCacheUpsert db key value failOnDuplicate =
     (if CHR ''%'' \<in> set key then (db, Some types_ErrMalformed)
      else (case kv_fail db of
          Some e \<Rightarrow> (db, Some e)
        | None \<Rightarrow>
            if failOnDuplicate \<and> kv_rows db key \<noteq> None then (db, Some types_ErrDuplicate)
            else (db\<lparr>kv_rows := (kv_rows db)(key \<mapsto> (kv_now db, value))\<rparr>, None)))"

definition PCacheDelete :: "kvmeta \<Rightarrow> string \<Rightarrow> kvmeta \<times> store_error option" where
  "PCacheDelete db key =
     (case kv_fail db of
        Some e \<Rightarrow> (db, Some e)
      | None \<Rightarrow> (db\<lparr>kv_rows := (kv_rows db)(key := None)\<rparr>, None))"

text \<open>The pattern of \<^verbatim>\<open>LIKE prefix%\<close>: an underscore in the prefix stands for any character.\<close>

fun like_prefix :: "string \<Rightarrow> string \<Rightarrow> bool" where
  "like_prefix [] k = True"
| "like_prefix (p # ps) [] = False"
| "like_prefix (p # ps) (c # k) = ((p = CHR ''_'' \<or> p = c) \<and> like_prefix ps k)"

definition PCacheExpire :: "kvmeta \<Rightarrow> string \<Rightarrow> time \<Rightarrow> kvmeta \<times> store_error option" where
  "PCacheExpire db keyPrefix olderThan =
     (if keyPrefix = [] then (db, Some types_ErrMalformed)
      else (case kv_fail db of
          Some e \<Rightarrow> (db, Some e)
        | None \<Rightarrow>
            (db\<lparr>kv_rows := (\<lambda>k. case kv_rows db k of
                 None \<Rightarrow> None
               | Some (created, v) \<Rightarrow> if like_prefix keyPrefix k \<and> created < olderThan then None else Some (created, v))\<rparr>, None)))"

text \<open>The tenant-scoped operations.\<close>

definition TenantPCacheGet :: "kvmeta \<Rightarrow> tenant_id \<Rightarrow> string \<Rightarrow> store_error + string" where
  "TenantPCacheGet db i key =
     (case validTenant i of
        Some e \<Rightarrow> Inl e
      | None \<Rightarrow> (case tenantCacheKey i key of Inl e \<Rightarrow> Inl e | Inr scoped \<Rightarrow> PCacheGet db scoped))"

definition TenantPCacheUpsert ::
  "kvmeta \<Rightarrow> tenant_id \<Rightarrow> string \<Rightarrow> string \<Rightarrow> bool \<Rightarrow> kvmeta \<times> store_error option" where
  "TenantPCacheUpsert db i key value fail =
     (case validTenant i of
        Some e \<Rightarrow> (db, Some e)
      | None \<Rightarrow> (case tenantCacheKey i key of
            Inl e \<Rightarrow> (db, Some e) | Inr scoped \<Rightarrow> PCacheUpsert db scoped value fail))"

definition TenantPCacheDelete :: "kvmeta \<Rightarrow> tenant_id \<Rightarrow> string \<Rightarrow> kvmeta \<times> store_error option" where
  "TenantPCacheDelete db i key =
     (case validTenant i of
        Some e \<Rightarrow> (db, Some e)
      | None \<Rightarrow> (case tenantCacheKey i key of Inl e \<Rightarrow> (db, Some e) | Inr scoped \<Rightarrow> PCacheDelete db scoped))"

definition TenantPCacheExpire :: "kvmeta \<Rightarrow> tenant_id \<Rightarrow> string \<Rightarrow> time \<Rightarrow> kvmeta \<times> store_error option" where
  "TenantPCacheExpire db i prefix olderThan =
     (case validTenant i of
        Some e \<Rightarrow> (db, Some e)
      | None \<Rightarrow> (case tenantCacheKey i prefix of
            Inl e \<Rightarrow> (db, Some e) | Inr scoped \<Rightarrow> PCacheExpire db scoped olderThan))"

subsection \<open>The contract of the cache\<close>

locale tenant_cache =
  fixes get :: "'s \<Rightarrow> tenant_id \<Rightarrow> string \<Rightarrow> store_error + string"
    and upsert :: "'s \<Rightarrow> tenant_id \<Rightarrow> string \<Rightarrow> string \<Rightarrow> bool \<Rightarrow> 's \<times> store_error option"
    and delete :: "'s \<Rightarrow> tenant_id \<Rightarrow> string \<Rightarrow> 's \<times> store_error option"
    and healthy :: "'s \<Rightarrow> bool"
  assumes get_upsert: "upsert s i k v f = (s', None) \<Longrightarrow>
      get s' i' k' = (if i' = i \<and> k' = k then Inr v else get s i' k')"
    and upsert_fail: "upsert s i k v f = (s', Some e) \<Longrightarrow> s' = s"
    and get_delete: "delete s i k = (s', None) \<Longrightarrow>
      get s' i' k' = (if i' = i \<and> k' = k then Inl types_ErrNotFound else get s i' k')"
    and delete_fail: "delete s i k = (s', Some e) \<Longrightarrow> s' = s"
    and upsert_ok: "healthy s \<Longrightarrow> get s i k = Inr w \<Longrightarrow> \<exists>s'. upsert s i k v False = (s', None) \<and> healthy s'"
    and delete_ok: "healthy s \<Longrightarrow> get s i k = Inr w \<Longrightarrow> \<exists>s'. delete s i k = (s', None) \<and> healthy s'"
begin

text \<open>A write or removal under one tenant or key never changes what another one reads.\<close>

lemma upsert_frame:
  assumes "upsert s i k v f = (s', r)" "i' \<noteq> i \<or> k' \<noteq> k"
  shows "get s' i' k' = get s i' k'"
proof (cases r)
  case None
  with assms(1) have "upsert s i k v f = (s', None)" by simp
  from get_upsert [OF this] assms(2) show ?thesis by auto
next
  case (Some e)
  with assms(1) have "upsert s i k v f = (s', Some e)" by simp
  from upsert_fail [OF this] show ?thesis by simp
qed

lemma delete_frame:
  assumes "delete s i k = (s', r)" "i' \<noteq> i \<or> k' \<noteq> k"
  shows "get s' i' k' = get s i' k'"
proof (cases r)
  case None
  with assms(1) have "delete s i k = (s', None)" by simp
  from get_delete [OF this] assms(2) show ?thesis by auto
next
  case (Some e)
  with assms(1) have "delete s i k = (s', Some e)" by simp
  from delete_fail [OF this] show ?thesis by simp
qed

end

lemma scoped_key_inj:
  assumes "tenantCacheKey i k = Inr a" "tenantCacheKey i' k' = Inr a" "TenantID_IsValid i" "TenantID_IsValid i'"
  shows "i = i' \<and> k = k'"
proof -
  have pos: "0 \<le> i" "0 \<le> i'" using assms(3,4) by (simp_all add: TenantID_IsValid_def)
  have "FormatInt i @ CHR '':'' # k = FormatInt i' @ CHR '':'' # k'"
    using assms(1,2) by (auto simp: tenantCacheKey_def split: if_splits)
  then have "FormatInt i = FormatInt i' \<and> k = k'"
    by (intro digits_colon_split FormatInt_pos_digits pos)
  with FormatInt_pos_inj [OF pos] show ?thesis by simp
qed

lemma scoped_key_no_percent:
  assumes "tenantCacheKey i k = Inr a" "TenantID_IsValid i"
  shows "CHR ''%'' \<notin> set a"
proof -
  have "0 \<le> i" using assms(2) by (simp add: TenantID_IsValid_def)
  then have "CHR ''%'' \<notin> set (FormatInt i)"
    using FormatInt_pos_digits [of i] by (auto simp: list_all_iff is_digit_char_def)
  with assms(1) show ?thesis by (auto simp: tenantCacheKey_def split: if_splits)
qed

lemmas tenant_pcache_defs = TenantPCacheGet_def TenantPCacheUpsert_def TenantPCacheDelete_def
  validTenant_def PCacheGet_def PCacheUpsert_def PCacheDelete_def

lemma get_row_update:
  assumes "TenantID_IsValid i" "tenantCacheKey i k = Inr a" "kv_fail db = None"
  shows "TenantPCacheGet (db\<lparr>kv_rows := (kv_rows db)(a := x)\<rparr>) i' k' =
    (if i' = i \<and> k' = k then (case x of None \<Rightarrow> Inl types_ErrNotFound | Some (_, v) \<Rightarrow> Inr v)
     else TenantPCacheGet db i' k')"
proof (cases "i' = i \<and> k' = k")
  case True
  with assms show ?thesis by (simp add: TenantPCacheGet_def validTenant_def PCacheGet_def)
next
  case False
  have "PCacheGet (db\<lparr>kv_rows := (kv_rows db)(a := x)\<rparr>) b = PCacheGet db b"
    if "tenantCacheKey i' k' = Inr b" "TenantID_IsValid i'" for b
  proof -
    have "b \<noteq> a" using scoped_key_inj [OF assms(2) _ assms(1) that(2), of k'] that(1) False by auto
    with assms(3) show ?thesis by (simp add: PCacheGet_def)
  qed
  then have "TenantPCacheGet (db\<lparr>kv_rows := (kv_rows db)(a := x)\<rparr>) i' k' = TenantPCacheGet db i' k'"
    by (simp add: TenantPCacheGet_def validTenant_def split: sum.split)
  with False show ?thesis by auto
qed

interpretation kv: tenant_cache TenantPCacheGet TenantPCacheUpsert TenantPCacheDelete
  "\<lambda>db. kv_fail db = None"
proof (unfold_locales, goal_cases)
  case (1 db i k v f db' i' k')
  then obtain a where a: "tenantCacheKey i k = Inr a" "TenantID_IsValid i" "kv_fail db = None"
      "db' = db\<lparr>kv_rows := (kv_rows db)(a \<mapsto> (kv_now db, v))\<rparr>"
    by (auto simp: tenant_pcache_defs split: if_splits sum.splits option.splits)
  show ?case unfolding a(4) by (simp add: get_row_update [OF a(2,1,3)])
next
  case (2 db i k v f db' e)
  then show ?case by (auto simp: tenant_pcache_defs split: if_splits sum.splits option.splits)
next
  case (3 db i k db' i' k')
  then obtain a where a: "tenantCacheKey i k = Inr a" "TenantID_IsValid i" "kv_fail db = None"
      "db' = db\<lparr>kv_rows := (kv_rows db)(a := None)\<rparr>"
    by (auto simp: tenant_pcache_defs split: if_splits sum.splits option.splits)
  show ?case unfolding a(4) by (simp add: get_row_update [OF a(2,1,3)])
next
  case (4 db i k db' e)
  then show ?case by (auto simp: tenant_pcache_defs split: if_splits sum.splits option.splits)
next
  case (5 db i k w v)
  then have "TenantID_IsValid i" "kv_fail db = None" "\<exists>a. tenantCacheKey i k = Inr a"
    by (simp_all add: TenantPCacheGet_def validTenant_def split: if_splits sum.splits)
  then obtain a where "tenantCacheKey i k = Inr a" "TenantID_IsValid i" "kv_fail db = None" by blast
  with scoped_key_no_percent [OF this(1,2)] show ?case
    by (simp add: TenantPCacheUpsert_def validTenant_def PCacheUpsert_def)
next
  case (6 db i k w)
  then show ?case by (auto simp: tenant_pcache_defs split: if_splits sum.splits option.splits)
qed

end
