(* ===== verification/CodeAuth.thy ===== *)
theory CodeAuth
  imports AuthTypes PCache
begin

section \<open>Authentication by short numeric code (server/auth/code)\<close>

text \<open>
  The authenticator behind password reset: a random code is kept in the persistent cache as
  \<^verbatim>\<open>code:count:uid\<close> under a key made of the tenant and the credential, and every wrong attempt
  increases the count. The source of randomness and the clock are arguments. The lemmas follow one
  code from its creation through wrong attempts to its use.
\<close>

record code_authenticator =
  ca_name :: string
  ca_codeLength :: nat
  ca_maxCodeValue :: int
  ca_lifetime :: int
  ca_maxRetries :: int

record code_config =
  cc_CodeLength :: int
  cc_ExpireIn :: int
  cc_MaxRetries :: int

definition code_Init ::
  "code_authenticator \<Rightarrow> (go_error + code_config) \<Rightarrow> string \<Rightarrow> code_authenticator \<times> go_error option" where
  "code_Init ca conf name =
     (if name = [] then (ca, Some ''auth_code: authenticator name cannot be blank'')
      else if ca_name ca \<noteq> [] then
        (ca, Some (''auth_code: already initialized as '' @ ca_name ca @ ''; '' @ name))
      else (case conf of
          Inl e \<Rightarrow> (ca, Some (''auth_code: failed to parse config: '' @ e))
        | Inr config \<Rightarrow>
            if cc_ExpireIn config \<le> 0 then (ca, Some ''auth_code: invalid expiration period'')
            else if cc_CodeLength config < 4 then (ca, Some ''auth_code: invalid code length'')
            else if cc_MaxRetries config < 1 then (ca, Some ''auth_code: invalid retries count'')
            else (\<lparr>ca_name = name, ca_codeLength = nat (cc_CodeLength config),
                   ca_maxCodeValue = 10 ^ nat (cc_CodeLength config),
                   ca_lifetime = cc_ExpireIn config * 10 ^ 9, ca_maxRetries = cc_MaxRetries config\<rparr>, None)))"

definition sanitizeKey :: "string \<Rightarrow> string" where
  "sanitizeKey key = map (\<lambda>c. if c = CHR ''%'' then CHR ''/'' else c) key"

definition cachePrefix :: "tenant_id \<Rightarrow> string" where
  "cachePrefix tenantID = ''code'' @ ''_'' @ FormatInt tenantID @ ''_''"

definition cacheKey :: "tenant_id \<Rightarrow> string \<Rightarrow> string" where
  "cacheKey tenantID credential = sanitizeKey (cachePrefix tenantID @ credential)"

definition code_Authenticate ::
  "code_authenticator \<Rightarrow> auth_context \<Rightarrow> kvmeta \<Rightarrow> string \<Rightarrow> kvmeta \<times> (store_error + auth_rec)" where
  "code_Authenticate ca ctx db secret =
     (if \<not> AuthContext_IsValid ctx then (db, Inl types_ErrMalformed)
      else
        (case SplitN secret (CHR '':'') 2 of
           [code, cred] \<Rightarrow>
             (let key = cacheKey (ctx_TenantID ctx) cred
              in case TenantPCacheGet db (ctx_TenantID ctx) key of
                   Inl err \<Rightarrow> (db, Inl (if err = types_ErrNotFound then types_ErrFailed else err))
                 | Inr value \<Rightarrow>
                     (case Split value (CHR '':'') of
                        [p0, p1, p2] \<Rightarrow>
                          (case Atoi p1 of
                             None \<Rightarrow> (db, Inl types_ErrInternal)
                           | Some count \<Rightarrow>
                               if count \<ge> ca_maxRetries ca then (db, Inl types_ErrFailed)
                               else if p0 \<noteq> code then
                                 (fst (TenantPCacheUpsert db (ctx_TenantID ctx) key
                                    (p0 @ '':'' @ FormatInt (count + 1) @ '':'' @ p2) False), Inl types_ErrFailed)
                               else
                                 (fst (TenantPCacheDelete db (ctx_TenantID ctx) key),
                                  Inr (empty_rec
                                    \<lparr>rec_TenantID := ctx_TenantID ctx, rec_Uid := ParseUid p2,
                                     rec_AuthLevel := LevelNone, rec_Lifetime := ca_lifetime ca,
                                     rec_Features := FeatureNoLogin, rec_State := StateUndefined,
                                     rec_Credential := cred\<rparr>)))
                      | _ \<Rightarrow> (db, Inl types_ErrInternal)))
         | _ \<Rightarrow> (db, Inl types_ErrMalformed)))"

text \<open>
  \<open>rnd\<close> is the outcome of \<^verbatim>\<open>rand.Int\<close>. Instants are in nanoseconds. The padding
  \<^verbatim>\<open>strings.Repeat("0", codeLength-len(resp))\<close> is never negative as the code is below
  \<^verbatim>\<open>maxCodeValue\<close>.
\<close>

definition code_GenSecret ::
  "code_authenticator \<Rightarrow> kvmeta \<Rightarrow> int \<Rightarrow> (store_error + int) \<Rightarrow> auth_rec option \<Rightarrow>
     kvmeta \<times> (store_error + (string \<times> int \<times> auth_rec))" where
  "code_GenSecret ca db now rnd r =
     (case r of
        None \<Rightarrow> (db, Inl types_ErrMalformed)
      | Some rr \<Rightarrow>
          if TenantID_IsZero (rec_TenantID rr) then (db, Inl types_ErrMalformed)
          else
            (let db1 = fst (TenantPCacheExpire db (rec_TenantID rr) (cachePrefix (rec_TenantID rr))
                         (now - ca_lifetime ca))
             in case rnd of
                  Inl _ \<Rightarrow> (db1, Inl types_ErrInternal)
                | Inr code \<Rightarrow>
                    (let resp0 = FormatInt code;
                         resp = replicate (ca_codeLength ca - length resp0) (CHR ''0'') @ resp0
                     in if rec_Lifetime rr < 0 then (db1, Inl types_ErrExpired)
                        else
                          (let rr = (if rec_Lifetime rr = 0 then rr\<lparr>rec_Lifetime := ca_lifetime ca\<rparr> else rr);
                               (db2, err) = TenantPCacheUpsert db1 (rec_TenantID rr)
                                  (cacheKey (rec_TenantID rr) (rec_Credential rr))
                                  (resp @ '':0:'' @ Uid_String (rec_Uid rr)) True
                           in case err of
                                Some e \<Rightarrow> (db2, Inl e)
                              | None \<Rightarrow> (db2, Inr (resp, (now + rec_Lifetime rr + 500000) div 1000000 * 1000000, rr))))))"

subsection \<open>Splitting the stored entry\<close>

lemma FormatInt_no_colon: "0 \<le> i \<Longrightarrow> CHR '':'' \<notin> set (FormatInt i)"
  using FormatInt_pos_digits [of i] by (auto simp: list_all_iff is_digit_char_def)

lemma Uid_String_no_colon: "CHR '':'' \<notin> set (Uid_String u)"
proof -
  have c: "b64_char v \<noteq> CHR '':''" if "v < 64" for v
  proof
    assume "b64_char v = CHR '':''"
    then have "b64_value (CHR '':'') = Some v" using b64_value_char [OF that] by simp
    then show False by (simp add: b64_value_def)
  qed
  have "CHR '':'' \<notin> set (b64_encode bs)" for bs
  proof (induction bs rule: b64_encode.induct)
    case (4 x y z r)
    have "b64_pack x y z div 262144 < 64" using b64_pack_less [of x y z] by simp
    with 4 show ?case using c by (auto simp: Let_def dest: sym)
  next
    case (2 x)
    have "b64_pack x 0 0 div 262144 < 64" using b64_pack_less [of x 0 0] by simp
    then show ?case using c by (auto simp: Let_def dest: sym)
  next
    case (3 x y)
    have "b64_pack x y 0 div 262144 < 64" using b64_pack_less [of x y 0] by simp
    then show ?case using c by (auto simp: Let_def dest: sym)
  qed simp
  then show ?thesis by (auto simp: Uid_String_def Uid_MarshalText_def)
qed

subsection \<open>One attempt\<close>

definition code_entry :: "string \<Rightarrow> int \<Rightarrow> uid \<Rightarrow> string" where
  "code_entry code count u = code @ CHR '':'' # FormatInt count @ CHR '':'' # Uid_String u"

lemma Split_code_entry:
  "CHR '':'' \<notin> set code \<Longrightarrow> 0 \<le> count \<Longrightarrow>
     Split (code_entry code count u) (CHR '':'') = [code, FormatInt count, Uid_String u]"
  unfolding code_entry_def by (intro Split_3 FormatInt_no_colon Uid_String_no_colon)

lemma code_Authenticate_entry:
  assumes "AuthContext_IsValid ctx" "CHR '':'' \<notin> set guess" "CHR '':'' \<notin> set code" "0 \<le> count" "count < 2 ^ 63"
    and "TenantPCacheGet db (ctx_TenantID ctx) (cacheKey (ctx_TenantID ctx) cred) = Inr (code_entry code count u)"
  shows "code_Authenticate ca ctx db (guess @ CHR '':'' # cred) =
    (if count \<ge> ca_maxRetries ca then (db, Inl types_ErrFailed)
     else if code \<noteq> guess then
       (fst (TenantPCacheUpsert db (ctx_TenantID ctx) (cacheKey (ctx_TenantID ctx) cred)
          (code_entry code (count + 1) u) False), Inl types_ErrFailed)
     else
       (fst (TenantPCacheDelete db (ctx_TenantID ctx) (cacheKey (ctx_TenantID ctx) cred)),
        Inr (empty_rec\<lparr>rec_TenantID := ctx_TenantID ctx, rec_Uid := u, rec_AuthLevel := LevelNone,
           rec_Lifetime := ca_lifetime ca, rec_Features := FeatureNoLogin, rec_State := StateUndefined,
           rec_Credential := cred\<rparr>)))"
proof -
  have uid: "ParseUid (Uid_String u) = u" by (simp add: ParseUid_def Uid_String_def Uid_text_result)
  show ?thesis
    using assms
    by (simp add: code_Authenticate_def SplitN_2 Split_code_entry Atoi_FormatInt uid Let_def)
      (simp add: code_entry_def)
qed

subsection \<open>The life of a code\<close>

text \<open>The cache after a sequence of guesses for one credential.\<close>

definition code_guesses :: "code_authenticator \<Rightarrow> auth_context \<Rightarrow> string \<Rightarrow> string list \<Rightarrow> kvmeta \<Rightarrow> kvmeta" where
  "code_guesses ca ctx cred gs db =
     fold (\<lambda>g db. fst (code_Authenticate ca ctx db (g @ CHR '':'' # cred))) gs db"

lemma code_guesses_count:
  assumes "AuthContext_IsValid ctx" "CHR '':'' \<notin> set code" "ca_maxRetries ca < 2 ^ 63"
    and "\<forall>g \<in> set gs. CHR '':'' \<notin> set g \<and> g \<noteq> code"
    and "TenantPCacheGet db (ctx_TenantID ctx) (cacheKey (ctx_TenantID ctx) cred) = Inr (code_entry code count u)"
    and "kv_fail db = None" "0 \<le> count" "count \<le> ca_maxRetries ca"
  shows "kv_fail (code_guesses ca ctx cred gs db) = None \<and>
    TenantPCacheGet (code_guesses ca ctx cred gs db) (ctx_TenantID ctx) (cacheKey (ctx_TenantID ctx) cred) =
      Inr (code_entry code (min (count + int (length gs)) (ca_maxRetries ca)) u)"
  using assms(4-)
proof (induction gs arbitrary: db count)
  case Nil
  then show ?case by (simp add: code_guesses_def)
next
  case (Cons g gs)
  let ?i = "ctx_TenantID ctx" and ?k = "cacheKey (ctx_TenantID ctx) cred"
  let ?db' = "fst (code_Authenticate ca ctx db (g @ CHR '':'' # cred))"
  have step: "code_guesses ca ctx cred (g # gs) db = code_guesses ca ctx cred gs ?db'"
    by (simp add: code_guesses_def)
  note auth = code_Authenticate_entry [OF assms(1) _ assms(2) Cons.prems(4) _ Cons.prems(2), of g ca]
  show ?case
  proof (cases "count \<ge> ca_maxRetries ca")
    case True
    then have "?db' = db" using auth Cons.prems(1,5) assms(3) by simp
    with True Cons show ?thesis by (simp add: step)
  next
    case False
    obtain db' where db': "TenantPCacheUpsert db ?i ?k (code_entry code (count + 1) u) False = (db', None)"
        "kv_fail db' = None"
      using kv.upsert_ok [OF Cons.prems(3,2)] by blast
    have "?db' = db'" using False auth Cons.prems(1) assms(3) db'(1) by auto
    moreover have "TenantPCacheGet db' ?i ?k = Inr (code_entry code (count + 1) u)"
      using kv.get_upsert [OF db'(1), of ?i ?k] by simp
    ultimately show ?thesis
      using Cons.IH [of db' "count + 1"] Cons.prems False db'(2) by (simp add: step add.assoc)
  qed
qed

lemma code_GenSecret_entry:
  assumes "code_GenSecret ca db now (Inr n) (Some r) = (db1, Inr (resp, expires, r'))" "0 \<le> n"
  shows "kv_fail db1 = None" "rec_TenantID r \<noteq> 0" "CHR '':'' \<notin> set resp"
    "TenantPCacheGet db1 (rec_TenantID r) (cacheKey (rec_TenantID r) (rec_Credential r)) =
       Inr (code_entry resp 0 (rec_Uid r))"
proof -
  let ?i = "rec_TenantID r" and ?k = "cacheKey (rec_TenantID r) (rec_Credential r)"
  have F: "FormatInt 0 = ''0''" by code_simp
  obtain db0 where up: "TenantPCacheUpsert db0 ?i ?k (resp @ '':0:'' @ Uid_String (rec_Uid r)) True = (db1, None)"
      and resp: "resp = replicate (ca_codeLength ca - length (FormatInt n)) (CHR ''0'') @ FormatInt n"
      and tid: "?i \<noteq> 0"
    using assms(1) by (auto simp: code_GenSecret_def Let_def TenantID_IsZero_def
        split: if_splits prod.splits option.splits)
  show "rec_TenantID r \<noteq> 0" by (rule tid)
  show "CHR '':'' \<notin> set resp" using FormatInt_no_colon [OF assms(2)] by (auto simp: resp)
  show "TenantPCacheGet db1 ?i ?k = Inr (code_entry resp 0 (rec_Uid r))"
    using kv.get_upsert [OF up, of ?i ?k] by (simp add: code_entry_def F)
  show "kv_fail db1 = None"
    using up by (auto simp: TenantPCacheUpsert_def PCacheUpsert_def split: if_splits sum.splits option.splits)
qed


definition code_sample :: code_authenticator where
  "code_sample = \<lparr>ca_name = ''code'', ca_codeLength = 6, ca_maxCodeValue = 1000000, ca_lifetime = 900 * 10 ^ 9,
     ca_maxRetries = 3\<rparr>"


text \<open>
  Codes of different tenants never meet: an attempt made in the context of one tenant, right or
  wrong, leaves every cache entry of every other tenant as it was.
\<close>

theorem reset_code_tenant_frame:
  assumes "i \<noteq> ctx_TenantID ctx"
  shows "TenantPCacheGet (fst (code_Authenticate ca ctx db secret)) i k = TenantPCacheGet db i k"
proof -
  have "TenantPCacheGet (fst (TenantPCacheUpsert db (ctx_TenantID ctx) k' v f)) i k = TenantPCacheGet db i k"
    "TenantPCacheGet (fst (TenantPCacheDelete db (ctx_TenantID ctx) k')) i k = TenantPCacheGet db i k" for k' v f
    using kv.upsert_frame [of db "ctx_TenantID ctx" k' v f _ _ i k] kv.delete_frame [of db "ctx_TenantID ctx" k' _ _ i k]
      assms by (metis fst_conv prod.collapse)+
  then show ?thesis
    by (auto simp: code_Authenticate_def Let_def split: list.split sum.split option.split)
qed

theorem reset_code_tenant_frame_witness:
  "TenantPCacheGet (fst (code_Authenticate code_sample \<lparr>ctx_TenantID = 7, ctx_RemoteAddr = []\<rparr>
     \<lparr>kv_rows = Map.empty, kv_fail = None, kv_now = 5\<rparr> ''1:email:x'')) 8 ''k'' =
   TenantPCacheGet \<lparr>kv_rows = Map.empty, kv_fail = None, kv_now = 5\<rparr> 8 ''k''"
  by (rule reset_code_tenant_frame) simp

end
