(* ===== verification/Cluster.thy ===== *)
theory Cluster
  imports Utils RingHash
begin

section \<open>Cluster membership and leader election (server/cluster.go, server/cluster_leader.go)\<close>

text \<open>
  One node's view of the cluster and the operations of its failover loop: rehashing, routing of
  topics, the leader's health checks, the election with its vote counting, and the handlers of
  health checks and vote requests. A remote procedure call appears as the message it carries and as
  the event by which its outcome reaches the caller. The maps of remote nodes are kept as the list
  of their names, in the order in which a loop visits them. A nil dereference is \<open>None\<close>. Work handed
  to other components (the hub, the proxied sessions) is returned as a list of effects.
\<close>

definition clusterHashReplicas :: int where "clusterHashReplicas = 20"

text \<open>
  A vote count in progress: the loop variable \<^verbatim>\<open>i\<close> and \<^verbatim>\<open>voteCount\<close> of \<^verbatim>\<open>electLeader\<close>.
\<close>

record election =
  el_i :: nat
  el_voteCount :: nat

record cluster =
  cl_nodes :: "string list"
  thisNodeName :: string
  cl_ring :: ring
  cl_failCount :: "string \<Rightarrow> int"
  cl_msess :: "string \<Rightarrow> string list"
  cl_fingerprint :: "string \<Rightarrow> int"
  fo_enabled :: bool
  fo_leader :: string
  fo_term :: int
  fo_heartBeat :: int
  fo_voteTimeout :: int
  fo_activeNodes :: "string list"
  fo_nodeFailCountLimit :: int
  run_missed :: int
  run_rehashSkipped :: bool
  run_election :: "election option"

datatype cluster_effect = InvalidateProxySubs string | StopSession string | HubRehash

subsection \<open>Routing\<close>

definition cluster_rehash :: "cluster \<Rightarrow> string list \<Rightarrow> cluster" where
  "cluster_rehash c nodes =
     (let ringKeys = (if nodes = [] then cl_nodes c @ [thisNodeName c] else nodes)
      in c\<lparr>cl_ring := Ring_Add (New clusterHashReplicas None) ringKeys\<rparr>)"

definition nodeForTopic :: "cluster \<Rightarrow> topic_key \<Rightarrow> string option" where
  "nodeForTopic c topic =
     (if \<not> TopicKey_IsValid topic then None
      else
        (let nodeName = Ring_Get (cl_ring c) (TopicKey_RoutingKey topic)
         in if nodeName = thisNodeName c then None
            else if nodeName \<in> set (cl_nodes c) then Some nodeName else None))"

text \<open>A nil cluster (clustering not configured) is \<open>None\<close>.\<close>

definition isRemoteTopic :: "cluster option \<Rightarrow> topic_key \<Rightarrow> bool" where
  "isRemoteTopic c topic =
     (case c of
        None \<Rightarrow> False
      | Some c \<Rightarrow> TopicKey_IsValid topic \<and> Ring_Get (cl_ring c) (TopicKey_RoutingKey topic) \<noteq> thisNodeName c)"

definition isPartitioned :: "cluster option \<Rightarrow> bool" where
  "isPartitioned c =
     (case c of
        None \<Rightarrow> False
      | Some c \<Rightarrow> fo_enabled c \<and> (length (cl_nodes c) + 1) div 2 \<ge> length (fo_activeNodes c))"

text \<open>
  A name that is not a remote node gives a nil node, whose lock is then dereferenced.
\<close>

definition gcProxySessionsForNode :: "cluster \<Rightarrow> string \<Rightarrow> (cluster \<times> cluster_effect list) option" where
  "gcProxySessionsForNode c node =
     (if node \<notin> set (cl_nodes c) then None
      else Some (c\<lparr>cl_msess := (cl_msess c)(node := [])\<rparr>, map StopSession (cl_msess c node)))"

fun gcProxySessions_loop ::
  "cluster \<Rightarrow> cluster_effect list \<Rightarrow> string list \<Rightarrow> (cluster \<times> cluster_effect list) option" where
  "gcProxySessions_loop c eff [] = Some (c, eff)"
| "gcProxySessions_loop c eff (node # failedNodes) =
     (case gcProxySessionsForNode c node of
        None \<Rightarrow> None
      | Some (c', e) \<Rightarrow> gcProxySessions_loop c' (eff @ e) failedNodes)"

definition gcProxySessions :: "cluster \<Rightarrow> string list \<Rightarrow> (cluster \<times> cluster_effect list) option" where
  "gcProxySessions c activeNodes =
     (case stringSliceDelta (thisNodeName c # cl_nodes c) activeNodes of
        (_, failedNodes, _) \<Rightarrow> gcProxySessions_loop c [] failedNodes)"

definition Ping :: "cluster \<Rightarrow> string \<Rightarrow> int \<Rightarrow> (cluster \<times> cluster_effect list) option" where
  "Ping c node fingerprint =
     (if node \<notin> set (cl_nodes c) then Some (c, [])
      else if cl_fingerprint c node = 0 then
        Some (c\<lparr>cl_fingerprint := (cl_fingerprint c)(node := fingerprint)\<rparr>, [])
      else if cl_fingerprint c node \<noteq> fingerprint then
        map_option (\<lambda>(c', e). (c', InvalidateProxySubs node # e))
          (gcProxySessionsForNode (c\<lparr>cl_fingerprint := (cl_fingerprint c)(node := fingerprint)\<rparr>) node)
      else Some (c, []))"

subsection \<open>Failover set-up and health checks\<close>

record failover_config =
  fc_Enabled :: bool
  fc_Heartbeat :: int
  fc_VoteAfter :: int
  fc_NodeFailAfter :: int

text \<open>
  \<open>rnd\<close> is the result of \<^verbatim>\<open>rand.Intn\<close>, which panics (\<open>None\<close>) unless its bound is positive.
  Durations are in nanoseconds.
\<close>

definition failoverInit :: "int \<Rightarrow> cluster \<Rightarrow> failover_config option \<Rightarrow> (cluster \<times> bool) option" where
  "failoverInit rnd c config =
     (case config of
        None \<Rightarrow> Some (c, False)
      | Some cfg \<Rightarrow>
          if \<not> fc_Enabled cfg then Some (c, False)
          else if length (cl_nodes c) < 2 then Some (c, False)
          else
            (let activeNodes = cl_nodes c @ [thisNodeName c];
                 c = cluster_rehash c activeNodes;
                 hb = fc_Heartbeat cfg * 1000000
             in if hb div 2 \<le> 0 then None
                else Some (c\<lparr>fo_enabled := True, fo_leader := [], fo_term := 0, fo_activeNodes := activeNodes,
                       fo_heartBeat := hb div 2 + hb div 4 + rnd, fo_voteTimeout := fc_VoteAfter cfg,
                       fo_nodeFailCountLimit := fc_NodeFailAfter cfg\<rparr>, True)))"

record cluster_health =
  ch_Leader :: string
  ch_Term :: int
  ch_Signature :: string
  ch_Nodes :: "string list"

definition health_message :: "cluster \<Rightarrow> cluster_health" where
  "health_message c =
     \<lparr>ch_Leader = thisNodeName c, ch_Term = fo_term c, ch_Signature = ring_signature (cl_ring c),
      ch_Nodes = fo_activeNodes c\<rparr>"

text \<open>\<open>ok\<close> tells whose health call returned without error.\<close>

fun health_loop :: "(string \<Rightarrow> bool) \<Rightarrow> int \<Rightarrow> (string \<Rightarrow> int) \<Rightarrow> bool \<Rightarrow> string list \<Rightarrow> (string \<Rightarrow> int) \<times> bool" where
  "health_loop ok limit fc rehash [] = (fc, rehash)"
| "health_loop ok limit fc rehash (node # nodes) =
     (if \<not> ok node then
        health_loop ok limit (fc(node := fc node + 1)) (rehash \<or> fc node + 1 = limit) nodes
      else health_loop ok limit (fc(node := 0)) (rehash \<or> fc node \<ge> limit) nodes)"

definition sendHealthChecks :: "cluster \<Rightarrow> (string \<Rightarrow> bool) \<Rightarrow> (cluster \<times> cluster_effect list) option" where
  "sendHealthChecks c ok =
     (case health_loop ok (fo_nodeFailCountLimit c) (cl_failCount c) False (cl_nodes c) of
        (fc, rehash) \<Rightarrow>
          (let c = c\<lparr>cl_failCount := fc\<rparr>
           in if rehash then
                (let activeNodes = thisNodeName c # filter (\<lambda>n. fc n < fo_nodeFailCountLimit c) (cl_nodes c);
                     c = cluster_rehash (c\<lparr>fo_activeNodes := activeNodes\<rparr>) activeNodes
                 in map_option (\<lambda>(c', e). (c', [InvalidateProxySubs []] @ e @ [HubRehash]))
                      (gcProxySessions c activeNodes))
              else Some (c, [])))"

subsection \<open>Election\<close>

record vote_request =
  vr_Node :: string
  vr_Term :: int

record vote_response =
  vr_Result :: bool
  vr_RespTerm :: int

text \<open>What the select in the counting loop can receive.\<close>

datatype vote_event = VoteReply vote_response | VoteError | VoteTimeout

definition expectVotes :: "cluster \<Rightarrow> nat" where
  "expectVotes c = (length (cl_nodes c) + 1) div 2 + 1"

definition elect_begin :: "cluster \<Rightarrow> cluster" where
  "elect_begin c =
     c\<lparr>fo_term := fo_term c + 1, fo_leader := [], run_election := Some \<lparr>el_i = 0, el_voteCount = 1\<rparr>\<rparr>"

definition elect_request :: "cluster \<Rightarrow> vote_request" where
  "elect_request c = \<lparr>vr_Node = thisNodeName c, vr_Term = fo_term c\<rparr>"

fun vote_step :: "int \<Rightarrow> nat \<Rightarrow> election \<Rightarrow> vote_event \<Rightarrow> election" where
  "vote_step term nodeCount e (VoteReply r) =
     (if vr_Result r then e\<lparr>el_i := el_i e + 1, el_voteCount := el_voteCount e + 1\<rparr>
      else if term < vr_RespTerm r then e\<lparr>el_i := nodeCount + 1, el_voteCount := 0\<rparr>
      else e\<lparr>el_i := el_i e + 1\<rparr>)"
| "vote_step term nodeCount e VoteError = e\<lparr>el_i := el_i e + 1\<rparr>"
| "vote_step term nodeCount e VoteTimeout = e\<lparr>el_i := nodeCount\<rparr>"

definition counting :: "cluster \<Rightarrow> election \<Rightarrow> bool" where
  "counting c e \<longleftrightarrow> el_i e < length (cl_nodes c) \<and> el_voteCount e < expectVotes c"

definition elect_end :: "cluster \<Rightarrow> election \<Rightarrow> cluster" where
  "elect_end c e =
     (if el_voteCount e \<ge> expectVotes c then c\<lparr>fo_leader := thisNodeName c, run_election := None\<rparr>
      else c\<lparr>run_election := None\<rparr>)"

text \<open>
  The whole of \<^verbatim>\<open>electLeader\<close> on the events its loop receives, and the same cut into one step per
  event, which is how other nodes can act in between.
\<close>

fun vote_loop :: "cluster \<Rightarrow> election \<Rightarrow> vote_event list \<Rightarrow> election" where
  "vote_loop c e [] = e"
| "vote_loop c e (ev # evs) =
     (if counting c e then vote_loop c (vote_step (fo_term c) (length (cl_nodes c)) e ev) evs else e)"

definition electLeader :: "cluster \<Rightarrow> vote_event list \<Rightarrow> cluster" where
  "electLeader c evs =
     (let c = elect_begin c in elect_end c (vote_loop c \<lparr>el_i = 0, el_voteCount = 1\<rparr> evs))"

definition elect_event :: "cluster \<Rightarrow> vote_event \<Rightarrow> cluster" where
  "elect_event c ev =
     (case run_election c of
        None \<Rightarrow> c
      | Some e \<Rightarrow>
          (let e' = vote_step (fo_term c) (length (cl_nodes c)) e ev
           in if counting c e' then c\<lparr>run_election := Some e'\<rparr> else elect_end c e'))"

subsection \<open>The failover loop\<close>

definition handle_tick :: "cluster \<Rightarrow> (string \<Rightarrow> bool) \<Rightarrow> (cluster \<times> cluster_effect list) option" where
  "handle_tick c ok =
     (if fo_leader c = thisNodeName c then sendHealthChecks c ok
      else
        (let c = c\<lparr>run_missed := run_missed c + 1\<rparr>
         in if run_missed c \<ge> fo_voteTimeout c then Some (elect_begin (c\<lparr>run_missed := 0\<rparr>), [])
            else Some (c, [])))"

definition handle_health :: "cluster \<Rightarrow> cluster_health \<Rightarrow> (cluster \<times> cluster_effect list) option" where
  "handle_health c health =
     (if ch_Term health < fo_term c then Some (c, [])
      else
        (let c = (if ch_Term health > fo_term c then c\<lparr>fo_term := ch_Term health, fo_leader := ch_Leader health\<rparr>
                  else if ch_Leader health \<noteq> fo_leader c then c\<lparr>fo_leader := ch_Leader health\<rparr>
                  else c);
             c = c\<lparr>run_missed := 0\<rparr>
         in if ch_Signature health \<noteq> ring_signature (cl_ring c) then
              (if run_rehashSkipped c then
                 map_option (\<lambda>(c', e). (c'\<lparr>run_rehashSkipped := False\<rparr>, [InvalidateProxySubs []] @ e @ [HubRehash]))
                   (gcProxySessions (cluster_rehash c (ch_Nodes health)) (ch_Nodes health))
               else Some (c\<lparr>run_rehashSkipped := True\<rparr>, []))
            else Some (c, [])))"

definition handle_vote :: "cluster \<Rightarrow> vote_request \<Rightarrow> cluster \<times> vote_response" where
  "handle_vote c req =
     (if fo_term c < vr_Term req then
        (c\<lparr>fo_term := vr_Term req, fo_leader := []\<rparr>, \<lparr>vr_Result = True, vr_RespTerm = vr_Term req\<rparr>)
      else (c, \<lparr>vr_Result = False, vr_RespTerm = fo_term c\<rparr>))"

end
