(* ===== verification/Election.thy ===== *)
theory Election
  imports Cluster
begin

section \<open>The protocol of leader election\<close>

text \<open>
  The nodes of a cluster running their failover loops concurrently over a network that may delay,
  reorder and lose messages. A vote request is delivered at most once; a health check may be
  delivered any number of times. While a node counts votes its loop handles nothing else, so only
  the events of its count move it. Two history variables record the votes cast and the elections
  won. Nodes do not lose their term by restarting. The invariant of the reachable states gives the
  election its safety: at most one leader per term, and no node that follows another leader in the
  term of a health check it accepts.
\<close>

datatype cluster_msg =
    VoteReq string string int
  | VoteResp string string int vote_response
  | HealthMsg string cluster_health

record protocol =
  p_node :: "string \<Rightarrow> cluster"
  p_net :: "cluster_msg set"
  p_votes :: "(string \<times> int \<times> string) set"
  p_elected :: "(int \<times> string) set"

definition elected_now :: "string \<Rightarrow> cluster \<Rightarrow> (int \<times> string) set" where
  "elected_now n c = (if fo_leader c = n then {(fo_term c, n)} else {})"

inductive cstep :: "string set \<Rightarrow> protocol \<Rightarrow> protocol \<Rightarrow> bool" for N where
  tick_leader:
    "n \<in> N \<Longrightarrow> run_election (p_node s n) = None \<Longrightarrow> fo_leader (p_node s n) = n \<Longrightarrow>
     handle_tick (p_node s n) ok = Some (c', eff) \<Longrightarrow>
     cstep N s (s\<lparr>p_node := (p_node s)(n := c'),
       p_net := p_net s \<union> {HealthMsg v (health_message (p_node s n)) | v. v \<in> set (cl_nodes (p_node s n))}\<rparr>)"
| tick_elect:
    "n \<in> N \<Longrightarrow> run_election (p_node s n) = None \<Longrightarrow> fo_leader (p_node s n) \<noteq> n \<Longrightarrow>
     handle_tick (p_node s n) ok = Some (c', eff) \<Longrightarrow> run_election c' \<noteq> None \<Longrightarrow>
     cstep N s (s\<lparr>p_node := (p_node s)(n := c'),
       p_net := p_net s \<union> {VoteReq n v (fo_term c') | v. v \<in> set (cl_nodes c')},
       p_votes := insert (n, fo_term c', n) (p_votes s)\<rparr>)"
| tick_wait:
    "n \<in> N \<Longrightarrow> run_election (p_node s n) = None \<Longrightarrow> fo_leader (p_node s n) \<noteq> n \<Longrightarrow>
     handle_tick (p_node s n) ok = Some (c', eff) \<Longrightarrow> run_election c' = None \<Longrightarrow>
     cstep N s (s\<lparr>p_node := (p_node s)(n := c')\<rparr>)"
| vote:
    "v \<in> N \<Longrightarrow> run_election (p_node s v) = None \<Longrightarrow> VoteReq n v t \<in> p_net s \<Longrightarrow>
     handle_vote (p_node s v) \<lparr>vr_Node = n, vr_Term = t\<rparr> = (c', r) \<Longrightarrow>
     cstep N s (s\<lparr>p_node := (p_node s)(v := c'),
       p_net := insert (VoteResp v n t r) (p_net s - {VoteReq n v t}),
       p_votes := p_votes s \<union> (if vr_Result r then {(v, t, n)} else {})\<rparr>)"
| count:
    "n \<in> N \<Longrightarrow> run_election (p_node s n) \<noteq> None \<Longrightarrow> VoteResp v n (fo_term (p_node s n)) r \<in> p_net s \<Longrightarrow>
     c' = elect_event (p_node s n) (VoteReply r) \<Longrightarrow>
     cstep N s (s\<lparr>p_node := (p_node s)(n := c'),
       p_net := p_net s - {VoteResp v n (fo_term (p_node s n)) r},
       p_elected := p_elected s \<union> elected_now n c'\<rparr>)"
| give_up:
    "n \<in> N \<Longrightarrow> run_election (p_node s n) \<noteq> None \<Longrightarrow> ev = VoteError \<or> ev = VoteTimeout \<Longrightarrow>
     c' = elect_event (p_node s n) ev \<Longrightarrow>
     cstep N s (s\<lparr>p_node := (p_node s)(n := c'), p_elected := p_elected s \<union> elected_now n c'\<rparr>)"
| health:
    "n \<in> N \<Longrightarrow> run_election (p_node s n) = None \<Longrightarrow> HealthMsg n h \<in> p_net s \<Longrightarrow>
     handle_health (p_node s n) h = Some (c', eff) \<Longrightarrow>
     cstep N s (s\<lparr>p_node := (p_node s)(n := c')\<rparr>)"
| lose:
    "net \<subseteq> p_net s \<Longrightarrow> cstep N s (s\<lparr>p_net := net\<rparr>)"

text \<open>
  A cluster at the start: every node knows the others and itself by distinct non-empty names, follows
  nobody and has the term 0.
\<close>

definition cinit :: "string set \<Rightarrow> protocol \<Rightarrow> bool" where
  "cinit N s \<longleftrightarrow> finite N \<and> [] \<notin> N \<and> p_net s = {} \<and> p_votes s = {} \<and> p_elected s = {} \<and>
     (\<forall>n \<in> N. thisNodeName (p_node s n) = n \<and> distinct (cl_nodes (p_node s n)) \<and>
        set (cl_nodes (p_node s n)) = N - {n} \<and> fo_leader (p_node s n) = [] \<and>
        fo_term (p_node s n) = 0 \<and> run_election (p_node s n) = None)"

inductive creachable :: "string set \<Rightarrow> protocol \<Rightarrow> bool" for N where
  "cinit N s \<Longrightarrow> creachable N s"
| "creachable N s \<Longrightarrow> cstep N s s' \<Longrightarrow> creachable N s'"

subsection \<open>What the handlers keep\<close>

definition same_identity :: "cluster \<Rightarrow> cluster \<Rightarrow> bool" where
  "same_identity c c' \<longleftrightarrow> thisNodeName c' = thisNodeName c \<and> cl_nodes c' = cl_nodes c"

definition same_vote_state :: "cluster \<Rightarrow> cluster \<Rightarrow> bool" where
  "same_vote_state c c' \<longleftrightarrow> fo_term c' = fo_term c \<and> fo_leader c' = fo_leader c \<and> run_election c' = run_election c"

lemma gc_loop_frame:
  "gcProxySessions_loop c eff ns = Some (c', e) \<Longrightarrow> same_identity c c' \<and> same_vote_state c c' \<and>
     fo_activeNodes c' = fo_activeNodes c \<and> fo_enabled c' = fo_enabled c"
  by (induction c eff ns rule: gcProxySessions_loop.induct)
    (auto simp: gcProxySessionsForNode_def same_identity_def same_vote_state_def split: if_splits option.splits)

lemma gc_frame:
  "gcProxySessions c ns = Some (c', e) \<Longrightarrow> same_identity c c' \<and> same_vote_state c c' \<and>
     fo_activeNodes c' = fo_activeNodes c \<and> fo_enabled c' = fo_enabled c"
  by (auto simp: gcProxySessions_def dest: gc_loop_frame split: prod.splits)

lemma sendHealthChecks_frame:
  assumes "sendHealthChecks c ok = Some (c', e)"
  shows "same_identity c c' \<and> same_vote_state c c'"
proof -
  obtain fc re where loop: "health_loop ok (fo_nodeFailCountLimit c) (cl_failCount c) False (cl_nodes c) = (fc, re)"
    by fastforce
  show ?thesis
    using assms gc_frame
    by (fastforce simp: sendHealthChecks_def loop cluster_rehash_def Let_def same_identity_def same_vote_state_def
        split: if_splits)
qed

lemma handle_tick_leader:
  "fo_leader c = thisNodeName c \<Longrightarrow> handle_tick c ok = Some (c', e) \<Longrightarrow> same_identity c c' \<and> same_vote_state c c'"
  by (simp add: handle_tick_def sendHealthChecks_frame)

lemma handle_tick_elect:
  assumes "fo_leader c \<noteq> thisNodeName c" "run_election c = None" "handle_tick c ok = Some (c', e)" "run_election c' \<noteq> None"
  shows "same_identity c c'" "fo_term c' = fo_term c + 1" "fo_leader c' = []"
    "run_election c' = Some \<lparr>el_i = 0, el_voteCount = 1\<rparr>"
  using assms by (auto simp: handle_tick_def elect_begin_def same_identity_def Let_def split: if_splits)

lemma handle_tick_wait:
  assumes "fo_leader c \<noteq> thisNodeName c" "handle_tick c ok = Some (c', e)" "run_election c' = None"
  shows "same_identity c c' \<and> same_vote_state c c'"
  using assms by (auto simp: handle_tick_def elect_begin_def same_identity_def same_vote_state_def Let_def split: if_splits)

lemma elect_event_result:
  assumes "run_election c = Some e" "e' = vote_step (fo_term c) (length (cl_nodes c)) e ev"
  shows "same_identity c (elect_event c ev)" "fo_term (elect_event c ev) = fo_term c"
    "run_election (elect_event c ev) = None \<or> run_election (elect_event c ev) = Some e' \<and> fo_leader (elect_event c ev) = fo_leader c"
    "fo_leader (elect_event c ev) \<noteq> fo_leader c \<Longrightarrow>
       fo_leader (elect_event c ev) = thisNodeName c \<and> el_voteCount e' \<ge> expectVotes c"
  using assms by (auto simp: elect_event_def elect_end_def same_identity_def Let_def split: if_splits)

text \<open>The leader and term after a health check that is not stale, before the ring is looked at.\<close>

definition follow :: "cluster \<Rightarrow> cluster_health \<Rightarrow> cluster" where
  "follow c h =
     (if ch_Term h > fo_term c then c\<lparr>fo_term := ch_Term h, fo_leader := ch_Leader h\<rparr>
      else if ch_Leader h \<noteq> fo_leader c then c\<lparr>fo_leader := ch_Leader h\<rparr> else c)\<lparr>run_missed := 0\<rparr>"

lemma follow_fields:
  assumes "\<not> ch_Term h < fo_term c"
  shows "same_identity c (follow c h)" "run_election (follow c h) = run_election c" "fo_term (follow c h) = ch_Term h"
    "fo_leader (follow c h) = ch_Leader h" "fo_activeNodes (follow c h) = fo_activeNodes c"
    "fo_enabled (follow c h) = fo_enabled c" "cl_ring (follow c h) = cl_ring c"
    "run_rehashSkipped (follow c h) = run_rehashSkipped c"
  using assms by (auto simp: follow_def same_identity_def)

lemma handle_health_follow:
  assumes "\<not> ch_Term h < fo_term c"
  shows "handle_health c h =
    (if ch_Signature h \<noteq> ring_signature (cl_ring c) then
       (if run_rehashSkipped c then
          map_option (\<lambda>(c', e). (c'\<lparr>run_rehashSkipped := False\<rparr>, [InvalidateProxySubs []] @ e @ [HubRehash]))
            (gcProxySessions (cluster_rehash (follow c h) (ch_Nodes h)) (ch_Nodes h))
        else Some ((follow c h)\<lparr>run_rehashSkipped := True\<rparr>, []))
     else Some (follow c h, []))"
  using assms follow_fields(7,8) [OF assms] unfolding handle_health_def follow_def [symmetric] Let_def
  by (simp only: if_False)

lemma handle_health_frame:
  assumes "handle_health c h = Some (c', e)"
  shows "same_identity c c' \<and> run_election c' = run_election c \<and> fo_term c' = max (fo_term c) (ch_Term h) \<and>
    fo_leader c' = (if ch_Term h < fo_term c then fo_leader c else ch_Leader h) \<and>
    fo_activeNodes c' = fo_activeNodes c \<and> fo_enabled c' = fo_enabled c"
proof (cases "ch_Term h < fo_term c")
  case True
  with assms show ?thesis by (auto simp: handle_health_def same_identity_def)
next
  case False
  let ?c1 = "follow c h"
  have id: "same_identity ?c1 c' \<and> same_vote_state ?c1 c' \<and> fo_activeNodes c' = fo_activeNodes ?c1 \<and>
      fo_enabled c' = fo_enabled ?c1"
  proof (cases "ch_Signature h \<noteq> ring_signature (cl_ring c) \<and> run_rehashSkipped c")
    case True
    with assms obtain c2 e2 where "gcProxySessions (cluster_rehash ?c1 (ch_Nodes h)) (ch_Nodes h) = Some (c2, e2)"
        "c' = c2\<lparr>run_rehashSkipped := False\<rparr>"
      by (auto simp: handle_health_follow [OF False])
    with gc_frame [OF this(1)] show ?thesis
      by (simp add: cluster_rehash_def Let_def same_identity_def same_vote_state_def)
  next
    case other: False
    with assms show ?thesis
      by (auto simp: handle_health_follow [OF False] same_identity_def same_vote_state_def split: if_splits)
  qed
  with follow_fields [OF False] False show ?thesis
    by (simp add: same_identity_def same_vote_state_def max_def)
qed

subsection \<open>The invariant\<close>

definition wf_node :: "string set \<Rightarrow> string \<Rightarrow> cluster \<Rightarrow> bool" where
  "wf_node N n c \<longleftrightarrow> thisNodeName c = n \<and> distinct (cl_nodes c) \<and> set (cl_nodes c) = N - {n}"

definition voters :: "protocol \<Rightarrow> int \<Rightarrow> string \<Rightarrow> string set" where
  "voters s t c = {v. (v, t, c) \<in> p_votes s}"

text \<open>A node that counts votes has voted for itself and counted only votes that were cast for it.\<close>

definition count_inv :: "string set \<Rightarrow> protocol \<Rightarrow> string \<Rightarrow> bool" where
  "count_inv N s n \<longleftrightarrow>
     (\<forall>e. run_election (p_node s n) = Some e \<longrightarrow>
        fo_leader (p_node s n) = [] \<and> n \<in> voters s (fo_term (p_node s n)) n \<and>
        (\<exists>G \<subseteq> N - {n}. G \<subseteq> voters s (fo_term (p_node s n)) n \<and> el_voteCount e \<le> 1 + card G \<and>
           (\<forall>v \<in> G. \<forall>r. VoteResp v n (fo_term (p_node s n)) r \<in> p_net s \<longrightarrow> \<not> vr_Result r)))"

definition inv_nodes :: "string set \<Rightarrow> protocol \<Rightarrow> bool" where
  "inv_nodes N s \<longleftrightarrow> finite N \<and> [] \<notin> N \<and> (\<forall>n \<in> N. wf_node N n (p_node s n))"

definition inv_votes :: "string set \<Rightarrow> protocol \<Rightarrow> bool" where
  "inv_votes N s \<longleftrightarrow>
     (\<forall>v t c. (v, t, c) \<in> p_votes s \<longrightarrow> v \<in> N \<and> t \<le> fo_term (p_node s v)) \<and>
     (\<forall>v t c c'. (v, t, c) \<in> p_votes s \<longrightarrow> (v, t, c') \<in> p_votes s \<longrightarrow> c = c')"

definition inv_net :: "protocol \<Rightarrow> bool" where
  "inv_net s \<longleftrightarrow>
     (\<forall>v n t. VoteReq n v t \<in> p_net s \<longrightarrow> n \<noteq> v) \<and>
     (\<forall>v n t r. VoteResp v n t r \<in> p_net s \<longrightarrow> n \<noteq> v \<and>
        (vr_Result r \<longrightarrow> (v, t, n) \<in> p_votes s \<and> vr_RespTerm r = t))"

definition inv_elected :: "string set \<Rightarrow> protocol \<Rightarrow> bool" where
  "inv_elected N s \<longleftrightarrow>
     (\<forall>t c. (t, c) \<in> p_elected s \<longrightarrow> card N div 2 + 1 \<le> card (voters s t c)) \<and>
     (\<forall>n \<in> N. fo_leader (p_node s n) \<noteq> [] \<longrightarrow> (fo_term (p_node s n), fo_leader (p_node s n)) \<in> p_elected s) \<and>
     (\<forall>n h. HealthMsg n h \<in> p_net s \<longrightarrow> (ch_Term h, ch_Leader h) \<in> p_elected s)"

definition cinv :: "string set \<Rightarrow> protocol \<Rightarrow> bool" where
  "cinv N s \<longleftrightarrow> inv_nodes N s \<and> (\<forall>n \<in> N. count_inv N s n) \<and> inv_votes N s \<and> inv_net s \<and> inv_elected N s"

lemma cinvD:
  assumes "cinv N s"
  shows "inv_nodes N s" "n \<in> N \<Longrightarrow> count_inv N s n" "inv_votes N s" "inv_net s" "inv_elected N s"
    "finite N" "n \<in> N \<Longrightarrow> wf_node N n (p_node s n)" "n \<in> N \<Longrightarrow> n \<noteq> []"
  using assms by (auto simp: cinv_def inv_nodes_def)

lemma cinit_cinv: "cinit N s \<Longrightarrow> cinv N s"
  by (auto simp: cinit_def cinv_def inv_nodes_def wf_node_def count_inv_def inv_votes_def inv_net_def inv_elected_def)

lemma vote_bound:
  assumes "cinv N s" "(v, t, c) \<in> p_votes s"
  shows "v \<in> N" "t \<le> fo_term (p_node s v)"
  using cinvD(3) [OF assms(1)] assms(2) unfolding inv_votes_def by blast+

lemma vote_once:
  assumes "cinv N s" "(v, t, c) \<in> p_votes s" "(v, t, c') \<in> p_votes s"
  shows "c = c'"
  using cinvD(3) [OF assms(1)] assms(2,3) unfolding inv_votes_def by blast

lemma voters_subset: "cinv N s \<Longrightarrow> voters s t c \<subseteq> N"
  unfolding voters_def using vote_bound(1) by blast

lemma voters_finite: "cinv N s \<Longrightarrow> finite (voters s t c)"
  by (rule finite_subset [OF voters_subset cinvD(6)])

text \<open>Elections stay won when votes are added.\<close>

lemma elected_mono:
  assumes "cinv N s" "p_votes s \<subseteq> p_votes s'" "p_votes s' \<subseteq> N \<times> UNIV" "(t, c) \<in> p_elected s"
  shows "card N div 2 + 1 \<le> card (voters s' t c)"
proof -
  have "finite (voters s' t c)"
    by (rule finite_subset [OF _ cinvD(6) [OF assms(1)]]) (use assms(3) in \<open>auto simp: voters_def\<close>)
  then have "card (voters s t c) \<le> card (voters s' t c)"
    by (rule card_mono) (use assms(2) in \<open>auto simp: voters_def\<close>)
  moreover have "card N div 2 + 1 \<le> card (voters s t c)"
    using cinvD(5) [OF assms(1)] assms(4) unfolding inv_elected_def by blast
  ultimately show ?thesis by simp
qed

lemma votes_subset: "cinv N s \<Longrightarrow> p_votes s \<subseteq> N \<times> UNIV"
  using vote_bound(1) by fastforce

lemma wf_node_identity: "wf_node N n c \<Longrightarrow> same_identity c c' \<Longrightarrow> wf_node N n c'"
  by (simp add: wf_node_def same_identity_def)

lemma inv_nodes_update:
  "inv_nodes N s \<Longrightarrow> same_identity (p_node s n) c' \<Longrightarrow> p_node s' = (p_node s)(n := c') \<Longrightarrow> inv_nodes N s'"
  by (auto simp: inv_nodes_def intro: wf_node_identity)

text \<open>The count of a node that does not move survives, as long as no vote it has counted is sent again.\<close>

lemma count_inv_frame:
  assumes "count_inv N s n" "p_node s' n = p_node s n" "p_votes s \<subseteq> p_votes s'"
    and "\<And>v r. VoteResp v n (fo_term (p_node s n)) r \<in> p_net s' \<Longrightarrow> vr_Result r \<Longrightarrow>
        VoteResp v n (fo_term (p_node s n)) r \<in> p_net s \<or> v \<notin> voters s (fo_term (p_node s n)) n"
  shows "count_inv N s' n"
  unfolding count_inv_def
proof (intro allI impI)
  fix e assume "run_election (p_node s' n) = Some e"
  then have "run_election (p_node s n) = Some e" using assms(2) by simp
  from assms(1) [unfolded count_inv_def, THEN spec, THEN mp, OF this] obtain G where G: "fo_leader (p_node s n) = []" "n \<in> voters s (fo_term (p_node s n)) n" "G \<subseteq> N - {n}"
      "G \<subseteq> voters s (fo_term (p_node s n)) n" "el_voteCount e \<le> 1 + card G"
      "\<forall>v \<in> G. \<forall>r. VoteResp v n (fo_term (p_node s n)) r \<in> p_net s \<longrightarrow> \<not> vr_Result r"
    by (elim conjE exE)
  have mono: "voters s t n \<subseteq> voters s' t n" for t using assms(3) by (auto simp: voters_def)
  have "\<forall>v \<in> G. \<forall>r. VoteResp v n (fo_term (p_node s n)) r \<in> p_net s' \<longrightarrow> \<not> vr_Result r"
  proof (intro ballI allI impI notI)
    fix v r assume v: "v \<in> G" and r: "VoteResp v n (fo_term (p_node s n)) r \<in> p_net s'" "vr_Result r"
    have "v \<in> voters s (fo_term (p_node s n)) n" using v G(4) by blast
    with assms(4) [OF r] have "VoteResp v n (fo_term (p_node s n)) r \<in> p_net s" by simp
    with G(6) v r(2) show False by blast
  qed
  moreover have "n \<in> voters s' (fo_term (p_node s n)) n" "G \<subseteq> voters s' (fo_term (p_node s n)) n"
    by (rule subsetD [OF mono G(2)], rule subset_trans [OF G(4) mono])
  ultimately show "fo_leader (p_node s' n) = [] \<and> n \<in> voters s' (fo_term (p_node s' n)) n \<and>
      (\<exists>G \<subseteq> N - {n}. G \<subseteq> voters s' (fo_term (p_node s' n)) n \<and> el_voteCount e \<le> 1 + card G \<and>
         (\<forall>v \<in> G. \<forall>r. VoteResp v n (fo_term (p_node s' n)) r \<in> p_net s' \<longrightarrow> \<not> vr_Result r))"
    unfolding assms(2) using G(1,3,5) by (intro conjI exI [of _ G])
qed

lemma count_inv_idle: "run_election (p_node s n) = None \<Longrightarrow> count_inv N s n"
  by (simp add: count_inv_def)

subsection \<open>Preservation\<close>

text \<open>A step of an idle node that keeps its term and leader and sends at most health checks of an elected leader.\<close>

lemma quiet_step:
  assumes inv: "cinv N s" and n: "n \<in> N" "run_election (p_node s n) = None"
    and keep: "same_identity (p_node s n) c'" "same_vote_state (p_node s n) c'"
    and net: "\<And>v n t. VoteReq v n t \<in> net \<longleftrightarrow> VoteReq v n t \<in> p_net s"
      "\<And>v n t r. VoteResp v n t r \<in> net \<longleftrightarrow> VoteResp v n t r \<in> p_net s"
      "\<And>v h. HealthMsg v h \<in> net \<Longrightarrow> (ch_Term h, ch_Leader h) \<in> p_elected s"
  shows "cinv N (s\<lparr>p_node := (p_node s)(n := c'), p_net := net\<rparr>)" (is "cinv N ?s'")
proof -
  note I = cinvD [OF inv]
  have "inv_nodes N ?s'" using I(1) keep(1) by (rule inv_nodes_update) simp
  moreover have "count_inv N ?s' m" if "m \<in> N" for m
  proof (cases "m = n")
    case True
    then show ?thesis using n(2) keep(2) by (intro count_inv_idle) (simp add: same_vote_state_def)
  next
    case False
    then show ?thesis by (intro count_inv_frame [OF I(2) [OF that]]) (simp_all add: net(2))
  qed
  moreover have "inv_votes N ?s'" using I(3) keep(2) by (auto simp: inv_votes_def same_vote_state_def)
  moreover have "inv_net ?s'" using I(4) net(1,2) by (simp add: inv_net_def)
  moreover have "inv_elected N ?s'"
    using I(5) net(3) keep(2) by (auto simp: inv_elected_def voters_def same_vote_state_def)
  ultimately show ?thesis by (simp add: cinv_def)
qed

lemma elect_step:
  assumes inv: "cinv N s" and n: "n \<in> N" "run_election (p_node s n) = None"
    and c': "same_identity (p_node s n) c'" "fo_term c' = fo_term (p_node s n) + 1" "fo_leader c' = []"
      "run_election c' = Some \<lparr>el_i = 0, el_voteCount = 1\<rparr>"
  shows "cinv N (s\<lparr>p_node := (p_node s)(n := c'),
       p_net := p_net s \<union> {VoteReq n v (fo_term c') | v. v \<in> set (cl_nodes c')},
       p_votes := insert (n, fo_term c', n) (p_votes s)\<rparr>)" (is "cinv N ?s'")
proof -
  note I = cinvD [OF inv]
  have wf: "wf_node N n c'" using I(7) [OF n(1)] c'(1) by (rule wf_node_identity)
  have new: "(n, fo_term c', c) \<notin> p_votes s" for c
    using vote_bound(2) [OF inv, of n "fo_term c'" c] c'(2) by auto
  have "inv_nodes N ?s'" using I(1) c'(1) by (rule inv_nodes_update) simp
  moreover have "count_inv N ?s' m" if "m \<in> N" for m
  proof (cases "m = n")
    case True
    then show ?thesis
      using c'(3,4) by (auto simp: count_inv_def voters_def intro: exI [of _ "{}"])
  next
    case False
    then show ?thesis by (intro count_inv_frame [OF I(2) [OF that]]) auto
  qed
  moreover have "inv_votes N ?s'"
    unfolding inv_votes_def
  proof (intro conjI allI impI)
    fix v t c assume "(v, t, c) \<in> p_votes ?s'"
    then have "(v, t, c) = (n, fo_term c', n) \<or> (v, t, c) \<in> p_votes s" by simp
    then show "v \<in> N" "t \<le> fo_term (p_node ?s' v)"
      using vote_bound [OF inv, of v t c] n(1) c'(2) by auto
    fix d assume "(v, t, d) \<in> p_votes ?s'"
    then show "c = d"
      using \<open>(v, t, c) = (n, fo_term c', n) \<or> (v, t, c) \<in> p_votes s\<close> new vote_once [OF inv, of v t c d] by auto
  qed
  moreover have "inv_net ?s'"
    using I(4) wf by (auto simp: inv_net_def wf_node_def)
  moreover have "inv_elected N ?s'"
  proof -
    have "card N div 2 + 1 \<le> card (voters ?s' t c)" if "(t, c) \<in> p_elected s" for t c
      using that votes_subset [OF inv] n(1) by (intro elected_mono [OF inv]) auto
    with I(5) c'(3) show ?thesis by (simp add: inv_elected_def)
  qed
  ultimately show ?thesis by (simp add: cinv_def)
qed

lemma vote_step_inv:
  assumes inv: "cinv N s" and v: "v \<in> N" "run_election (p_node s v) = None" and req: "VoteReq n v t \<in> p_net s"
    and h: "handle_vote (p_node s v) \<lparr>vr_Node = n, vr_Term = t\<rparr> = (c', r)"
  shows "cinv N (s\<lparr>p_node := (p_node s)(v := c'),
       p_net := insert (VoteResp v n t r) (p_net s - {VoteReq n v t}),
       p_votes := p_votes s \<union> (if vr_Result r then {(v, t, n)} else {})\<rparr>)" (is "cinv N ?s'")
proof -
  note I = cinvD [OF inv]
  have c': "same_identity (p_node s v) c'" "run_election c' = None" "fo_term (p_node s v) \<le> fo_term c'"
      "fo_leader c' = [] \<or> fo_leader c' = fo_leader (p_node s v) \<and> fo_term c' = fo_term (p_node s v)"
    using h v(2) by (auto simp: handle_vote_def same_identity_def split: if_splits)
  have yes: "fo_term (p_node s v) < t \<and> fo_term c' = t \<and> vr_RespTerm r = t" if "vr_Result r"
    using h that by (auto simp: handle_vote_def split: if_splits)
  have new: "(v, t, c) \<notin> p_votes s" if "vr_Result r" for c
    using vote_bound(2) [OF inv, of v t c] yes [OF that] by auto
  have ne: "n \<noteq> v" using I(4) req unfolding inv_net_def by blast
  have votes': "x \<in> p_votes ?s' \<longleftrightarrow> x \<in> p_votes s \<or> vr_Result r \<and> x = (v, t, n)" for x by auto
  have "inv_nodes N ?s'" using I(1) c'(1) by (rule inv_nodes_update) simp
  moreover have "count_inv N ?s' m" if "m \<in> N" for m
  proof (cases "m = v")
    case True
    then show ?thesis using c'(2) by (intro count_inv_idle) simp
  next
    case False
    have "VoteResp w m (fo_term (p_node s m)) q \<in> p_net s \<or> w \<notin> voters s (fo_term (p_node s m)) m"
      if "VoteResp w m (fo_term (p_node s m)) q \<in> p_net ?s'" "vr_Result q" for w q
      using that new by (auto simp: voters_def)
    with False show ?thesis by (intro count_inv_frame [OF I(2) [OF that]]) auto
  qed
  moreover have "inv_votes N ?s'"
    unfolding inv_votes_def
  proof (intro conjI allI impI)
    fix w u c assume w: "(w, u, c) \<in> p_votes ?s'"
    then show "w \<in> N" using vote_bound(1) [OF inv] v(1) by (auto simp del: fun_upd_apply split: if_splits)
    show "u \<le> fo_term (p_node ?s' w)"
    proof (cases "(w, u, c) \<in> p_votes s")
      case True
      with vote_bound(2) [OF inv True] c'(3) show ?thesis by auto
    next
      case False
      with w have "vr_Result r" "w = v" "u = t" unfolding votes' by auto
      with yes show ?thesis by simp
    qed
    fix d assume d: "(w, u, d) \<in> p_votes ?s'"
    show "c = d" using w d new vote_once [OF inv, of w u c d] unfolding votes' by auto
  qed
  moreover have "inv_net ?s'"
    using I(4) ne yes unfolding inv_net_def by auto
  moreover have "inv_elected N ?s'"
  proof -
    have "card N div 2 + 1 \<le> card (voters ?s' u c)" if "(u, c) \<in> p_elected s" for u c
      using that votes_subset [OF inv] v(1) by (intro elected_mono [OF inv]) auto
    with I(5) c'(4) show ?thesis by (auto simp: inv_elected_def)
  qed
  ultimately show ?thesis by (simp add: cinv_def)
qed

lemma inv_net_subset: "inv_net s \<Longrightarrow> p_net s' \<subseteq> p_net s \<Longrightarrow> p_votes s' = p_votes s \<Longrightarrow> inv_net s'"
  unfolding inv_net_def by (metis subsetD)

text \<open>The votes a candidate has counted after one more event.\<close>

lemma counted_votes:
  assumes inv: "cinv N s" and n: "n \<in> N" "run_election (p_node s n) = Some e" and net: "net \<subseteq> p_net s"
    and ev: "ev = VoteError \<or> ev = VoteTimeout \<or>
      (\<exists>v r. ev = VoteReply r \<and> VoteResp v n (fo_term (p_node s n)) r \<in> p_net s \<and>
         VoteResp v n (fo_term (p_node s n)) r \<notin> net)"
  shows "\<exists>G. G \<subseteq> N - {n} \<and> G \<subseteq> voters s (fo_term (p_node s n)) n \<and>
    el_voteCount (vote_step (fo_term (p_node s n)) k e ev) \<le> 1 + card G \<and>
    (\<forall>v \<in> G. \<forall>r. VoteResp v n (fo_term (p_node s n)) r \<in> net \<longrightarrow> \<not> vr_Result r)"
proof -
  let ?t = "fo_term (p_node s n)"
  from cinvD(2) [OF inv n(1), unfolded count_inv_def, THEN spec, THEN mp, OF n(2)] obtain G where
    G: "G \<subseteq> N - {n}" "G \<subseteq> voters s ?t n" "el_voteCount e \<le> 1 + card G"
      "\<forall>v \<in> G. \<forall>r. VoteResp v n ?t r \<in> p_net s \<longrightarrow> \<not> vr_Result r"
    by (elim conjE exE)
  have G': "\<forall>v \<in> G. \<forall>r. VoteResp v n ?t r \<in> net \<longrightarrow> \<not> vr_Result r" using G(4) net by blast
  show ?thesis
  proof (cases "\<exists>v r. ev = VoteReply r \<and> vr_Result r \<and> VoteResp v n ?t r \<in> p_net s \<and> VoteResp v n ?t r \<notin> net")
    case True
    then obtain v r where r: "ev = VoteReply r" "vr_Result r" "VoteResp v n ?t r \<in> p_net s" "VoteResp v n ?t r \<notin> net"
      by blast
    have resp: "(v, ?t, n) \<in> p_votes s" "n \<noteq> v" "vr_RespTerm r = ?t"
      using cinvD(4) [OF inv] r(2,3) unfolding inv_net_def by blast+
    have vN: "v \<in> N" using vote_bound(1) [OF inv resp(1)] .
    have "v \<notin> G" using G(4) r(2,3) by blast
    moreover have "finite G" using G(1) cinvD(6) [OF inv] finite_subset by blast
    ultimately have "el_voteCount (vote_step ?t k e ev) \<le> 1 + card (insert v G)" using G(3) r by simp
    moreover have "\<not> vr_Result q" if "VoteResp v n ?t q \<in> net" for q
    proof
      assume "vr_Result q"
      moreover have "vr_RespTerm q = ?t"
        using cinvD(4) [OF inv] net that \<open>vr_Result q\<close> unfolding inv_net_def by blast
      ultimately have "q = r" using r(2) resp(3) by simp
      with that r(4) show False by simp
    qed
    then have "\<forall>w \<in> insert v G. \<forall>r. VoteResp w n ?t r \<in> net \<longrightarrow> \<not> vr_Result r" using G' by blast
    ultimately show ?thesis
      using G(1,2) vN resp(1,2) by (intro exI [of _ "insert v G"]) (auto simp: voters_def)
  next
    case False
    then have "el_voteCount (vote_step ?t k e ev) \<le> el_voteCount e" using ev by (auto split: if_splits)
    with G G' show ?thesis by (intro exI [of _ G]) simp
  qed
qed

lemma wf_node_size:
  assumes "wf_node N n c" "finite N" "n \<in> N"
  shows "length (cl_nodes c) + 1 = card N"
proof -
  have "length (cl_nodes c) = card (N - {n})" using assms(1) by (metis wf_node_def distinct_card)
  with card_Suc_Diff1 [OF assms(2,3)] show ?thesis by simp
qed

lemma expectVotes_majority: "wf_node N n c \<Longrightarrow> finite N \<Longrightarrow> n \<in> N \<Longrightarrow> expectVotes c = card N div 2 + 1"
  using wf_node_size [of N n c] by (simp add: expectVotes_def)

lemma count_step:
  assumes inv: "cinv N s" and n: "n \<in> N" "run_election (p_node s n) = Some e" and net: "net \<subseteq> p_net s"
    and ev: "ev = VoteError \<or> ev = VoteTimeout \<or>
      (\<exists>v r. ev = VoteReply r \<and> VoteResp v n (fo_term (p_node s n)) r \<in> p_net s \<and>
         VoteResp v n (fo_term (p_node s n)) r \<notin> net)"
    and c': "c' = elect_event (p_node s n) ev"
  shows "cinv N (s\<lparr>p_node := (p_node s)(n := c'), p_net := net, p_elected := p_elected s \<union> elected_now n c'\<rparr>)"
    (is "cinv N ?s'")
proof -
  note I = cinvD [OF inv]
  let ?t = "fo_term (p_node s n)" and ?e' = "vote_step (fo_term (p_node s n)) (length (cl_nodes (p_node s n))) e ev"
  note res = elect_event_result [OF n(2) refl, of ev, folded c']
  obtain G where G: "G \<subseteq> N - {n}" "G \<subseteq> voters s ?t n" "el_voteCount ?e' \<le> 1 + card G"
      "\<forall>v \<in> G. \<forall>r. VoteResp v n ?t r \<in> net \<longrightarrow> \<not> vr_Result r"
    using counted_votes [OF inv n net ev, of "length (cl_nodes (p_node s n))"] by (elim exE conjE)
  have self: "n \<in> voters s ?t n" "fo_leader (p_node s n) = []"
    using I(2) [OF n(1), unfolded count_inv_def, THEN spec, THEN mp, OF n(2)] by simp_all
  have vot: "voters ?s' u c = voters s u c" for u c by (simp add: voters_def)
  have won: "card N div 2 + 1 \<le> card (voters s ?t n)" if "fo_leader c' = n"
  proof -
    have "fo_leader c' \<noteq> fo_leader (p_node s n)" using that self(2) I(8) [OF n(1)] by simp
    from res(4) [OF this] have "expectVotes (p_node s n) \<le> 1 + card G" using G(3) by simp
    moreover have "n \<notin> G" "finite G" using G(1) I(6) finite_subset by blast+
    then have "1 + card G = card (insert n G)" by simp
    moreover have "card (insert n G) \<le> card (voters s ?t n)"
      using G(2) self(1) voters_finite [OF inv] by (intro card_mono) auto
    ultimately show ?thesis using expectVotes_majority [OF I(7) [OF n(1)] I(6) n(1)] by simp
  qed
  have "inv_nodes N ?s'" using I(1) res(1) by (rule inv_nodes_update) simp
  moreover have "count_inv N ?s' m" if "m \<in> N" for m
  proof (cases "m = n")
    case True
    show ?thesis
    proof (cases "run_election c'")
      case None
      with True show ?thesis by (intro count_inv_idle) simp
    next
      case (Some e2)
      with res(3) have "e2 = ?e'" "fo_leader c' = []" using self(2) by auto
      with Some True res(2) G self(1) show ?thesis
        by (auto simp: count_inv_def vot intro!: exI [of _ G])
    qed
  next
    case False
    then show ?thesis using net by (intro count_inv_frame [OF I(2) [OF that]]) auto
  qed
  moreover have "inv_votes N ?s'" using I(3) res(2) by (simp add: inv_votes_def)
  moreover have "inv_net ?s'" using I(4) by (rule inv_net_subset) (simp_all add: net)
  moreover have "inv_elected N ?s'"
    unfolding inv_elected_def
  proof (intro conjI allI ballI impI)
    fix u c assume "(u, c) \<in> p_elected ?s'"
    then consider "(u, c) \<in> p_elected s" | "fo_leader c' = n" "u = ?t" "c = n"
      using res(2) by (auto simp: elected_now_def split: if_splits)
    then show "card N div 2 + 1 \<le> card (voters ?s' u c)"
      by cases (use I(5) won vot in \<open>simp_all add: inv_elected_def\<close>)
  next
    fix m assume "m \<in> N" "fo_leader (p_node ?s' m) \<noteq> []"
    then show "(fo_term (p_node ?s' m), fo_leader (p_node ?s' m)) \<in> p_elected ?s'"
      using I(5,7) n(1) res(2,4) self(2) unfolding inv_elected_def
      by (cases "m = n") (auto simp: elected_now_def wf_node_def)
  next
    fix m h assume "HealthMsg m h \<in> p_net ?s'"
    then show "(ch_Term h, ch_Leader h) \<in> p_elected ?s'" using I(5) net unfolding inv_elected_def by auto
  qed
  ultimately show ?thesis by (simp add: cinv_def)
qed

lemma health_step:
  assumes inv: "cinv N s" and n: "n \<in> N" "run_election (p_node s n) = None" and msg: "HealthMsg n h \<in> p_net s"
    and h: "handle_health (p_node s n) h = Some (c', eff)"
  shows "cinv N (s\<lparr>p_node := (p_node s)(n := c')\<rparr>)" (is "cinv N ?s'")
proof -
  note I = cinvD [OF inv]
  have c': "same_identity (p_node s n) c'" "run_election c' = None" "fo_term c' = max (fo_term (p_node s n)) (ch_Term h)"
      "fo_leader c' = (if ch_Term h < fo_term (p_node s n) then fo_leader (p_node s n) else ch_Leader h)"
    using handle_health_frame [OF h] n(2) by simp_all
  have won: "(ch_Term h, ch_Leader h) \<in> p_elected s" using I(5) msg unfolding inv_elected_def by blast
  have "inv_nodes N ?s'" using I(1) c'(1) by (rule inv_nodes_update) simp
  moreover have "count_inv N ?s' m" if "m \<in> N" for m
  proof (cases "m = n")
    case True
    then show ?thesis using c'(2) by (intro count_inv_idle) simp
  next
    case False
    then show ?thesis by (intro count_inv_frame [OF I(2) [OF that]]) simp_all
  qed
  moreover have "inv_votes N ?s'"
    using I(3) c'(3) unfolding inv_votes_def by (simp add: max_def) (meson order_trans linear)
  moreover have "inv_net ?s'" using I(4) by (rule inv_net_subset) simp_all
  moreover have "inv_elected N ?s'"
    using I(5) won c'(3,4) n(1) unfolding inv_elected_def by (simp add: voters_def max_def)
  ultimately show ?thesis by (simp add: cinv_def)
qed

lemma lose_step:
  assumes inv: "cinv N s" and "net \<subseteq> p_net s"
  shows "cinv N (s\<lparr>p_net := net\<rparr>)" (is "cinv N ?s'")
proof -
  note I = cinvD [OF inv]
  have "count_inv N ?s' m" if "m \<in> N" for m
    using assms(2) by (intro count_inv_frame [OF I(2) [OF that]]) auto
  moreover have "inv_net ?s'" using I(4) by (rule inv_net_subset) (simp_all add: assms(2))
  moreover have "inv_elected N ?s'"
    using I(5) assms(2) unfolding inv_elected_def by (auto simp: voters_def)
  ultimately show ?thesis using I(1,3) by (simp add: cinv_def inv_nodes_def inv_votes_def)
qed

lemma cstep_cinv: "cstep N s s' \<Longrightarrow> cinv N s \<Longrightarrow> cinv N s'"
proof (induction rule: cstep.induct)
  case (tick_leader n s ok c' eff)
  note wf = cinvD(7) [OF tick_leader(5) tick_leader(1)] and ne = cinvD(8) [OF tick_leader(5) tick_leader(1)]
  have frame: "same_identity (p_node s n) c' \<and> same_vote_state (p_node s n) c'"
    using handle_tick_leader [OF _ tick_leader(4)] tick_leader(3) wf by (simp add: wf_node_def)
  have "(fo_term (p_node s n), n) \<in> p_elected s"
    using cinvD(5) [OF tick_leader(5)] tick_leader(1,3) ne unfolding inv_elected_def by auto
  then have "(ch_Term h, ch_Leader h) \<in> p_elected s" if "HealthMsg v h \<in> p_net s \<or> h = health_message (p_node s n)" for v h
    using that cinvD(5) [OF tick_leader(5)] wf by (auto simp: inv_elected_def health_message_def wf_node_def)
  with frame show ?case by (intro quiet_step [OF tick_leader(5,1,2)]) auto
next
  case (tick_elect n s ok c' eff)
  have "fo_leader (p_node s n) \<noteq> thisNodeName (p_node s n)"
    using tick_elect(3) cinvD(7) [OF tick_elect(6,1)] by (simp add: wf_node_def)
  from handle_tick_elect [OF this tick_elect(2,4,5)] show ?case by (intro elect_step [OF tick_elect(6,1,2)])
next
  case (tick_wait n s ok c' eff)
  have "fo_leader (p_node s n) \<noteq> thisNodeName (p_node s n)"
    using tick_wait(3) cinvD(7) [OF tick_wait(6,1)] by (simp add: wf_node_def)
  from handle_tick_wait [OF this tick_wait(4,5)] quiet_step [OF tick_wait(6,1,2), of c' "p_net s"]
  show ?case using cinvD(5) [OF tick_wait(6)] by (simp add: inv_elected_def)
next
  case (vote v s n t c' r)
  then show ?case by (intro vote_step_inv)
next
  case (count n s v r c')
  then obtain e where "run_election (p_node s n) = Some e" by blast
  from count_step [OF count(5,1) this _ _ count(4), of "p_net s - {VoteResp v n (fo_term (p_node s n)) r}"] count(3)
  show ?case by blast
next
  case (give_up n s ev c')
  then obtain e where "run_election (p_node s n) = Some e" by blast
  from count_step [OF give_up(5,1) this _ _ give_up(4), of "p_net s"] give_up(3) show ?case by simp
next
  case (health n s h c' eff)
  then show ?case by (intro health_step)
next
  case (lose net s)
  then show ?case by (intro lose_step)
qed

lemma creachable_cinv: "creachable N s \<Longrightarrow> cinv N s"
  by (induction rule: creachable.induct) (auto intro: cinit_cinv cstep_cinv)

subsection \<open>Safety of the election\<close>

text \<open>What majorities provide: any two quorums share a member, so one vote each decides for one candidate.\<close>

locale quorum_system =
  fixes quorum :: "'a set \<Rightarrow> bool"
  assumes quorums_meet: "quorum Q \<Longrightarrow> quorum R \<Longrightarrow> Q \<inter> R \<noteq> {}"
begin

lemma one_choice:
  assumes "quorum {v. voted v c}" "quorum {v. voted v d}" "\<And>v. voted v c \<Longrightarrow> voted v d \<Longrightarrow> c = d"
  shows "c = d"
proof -
  obtain v where "voted v c" "voted v d" using quorums_meet [OF assms(1,2)] by auto
  then show ?thesis by (rule assms(3))
qed

end

definition majority_of :: "'a set \<Rightarrow> 'a set \<Rightarrow> bool" where
  "majority_of N Q \<longleftrightarrow> finite N \<and> Q \<subseteq> N \<and> card N div 2 < card Q"

interpretation maj: quorum_system "majority_of N" for N
proof
  fix Q R assume q: "majority_of N Q" "majority_of N R"
  show "Q \<inter> R \<noteq> {}"
  proof
    assume disjoint: "Q \<inter> R = {}"
    have fin: "finite Q" "finite R" using q by (auto simp: majority_of_def intro: finite_subset)
    have "card (Q \<union> R) \<le> card N" using q by (intro card_mono) (auto simp: majority_of_def)
    then have "card Q + card R \<le> card N" using card_Un_disjoint [OF fin disjoint] by simp
    with q show False by (auto simp: majority_of_def)
  qed
qed

lemma elected_majority:
  "cinv N s \<Longrightarrow> (t, c) \<in> p_elected s \<Longrightarrow> majority_of N {v. (v, t, c) \<in> p_votes s}"
  using cinvD(5,6) [of N s] voters_subset [of N s t c]
  by (auto simp: majority_of_def inv_elected_def voters_def Suc_le_eq)

lemma elected_unique:
  assumes "cinv N s" "(t, c) \<in> p_elected s" "(t, d) \<in> p_elected s"
  shows "c = d"
  using maj.one_choice [of N "\<lambda>v c. (v, t, c) \<in> p_votes s", OF elected_majority elected_majority]
    vote_once [OF assms(1)] assms by blast

lemma leader_elected:
  assumes "cinv N s" "n \<in> N" "fo_leader (p_node s n) \<noteq> []"
  shows "(fo_term (p_node s n), fo_leader (p_node s n)) \<in> p_elected s"
  using cinvD(5) [OF assms(1)] assms(2,3) unfolding inv_elected_def by blast

text \<open>
  C4. There is at most one leader per term: in every reachable state of the cluster, two nodes in the
  same term that follow a leader follow the same one (a leader follows itself), and over the whole
  run no term was won by two different nodes.
\<close>

theorem one_leader_per_term:
  assumes "creachable N s" "a \<in> N" "b \<in> N" "fo_term (p_node s a) = fo_term (p_node s b)"
    and "fo_leader (p_node s a) \<noteq> []" "fo_leader (p_node s b) \<noteq> []"
  shows "fo_leader (p_node s a) = fo_leader (p_node s b) \<and>
    (\<forall>t c d. (t, c) \<in> p_elected s \<and> (t, d) \<in> p_elected s \<longrightarrow> c = d)"
proof -
  note inv = creachable_cinv [OF assms(1)]
  have "fo_leader (p_node s a) = fo_leader (p_node s b)"
    by (rule elected_unique [OF inv leader_elected [OF inv assms(2,5)]])
      (simp only: assms(4) leader_elected [OF inv assms(3,6)])
  then show ?thesis using elected_unique [OF inv] by blast
qed

text \<open>
  The handler of health checks never meets a wrong leader: when a node that already follows a
  leader receives a health check of its own term, the check comes from that leader, so the branch of
  the code that reports a wrong leader is unreachable.
\<close>

theorem no_wrong_leader:
  assumes "creachable N s" "n \<in> N" "HealthMsg n h \<in> p_net s"
    and "ch_Term h = fo_term (p_node s n)" "fo_leader (p_node s n) \<noteq> []"
  shows "ch_Leader h = fo_leader (p_node s n)"
proof -
  note inv = creachable_cinv [OF assms(1)]
  have "(ch_Term h, ch_Leader h) \<in> p_elected s"
    using cinvD(5) [OF inv] assms(3) unfolding inv_elected_def by blast
  with leader_elected [OF inv assms(2,5)] show ?thesis
    using elected_unique [OF inv] unfolding assms(4) by blast
qed

text \<open>A cluster of three nodes in which the first is elected by the vote of the second and asserts itself.\<close>

definition node0 :: "string \<Rightarrow> cluster" where
  "node0 n =
     \<lparr>cl_nodes = filter (\<lambda>m. m \<noteq> n) [''a'', ''b'', ''c''], thisNodeName = n, cl_ring = New clusterHashReplicas None,
      cl_failCount = (\<lambda>_. 0), cl_msess = (\<lambda>_. []), cl_fingerprint = (\<lambda>_. 0), fo_enabled = True, fo_leader = [],
      fo_term = 0, fo_heartBeat = 100, fo_voteTimeout = 1, fo_activeNodes = [''a'', ''b'', ''c''],
      fo_nodeFailCountLimit = 3, run_missed = 0, run_rehashSkipped = False, run_election = None\<rparr>"

definition run0 :: protocol where
  "run0 = \<lparr>p_node = node0, p_net = {}, p_votes = {}, p_elected = {}\<rparr>"

lemma run_reaches_leader:
  "\<exists>s h. creachable {''a'', ''b'', ''c''} s \<and> fo_term (p_node s ''a'') = 1 \<and> fo_term (p_node s ''b'') = 1 \<and>
     fo_leader (p_node s ''a'') = ''a'' \<and> fo_leader (p_node s ''b'') = ''a'' \<and> HealthMsg ''b'' h \<in> p_net s \<and> ch_Term h = 1"
proof -
  let ?N = "{''a'', ''b'', ''c''}"
  have s0: "creachable ?N run0"
    by (rule creachable.intros(1)) (auto simp: cinit_def run0_def node0_def)
  define ca where "ca = elect_begin (node0 ''a'')"
  define s1 where "s1 = run0\<lparr>p_node := node0(''a'' := ca), p_net := {VoteReq ''a'' v 1 | v. v \<in> {''b'', ''c''}},
      p_votes := {(''a'', 1, ''a'')}\<rparr>"
  have "cstep ?N run0 s1"
    using cstep.tick_elect [of "''a''" ?N run0 "\<lambda>_. True" ca "[]"]
    by (simp add: run0_def handle_tick_def node0_def ca_def elect_begin_def s1_def Let_def)
  with s0 have s1: "creachable ?N s1" by (rule creachable.intros(2))
  define cb where "cb = (node0 ''b'')\<lparr>fo_term := 1\<rparr>"
  define r where "r = \<lparr>vr_Result = True, vr_RespTerm = 1\<rparr>"
  define s2 where "s2 = s1\<lparr>p_node := (p_node s1)(''b'' := cb),
      p_net := insert (VoteResp ''b'' ''a'' 1 r) (p_net s1 - {VoteReq ''a'' ''b'' 1}),
      p_votes := p_votes s1 \<union> {(''b'', 1, ''a'')}\<rparr>"
  have "cstep ?N s1 s2"
    using cstep.vote [of "''b''" ?N s1 "''a''" 1 cb r]
    by (simp add: s1_def s2_def run0_def handle_vote_def node0_def cb_def r_def)
  with s1 have s2: "creachable ?N s2" by (rule creachable.intros(2))
  define ca' where "ca' = ca\<lparr>fo_leader := ''a'', run_election := None\<rparr>"
  define s3 where "s3 = s2\<lparr>p_node := (p_node s2)(''a'' := ca'), p_net := p_net s2 - {VoteResp ''b'' ''a'' 1 r},
      p_elected := {(1, ''a'')}\<rparr>"
  have ev: "elect_event ca (VoteReply r) = ca'"
    by (simp add: elect_event_def ca_def ca'_def elect_begin_def node0_def r_def counting_def elect_end_def expectVotes_def)
  have "cstep ?N s2 s3"
    using cstep.count [of "''a''" ?N s2 "''b''" r ca'] ev
    by (simp add: s3_def s2_def s1_def run0_def elected_now_def ca'_def ca_def elect_begin_def node0_def)
  with s2 have s3: "creachable ?N s3" by (rule creachable.intros(2))
  obtain ca2 eff where tick: "handle_tick ca' (\<lambda>_. True) = Some (ca2, eff)"
    by (simp add: handle_tick_def ca'_def ca_def elect_begin_def node0_def sendHealthChecks_def Let_def)
  define s4 where "s4 = s3\<lparr>p_node := (p_node s3)(''a'' := ca2),
      p_net := p_net s3 \<union> {HealthMsg v (health_message ca') | v. v \<in> {''b'', ''c''}}\<rparr>"
  have "cstep ?N s3 s4"
    using cstep.tick_leader [of "''a''" ?N s3 "\<lambda>_. True" ca2 eff] tick
    by (simp add: s4_def s3_def ca'_def ca_def elect_begin_def node0_def)
  with s3 have s4: "creachable ?N s4" by (rule creachable.intros(2))
  have kept: "fo_leader ca2 = ''a''" "fo_term ca2 = 1"
    using handle_tick_leader [OF _ tick]
    by (simp_all add: ca'_def ca_def elect_begin_def node0_def same_vote_state_def)
  define cb' where "cb' = cb\<lparr>fo_leader := ''a''\<rparr>"
  define s5 where "s5 = s4\<lparr>p_node := (p_node s4)(''b'' := cb')\<rparr>"
  have "handle_health cb (health_message ca') = Some (cb', [])"
    by (simp add: handle_health_def health_message_def cb_def cb'_def ca'_def ca_def elect_begin_def node0_def Let_def)
  then have "cstep ?N s4 s5"
    using cstep.health [of "''b''" ?N s4 "health_message ca'" cb' "[]"]
    by (simp add: s5_def s4_def s3_def s2_def cb_def node0_def)
  with s4 have s5: "creachable ?N s5" by (rule creachable.intros(2))
  show ?thesis
    by (intro exI [of _ s5] exI [of _ "health_message ca'"] conjI)
      (use s5 kept in \<open>simp_all add: s5_def s4_def cb'_def cb_def node0_def health_message_def ca'_def ca_def elect_begin_def\<close>)
qed

theorem one_leader_per_term_witness:
  "\<exists>s. creachable {''a'', ''b'', ''c''} s \<and> fo_leader (p_node s ''a'') = fo_leader (p_node s ''b'') \<and>
     fo_leader (p_node s ''b'') \<noteq> []"
proof -
  obtain s h where s: "creachable {''a'', ''b'', ''c''} s" "fo_term (p_node s ''a'') = 1" "fo_term (p_node s ''b'') = 1"
      "fo_leader (p_node s ''a'') = ''a''" "fo_leader (p_node s ''b'') = ''a''"
    using run_reaches_leader by blast
  with one_leader_per_term [OF s(1), of "''a''" "''b''"] show ?thesis by (intro exI [of _ s]) simp
qed

theorem no_wrong_leader_witness:
  "\<exists>s h. creachable {''a'', ''b'', ''c''} s \<and> HealthMsg ''b'' h \<in> p_net s \<and> ch_Leader h = fo_leader (p_node s ''b'')"
proof -
  obtain s h where s: "creachable {''a'', ''b'', ''c''} s" "HealthMsg ''b'' h \<in> p_net s" "ch_Term h = 1"
      "fo_term (p_node s ''b'') = 1" "fo_leader (p_node s ''b'') = ''a''"
    using run_reaches_leader by blast
  with no_wrong_leader [OF s(1) _ s(2)] show ?thesis by (intro exI [of _ s] exI [of _ h]) simp
qed

subsection \<open>The counting loop\<close>

lemma vote_step_progress:
  "el_i (vote_step t k e ev) \<ge> (if ev = VoteTimeout then k else Suc (el_i e)) \<or> el_i (vote_step t k e ev) > k"
  by (cases ev) auto

lemma vote_loop_ends:
  assumes "VoteTimeout \<in> set evs \<or> length (cl_nodes c) \<le> el_i e + length evs"
  shows "\<not> counting c (vote_loop c e evs)"
  using assms
proof (induction evs arbitrary: e)
  case Nil
  then show ?case by (simp add: counting_def)
next
  case (Cons ev evs)
  let ?e' = "vote_step (fo_term c) (length (cl_nodes c)) e ev"
  have "VoteTimeout \<in> set evs \<or> length (cl_nodes c) \<le> el_i ?e' + length evs"
    using Cons.prems vote_step_progress [of ev "length (cl_nodes c)" e "fo_term c"] by (auto split: if_splits)
  from Cons.IH [OF this] show ?case by simp
qed

lemma fold_elect_event_idle: "run_election c = None \<Longrightarrow> fold (\<lambda>ev c. elect_event c ev) evs c = c"
  by (induction evs) (simp_all add: elect_event_def)

lemma fold_elect_event:
  assumes "run_election c = Some e" "counting c e" "\<not> counting c (vote_loop c e evs)"
  shows "fold (\<lambda>ev c. elect_event c ev) evs c = elect_end c (vote_loop c e evs)"
  using assms
proof (induction evs arbitrary: c e)
  case Nil
  then show ?case by simp
next
  case (Cons ev evs)
  let ?e' = "vote_step (fo_term c) (length (cl_nodes c)) e ev"
  have same: "counting (c\<lparr>run_election := x\<rparr>) = counting c" "vote_loop (c\<lparr>run_election := x\<rparr>) f es = vote_loop c f es"
    "elect_end (c\<lparr>run_election := x\<rparr>) f = elect_end c f" for x f es
  proof -
    show cnt: "counting (c\<lparr>run_election := x\<rparr>) = counting c" by (auto simp: counting_def expectVotes_def)
    show "vote_loop (c\<lparr>run_election := x\<rparr>) f es = vote_loop c f es" by (induction es arbitrary: f) (simp_all add: cnt)
    show "elect_end (c\<lparr>run_election := x\<rparr>) f = elect_end c f" by (simp add: elect_end_def expectVotes_def)
  qed
  show ?case
  proof (cases "counting c ?e'")
    case True
    then have "elect_event c ev = c\<lparr>run_election := Some ?e'\<rparr>" using Cons.prems(1) by (simp add: elect_event_def Let_def)
    with Cons.IH [of "c\<lparr>run_election := Some ?e'\<rparr>" ?e'] True Cons.prems show ?thesis by (simp add: same)
  next
    case False
    then have "elect_event c ev = elect_end c ?e'" using Cons.prems(1) by (simp add: elect_event_def Let_def)
    moreover have "run_election (elect_end c ?e') = None" by (simp add: elect_end_def)
    moreover have "vote_loop c ?e' evs = ?e'" using False by (cases evs) simp_all
    ultimately show ?thesis using Cons.prems(2) by (simp add: fold_elect_event_idle)
  qed
qed



subsection \<open>Partitions\<close>

text \<open>
  Two halves of a split cluster cannot both count as the main part: if two nodes of the same
  cluster both report no partition, the sets of nodes they consider active have a node in common.
\<close>

theorem partition_majority:
  assumes "wf_node N a ca" "wf_node N b cb" "finite N" "a \<in> N" "b \<in> N"
    and "set (fo_activeNodes ca) \<subseteq> N" "distinct (fo_activeNodes ca)" "set (fo_activeNodes cb) \<subseteq> N" "distinct (fo_activeNodes cb)"
    and "fo_enabled ca" "fo_enabled cb" "\<not> isPartitioned (Some ca)" "\<not> isPartitioned (Some cb)"
  shows "set (fo_activeNodes ca) \<inter> set (fo_activeNodes cb) \<noteq> {}"
proof -
  have "length (cl_nodes ca) + 1 = card N" "length (cl_nodes cb) + 1 = card N"
    using assms(1-5) wf_node_size by blast+
  then have "majority_of N (set (fo_activeNodes ca))" "majority_of N (set (fo_activeNodes cb))"
    using assms by (auto simp: majority_of_def isPartitioned_def distinct_card not_le)
  then show ?thesis by (rule maj.quorums_meet)
qed

theorem partition_majority_witness:
  "set (fo_activeNodes ((node0 ''a'')\<lparr>fo_activeNodes := [''a'', ''b'']\<rparr>)) \<inter> set (fo_activeNodes (node0 ''c'')) \<noteq> {}"
  by (rule partition_majority [of "{''a'', ''b'', ''c''}" "''a''" _ "''c''"])
    (auto simp: wf_node_def node0_def isPartitioned_def)

text \<open>
  A node that is not the leader never changes its mind about a partition: neither health checks
  (not even one that makes it rehash for a smaller cluster) nor votes nor elections change the outcome
  of \<^verbatim>\<open>isPartitioned\<close>; only the leader's own health checks do. So a follower cut off with a minority
  of the nodes does not report that it is partitioned.
\<close>

theorem follower_partition_blind:
  "(handle_health c h = Some (c1, eff) \<longrightarrow> isPartitioned (Some c1) = isPartitioned (Some c)) \<and>
   isPartitioned (Some (fst (handle_vote c req))) = isPartitioned (Some c) \<and>
   isPartitioned (Some (electLeader c evs)) = isPartitioned (Some c) \<and>
   (fo_leader c \<noteq> thisNodeName c \<and> handle_tick c ok = Some (c2, eff2) \<longrightarrow> isPartitioned (Some c2) = isPartitioned (Some c))"
  using handle_health_frame [of c h c1 eff]
  by (auto simp: isPartitioned_def same_identity_def handle_vote_def electLeader_def elect_end_def elect_begin_def
      handle_tick_def Let_def split: if_splits)

theorem follower_partition_blind_witness:
  "isPartitioned (Some (fst (handle_vote (node0 ''a'') \<lparr>vr_Node = ''b'', vr_Term = 5\<rparr>))) = isPartitioned (Some (node0 ''a''))"
  using follower_partition_blind [of "node0 ''a''" _ _ _ "\<lparr>vr_Node = ''b'', vr_Term = 5\<rparr>"] by blast

subsection \<open>Rehashing at the request of the leader\<close>

lemma gc_loop_None:
  "gcProxySessions_loop c eff ns = None \<longleftrightarrow> \<not> set ns \<subseteq> set (cl_nodes c)"
  by (induction c eff ns rule: gcProxySessions_loop.induct) (auto simp: gcProxySessionsForNode_def split: option.splits if_splits)

lemma gcProxySessions_None:
  assumes "thisNodeName c \<notin> set (cl_nodes c)"
  shows "gcProxySessions c active = None \<longleftrightarrow> thisNodeName c \<notin> set active"
proof -
  obtain a r i where d: "stringSliceDelta (thisNodeName c # cl_nodes c) active = (a, r, i)"
      "mset r = mset (thisNodeName c # cl_nodes c) - mset active"
    using stringSliceDelta_mset [of "thisNodeName c # cl_nodes c" active] by (metis prod_cases3)
  have "gcProxySessions c active = None \<longleftrightarrow> \<not> set r \<subseteq> set (cl_nodes c)"
    by (simp add: gcProxySessions_def d(1) gc_loop_None)
  moreover have "set r \<subseteq> insert (thisNodeName c) (set (cl_nodes c))"
    using in_diffD [of _ "mset (thisNodeName c # cl_nodes c)" "mset active"] d(2) by (metis set_mset_mset list.simps(15) subsetI)
  moreover have "count (mset (cl_nodes c)) (thisNodeName c) = 0" using assms by simp
  then have "thisNodeName c \<in> set r \<longleftrightarrow> thisNodeName c \<notin> set active"
    using d(2) by (metis set_mset_mset in_diff_count mset.simps(2) count_add_mset count_eq_zero_iff less_Suc0 not_gr_zero)
  ultimately show ?thesis using assms by blast
qed

text \<open>
  A follower crashes on a health check whose list of active nodes does not contain it: this is
  exactly when the check is current, the ring signatures differ, one earlier difference was already
  skipped and the node itself is missing from the list, since it then looks itself up among the
  remote nodes to stop its proxy sessions. The leader sends such a list on the first check after a
  node recovers, and the skipped check of an earlier recovery is never forgotten.
\<close>

theorem health_check_panic:
  assumes "thisNodeName c \<notin> set (cl_nodes c)"
  shows "handle_health c h = None \<longleftrightarrow>
    fo_term c \<le> ch_Term h \<and> ch_Signature h \<noteq> ring_signature (cl_ring c) \<and> run_rehashSkipped c \<and>
    thisNodeName c \<notin> set (ch_Nodes h)"
proof (cases "ch_Term h < fo_term c")
  case True
  then show ?thesis by (simp add: handle_health_def)
next
  case False
  let ?c = "cluster_rehash (follow c h) (ch_Nodes h)"
  have "thisNodeName ?c = thisNodeName c" "cl_nodes ?c = cl_nodes c"
    using follow_fields(1) [OF False] by (simp_all add: cluster_rehash_def Let_def same_identity_def)
  with gcProxySessions_None [of ?c] assms have "gcProxySessions ?c (ch_Nodes h) = None \<longleftrightarrow> thisNodeName c \<notin> set (ch_Nodes h)"
    by simp
  with False show ?thesis by (auto simp: handle_health_follow [OF False] not_less)
qed

theorem health_check_panic_witness:
  "handle_health ((node0 ''c'')\<lparr>run_rehashSkipped := True\<rparr>)
     \<lparr>ch_Leader = ''a'', ch_Term = 1, ch_Signature = ''sig'', ch_Nodes = [''a'', ''b'']\<rparr> = None"
  by (subst health_check_panic) (auto simp: node0_def New_def)

end
