(* ===== verification/TopicState.thy ===== *)
theory TopicState
  imports Utils "HOL-Library.AList" "HOL-Library.Monad_Syntax"
begin

section \<open>State of a topic (server/topic.go)\<close>

text \<open>
  A topic with its subscribers, attached sessions and call, and the helpers of \<^verbatim>\<open>topic.go\<close> that
  read or change one part of it. Go maps that the code iterates over are association lists with each
  key once, in an arbitrary order. A session is known by its id: the record \<open>world\<close> extends the
  topic by the sessions it talks to, by the log \<open>w_out\<close> of everything the code sends out (to
  sessions, to the hub, to the user cache, to the database, to push services) and by the number of
  attempts to put a message into a send queue. A panic is \<open>None\<close>.
\<close>

subsection \<open>Sessions as seen by a topic\<close>

datatype session_proto = NONE | WEBSOCK | LPOLL | GRPC | PROXY | MULTIPLEX

record session =
  s_proto :: session_proto
  s_multi :: "string option"
  s_userAgent :: string
  s_uid :: uid
  s_authLvl :: level
  s_countryCode :: string
  s_lang :: string
  s_tenantID :: tenant_id
  s_lastAction :: int
  s_terminating :: bool
  s_background :: bool
  s_subs :: "string list"

definition isMultiplex :: "session \<Rightarrow> bool" where "isMultiplex s \<longleftrightarrow> s_proto s = MULTIPLEX"
definition isProxy :: "session \<Rightarrow> bool" where "isProxy s \<longleftrightarrow> s_proto s = PROXY"
definition isCluster :: "session \<Rightarrow> bool" where "isCluster s \<longleftrightarrow> isProxy s \<or> isMultiplex s"

subsection \<open>Subscribers, contacts, attached sessions and calls\<close>

record topic_user =
  u_online :: int
  u_recvID :: int
  u_readID :: int
  u_delID :: int
  u_private :: go_any
  u_modeWant :: access_mode
  u_modeGiven :: access_mode
  u_public :: go_any
  u_trusted :: go_any
  u_lastSeen :: "time option"
  u_lastUA :: string
  u_topicName :: string
  u_deleted :: bool
  u_isChan :: bool

text \<open>The zero value that reading a missing entry gives.\<close>

definition user0 :: topic_user where
  "user0 = \<lparr>u_online = 0, u_recvID = 0, u_readID = 0, u_delID = 0, u_private = ANil, u_modeWant = 0,
     u_modeGiven = 0, u_public = ANil, u_trusted = ANil, u_lastSeen = None, u_lastUA = [],
     u_topicName = [], u_deleted = False, u_isChan = False\<rparr>"

definition user_mode :: "topic_user \<Rightarrow> access_mode" where
  "user_mode p = u_modeGiven p AND u_modeWant p"

record per_subs =
  ps_online :: bool
  ps_enabled :: bool

record per_session =
  pss_uid :: uid
  pss_isChanSub :: bool
  pss_muids :: "uid list"

record call_party =
  cp_uid :: uid
  cp_isOriginator :: bool
  cp_sess :: string

record video_call =
  vc_parties :: "(string \<times> call_party) list"
  vc_seq :: int
  vc_content :: go_any
  vc_contentMime :: go_any
  vc_acceptedAt :: time

record topic =
  t_tenantID :: tenant_id
  t_name :: string
  t_xoriginal :: string
  t_cat :: topic_cat
  t_created :: time
  t_updated :: time
  t_touched :: time
  t_lastID :: int
  t_delID :: int
  t_subCnt :: int
  t_userAgent :: string
  t_owner :: uid
  t_accessAuth :: access_mode
  t_accessAnon :: access_mode
  t_tags :: "string list"
  t_aux :: go_map
  t_public :: go_any
  t_trusted :: go_any
  t_perUser :: "(uid \<times> topic_user) list"
  t_modeWantUnion :: access_mode
  t_modeGivenUnion :: access_mode
  t_perSubs :: "(string \<times> per_subs) list"
  t_sessions :: "(string \<times> per_session) list"
  t_currentCall :: "video_call option"
  t_status :: "32 word"
  t_isChan :: bool
  t_isProxy :: bool

subsection \<open>What a topic sends out\<close>

record message = obj_header +
  Msg_TenantID :: tenant_id
  Msg_DeletedAt :: "time option"
  Msg_DelId :: int
  Msg_SeqId :: int
  Msg_Topic :: string
  Msg_From :: string
  Msg_Head :: "go_map option"
  Msg_Content :: go_any

record user = obj_header +
  User_TenantID :: tenant_id
  User_State :: obj_state
  User_StateAt :: "time option"
  User_Access :: default_access
  User_LastSeen :: "time option"
  User_UserAgent :: string
  User_Public :: go_any
  User_Trusted :: go_any
  User_Tags :: "string list"

text \<open>One entry of the maps passed to \<^verbatim>\<open>store.Subs.Update\<close>.\<close>

datatype sub_update =
    UpdPrivate go_any
  | UpdModeWant access_mode
  | UpdModeGiven access_mode
  | UpdRecvSeqId int
  | UpdReadSeqId int

text \<open>One entry of the maps passed to \<^verbatim>\<open>store.Users.Update\<close> and \<^verbatim>\<open>store.Topics.Update\<close>.\<close>

datatype obj_update =
    UpdAccess default_access
  | UpdPublic go_any
  | UpdTrusted go_any
  | UpdTags "string list"
  | UpdAux go_map
  | UpdUpdatedAt time

datatype store_op =
    SubsCreate subscription
  | SubsUpdate string uid "sub_update list"
  | SubsDelete string uid
  | TopicsOwnerChange uid
  | MessagesSave message "string list" bool
  | MessagesDeleteList int uid int "range list"
  | UsersUpdateLastSeen uid string time
  | UsersUpdate uid "obj_update list"
  | TopicsUpdate string "obj_update list"
  | TopicsUpdateSubCnt string
  | FilesLinkAttachments string "string list"
  | UsersUpdateTags uid "string list" "string list"
  | ValidatorRequest string uid string string
  | ValidatorCheck string uid string
  | ValidatorRemove string uid string

record push_payload =
  pp_What :: string
  pp_Silent :: bool
  pp_Topic :: string
  pp_Timestamp :: time
  pp_From :: string
  pp_SeqId :: int
  pp_ContentType :: string
  pp_Content :: go_any
  pp_Webrtc :: string
  pp_AudioOnly :: bool
  pp_Replace :: string
  pp_ModeWant :: access_mode
  pp_ModeGiven :: access_mode

record push_recipient =
  rcpt_Delivered :: int
  rcpt_Unread :: int
  rcpt_ShouldIncrement :: bool

record push_receipt =
  pr_TenantID :: tenant_id
  pr_To :: "(uid \<times> push_recipient) list"
  pr_Channel :: string
  pr_Payload :: push_payload

datatype effect =
    SendTo string ServerComMessage
  | RouteSrv ServerComMessage
  | UpdateUnread uid int bool
  | RegisterUser uid bool
  | Store store_op
  | PluginSub subscription string
  | PluginMessage MsgServerData
  | PluginTopic string string
  | Push push_receipt
  | ChannelSub uid string bool
  | DetachFrom string string
  | KillTimer bool
  | CallTimer bool
  | HubUnreg bool
  | UaUpdate string

record world = topic +
  w_sess :: "string \<Rightarrow> session"
  w_out :: "effect list"
  w_tries :: nat

definition put_out :: "effect \<Rightarrow> world \<Rightarrow> world" where
  "put_out x t = t\<lparr>w_out := w_out t @ [x]\<rparr>"

text \<open>
  What the handlers read from outside: the clock, the configuration, whether the queue of a session
  has room at the \<open>n\<close>-th attempt, and the answers of the store facade, which may fail in any way.
\<close>

record env =
  e_now :: time
  e_maxSubscriberCount :: int
  e_typesModeCP2P :: access_mode
  e_haveIceServers :: bool
  e_msgDeleteAge :: int
  e_room :: "nat \<Rightarrow> string \<Rightarrow> bool"
  e_SubsGet :: "string \<Rightarrow> uid \<Rightarrow> bool \<Rightarrow> store_error + subscription option"
  e_SubsCreate :: "subscription \<Rightarrow> store_error option"
  e_SubsUpdate :: "string \<Rightarrow> uid \<Rightarrow> sub_update list \<Rightarrow> store_error option"
  e_SubsDelete :: "string \<Rightarrow> uid \<Rightarrow> store_error option"
  e_UsersGet :: "uid \<Rightarrow> store_error + user option"
  e_UsersGetSubs :: "uid \<Rightarrow> store_error + subscription list"
  e_OwnerChange :: "uid \<Rightarrow> store_error option"
  e_MessagesSave :: "message \<Rightarrow> string list \<Rightarrow> bool \<Rightarrow> store_error option \<times> bool"
  e_DeleteList :: "int \<Rightarrow> uid \<Rightarrow> int \<Rightarrow> range list \<Rightarrow> store_error option"

subsection \<open>Sending to a session (server/session.go)\<close>

definition session_push :: "env \<Rightarrow> world \<Rightarrow> string \<Rightarrow> ServerComMessage \<Rightarrow> world \<times> bool" where
  "session_push e t sid msg =
     (let t' = t\<lparr>w_tries := w_tries t + 1\<rparr>
      in if e_room e (w_tries t) sid then (put_out (SendTo sid msg) t', True) else (t', False))"

text \<open>\<^verbatim>\<open>queueOut\<close> fills in the tenant of the session or refuses a message of another tenant.\<close>

definition stamp_tenant :: "session \<Rightarrow> ServerComMessage \<Rightarrow> ServerComMessage option" where
  "stamp_tenant s msg =
     (if TenantID_IsZero (scm_TenantID msg) then Some (msg\<lparr>scm_TenantID := s_tenantID s\<rparr>)
      else if \<not> TenantID_IsZero (s_tenantID s) \<and> scm_TenantID msg \<noteq> s_tenantID s then None
      else Some msg)"

definition queueOut :: "env \<Rightarrow> world \<Rightarrow> string option \<Rightarrow> ServerComMessage \<Rightarrow> world \<times> bool" where
  "queueOut e t sess msg =
     (case sess of
        None \<Rightarrow> (t, True)
      | Some sid \<Rightarrow>
          (let s = w_sess t sid
           in if s_terminating s then (t, True)
              else
                (case stamp_tenant s msg of
                   None \<Rightarrow> (t, False)
                 | Some msg \<Rightarrow>
                     (case s_multi s of
                        None \<Rightarrow> session_push e t sid msg
                      | Some m \<Rightarrow>
                          (let msg = msg\<lparr>scm_sess := Some sid\<rparr>
                           in if s_terminating (w_sess t m) then (t, True)
                              else (case stamp_tenant (w_sess t m) msg of
                                  None \<Rightarrow> (t, False)
                                | Some msg \<Rightarrow> session_push e t m msg))))))"

text \<open>Most callers ignore whether the message was accepted.\<close>

definition reply :: "env \<Rightarrow> world \<Rightarrow> string option \<Rightarrow> ServerComMessage \<Rightarrow> world" where
  "reply e t sess msg = fst (queueOut e t sess msg)"

definition detachSession :: "world \<Rightarrow> string \<Rightarrow> world" where
  "detachSession t sid = (if s_terminating (w_sess t sid) then t else put_out (DetachFrom sid (t_name t)) t)"

text \<open>A proxy session keeps its subscriptions at the multiplexing session.\<close>

definition sess_key :: "world \<Rightarrow> string \<Rightarrow> string" where
  "sess_key t sid = (case s_multi (w_sess t sid) of None \<Rightarrow> sid | Some m \<Rightarrow> m)"

definition addSub :: "world \<Rightarrow> string \<Rightarrow> string \<Rightarrow> world" where
  "addSub t sid topic =
     (let k = sess_key t sid; s = w_sess t k
      in if \<not> isMultiplex s \<or> s_subs s = []
         then t\<lparr>w_sess := (w_sess t)(k := s\<lparr>s_subs := List.insert topic (s_subs s)\<rparr>)\<rparr> else t)"

definition delSub :: "world \<Rightarrow> string \<Rightarrow> string \<Rightarrow> world" where
  "delSub t sid topic =
     (let k = sess_key t sid; s = w_sess t k
      in t\<lparr>w_sess := (w_sess t)(k := s\<lparr>s_subs := removeAll topic (s_subs s)\<rparr>)\<rparr>)"

definition getSub :: "world \<Rightarrow> string \<Rightarrow> string \<Rightarrow> bool" where
  "getSub t sid topic \<longleftrightarrow> topic \<in> set (s_subs (w_sess t sid))"

subsection \<open>Status bits\<close>

definition topicStatusLoaded :: "32 word" where "topicStatusLoaded = 0x1"
definition topicStatusPaused :: "32 word" where "topicStatusPaused = 0x2"
definition topicStatusMarkedDeleted :: "32 word" where "topicStatusMarkedDeleted = 0x10"
definition topicStatusReadOnly :: "32 word" where "topicStatusReadOnly = 0x20"

definition statusChangeBits :: "'a topic_scheme \<Rightarrow> 32 word \<Rightarrow> bool \<Rightarrow> 'a topic_scheme" where
  "statusChangeBits t bits b =
     t\<lparr>t_status := (if b then t_status t OR bits else t_status t AND NOT bits)\<rparr>"

definition markLoaded :: "'a topic_scheme \<Rightarrow> 'a topic_scheme" where "markLoaded t = statusChangeBits t topicStatusLoaded True"
definition markPaused :: "'a topic_scheme \<Rightarrow> bool \<Rightarrow> 'a topic_scheme" where "markPaused t pause = statusChangeBits t topicStatusPaused pause"
definition markDeleted :: "'a topic_scheme \<Rightarrow> 'a topic_scheme" where "markDeleted t = statusChangeBits t topicStatusMarkedDeleted True"
definition markReadOnly :: "'a topic_scheme \<Rightarrow> bool \<Rightarrow> 'a topic_scheme" where "markReadOnly t ro = statusChangeBits t topicStatusReadOnly ro"

definition isInactive :: "'a topic_scheme \<Rightarrow> bool" where
  "isInactive t \<longleftrightarrow> t_status t AND (topicStatusPaused OR topicStatusMarkedDeleted) \<noteq> 0"
definition isReadOnly :: "'a topic_scheme \<Rightarrow> bool" where "isReadOnly t \<longleftrightarrow> t_status t AND topicStatusReadOnly \<noteq> 0"
definition isLoaded :: "'a topic_scheme \<Rightarrow> bool" where "isLoaded t \<longleftrightarrow> t_status t AND topicStatusLoaded \<noteq> 0"
definition isDeleted :: "'a topic_scheme \<Rightarrow> bool" where "isDeleted t \<longleftrightarrow> t_status t AND topicStatusMarkedDeleted \<noteq> 0"

subsection \<open>Subscribers\<close>

definition user_of :: "world \<Rightarrow> uid \<Rightarrow> topic_user" where
  "user_of t u = (case map_of (t_perUser t) u of None \<Rightarrow> user0 | Some p \<Rightarrow> p)"

definition put_user :: "uid \<Rightarrow> topic_user \<Rightarrow> world \<Rightarrow> world" where
  "put_user u p t = t\<lparr>t_perUser := AList.update u p (t_perUser t)\<rparr>"

definition del_user :: "uid \<Rightarrow> world \<Rightarrow> world" where
  "del_user u t = t\<lparr>t_perUser := AList.delete u (t_perUser t)\<rparr>"

definition getPerUserAcs :: "world \<Rightarrow> uid \<Rightarrow> access_mode \<times> access_mode" where
  "getPerUserAcs t u =
     (if Uid_IsZero u then (t_modeWantUnion t, t_modeGivenUnion t)
      else (u_modeWant (user_of t u), u_modeGiven (user_of t u)))"

definition passesPresenceFilters :: "world \<Rightarrow> MsgServerPres \<Rightarrow> uid \<Rightarrow> bool" where
  "passesPresenceFilters t pres u =
     (case getPerUserAcs t u of
        (modeWant, modeGiven) \<Rightarrow>
          (let m = modeGiven AND modeWant
           in (IsPresencer m \<or> pres_What pres = ''gone'' \<or> pres_What pres = ''acs'') \<and>
              (pres_FilterIn pres = 0 \<or> m AND pres_FilterIn pres \<noteq> 0) \<and>
              (pres_FilterOut pres = 0 \<or> m AND pres_FilterOut pres = 0)))"

definition userIsReader :: "world \<Rightarrow> uid \<Rightarrow> bool" where
  "userIsReader t u = (case getPerUserAcs t u of (modeWant, modeGiven) \<Rightarrow> IsReader (modeGiven AND modeWant))"

definition computePerUserAcsUnion :: "'a topic_scheme \<Rightarrow> 'a topic_scheme" where
  "computePerUserAcsUnion t =
     (let puds = filter (\<lambda>p. \<not> u_isChan p) (map snd (t_perUser t));
          want = fold (\<lambda>p m. m OR u_modeWant p) puds ModeNone;
          given = fold (\<lambda>p m. m OR u_modeGiven p) puds ModeNone;
          extra = (if t_isChan t then ModeCChnReader else 0)
      in t\<lparr>t_modeWantUnion := want OR extra, t_modeGivenUnion := given OR extra\<rparr>)"

text \<open>The name of the topic as one client knows it; a user unknown to a peer-to-peer topic panics.\<close>

definition original :: "world \<Rightarrow> uid \<Rightarrow> string option" where
  "original t u =
     (if t_cat t = TopicCatP2P then map_option u_topicName (map_of (t_perUser t) u)
      else if t_cat t = TopicCatGrp \<and> t_isChan t \<and> u_isChan (user_of t u) then Some (GrpToChn (t_xoriginal t))
      else Some (t_xoriginal t))"

definition p2pOtherUser :: "'a topic_scheme \<Rightarrow> uid \<Rightarrow> uid option" where
  "p2pOtherUser t u =
     (if t_cat t = TopicCatP2P then find (\<lambda>u2. Uid_Compare u2 u \<noteq> 0) (map fst (t_perUser t)) else None)"

definition accessFor :: "world \<Rightarrow> access_mode \<Rightarrow> level \<Rightarrow> access_mode option" where
  "accessFor t cp2p lvl =
     map_option (selectAccessMode lvl (t_accessAnon t) (t_accessAuth t)) (getDefaultAccess cp2p (t_cat t) True False)"

definition subsCount :: "'a topic_scheme \<Rightarrow> int" where
  "subsCount t =
     (if t_cat t = TopicCatP2P then int (length (filter (\<lambda>(_, p). \<not> u_deleted p) (t_perUser t)))
      else int (length (t_perUser t)))"

definition verifyChannelAccess :: "world \<Rightarrow> string \<Rightarrow> bool option" where
  "verifyChannelAccess t asTopic =
     (if \<not> IsChannel asTopic then Some False else if t_isChan t then Some True else None)"

definition prepareBroadcastableMessage ::
  "world \<Rightarrow> ServerComMessage \<Rightarrow> uid \<Rightarrow> bool \<Rightarrow> ServerComMessage option" where
  "prepareBroadcastableMessage t msg u isChanSub =
     (let msg = msg\<lparr>scm_TenantID := t_tenantID t\<rparr>
      in if Data msg = None \<and> Pres msg = None \<and> Info msg = None then Some msg
         else do {
           msg \<leftarrow> (if (t_cat t = TopicCatP2P \<and> \<not> Uid_IsZero u) \<or> (t_cat t = TopicCatGrp \<and> t_isChan t) then do {
               topicName \<leftarrow> (if isChanSub then Some (GrpToChn (t_xoriginal t)) else original t u);
               Some (if Data msg \<noteq> None then msg\<lparr>Data := map_option (\<lambda>d. d\<lparr>data_Topic := topicName\<rparr>) (Data msg)\<rparr>
                     else if Pres msg \<noteq> None then msg\<lparr>Pres := map_option (\<lambda>d. d\<lparr>pres_Topic := topicName\<rparr>) (Pres msg)\<rparr>
                     else msg\<lparr>Info := map_option (\<lambda>d. d\<lparr>info_Topic := topicName\<rparr>) (Info msg)\<rparr>)
             } else Some msg);
           Some (if isChanSub then msg\<lparr>Data := map_option (\<lambda>d. d\<lparr>data_From := []\<rparr>) (Data msg)\<rparr> else msg)
         })"

definition topicNameForUser :: "string \<Rightarrow> uid \<Rightarrow> bool \<Rightarrow> string option" where
  "topicNameForUser name u isChan =
     (case GetTopicCat name of
        None \<Rightarrow> None
      | Some TopicCatMe \<Rightarrow> Some ''me''
      | Some TopicCatFnd \<Rightarrow> Some ''fnd''
      | Some TopicCatP2P \<Rightarrow> Some (result_or [] (P2PNameForUser u name))
      | Some TopicCatGrp \<Rightarrow> Some (if isChan then GrpToChn name else name)
      | Some _ \<Rightarrow> Some name)"

subsection \<open>Attached sessions\<close>

definition addSession :: "world \<Rightarrow> string \<Rightarrow> uid \<Rightarrow> bool \<Rightarrow> world" where
  "addSession t sid asUid isChanSub =
     (let k = sess_key t sid; multi = isMultiplex (w_sess t k); bg = s_background (w_sess t sid)
      in case map_of (t_sessions t) k of
           Some pssd \<Rightarrow>
             if multi \<and> \<not> bg
             then t\<lparr>t_sessions := AList.update k (pssd\<lparr>pss_muids := pss_muids pssd @ [asUid]\<rparr>) (t_sessions t)\<rparr>
             else t
         | None \<Rightarrow>
             t\<lparr>t_sessions := AList.update k
               (if multi then
                  (if bg then \<lparr>pss_uid = ZeroUid, pss_isChanSub = False, pss_muids = []\<rparr>
                   else \<lparr>pss_uid = ZeroUid, pss_isChanSub = isChanSub, pss_muids = [asUid]\<rparr>)
                else \<lparr>pss_uid = asUid, pss_isChanSub = isChanSub, pss_muids = []\<rparr>) (t_sessions t)\<rparr>)"

text \<open>The first occurrence is overwritten by the last element and the slice is cut by one.\<close>

definition swap_remove :: "'a \<Rightarrow> 'a list \<Rightarrow> 'a list" where
  "swap_remove x xs = butlast (xs[length (takeWhile (\<lambda>y. y \<noteq> x) xs) := last xs])"

definition remSession :: "world \<Rightarrow> string \<Rightarrow> uid \<Rightarrow> world \<times> per_session option \<times> bool" where
  "remSession t sid asUid =
     (let k = sess_key t sid; gone = t\<lparr>t_sessions := AList.delete k (t_sessions t)\<rparr>
      in case map_of (t_sessions t) k of
           None \<Rightarrow> (t, None, False)
         | Some pssd \<Rightarrow>
             if pss_uid pssd = asUid \<or> Uid_IsZero asUid then (gone, Some pssd, True)
             else if asUid \<in> set (pss_muids pssd) then
               (let pssd' = pssd\<lparr>pss_muids := swap_remove asUid (pss_muids pssd)\<rparr>
                in if pss_muids pssd' = [] then (gone, Some pssd', True)
                   else (t\<lparr>t_sessions := AList.update k pssd' (t_sessions t)\<rparr>, Some pssd', False))
             else (t, None, False))"

definition isOnline :: "world \<Rightarrow> bool" where
  "isOnline t \<longleftrightarrow>
     (\<exists>(sid, pssd) \<in> set (t_sessions t).
        (isMultiplex (w_sess t sid) \<and> pss_muids pssd \<noteq> []) \<or> \<not> s_background (w_sess t sid))"

text \<open>The later of two sessions with the same time of action does not replace the earlier one.\<close>

definition mostRecentSession :: "world \<Rightarrow> string option" where
  "mostRecentSession t =
     fst (fold (\<lambda>sid (best, latest). if s_lastAction (w_sess t sid) > latest
        then (Some sid, s_lastAction (w_sess t sid)) else (best, latest)) (map fst (t_sessions t)) (None, 0))"

subsection \<open>Search queries of the fnd topic\<close>

definition fndGetPublic :: "world \<Rightarrow> string \<Rightarrow> string option" where
  "fndGetPublic t sid =
     (if t_cat t = TopicCatFnd then
        (case t_public t of
           ANil \<Rightarrow> Some []
         | AMap m \<Rightarrow> Some (case mget m sid of AStr s \<Rightarrow> s | _ \<Rightarrow> [])
         | _ \<Rightarrow> None)
      else None)"

text \<open>
  An assigned nil map is not the nil interface; it reads as the empty map. The result is whether an
  earlier map was there, or for a removal whether there was a query to remove.
\<close>

definition fndSetPublic :: "world \<Rightarrow> string \<Rightarrow> go_any \<Rightarrow> (world \<times> bool) option" where
  "fndSetPublic t sid public =
     (if t_cat t \<noteq> TopicCatFnd then None
      else
        (case (case t_public t of ANil \<Rightarrow> Some ([], False) | AMap m \<Rightarrow> Some (m, True) | _ \<Rightarrow> None) of
           None \<Rightarrow> None
         | Some (m, found) \<Rightarrow>
             if public \<noteq> ANil then Some (t\<lparr>t_public := AMap (mset_key m sid public)\<rparr>, found)
             else Some (t\<lparr>t_public := AMap (mdel_key m sid)\<rparr>, mget m sid \<noteq> ANil)))"

definition fndRemovePublic :: "world \<Rightarrow> string \<Rightarrow> world option" where
  "fndRemovePublic t sid =
     (case t_public t of
        ANil \<Rightarrow> Some t
      | AMap m \<Rightarrow> Some (t\<lparr>t_public := AMap (mdel_key m sid)\<rparr>)
      | _ \<Rightarrow> None)"

subsection \<open>Unread messages in deleted ranges\<close>

fun unread_loop :: "int \<Rightarrow> int \<Rightarrow> int \<Rightarrow> range list \<Rightarrow> int" where
  "unread_loop readID lastID n [] = n"
| "unread_loop readID lastID n (r # rs) =
     (let rangeStart = Low r; rangeEnd = (if Hi r = 0 then Low r + 1 else Hi r)
      in if rangeEnd \<le> readID then unread_loop readID lastID n rs
         else
           (let is = max (readID + 1) rangeStart; ie = min (lastID + 1) rangeEnd
            in unread_loop readID lastID (if is < ie then n + (ie - is) else n) rs))"

definition calculateUnreadInRanges :: "int \<Rightarrow> int \<Rightarrow> range list \<Rightarrow> int" where
  "calculateUnreadInRanges readID lastID ranges =
     (if readID \<ge> lastID then 0 else unread_loop readID lastID 0 ranges)"

subsection \<open>Frames\<close>

text \<open>
  The ids of the messages a topic has stored. An operation is quiet if all it does is send or update
  records about users: the topic and the sessions stay as they are and no message is stored.
\<close>

fun save_of :: "effect \<Rightarrow> int list" where
  "save_of (Store (MessagesSave m _ _)) = [Msg_SeqId m]"
| "save_of _ = []"

definition saves :: "world \<Rightarrow> int list" where
  "saves t = concat (map save_of (w_out t))"

definition quiet :: "world \<Rightarrow> world \<Rightarrow> bool" where
  "quiet t t' \<longleftrightarrow> topic.truncate t' = topic.truncate t \<and> w_sess t' = w_sess t \<and> saves t' = saves t"

lemma quiet_refl [simp]: "quiet t t"
  by (simp add: quiet_def)

lemma quiet_trans [trans]: "quiet t t1 \<Longrightarrow> quiet t1 t2 \<Longrightarrow> quiet t t2"
  by (simp add: quiet_def)

lemma saves_put_out [simp]: "saves (put_out x t) = saves t @ save_of x"
  by (simp add: saves_def put_out_def)

lemma quietD:
  assumes "quiet t t'"
  shows "t_tenantID t' = t_tenantID t" "t_name t' = t_name t" "t_xoriginal t' = t_xoriginal t" "t_cat t' = t_cat t"
    "t_lastID t' = t_lastID t" "t_delID t' = t_delID t" "t_owner t' = t_owner t" "t_perUser t' = t_perUser t"
    "t_sessions t' = t_sessions t" "t_currentCall t' = t_currentCall t" "t_status t' = t_status t"
    "t_isChan t' = t_isChan t" "t_perSubs t' = t_perSubs t" "t_public t' = t_public t" "t_subCnt t' = t_subCnt t"
    "t_accessAuth t' = t_accessAuth t" "t_accessAnon t' = t_accessAnon t" "t_userAgent t' = t_userAgent t"
    "t_modeWantUnion t' = t_modeWantUnion t" "t_modeGivenUnion t' = t_modeGivenUnion t" "t_isProxy t' = t_isProxy t"
    "w_sess t' = w_sess t" "saves t' = saves t"
  using assms by (simp_all add: quiet_def topic.defs)

lemma quiet_put_out [simp]: "save_of x = [] \<Longrightarrow> quiet t (put_out x t)"
  by (simp add: quiet_def topic.defs) (simp add: put_out_def)

lemma quiet_tries [simp]: "quiet t (t\<lparr>w_tries := n\<rparr>)"
  by (simp add: quiet_def topic.defs saves_def)

lemma quiet_session_push: "session_push e t sid msg = (t', ok) \<Longrightarrow> quiet t t'"
  by (auto simp: session_push_def Let_def split: if_splits intro!: quiet_trans [OF quiet_tries quiet_put_out])

lemma quiet_queueOut: "queueOut e t sess msg = (t', ok) \<Longrightarrow> quiet t t'"
  by (auto simp: queueOut_def Let_def split: option.splits if_splits dest: quiet_session_push)

lemma quiet_reply [simp]: "quiet t (reply e t sess msg)"
  using quiet_queueOut [of e t sess msg] by (cases "queueOut e t sess msg") (simp add: reply_def)

lemma quiet_detachSession [simp]: "quiet t (detachSession t sid)"
  by (simp add: detachSession_def)

subsection \<open>Subscriber table\<close>

lemma user_of_put [simp]: "user_of (put_user u p t) v = (if v = u then p else user_of t v)"
  by (simp add: user_of_def put_user_def update_conv')

lemma user_of_del [simp]: "user_of (del_user u t) v = (if v = u then user0 else user_of t v)"
  by (simp add: user_of_def del_user_def delete_conv')

lemma map_of_put_user [simp]: "map_of (t_perUser (put_user u p t)) = (map_of (t_perUser t))(u \<mapsto> p)"
  by (simp add: put_user_def update_conv')

lemma map_of_del_user [simp]: "map_of (t_perUser (del_user u t)) = (map_of (t_perUser t))(u := None)"
  by (simp add: del_user_def delete_conv')

lemma user_of_quiet: "quiet t t' \<Longrightarrow> user_of t' u = user_of t u"
  by (simp add: user_of_def quietD)

lemma put_user_fields [simp]:
  "t_name (put_user u p t) = t_name t" "t_cat (put_user u p t) = t_cat t" "t_lastID (put_user u p t) = t_lastID t"
  "t_delID (put_user u p t) = t_delID t" "t_owner (put_user u p t) = t_owner t" "t_sessions (put_user u p t) = t_sessions t"
  "t_currentCall (put_user u p t) = t_currentCall t" "t_status (put_user u p t) = t_status t"
  "t_isChan (put_user u p t) = t_isChan t" "w_sess (put_user u p t) = w_sess t" "w_out (put_user u p t) = w_out t"
  "t_tenantID (put_user u p t) = t_tenantID t" "t_xoriginal (put_user u p t) = t_xoriginal t" "saves (put_user u p t) = saves t"
  by (simp_all add: put_user_def saves_def)

lemma del_user_fields [simp]:
  "t_name (del_user u t) = t_name t" "t_cat (del_user u t) = t_cat t" "t_lastID (del_user u t) = t_lastID t"
  "t_delID (del_user u t) = t_delID t" "t_owner (del_user u t) = t_owner t" "t_sessions (del_user u t) = t_sessions t"
  "t_currentCall (del_user u t) = t_currentCall t" "t_status (del_user u t) = t_status t"
  "t_isChan (del_user u t) = t_isChan t" "w_sess (del_user u t) = w_sess t" "w_out (del_user u t) = w_out t"
  "t_tenantID (del_user u t) = t_tenantID t" "t_xoriginal (del_user u t) = t_xoriginal t" "saves (del_user u t) = saves t"
  by (simp_all add: del_user_def saves_def)

lemma acs_union_fields [simp]:
  "t_perUser (computePerUserAcsUnion t) = t_perUser t" "t_lastID (computePerUserAcsUnion t) = t_lastID t"
  "t_delID (computePerUserAcsUnion t) = t_delID t" "t_owner (computePerUserAcsUnion t) = t_owner t"
  "t_sessions (computePerUserAcsUnion t) = t_sessions t" "t_cat (computePerUserAcsUnion t) = t_cat t"
  "t_name (computePerUserAcsUnion t) = t_name t" "w_sess (computePerUserAcsUnion t) = w_sess t"
  "t_currentCall (computePerUserAcsUnion t) = t_currentCall t" "t_status (computePerUserAcsUnion t) = t_status t"
  "t_isChan (computePerUserAcsUnion t) = t_isChan t" "saves (computePerUserAcsUnion t) = saves t"
  by (simp_all add: computePerUserAcsUnion_def Let_def saves_def)

subsection \<open>Counting unread messages\<close>

lemma int_card_interval: "int (card {a..<b}) = max 0 (b - a)" for a b :: int
  by simp

lemma unread_loop_sum:
  "unread_loop r l n rs = n + sum_list (map (\<lambda>x. int (card ({r + 1..l} \<inter> range_ids x))) rs)"
proof (induction rs arbitrary: n)
  case (Cons x rs)
  let ?e = "if Hi x = 0 then Low x + 1 else Hi x"
  have "{r + 1..l} \<inter> range_ids x = {max (r + 1) (Low x)..<min (l + 1) ?e}"
    by (auto simp: range_ids_def)
  then have "int (card ({r + 1..l} \<inter> range_ids x)) = max 0 (min (l + 1) ?e - max (r + 1) (Low x))"
    using int_card_interval [of "max (r + 1) (Low x)" "min (l + 1) ?e"] by (simp only:)
  moreover have "?e \<le> r \<Longrightarrow> max 0 (min (l + 1) ?e - max (r + 1) (Low x)) = 0" by simp
  ultimately show ?case using Cons.IH by (auto simp: Let_def)
qed simp

lemma card_ranges_disjoint:
  assumes "sorted_wrt (\<lambda>a b. range_ids a \<inter> range_ids b = {}) rs" "finite A"
  shows "card (A \<inter> ranges_ids rs) = sum_list (map (\<lambda>x. card (A \<inter> range_ids x)) rs)"
  using assms(1)
proof (induction rs)
  case (Cons x rs)
  have "A \<inter> ranges_ids (x # rs) = (A \<inter> range_ids x) \<union> (A \<inter> ranges_ids rs)"
    by (auto simp: ranges_ids_def)
  moreover have "(A \<inter> range_ids x) \<inter> (A \<inter> ranges_ids rs) = {}"
    using Cons.prems by (auto simp: ranges_ids_def)
  ultimately show ?case using Cons assms(2) by (simp add: card_Un_disjoint)
qed (simp add: ranges_ids_def)

text \<open>
  When messages are deleted, the unread counter of a reader goes down by exactly the number of
  unread messages among the deleted ones: \<^verbatim>\<open>calculateUnreadInRanges\<close> of pairwise disjoint ranges counts
  the ids above the last one read, up to the last one of the topic, that lie in one of the ranges.
\<close>

theorem unread_in_ranges_exact:
  assumes "sorted_wrt (\<lambda>a b. range_ids a \<inter> range_ids b = {}) rs"
  shows "calculateUnreadInRanges readID lastID rs = int (card ({readID<..lastID} \<inter> ranges_ids rs))"
proof -
  have "{readID<..lastID} = {readID + 1..lastID}" by auto
  moreover have "int (sum_list (map f rs)) = sum_list (map (\<lambda>x. int (f x)) rs)" for f :: "range \<Rightarrow> nat"
    by (induction rs) simp_all
  ultimately show ?thesis
    using card_ranges_disjoint [OF assms, of "{readID + 1..lastID}"]
    by (simp add: calculateUnreadInRanges_def unread_loop_sum)
qed

theorem unread_in_ranges_exact_witness:
  "calculateUnreadInRanges 3 10 [\<lparr>Low = 1, Hi = 5\<rparr>, \<lparr>Low = 7, Hi = 0\<rparr>, \<lparr>Low = 9, Hi = 20\<rparr>] =
     int (card ({3<..10} \<inter> ranges_ids [\<lparr>Low = 1, Hi = 5\<rparr>, \<lparr>Low = 7, Hi = 0\<rparr>, \<lparr>Low = 9, Hi = 20\<rparr>]))"
  by (rule unread_in_ranges_exact) (simp add: range_ids_def)

end
