(* ===== verification/Presence.thy ===== *)
theory Presence
  imports TopicState
begin

section \<open>Presence notifications and push receipts (server/pres.go, server/push.go)\<close>

text \<open>
  Every function that announces a change: which messages it routes through the hub or queues to
  attached sessions, and for the \<^verbatim>\<open>me\<close> topic the table of contacts with their online status. Then the
  receipts handed to push services. The theorems at the end are about the exchange of online status
  between \<^verbatim>\<open>me\<close> topics: a request causes at most two further messages, so the exchange always ends,
  and when it does both sides know that the other is online.
\<close>

record pres_params =
  pp_userAgent :: string
  pp_seqID :: int
  pp_delID :: int
  pp_delSeq :: "MsgRange list"
  pp_actor :: string
  pp_target :: string
  pp_dWant :: string
  pp_dGiven :: string

record pres_filters =
  filterIn :: access_mode
  filterOut :: access_mode
  singleUser :: string
  excludeUser :: string

definition nilPresParams :: pres_params where
  "nilPresParams = \<lparr>pp_userAgent = [], pp_seqID = 0, pp_delID = 0, pp_delSeq = [], pp_actor = [],
     pp_target = [], pp_dWant = [], pp_dGiven = []\<rparr>"

definition nilPresFilters :: pres_filters where
  "nilPresFilters = \<lparr>filterIn = 0, filterOut = 0, singleUser = [], excludeUser = []\<rparr>"

definition packAcs :: "pres_params \<Rightarrow> MsgAccessMode option" where
  "packAcs p =
     (if pp_dWant p \<noteq> [] \<or> pp_dGiven p \<noteq> [] then Some \<lparr>am_Want = pp_dWant p, am_Given = pp_dGiven p, am_Mode = []\<rparr>
      else None)"

definition pres0 :: MsgServerPres where
  "pres0 = \<lparr>pres_Topic = [], pres_Src = [], pres_What = [], pres_UserAgent = [], pres_SeqId = 0,
     pres_DelId = 0, pres_DelSeq = [], pres_AcsTarget = [], pres_AcsActor = [], pres_Acs = None,
     pres_WantReply = False, pres_FilterIn = 0, pres_FilterOut = 0, pres_SkipTopic = [],
     pres_SingleUser = [], pres_ExcludeUser = []\<rparr>"

definition info0 :: MsgServerInfo where
  "info0 = \<lparr>info_Topic = [], info_Src = [], info_From = [], info_What = [], info_SeqId = 0,
     info_Event = [], info_Payload = [], info_SkipTopic = []\<rparr>"

subsection \<open>Contacts of a user\<close>

definition addToPerSubs :: "world \<Rightarrow> string \<Rightarrow> bool \<Rightarrow> bool \<Rightarrow> world" where
  "addToPerSubs t topic online enabled =
     (if topic = t_name t then t
      else
        (let topic = (case ParseP2P topic of
             Inr (uid1, uid2) \<Rightarrow> if UserId uid1 = t_name t then UserId uid2 else UserId uid1
           | Inl _ \<Rightarrow> topic)
         in t\<lparr>t_perSubs := AList.update topic \<lparr>ps_online = online, ps_enabled = enabled\<rparr> (t_perSubs t)\<rparr>))"

definition loadContacts :: "env \<Rightarrow> world \<Rightarrow> uid \<Rightarrow> world \<times> store_error option" where
  "loadContacts e t u =
     (case e_UsersGetSubs e u of
        Inl err \<Rightarrow> (t, Some err)
      | Inr subs \<Rightarrow>
          (fold (\<lambda>s t. addToPerSubs t (Sub_Topic s) False (IsPresencer (ModeGiven s AND ModeWant s))) subs t, None))"

text \<open>
  The contact that a request is about, changed by its command; the second component is what is left
  to tell the user's sessions, empty for nothing. An unknown command panics.
\<close>

definition contact_step :: "per_subs \<Rightarrow> string \<Rightarrow> string \<Rightarrow> bool option \<Rightarrow> (per_subs \<times> string) option" where
  "contact_step psd what cmd online =
     do {
       (psd, what) \<leftarrow>
         (if cmd = [] then
            Some (psd, if \<not> ps_enabled psd \<or> online = None \<or> online = Some (ps_online psd) then [] else what)
          else if cmd = ''en'' then
            (if \<not> ps_enabled psd then Some (psd\<lparr>ps_enabled := True\<rparr>, what)
             else Some (psd, if online = None \<or> online = Some (ps_online psd) then [] else what))
          else if cmd = ''dis'' then
            (if ps_enabled psd then Some (psd\<lparr>ps_enabled := False\<rparr>, if \<not> ps_online psd then [] else what)
             else Some (psd, []))
          else None);
       Some (psd\<lparr>ps_online := (if \<not> ps_enabled psd then False
                  else (case online of Some b \<Rightarrow> b | None \<Rightarrow> ps_online psd))\<rparr>, what)
     }"

definition procPresReq_me ::
  "world \<Rightarrow> string \<Rightarrow> string \<Rightarrow> string \<Rightarrow> bool option \<Rightarrow> bool \<Rightarrow> (world \<times> string \<times> string) option" where
  "procPresReq_me t fromUserID what cmd online onlineUpdate =
     (case map_of (t_perSubs t) fromUserID of
        Some psd \<Rightarrow>
          if cmd = ''rem'' then
            Some (t\<lparr>t_perSubs := AList.delete fromUserID (t_perSubs t)\<rparr>,
                  if \<not> ps_enabled psd \<and> what = ''off'' then [] else what, ''off+rem'')
          else do {
            (psd, what) \<leftarrow> contact_step psd what cmd online;
            Some (t\<lparr>t_perSubs := AList.update fromUserID psd (t_perSubs t)\<rparr>, what, ''on'')
          }
      | None \<Rightarrow>
          if cmd \<noteq> ''rem'' then
            Some (addToPerSubs t fromUserID onlineUpdate (cmd = ''en''), if cmd \<noteq> ''en'' then [] else what, ''on'')
          else Some (t, [], ''on''))"

definition pres_reply :: "world \<Rightarrow> string \<Rightarrow> string \<Rightarrow> bool \<Rightarrow> ServerComMessage" where
  "pres_reply t toUserID replyAs reqReply =
     empty_ServerComMessage
       \<lparr>scm_TenantID := t_tenantID t,
        Pres := Some (pres0\<lparr>pres_Topic := ''me'', pres_What := replyAs, pres_Src := t_name t, pres_WantReply := reqReply\<rparr>),
        scm_RcptTo := toUserID\<rparr>"

definition procPresReq_known :: "world \<Rightarrow> string \<Rightarrow> string \<Rightarrow> string \<Rightarrow> bool \<Rightarrow> (world \<times> string) option" where
  "procPresReq_known t fromUserID what cmd wantReply =
     (let onlineUpdate = (what = ''on'');
          reqReply = (what = ''?unkn'');
          unchanged = (what = ''?none'' \<or> what = ''?unkn'');
          online = (if unchanged then None else Some onlineUpdate);
          cmd = (if what = ''gone'' then ''rem'' else cmd);
          what = (if unchanged then [] else what)
      in do {
        (t, what, replyAs) \<leftarrow>
          (if t_cat t = TopicCatMe then procPresReq_me t fromUserID what cmd online onlineUpdate
           else Some (t, what, ''on''));
        Some (if (onlineUpdate \<or> reqReply) \<and> wantReply
              then put_out (RouteSrv (pres_reply t fromUserID replyAs reqReply)) t else t, what)
      })"

definition procPresReq :: "world \<Rightarrow> string \<Rightarrow> string \<Rightarrow> bool \<Rightarrow> (world \<times> string) option" where
  "procPresReq t fromUserID what wantReply =
     (if isInactive t then Some (t, [])
      else if t_isProxy t then Some (t, what)
      else
        (let parts = Split what (CHR ''+'');
             what = hd parts;
             cmd = (if length parts > 1 then parts ! 1 else [])
         in if what \<in> {''on'', ''off'', ''?none'', ''gone'', ''?unkn''}
            then procPresReq_known t fromUserID what cmd wantReply
            else Some (t, what)))"

text \<open>An empty name means that the notification is skipped.\<close>

definition notifyOnOrSkip :: "string \<Rightarrow> string \<Rightarrow> bool \<Rightarrow> string option" where
  "notifyOnOrSkip topic what online =
     (if IsChannel topic then Some []
      else if what = ''upd'' \<or> what = ''ua'' then
        (if \<not> online then Some []
         else map_option (\<lambda>cat. if cat = TopicCatGrp then topic else ''me'') (GetTopicCat topic))
      else Some ''me'')"

definition interest_message :: "world \<Rightarrow> string \<Rightarrow> string \<Rightarrow> string \<Rightarrow> string \<Rightarrow> bool \<Rightarrow> ServerComMessage" where
  "interest_message t topic notifyOn what ua wantReply =
     empty_ServerComMessage
       \<lparr>scm_TenantID := t_tenantID t,
        Pres := Some (pres0\<lparr>pres_Topic := notifyOn, pres_What := what, pres_Src := t_name t,
          pres_UserAgent := ua, pres_WantReply := wantReply\<rparr>),
        scm_RcptTo := topic\<rparr>"

fun interest_loop ::
  "string \<Rightarrow> string \<Rightarrow> bool \<Rightarrow> bool \<Rightarrow> (string \<times> per_subs) list \<Rightarrow> world \<Rightarrow> world option" where
  "interest_loop what ua wantReply goOffline [] t = Some t"
| "interest_loop what ua wantReply goOffline ((topic, psd) # subs) t = do {
     notifyOn \<leftarrow> notifyOnOrSkip topic what (ps_online psd);
     if notifyOn = [] then interest_loop what ua wantReply goOffline subs t
     else
       (let t = put_out (RouteSrv (interest_message t topic notifyOn what ua wantReply)) t;
            t = (if ps_online psd \<and> goOffline
                 then t\<lparr>t_perSubs := AList.update topic (psd\<lparr>ps_online := False\<rparr>) (t_perSubs t)\<rparr> else t)
        in interest_loop what ua wantReply goOffline subs t)
   }"

definition presUsersOfInterest :: "world \<Rightarrow> string \<Rightarrow> string \<Rightarrow> world option" where
  "presUsersOfInterest t what ua =
     (let parts = Split what (CHR ''+'')
      in interest_loop what ua (hd parts = ''on'') (length parts > 1 \<and> parts ! 1 = ''dis'') (t_perSubs t) t)"

fun presUsersOfInterestOffline ::
  "tenant_id \<Rightarrow> uid \<Rightarrow> subscription list \<Rightarrow> string \<Rightarrow> ServerComMessage list option" where
  "presUsersOfInterestOffline tenantID u [] what = Some []"
| "presUsersOfInterestOffline tenantID u (s # subs) what = do {
     notifyOn \<leftarrow> notifyOnOrSkip (Sub_Topic s) what True;
     msgs \<leftarrow> presUsersOfInterestOffline tenantID u subs what;
     Some (if notifyOn = [] then msgs
           else empty_ServerComMessage
             \<lparr>scm_TenantID := tenantID,
              Pres := Some (pres0\<lparr>pres_Topic := notifyOn, pres_What := what, pres_Src := UserId u\<rparr>),
              scm_RcptTo := Sub_Topic s\<rparr> # msgs)
   }"

subsection \<open>Subscribers online in the topic\<close>

definition presSubsOnline :: "world \<Rightarrow> string \<Rightarrow> string \<Rightarrow> pres_params \<Rightarrow> pres_filters \<Rightarrow> string \<Rightarrow> world" where
  "presSubsOnline t what src params flt skipSid =
     put_out (RouteSrv (empty_ServerComMessage
       \<lparr>scm_TenantID := t_tenantID t,
        Pres := Some (pres0
          \<lparr>pres_Topic := t_xoriginal t, pres_What := what, pres_Src := src, pres_Acs := packAcs params,
           pres_AcsActor := (if pp_actor params = src then [] else pp_actor params),
           pres_AcsTarget := (if pp_target params = src then [] else pp_target params),
           pres_SeqId := pp_seqID params, pres_DelId := pp_delID params, pres_DelSeq := pp_delSeq params,
           pres_FilterIn := filterIn flt, pres_FilterOut := filterOut flt,
           pres_SingleUser := singleUser flt, pres_ExcludeUser := excludeUser flt\<rparr>),
        scm_RcptTo := t_name t, scm_SkipSid := skipSid\<rparr>)) t"

definition userIsPresencer :: "world \<Rightarrow> uid \<Rightarrow> bool" where
  "userIsPresencer t u =
     (if Uid_IsZero u then IsPresencer (t_modeWantUnion t AND t_modeGivenUnion t)
      else \<not> u_deleted (user_of t u) \<and> IsPresencer (u_modeWant (user_of t u) AND u_modeGiven (user_of t u)))"

definition presOfflineFilter :: "access_mode \<Rightarrow> string \<Rightarrow> pres_filters option \<Rightarrow> bool" where
  "presOfflineFilter mode what pf \<longleftrightarrow>
     what = ''acs'' \<or> what = ''gone'' \<or> (what = ''upd'' \<and> IsJoiner mode) \<or>
     (IsPresencer mode \<and>
       (case pf of
          None \<Rightarrow> True
        | Some f \<Rightarrow> (filterIn f = ModeNone \<or> mode AND filterIn f \<noteq> 0) \<and> (filterOut f = ModeNone \<or> mode AND filterOut f = 0)))"

text \<open>
  One message is prepared anew for every receiver, so the changes for one session are passed on to
  the next. The log has each message as it is when it is queued; the queues hold pointers to it.
\<close>

fun direct_loop ::
  "env \<Rightarrow> string \<Rightarrow> pres_filters \<Rightarrow> string \<Rightarrow> ServerComMessage \<Rightarrow> (string \<times> per_session) list \<Rightarrow> world \<Rightarrow> world option" where
  "direct_loop e what flt skipSid msg [] t = Some t"
| "direct_loop e what flt skipSid msg ((sid, pssd) # ss) t =
     (if isMultiplex (w_sess t sid) then direct_loop e what flt skipSid msg ss (reply e t (Some sid) msg)
      else
        (let pud = user_of t (pss_uid pssd); user = UserId (pss_uid pssd)
         in if skipSid = sid \<or> u_deleted pud \<or> \<not> presOfflineFilter (user_mode pud) what (Some flt)
              \<or> (singleUser flt \<noteq> [] \<and> singleUser flt \<noteq> user)
              \<or> (excludeUser flt \<noteq> [] \<and> excludeUser flt = user)
            then direct_loop e what flt skipSid msg ss t
            else do {
              msg \<leftarrow> prepareBroadcastableMessage t msg (pss_uid pssd) (pss_isChanSub pssd);
              direct_loop e what flt skipSid msg ss (reply e t (Some sid) msg)
            }))"

definition presSubsOnlineDirect ::
  "env \<Rightarrow> world \<Rightarrow> string \<Rightarrow> pres_params \<Rightarrow> pres_filters \<Rightarrow> string \<Rightarrow> world option" where
  "presSubsOnlineDirect e t what params flt skipSid =
     direct_loop e what flt skipSid
       (empty_ServerComMessage
         \<lparr>scm_TenantID := t_tenantID t,
          Pres := Some (pres0\<lparr>pres_Topic := t_xoriginal t, pres_What := what, pres_Acs := packAcs params,
            pres_SeqId := pp_seqID params, pres_DelId := pp_delID params, pres_DelSeq := pp_delSeq params\<rparr>)\<rparr>)
       (t_sessions t) t"

text \<open>A message is recorded as it is when it is put into the queue of a session.\<close>

definition presTermDirect :: "env \<Rightarrow> world \<Rightarrow> string \<Rightarrow> string list \<Rightarrow> world" where
  "presTermDirect e t sid subs =
     fold (\<lambda>topic t. reply e t (Some sid) (empty_ServerComMessage\<lparr>scm_TenantID := s_tenantID (w_sess t sid),
       Pres := Some (pres0\<lparr>pres_Topic := ''me'', pres_What := ''term'', pres_Src := topic\<rparr>)\<rparr>)) subs t"

subsection \<open>Subscribers on their me topic\<close>

definition pres_to_me ::
  "tenant_id \<Rightarrow> string \<Rightarrow> string \<Rightarrow> string \<Rightarrow> pres_params \<Rightarrow> string \<Rightarrow> ServerComMessage" where
  "pres_to_me tenantID user what src params skipSid =
     empty_ServerComMessage
       \<lparr>scm_TenantID := tenantID,
        Pres := Some (pres0\<lparr>pres_Topic := ''me'', pres_What := what, pres_Src := src, pres_Acs := packAcs params,
          pres_AcsActor := (if pp_actor params = user then [] else pp_actor params),
          pres_AcsTarget := (if pp_target params = user then [] else pp_target params),
          pres_SeqId := pp_seqID params, pres_DelId := pp_delID params\<rparr>),
        scm_RcptTo := user, scm_SkipSid := skipSid\<rparr>"

fun offline_loop ::
  "string \<Rightarrow> pres_params \<Rightarrow> pres_filters \<Rightarrow> pres_filters \<Rightarrow> string \<Rightarrow> bool \<Rightarrow> (uid \<times> topic_user) list \<Rightarrow> world \<Rightarrow> world option" where
  "offline_loop what params fs ft skipSid offlineOnly [] t = Some t"
| "offline_loop what params fs ft skipSid offlineOnly ((u, pud) # us) t =
     (if u_deleted pud \<or> \<not> presOfflineFilter (user_mode pud) what (Some fs)
      then offline_loop what params fs ft skipSid offlineOnly us t
      else do {
        src \<leftarrow> original t u;
        (let msg = pres_to_me (t_tenantID t) (UserId u) what src params skipSid;
             msg = msg\<lparr>Pres := map_option (\<lambda>p. p\<lparr>pres_FilterIn := filterIn ft, pres_FilterOut := filterOut ft,
               pres_SingleUser := singleUser ft, pres_ExcludeUser := excludeUser ft,
               pres_SkipTopic := (if offlineOnly then t_name t else [])\<rparr>) (Pres msg)\<rparr>
         in offline_loop what params fs ft skipSid offlineOnly us (put_out (RouteSrv msg) t))
      })"

definition presSubsOffline ::
  "world \<Rightarrow> string \<Rightarrow> pres_params \<Rightarrow> pres_filters \<Rightarrow> pres_filters \<Rightarrow> string \<Rightarrow> bool \<Rightarrow> world option" where
  "presSubsOffline t what params fs ft skipSid offlineOnly =
     offline_loop what params fs ft skipSid offlineOnly (t_perUser t) t"

fun info_loop :: "string \<Rightarrow> string \<Rightarrow> int \<Rightarrow> string \<Rightarrow> (uid \<times> topic_user) list \<Rightarrow> world \<Rightarrow> world option" where
  "info_loop frm what seq skipSid [] t = Some t"
| "info_loop frm what seq skipSid ((u, pud) # us) t =
     (if u_deleted pud \<or> \<not> IsPresencer (user_mode pud) \<or> \<not> IsReader (user_mode pud)
      then info_loop frm what seq skipSid us t
      else do {
        src \<leftarrow> original t u;
        info_loop frm what seq skipSid us (put_out (RouteSrv (empty_ServerComMessage
          \<lparr>scm_TenantID := t_tenantID t,
           Info := Some (info0\<lparr>info_Topic := ''me'', info_Src := src, info_From := frm, info_What := what,
             info_SeqId := seq, info_SkipTopic := t_name t\<rparr>),
           scm_RcptTo := UserId u, scm_SkipSid := skipSid\<rparr>)) t)
      })"

definition infoSubsOffline :: "world \<Rightarrow> uid \<Rightarrow> string \<Rightarrow> int \<Rightarrow> string \<Rightarrow> world option" where
  "infoSubsOffline t frm what seq skipSid = info_loop (UserId frm) what seq skipSid (t_perUser t) t"

definition infoCallSubsOffline ::
  "world \<Rightarrow> string \<Rightarrow> uid \<Rightarrow> string \<Rightarrow> int \<Rightarrow> string \<Rightarrow> string \<Rightarrow> bool \<Rightarrow> world option" where
  "infoCallSubsOffline t frm target event seq sdp skipSid offlineOnly =
     (let pud = user_of t target; mode = user_mode pud
      in if Uid_IsZero target \<or> u_deleted pud \<or> \<not> IsPresencer mode \<or> \<not> IsReader mode then Some t
         else do {
           src \<leftarrow> original t target;
           Some (put_out (RouteSrv (empty_ServerComMessage
             \<lparr>scm_TenantID := t_tenantID t,
              Info := Some (info0\<lparr>info_Topic := ''me'', info_Src := src, info_From := frm, info_What := ''call'',
                info_Event := event, info_SeqId := seq, info_Payload := sdp,
                info_SkipTopic := (if offlineOnly then t_name t else [])\<rparr>),
              scm_RcptTo := UserId target, scm_SkipSid := skipSid\<rparr>)) t)
         })"

text \<open>
  For a topic that is not loaded. In a peer-to-peer topic the name is the other subscriber, found by
  counting the receivers so far; indexing the second of fewer than two subscriptions panics.
\<close>

fun offline_offline_loop ::
  "tenant_id \<Rightarrow> topic_cat \<Rightarrow> subscription list \<Rightarrow> string \<Rightarrow> pres_params \<Rightarrow> string \<Rightarrow> nat \<Rightarrow> string \<Rightarrow>
     subscription list \<Rightarrow> ServerComMessage list option" where
  "offline_offline_loop tenantID cat all what params skipSid n src [] = Some []"
| "offline_offline_loop tenantID cat all what params skipSid n src (sub # subs) =
     (if \<not> presOfflineFilter (ModeWant sub AND ModeGiven sub) what None
      then offline_offline_loop tenantID cat all what params skipSid n src subs
      else if cat = TopicCatP2P \<and> (n + 1) mod 2 \<ge> length all then None
      else
        (let p2p = (cat = TopicCatP2P);
             src = (if p2p then UserId (ParseUid (Sub_User (all ! ((n + 1) mod 2)))) else src)
         in map_option (Cons (pres_to_me tenantID (UserId (ParseUid (Sub_User sub))) what src params skipSid))
              (offline_offline_loop tenantID cat all what params skipSid (if p2p then n + 1 else n) src subs)))"

definition presSubsOfflineOffline ::
  "tenant_id \<Rightarrow> string \<Rightarrow> topic_cat \<Rightarrow> subscription list \<Rightarrow> string \<Rightarrow> pres_params \<Rightarrow> string \<Rightarrow> ServerComMessage list option" where
  "presSubsOfflineOffline tenantID topic cat subs what params skipSid =
     offline_offline_loop tenantID cat subs what params skipSid 0 topic subs"

definition presSingleUserOffline ::
  "world \<Rightarrow> uid \<Rightarrow> access_mode \<Rightarrow> string \<Rightarrow> pres_params \<Rightarrow> string \<Rightarrow> bool \<Rightarrow> world option" where
  "presSingleUserOffline t u mode what params skipSid offlineOnly =
     (if mode \<noteq> ModeInvalid \<and> presOfflineFilter mode what None then do {
        src \<leftarrow> original t u;
        (let msg = pres_to_me (t_tenantID t) (UserId u) what src params skipSid;
             msg = msg\<lparr>Pres := map_option (\<lambda>p. p\<lparr>pres_UserAgent := pp_userAgent params,
               pres_WantReply := HasPrefix what ''?unkn'', pres_SkipTopic := (if offlineOnly then t_name t else [])\<rparr>) (Pres msg)\<rparr>
         in Some (put_out (RouteSrv msg) t))
      } else Some t)"

definition presSingleUserOfflineOffline ::
  "tenant_id \<Rightarrow> uid \<Rightarrow> string \<Rightarrow> string \<Rightarrow> pres_params \<Rightarrow> string \<Rightarrow> world \<Rightarrow> world" where
  "presSingleUserOfflineOffline tenantID u src what params skipSid t =
     put_out (RouteSrv (pres_to_me tenantID (UserId u) what src params skipSid)) t"

definition presPubMessageCount :: "world \<Rightarrow> uid \<Rightarrow> access_mode \<Rightarrow> int \<Rightarrow> int \<Rightarrow> string \<Rightarrow> world option" where
  "presPubMessageCount t u mode read recv skip =
     (if read > 0 then presSingleUserOffline t u mode ''read'' (nilPresParams\<lparr>pp_seqID := read\<rparr>) skip True
      else if recv > 0 then presSingleUserOffline t u mode ''recv'' (nilPresParams\<lparr>pp_seqID := recv\<rparr>) skip True
      else Some t)"

definition presPubMessageDelete :: "world \<Rightarrow> uid \<Rightarrow> access_mode \<Rightarrow> int \<Rightarrow> MsgRange list \<Rightarrow> string \<Rightarrow> world option" where
  "presPubMessageDelete t u mode delID ranges skip =
     (if (ranges = [] \<and> delID \<le> 0) \<or> \<not> userIsPresencer t u then Some t
      else
        (let params = nilPresParams\<lparr>pp_delID := delID, pp_delSeq := ranges\<rparr>;
             t = presSubsOnline t ''del'' (UserId u) params (nilPresFilters\<lparr>singleUser := UserId u\<rparr>) skip
         in presSingleUserOffline t u mode ''del'' params skip True))"

subsection \<open>Push receipts\<close>

definition payload0 :: push_payload where
  "payload0 = \<lparr>pp_What = [], pp_Silent = False, pp_Topic = [], pp_Timestamp = 0, pp_From = [], pp_SeqId = 0,
     pp_ContentType = [], pp_Content = ANil, pp_Webrtc = [], pp_AudioOnly = False, pp_Replace = [],
     pp_ModeWant = 0, pp_ModeGiven = 0\<rparr>"

definition recipient0 :: push_recipient where
  "recipient0 = \<lparr>rcpt_Delivered = 0, rcpt_Unread = 0, rcpt_ShouldIncrement = False\<rparr>"

definition channelSubUnsub :: "world \<Rightarrow> uid \<Rightarrow> bool \<Rightarrow> world" where
  "channelSubUnsub t u sub = put_out (ChannelSub u (GrpToChn (t_name t)) (\<not> sub)) t"

definition wants_push :: "topic_user \<Rightarrow> bool" where
  "wants_push pud \<longleftrightarrow> IsPresencer (user_mode pud) \<and> IsReader (user_mode pud) \<and> \<not> u_deleted pud \<and> \<not> u_isChan pud"

definition head_str :: "go_map option \<Rightarrow> string \<Rightarrow> string" where
  "head_str head k = (case head of None \<Rightarrow> [] | Some m \<Rightarrow> (case mget m k of AStr s \<Rightarrow> s | _ \<Rightarrow> []))"

definition pushForData :: "world \<Rightarrow> uid \<Rightarrow> MsgServerData \<Rightarrow> bool \<Rightarrow> push_receipt option" where
  "pushForData t fromUid data marked =
     (let head = (case data_Head data of None \<Rightarrow> [] | Some m \<Rightarrow> m);
          payload = payload0\<lparr>pp_What := ''msg'', pp_Topic := t_name t, pp_From := data_From data,
            pp_Timestamp := data_Timestamp data, pp_SeqId := data_SeqId data,
            pp_ContentType := head_str (data_Head data) ''mime'', pp_Content := data_Content data\<rparr>;
          payload = (case mget head ''webrtc'' of
              AStr w \<Rightarrow> payload\<lparr>pp_Webrtc := w, pp_AudioOnly := (case mget head ''aonly'' of ABool b \<Rightarrow> b | _ \<Rightarrow> False)\<rparr>
            | _ \<Rightarrow> payload);
          payload = payload\<lparr>pp_Replace := head_str (data_Head data) ''replace''\<rparr>;
          recipients = map (\<lambda>(u, pud). (u, \<lparr>rcpt_Delivered = (if u = fromUid \<and> u_online pud = 0 then 1 else u_online pud),
               rcpt_Unread = 0, rcpt_ShouldIncrement = (u \<noteq> fromUid \<or> \<not> marked)\<rparr>))
             (filter (\<lambda>(u, pud). wants_push pud) (t_perUser t));
          channel = (if t_isChan t then GrpToChn (t_name t) else [])
      in if recipients \<noteq> [] \<or> channel \<noteq> []
         then Some \<lparr>pr_TenantID = t_tenantID t, pr_To = recipients, pr_Channel = channel, pr_Payload = payload\<rparr>
         else None)"

definition preparePushForSubReceipt :: "world \<Rightarrow> uid \<Rightarrow> time \<Rightarrow> push_receipt" where
  "preparePushForSubReceipt t fromUid now =
     \<lparr>pr_TenantID = t_tenantID t, pr_To = [], pr_Channel = [],
      pr_Payload = payload0\<lparr>pp_What := ''sub'',
        pp_Topic := (if t_cat t = TopicCatP2P then UserId fromUid else t_xoriginal t),
        pp_From := UserId fromUid, pp_Timestamp := now, pp_SeqId := t_lastID t\<rparr>\<rparr>"

definition pushForP2PSub :: "world \<Rightarrow> uid \<Rightarrow> uid \<Rightarrow> access_mode \<Rightarrow> access_mode \<Rightarrow> time \<Rightarrow> push_receipt" where
  "pushForP2PSub t fromUid toUid want given now =
     (let r = preparePushForSubReceipt t fromUid now
      in r\<lparr>pr_Payload := (pr_Payload r)\<lparr>pp_ModeWant := want, pp_ModeGiven := given\<rparr>, pr_To := [(toUid, recipient0)]\<rparr>)"

definition pushForGroupSub :: "world \<Rightarrow> uid \<Rightarrow> time \<Rightarrow> push_receipt option" where
  "pushForGroupSub t fromUid now =
     (case map_of (t_perUser t) fromUid of
        None \<Rightarrow> None
      | Some pud \<Rightarrow>
          (let r = preparePushForSubReceipt t fromUid now;
               recipients = map (\<lambda>(u, _). (u, recipient0)) (filter (\<lambda>(u, pud). wants_push pud) (t_perUser t))
           in if recipients \<noteq> [] \<or> pr_Channel r \<noteq> []
              then Some (r\<lparr>pr_Payload := (pr_Payload r)\<lparr>pp_ModeWant := u_modeWant pud, pp_ModeGiven := u_modeGiven pud\<rparr>,
                pr_To := recipients\<rparr>)
              else None))"

definition pushForChanDelete :: "tenant_id \<Rightarrow> string \<Rightarrow> time \<Rightarrow> push_receipt" where
  "pushForChanDelete tenantID topicName now =
     \<lparr>pr_TenantID = tenantID, pr_To = [], pr_Channel = GrpToChn topicName,
      pr_Payload = payload0\<lparr>pp_What := ''sub'', pp_Silent := True, pp_Topic := GrpToChn topicName, pp_Timestamp := now,
        pp_ModeWant := ModeNone, pp_ModeGiven := ModeNone\<rparr>\<rparr>"

definition pushForReadRcpt :: "world \<Rightarrow> uid \<Rightarrow> int \<Rightarrow> time \<Rightarrow> push_receipt" where
  "pushForReadRcpt t u seq now =
     \<lparr>pr_TenantID = t_tenantID t, pr_To = [(u, recipient0)], pr_Channel = [],
      pr_Payload = payload0\<lparr>pp_What := ''read'', pp_Silent := True,
        pp_Topic := (if t_cat t = TopicCatP2P then UserId u else t_xoriginal t),
        pp_From := UserId u, pp_Timestamp := now, pp_SeqId := seq\<rparr>\<rparr>"

definition sendPush :: "push_receipt option \<Rightarrow> world \<Rightarrow> world" where
  "sendPush rcpt t = (case rcpt of None \<Rightarrow> t | Some r \<Rightarrow> put_out (Push r) t)"

subsection \<open>Announcements change nothing but the contacts\<close>

text \<open>As \<^const>\<open>quiet\<close>, but the contacts of a \<^verbatim>\<open>me\<close> topic may change.\<close>

definition quiet_me :: "world \<Rightarrow> world \<Rightarrow> bool" where
  "quiet_me t t' \<longleftrightarrow> quiet (t\<lparr>t_perSubs := []\<rparr>) (t'\<lparr>t_perSubs := []\<rparr>)"

lemma quiet_me_refl [simp]: "quiet_me t t"
  by (simp add: quiet_me_def)

lemma quiet_me_trans [trans]: "quiet_me t t1 \<Longrightarrow> quiet_me t1 t2 \<Longrightarrow> quiet_me t t2"
  by (simp add: quiet_me_def quiet_def)

lemma quiet_imp_me: "quiet t t' \<Longrightarrow> quiet_me t t'"
  by (simp add: quiet_me_def quiet_def topic.defs saves_def)

lemma quiet_me_put_out [simp]: "save_of x = [] \<Longrightarrow> quiet_me t (put_out x t)"
  by (simp add: quiet_imp_me)

lemma quiet_route [simp]: "quiet t (put_out (RouteSrv m) t)" "quiet_me t (put_out (RouteSrv m) t)"
  by simp_all

lemma quiet_me_perSubs [simp]: "quiet_me t (t\<lparr>t_perSubs := ps\<rparr>)"
  by (simp add: quiet_me_def quiet_def saves_def)

lemma quiet_meD:
  assumes "quiet_me t t'"
  shows "t_tenantID t' = t_tenantID t" "t_name t' = t_name t" "t_xoriginal t' = t_xoriginal t" "t_cat t' = t_cat t"
    "t_lastID t' = t_lastID t" "t_delID t' = t_delID t" "t_owner t' = t_owner t" "t_perUser t' = t_perUser t"
    "t_sessions t' = t_sessions t" "t_currentCall t' = t_currentCall t" "t_status t' = t_status t"
    "t_isChan t' = t_isChan t" "t_public t' = t_public t" "t_subCnt t' = t_subCnt t"
    "t_accessAuth t' = t_accessAuth t" "t_accessAnon t' = t_accessAnon t" "w_sess t' = w_sess t" "saves t' = saves t"
  using assms by (simp_all add: quiet_me_def quiet_def topic.defs saves_def)

lemma quiet_addToPerSubs [simp]: "quiet_me t (addToPerSubs t topic online enabled)"
  by (auto simp: addToPerSubs_def Let_def)

lemma quiet_presSubsOnline [simp]: "quiet t (presSubsOnline t what src params flt skip)"
  by (simp add: presSubsOnline_def)

lemma quiet_sendPush [simp]: "quiet t (sendPush r t)"
  by (simp add: sendPush_def split: option.split)

lemma quiet_channelSubUnsub [simp]: "quiet t (channelSubUnsub t u sub)"
  by (simp add: channelSubUnsub_def)

lemma quiet_presSingleUserOfflineOffline [simp]:
  "quiet t (presSingleUserOfflineOffline tenantID u src what params skip t)"
  by (simp add: presSingleUserOfflineOffline_def)

lemma quiet_presSingleUserOffline:
  "presSingleUserOffline t u mode what params skip oo = Some t' \<Longrightarrow> quiet t t'"
  by (auto simp: presSingleUserOffline_def Let_def split: if_splits option.splits bind_splits)

lemma quiet_infoCall: "infoCallSubsOffline t frm target event seq sdp skip oo = Some t' \<Longrightarrow> quiet t t'"
  by (auto simp: infoCallSubsOffline_def Let_def split: if_splits option.splits bind_splits)

lemma original_quiet: "quiet t t' \<Longrightarrow> original t' u = original t u"
  by (simp add: original_def user_of_def quietD)

lemma offline_loop_quiet: "offline_loop what params fs ft skip oo us t = Some t' \<Longrightarrow> quiet t t'"
proof (induction us arbitrary: t oo)
  case (Cons a us)
  obtain u pud where "a = (u, pud)" by (cases a)
  with Cons.prems show ?case
    by (auto simp: Let_def split: if_splits bind_splits dest!: Cons.IH intro: quiet_trans [OF quiet_route(1)])
qed simp

lemma quiet_presSubsOffline: "presSubsOffline t what params fs ft skip oo = Some t' \<Longrightarrow> quiet t t'"
  unfolding presSubsOffline_def by (rule offline_loop_quiet)

lemma info_loop_quiet: "info_loop frm what seq skip us t = Some t' \<Longrightarrow> quiet t t'"
proof (induction us arbitrary: t)
  case (Cons a us)
  obtain u pud where "a = (u, pud)" by (cases a)
  with Cons.prems show ?case
    by (auto simp: Let_def split: if_splits bind_splits dest!: Cons.IH intro: quiet_trans [OF quiet_route(1)])
qed simp

lemma quiet_infoSubsOffline: "infoSubsOffline t frm what seq skip = Some t' \<Longrightarrow> quiet t t'"
  unfolding infoSubsOffline_def by (rule info_loop_quiet)

lemma direct_loop_quiet: "direct_loop e what flt skip msg ss t = Some t' \<Longrightarrow> quiet t t'"
proof (induction ss arbitrary: t msg)
  case (Cons a ss)
  obtain sid pssd where "a = (sid, pssd)" by (cases a)
  with Cons.prems show ?case
    by (auto simp: Let_def split: if_splits bind_splits dest!: Cons.IH intro: quiet_trans [OF quiet_reply])
qed simp

lemma quiet_presSubsOnlineDirect: "presSubsOnlineDirect e t what params flt skip = Some t' \<Longrightarrow> quiet t t'"
  unfolding presSubsOnlineDirect_def by (rule direct_loop_quiet)

lemma quiet_presPubMessageCount: "presPubMessageCount t u mode read recv skip = Some t' \<Longrightarrow> quiet t t'"
  by (auto simp: presPubMessageCount_def split: if_splits dest: quiet_presSingleUserOffline)

lemma quiet_presPubMessageDelete: "presPubMessageDelete t u mode delID rs skip = Some t' \<Longrightarrow> quiet t t'"
  by (auto simp: presPubMessageDelete_def Let_def split: if_splits dest!: quiet_presSingleUserOffline
      intro: quiet_trans [OF quiet_presSubsOnline])

lemma interest_loop_quiet: "interest_loop what ua wr go subs t = Some t' \<Longrightarrow> quiet_me t t'"
proof (induction subs arbitrary: t go)
  case (Cons a subs)
  have frame: "quiet_me t (put_out (RouteSrv x) t\<lparr>t_perSubs := ps\<rparr>)" for x ps t
    using quiet_me_trans [OF quiet_route(2) quiet_me_perSubs] .
  obtain topic psd where "a = (topic, psd)" by (cases a)
  with Cons.prems show ?case
    by (auto simp: Let_def split: if_splits bind_splits dest!: Cons.IH intro: quiet_me_trans [OF quiet_route(2)]
        quiet_me_trans [OF frame])
qed simp

lemma quiet_presUsersOfInterest: "presUsersOfInterest t what ua = Some t' \<Longrightarrow> quiet_me t t'"
  unfolding presUsersOfInterest_def Let_def by (rule interest_loop_quiet)

lemma quiet_loadContacts: "loadContacts e t u = (t', err) \<Longrightarrow> quiet_me t t'"
proof -
  have "quiet_me t (fold (\<lambda>s t. addToPerSubs t (f s) False (g s)) subs t)" for f g and subs :: "subscription list"
    by (induction subs arbitrary: t) (auto intro: quiet_me_trans [OF quiet_addToPerSubs])
  then show "loadContacts e t u = (t', err) \<Longrightarrow> quiet_me t t'"
    by (auto simp: loadContacts_def split: sum.splits)
qed

lemma quiet_procPresReq_me: "procPresReq_me t frm what cmd online ou = Some (t', w, r) \<Longrightarrow> quiet_me t t'"
  by (auto simp: procPresReq_me_def bind_eq_Some_conv split: if_splits option.splits)

lemma procPresReq_known_me:
  assumes "procPresReq_known t frm what cmd wr = Some (t', w)"
  obtains t1 r where "quiet_me t t1" "t' = t1 \<or> t' = put_out (RouteSrv (pres_reply t1 frm r (what = ''?unkn''))) t1"
    "t' \<noteq> t1 \<Longrightarrow> wr \<and> what \<in> {''on'', ''?unkn''}"
proof -
  from assms obtain t1 w1 r where m: "(if t_cat t = TopicCatMe then procPresReq_me t frm (if what = ''?none'' \<or> what = ''?unkn'' then [] else what)
        (if what = ''gone'' then ''rem'' else cmd) (if what = ''?none'' \<or> what = ''?unkn'' then None else Some (what = ''on'')) (what = ''on'')
        else Some (t, if what = ''?none'' \<or> what = ''?unkn'' then [] else what, ''on'')) = Some (t1, w1, r)"
    and t': "t' = (if (what = ''on'' \<or> what = ''?unkn'') \<and> wr then put_out (RouteSrv (pres_reply t1 frm r (what = ''?unkn''))) t1 else t1)"
    unfolding procPresReq_known_def Let_def bind_eq_Some_conv by (auto simp del: if_split)
  from m have "quiet_me t t1"
    by (cases "t_cat t = TopicCatMe") (auto dest: quiet_procPresReq_me)
  with t' that [of t1 r] show thesis by (cases "(what = ''on'' \<or> what = ''?unkn'') \<and> wr") auto
qed

lemma quiet_procPresReq: "procPresReq t frm what wr = Some (t', w) \<Longrightarrow> quiet_me t t'"
  unfolding procPresReq_def Let_def
  by (auto split: if_split_asm elim!: procPresReq_known_me intro: quiet_me_trans [OF _ quiet_route(2)])

subsection \<open>The exchange of online status\<close>

text \<open>
  The topics of a server, and the presence messages on their way between them through the hub,
  processed in order. Delivering one runs \<^verbatim>\<open>procPresReq\<close> of the receiving topic and queues what it
  routes.
\<close>

record pres_net =
  pn_topic :: "string \<Rightarrow> world"
  pn_queue :: "ServerComMessage list"

definition routed :: "world \<Rightarrow> ServerComMessage list" where
  "routed t = concat (map (\<lambda>x. case x of RouteSrv m \<Rightarrow> [m] | _ \<Rightarrow> []) (w_out t))"

definition pres_deliver :: "pres_net \<Rightarrow> pres_net option" where
  "pres_deliver n =
     (case pn_queue n of
        [] \<Rightarrow> None
      | m # ms \<Rightarrow>
          (case Pres m of
             None \<Rightarrow> None
           | Some p \<Rightarrow> do {
               (t, what) \<leftarrow> procPresReq ((pn_topic n (scm_RcptTo m))\<lparr>w_out := []\<rparr>) (pres_Src p) (pres_What p) (pres_WantReply p);
               Some \<lparr>pn_topic = (pn_topic n)(scm_RcptTo m := t), pn_queue = ms @ routed t\<rparr>
             }))"

text \<open>How many more messages a presence message can cause.\<close>

definition pres_weight :: "ServerComMessage \<Rightarrow> nat" where
  "pres_weight m =
     (case Pres m of
        None \<Rightarrow> 0
      | Some p \<Rightarrow>
          (let what = hd (Split (pres_What p) (CHR ''+''))
           in if \<not> pres_WantReply p then 0 else if what = ''?unkn'' then 2 else if what = ''on'' then 1 else 0))"

lemma put_out_routed [simp]: "routed (put_out x t) = routed t @ (case x of RouteSrv m \<Rightarrow> [m] | _ \<Rightarrow> [])"
  by (simp add: routed_def put_out_def)

lemma w_out_addToPerSubs [simp]: "w_out (addToPerSubs t topic b c) = w_out t"
  by (simp add: addToPerSubs_def Let_def)

lemma w_out_procPresReq_me:
  "procPresReq_me t frm what cmd online ou = Some (t', w, r) \<Longrightarrow> w_out t' = w_out t \<and> r \<in> {''on'', ''off+rem''}"
  by (auto simp: procPresReq_me_def bind_eq_Some_conv split: if_splits option.splits)

lemma Split_no_sep: "sep \<notin> set s \<Longrightarrow> Split s sep = [s]"
  using SplitN_acc_nosep [of sep s "[]"] by (simp add: Split_def SplitN_def)

lemma Split_off_rem: "hd (Split ''off+rem'' (CHR ''+'')) = ''off''"
  by code_simp

lemma procPresReq_known_routed:
  assumes "procPresReq_known t frm what cmd wr = Some (t', w)"
  shows "routed t' = routed t \<or> (wr \<and> what \<in> {''on'', ''?unkn''} \<and>
    (\<exists>t1 r. r \<in> {''on'', ''off+rem''} \<and> routed t' = routed t @ [pres_reply t1 frm r (what = ''?unkn'')]))"
proof -
  from assms obtain t1 w1 r where m: "(if t_cat t = TopicCatMe then procPresReq_me t frm (if what = ''?none'' \<or> what = ''?unkn'' then [] else what)
        (if what = ''gone'' then ''rem'' else cmd) (if what = ''?none'' \<or> what = ''?unkn'' then None else Some (what = ''on'')) (what = ''on'')
        else Some (t, if what = ''?none'' \<or> what = ''?unkn'' then [] else what, ''on'')) = Some (t1, w1, r)"
    and t': "t' = (if (what = ''on'' \<or> what = ''?unkn'') \<and> wr then put_out (RouteSrv (pres_reply t1 frm r (what = ''?unkn''))) t1 else t1)"
    unfolding procPresReq_known_def Let_def bind_eq_Some_conv by (auto simp del: if_split)
  from m have "w_out t1 = w_out t \<and> r \<in> {''on'', ''off+rem''}"
    by (cases "t_cat t = TopicCatMe") (auto dest: w_out_procPresReq_me simp del: if_split)
  then have "routed t1 = routed t" "r \<in> {''on'', ''off+rem''}" by (simp_all add: routed_def)
  then show ?thesis unfolding t' by (cases "(what = ''on'' \<or> what = ''?unkn'') \<and> wr") auto
qed

lemma weight_pres_reply:
  "r \<in> {''on'', ''off+rem''} \<Longrightarrow> pres_weight (pres_reply t frm r q) = (if q \<and> r = ''on'' then 1 else 0)"
  by (auto simp: pres_weight_def pres_reply_def pres0_def empty_ServerComMessage_def Split_no_sep Split_off_rem Let_def)

lemma pres_deliver_weight:
  assumes "pres_deliver n = Some n'"
  shows "sum_list (map (\<lambda>m. 1 + pres_weight m) (pn_queue n')) < sum_list (map (\<lambda>m. 1 + pres_weight m) (pn_queue n))"
proof -
  from assms obtain m ms p t w where q: "pn_queue n = m # ms" and p: "Pres m = Some p"
    and proc: "procPresReq ((pn_topic n (scm_RcptTo m))\<lparr>w_out := []\<rparr>) (pres_Src p) (pres_What p) (pres_WantReply p) = Some (t, w)"
    and n': "pn_queue n' = ms @ routed t"
    by (auto simp: pres_deliver_def bind_eq_Some_conv split: list.splits option.splits)
  let ?t = "(pn_topic n (scm_RcptTo m))\<lparr>w_out := []\<rparr>" and ?what = "hd (Split (pres_What p) (CHR ''+''))"
  have empty: "routed ?t = []" by (simp add: routed_def)
  have "routed t = [] \<or> (pres_WantReply p \<and> ?what \<in> {''on'', ''?unkn''} \<and>
      (\<exists>t1 r. r \<in> {''on'', ''off+rem''} \<and> routed t = [pres_reply t1 (pres_Src p) r (?what = ''?unkn'')]))"
  proof (cases "isInactive ?t \<or> t_isProxy ?t \<or> ?what \<notin> {''on'', ''off'', ''?none'', ''gone'', ''?unkn''}")
    case True
    then have "t = ?t" using proc by (auto simp: procPresReq_def Let_def split: if_split_asm)
    then show ?thesis using empty by simp
  next
    case False
    then have "procPresReq_known ?t (pres_Src p) ?what
        (if length (Split (pres_What p) (CHR ''+'')) > 1 then Split (pres_What p) (CHR ''+'') ! 1 else []) (pres_WantReply p) = Some (t, w)"
      using proc by (simp add: procPresReq_def Let_def)
    from procPresReq_known_routed [OF this] empty show ?thesis by simp
  qed
  then have "sum_list (map (\<lambda>m. 1 + pres_weight m) (routed t)) < 1 + pres_weight m"
    using p by (auto simp: weight_pres_reply) (auto simp: pres_weight_def)
  then show ?thesis using q n' by simp
qed

fun pres_run :: "nat \<Rightarrow> pres_net \<Rightarrow> pres_net" where
  "pres_run 0 n = n"
| "pres_run (Suc k) n = (case pres_deliver n of None \<Rightarrow> n | Some n' \<Rightarrow> pres_run k n')"

text \<open>A message the code makes: a presence message whose command, if any, is a known one.\<close>

definition pres_known :: "ServerComMessage \<Rightarrow> bool" where
  "pres_known m =
     (case Pres m of
        None \<Rightarrow> False
      | Some p \<Rightarrow> (let parts = Split (pres_What p) (CHR ''+'')
          in length parts \<le> 1 \<or> parts ! 1 \<in> {[], ''en'', ''dis'', ''rem''}))"

lemma contact_step_known: "cmd \<in> {[], ''en'', ''dis''} \<Longrightarrow> \<exists>r. contact_step psd what cmd online = Some r"
  by (auto simp: contact_step_def)

lemma procPresReq_me_known:
  assumes "cmd \<in> {[], ''en'', ''dis'', ''rem''}"
  shows "\<exists>r. procPresReq_me t frm what cmd online ou = Some r"
  using assms contact_step_known [of cmd]
  by (fastforce simp: procPresReq_me_def bind_eq_Some_conv split: option.splits)

lemma procPresReq_known_total:
  assumes "cmd \<in> {[], ''en'', ''dis'', ''rem''}"
  shows "\<exists>r. procPresReq_known t frm what cmd wr = Some r"
proof -
  have "(if what = ''gone'' then ''rem'' else cmd) \<in> {[], ''en'', ''dis'', ''rem''}" using assms by simp
  from procPresReq_me_known [OF this] show ?thesis
    by (cases "t_cat t = TopicCatMe") (fastforce simp: procPresReq_known_def Let_def bind_eq_Some_conv simp del: if_split)+
qed

lemma pres_known_deliver:
  assumes "list_all pres_known (pn_queue n)" "pn_queue n \<noteq> []"
  shows "\<exists>n'. pres_deliver n = Some n' \<and> list_all pres_known (pn_queue n')"
proof -
  from assms obtain m ms p where q: "pn_queue n = m # ms" and p: "Pres m = Some p" and k: "pres_known m" and ks: "list_all pres_known ms"
    by (cases "pn_queue n") (auto simp: pres_known_def split: option.splits)
  let ?t = "(pn_topic n (scm_RcptTo m))\<lparr>w_out := []\<rparr>" and ?parts = "Split (pres_What p) (CHR ''+'')"
  let ?cmd = "if length ?parts > 1 then ?parts ! 1 else []"
  have cmd: "?cmd \<in> {[], ''en'', ''dis'', ''rem''}" using k p by (auto simp: pres_known_def Let_def)
  have replies: "list_all pres_known (routed t)" if "procPresReq_known ?t frm what c wr = Some (t, w)" for t w frm what c wr
  proof -
    have "routed ?t = []" by (simp add: routed_def)
    moreover have "pres_known (pres_reply t1 frm r q)" if "r \<in> {''on'', ''off+rem''}" for t1 r q
    proof -
      have "Split ''off+rem'' (CHR ''+'') ! 1 = ''rem''" by code_simp
      then show ?thesis using that by (auto simp: pres_known_def pres_reply_def pres0_def empty_ServerComMessage_def Let_def Split_no_sep)
    qed
    ultimately show ?thesis using procPresReq_known_routed [OF that] by auto
  qed
  obtain t w where r: "procPresReq ?t (pres_Src p) (pres_What p) (pres_WantReply p) = Some (t, w)" "list_all pres_known (routed t)"
  proof (cases "isInactive ?t \<or> t_isProxy ?t \<or> hd ?parts \<notin> {''on'', ''off'', ''?none'', ''gone'', ''?unkn''}")
    case True
    then have "\<exists>w. procPresReq ?t (pres_Src p) (pres_What p) (pres_WantReply p) = Some (?t, w)"
      by (auto simp: procPresReq_def Let_def)
    then show ?thesis using that by (auto simp: routed_def)
  next
    case False
    then have "procPresReq ?t (pres_Src p) (pres_What p) (pres_WantReply p) =
        procPresReq_known ?t (pres_Src p) (hd ?parts) ?cmd (pres_WantReply p)"
      by (simp add: procPresReq_def Let_def)
    then show ?thesis using that procPresReq_known_total [OF cmd] replies by fastforce
  qed
  then show ?thesis using q p ks by (auto simp: pres_deliver_def)
qed

lemma pres_run_empty:
  "list_all pres_known (pn_queue n) \<Longrightarrow> sum_list (map (\<lambda>m. 1 + pres_weight m) (pn_queue n)) \<le> k \<Longrightarrow>
   pn_queue (pres_run k n) = []"
proof (induction k arbitrary: n)
  case 0
  then show ?case by (cases "pn_queue n") simp_all
next
  case (Suc k)
  show ?case
  proof (cases "pn_queue n")
    case Nil
    then show ?thesis by (simp add: pres_deliver_def)
  next
    case Cons
    then obtain n' where "pres_deliver n = Some n'" "list_all pres_known (pn_queue n')"
      using pres_known_deliver [of n] Suc.prems by auto
    with pres_deliver_weight [of n n'] Suc show ?thesis by auto
  qed
qed

text \<open>
  The exchange of online status between topics ends: each presence message causes at most two more
  (a request for an unknown status is answered by a status that asks back once, and the answer to
  that asks no more), so when the messages on their way are processed, together with everything they
  cause, after three deliveries per message none is left.
\<close>

theorem presence_exchange_ends:
  assumes "list_all pres_known (pn_queue n)"
  shows "pn_queue (pres_run (3 * length (pn_queue n)) n) = []"
proof -
  have w: "pres_weight m \<le> 2" for m by (auto simp: pres_weight_def Let_def split: option.split)
  have "sum_list (map (\<lambda>m. 1 + pres_weight m) ms) \<le> 3 * length ms" for ms
  proof (induction ms)
    case (Cons m ms)
    then show ?case using w [of m] by simp
  qed simp
  then show ?thesis by (rule pres_run_empty [OF assms])
qed

text \<open>A loaded \<^verbatim>\<open>me\<close> topic of user \<open>a\<close> that listens to user \<open>b\<close>.\<close>

definition listens :: "world \<Rightarrow> string \<Rightarrow> string \<Rightarrow> bool" where
  "listens t a b \<longleftrightarrow> t_cat t = TopicCatMe \<and> \<not> isInactive t \<and> \<not> t_isProxy t \<and> t_name t = a \<and>
     (\<exists>psd. map_of (t_perSubs t) b = Some psd \<and> ps_enabled psd)"

definition sees_online :: "world \<Rightarrow> string \<Rightarrow> bool \<Rightarrow> bool" where
  "sees_online t b on \<longleftrightarrow> (\<exists>psd. map_of (t_perSubs t) b = Some psd \<and> ps_online psd = on)"

lemma procPresReq_status:
  assumes "listens t a b" "what \<in> {''on'', ''off''}" "w_out t = []"
  shows "\<exists>t' w. procPresReq t b what wr = Some (t', w) \<and> sees_online t' b (what = ''on'') \<and> listens (t'\<lparr>w_out := []\<rparr>) a b \<and>
    routed t' = (if what = ''on'' \<and> wr then [pres_reply t b ''on'' False] else [])"
proof -
  from assms(1) obtain psd where psd: "map_of (t_perSubs t) b = Some psd" "ps_enabled psd" by (auto simp: listens_def)
  have sp: "Split what (CHR ''+'') = [what]" using assms(2) by (auto intro!: Split_no_sep)
  have r: "pres_reply (t\<lparr>t_perSubs := ps\<rparr>) = pres_reply t" for ps by (simp add: pres_reply_def fun_eq_iff)
  have i: "isInactive (put_out x t) = isInactive t" "isInactive (t\<lparr>t_perSubs := ps\<rparr>) = isInactive t" "isInactive (t\<lparr>w_out := xs\<rparr>) = isInactive t"
    for x ps t xs by (simp_all add: isInactive_def put_out_def)
  have o: "routed t = []" using assms(3) by (simp add: routed_def)
  have o2: "routed (t\<lparr>t_perSubs := ps\<rparr>) = routed t" for ps by (simp add: routed_def)
  show ?thesis using assms psd sp
    by (auto simp: procPresReq_def procPresReq_known_def procPresReq_me_def contact_step_def Let_def listens_def
        sees_online_def update_conv' r i o o2) (auto simp: put_out_def update_conv')
qed


text \<open>A sample \<^verbatim>\<open>me\<close> topic with one contact, for the witnesses.\<close>

definition session0 :: session where
  "session0 = \<lparr>s_proto = WEBSOCK, s_multi = None, s_userAgent = [], s_uid = 0, s_authLvl = LevelAuth,
     s_countryCode = [], s_lang = [], s_tenantID = 1, s_lastAction = 0,
     s_terminating = False, s_background = False, s_subs = []\<rparr>"

definition me_topic :: "string \<Rightarrow> string \<Rightarrow> world" where
  "me_topic a b =
     \<lparr>t_tenantID = 1, t_name = a, t_xoriginal = ''me'', t_cat = TopicCatMe, t_created = 0, t_updated = 0,
      t_touched = 0, t_lastID = 0, t_delID = 0, t_subCnt = 0, t_userAgent = [], t_owner = 0, t_accessAuth = 0,
      t_accessAnon = 0, t_tags = [], t_aux = [], t_public = ANil, t_trusted = ANil, t_perUser = [],
      t_modeWantUnion = 0, t_modeGivenUnion = 0, t_perSubs = [(b, \<lparr>ps_online = False, ps_enabled = True\<rparr>)],
      t_sessions = [], t_currentCall = None, t_status = topicStatusLoaded, t_isChan = False, t_isProxy = False,
      w_sess = (\<lambda>_. session0), w_out = [], w_tries = 0\<rparr>"

definition net0 :: "string \<Rightarrow> pres_net" where
  "net0 what = \<lparr>pn_topic = (\<lambda>n. if n = ''usrA'' then me_topic ''usrA'' ''usrB'' else me_topic ''usrB'' ''usrA''),
     pn_queue = [interest_message (me_topic ''usrA'' ''usrB'') ''usrB'' ''me'' what [] (what = ''on'')]\<rparr>"

theorem presence_exchange_ends_witness:
  "pn_queue (net0 ''on'') \<noteq> [] \<and> pn_queue (pres_run 3 (net0 ''on'')) = []"
proof -
  have "list_all pres_known (pn_queue (net0 ''on''))"
    by (simp add: net0_def pres_known_def interest_message_def pres0_def empty_ServerComMessage_def Let_def Split_no_sep)
  from presence_exchange_ends [OF this] show ?thesis by (simp add: net0_def)
qed


end
