(* ===== verification/Membership.thy ===== *)
theory Membership
  imports Presence
begin

section \<open>Subscriptions of a topic (server/topic.go)\<close>

text \<open>
  How users join and leave a topic and how access is granted: a user's own subscription
  (\<^verbatim>\<open>thisUserSub\<close>), invitations and grants to others (\<^verbatim>\<open>anotherUserSub\<close>), removal (\<^verbatim>\<open>replyDelSub\<close>,
  \<^verbatim>\<open>replyLeaveUnsub\<close>, \<^verbatim>\<open>evictUser\<close>), sessions coming and going, and the announcements of all of this. A
  handler returns the error it reports to its caller, or a value; \<open>None\<close> is a panic.
\<close>

type_synonym 'a handled = "(world \<times> (go_error + 'a)) option"

definition refuse :: "env \<Rightarrow> world \<Rightarrow> string \<Rightarrow> ServerComMessage \<Rightarrow> go_error \<Rightarrow> 'a handled" where
  "refuse e t sid msg err = Some (reply e t (Some sid) msg, Inl err)"

definition sub0 :: subscription where
  "sub0 = \<lparr>Id = [], header_id = ZeroUid, CreatedAt = 0, UpdatedAt = 0, Sub_TenantID = 0, Sub_User = [], Sub_Topic = [],
     Sub_DeletedAt = None, Sub_DelId = 0, RecvSeqId = 0, ReadSeqId = 0, ModeWant = 0, ModeGiven = 0,
     Sub_Private = ANil, sub_public = ANil, sub_trusted = ANil, sub_seqId = 0, sub_touchedAt = 0,
     sub_lastSeenUA = None, subCnt = 0, sub_with = [], modeDefault = None, sub_state = StateOK, dummy = False\<rparr>"

definition new_sub :: "world \<Rightarrow> uid \<Rightarrow> string \<Rightarrow> access_mode \<Rightarrow> access_mode \<Rightarrow> go_any \<Rightarrow> subscription" where
  "new_sub t u tname want given priv =
     sub0\<lparr>Sub_User := Uid_String u, Sub_Topic := tname, ModeWant := want, ModeGiven := given, Sub_Private := priv,
       Sub_TenantID := t_tenantID t\<rparr>"

subsection \<open>Announcing a changed subscription\<close>

definition mode_delta :: "access_mode \<Rightarrow> access_mode \<Rightarrow> string" where
  "mode_delta old new =
     (if IsDefined new then
        (if IsDefined old \<and> \<not> AccessMode_IsZero old then AccessMode_Delta old new else AccessMode_String new)
      else AccessMode_String ModeNone)"

definition notifySubChange ::
  "env \<Rightarrow> world \<Rightarrow> uid \<Rightarrow> uid \<Rightarrow> bool \<Rightarrow> access_mode \<Rightarrow> access_mode \<Rightarrow> access_mode \<Rightarrow> access_mode \<Rightarrow> string \<Rightarrow> world option" where
  "notifySubChange e t u actor isChan oldWant oldGiven newWant newGiven skip =
     (let unsub = (newWant = ModeUnset \<or> newGiven = ModeUnset);
          target = UserId u;
          params = nilPresParams\<lparr>pp_target := target, pp_actor := UserId actor,
            pp_dWant := mode_delta oldWant newWant, pp_dGiven := mode_delta oldGiven newGiven\<rparr>;
          sharers = nilPresFilters\<lparr>filterIn := ModeCSharer, excludeUser := target\<rparr>;
          t = presSubsOnline t ''acs'' target params sharers skip
      in do {
        t \<leftarrow> (if BetterThan newWant newGiven \<or> oldWant = ModeNone
             then presSubsOffline t ''acs'' params sharers sharers skip True else Some t);
        (if unsub then
           (if t_cat t = TopicCatP2P then do {
              uid2 \<leftarrow> p2pOtherUser t u;
              t \<leftarrow> presSingleUserOffline t u (newWant AND newGiven) ''gone'' nilPresParams skip False;
              Some (presSingleUserOfflineOffline (t_tenantID t) uid2 target ''off'' nilPresParams [] t)
            }
            else if t_cat t = TopicCatGrp \<and> \<not> isChan then
              (let t = presSubsOnline t ''off'' (UserId u) nilPresParams sharers skip
               in Some (presSingleUserOfflineOffline (t_tenantID t) u (t_name t) ''gone'' nilPresParams skip t))
            else Some t)
         else do {
           t \<leftarrow> (if \<not> IsPresencer (newWant AND newGiven) \<and> IsPresencer (oldWant AND oldGiven) then do {
               source \<leftarrow> (if t_cat t = TopicCatP2P then map_option UserId (p2pOtherUser t u)
                          else if t_cat t = TopicCatGrp \<and> \<not> isChan then Some (t_name t) else Some []);
               Some (if source \<noteq> [] then presSingleUserOfflineOffline (t_tenantID t) u source ''off+dis'' nilPresParams [] t else t)
             }
             else if IsPresencer (newWant AND newGiven) \<and> \<not> IsPresencer (oldWant AND oldGiven) then
               (if t_cat t = TopicCatGrp \<and> \<not> isChan
                then presSingleUserOffline t u (newWant AND newGiven) ''?unkn+en'' nilPresParams [] False
                else if t_cat t = TopicCatMe then presUsersOfInterest t ''on+en'' (t_userAgent t)
                else Some t)
             else Some t);
           t \<leftarrow> presSubsOnlineDirect e t ''acs'' params (nilPresFilters\<lparr>singleUser := target\<rparr>) skip;
           presSingleUserOffline t u (newWant AND newGiven) ''acs'' params skip True
         })
      })"

subsection \<open>Evicting a user\<close>

text \<open>One message is sent to every session; the first one fills in the tenant.\<close>

fun evict_loop :: "env \<Rightarrow> uid \<Rightarrow> string \<Rightarrow> ServerComMessage \<Rightarrow> string list \<Rightarrow> world \<Rightarrow> world" where
  "evict_loop e u skip msg [] t = t"
| "evict_loop e u skip msg (s # ss) t =
     (case remSession t s u of
        (t, None, _) \<Rightarrow> evict_loop e u skip msg ss t
      | (t, Some _, removed) \<Rightarrow>
          (let t = (if removed then detachSession t s else t)
           in if s = skip then evict_loop e u skip msg ss t
              else evict_loop e u skip
                (if s_terminating (w_sess t s) then msg
                 else case stamp_tenant (w_sess t s) msg of None \<Rightarrow> msg | Some m \<Rightarrow> m)
                ss (reply e t (Some s) msg)))"

definition evictUser :: "env \<Rightarrow> world \<Rightarrow> uid \<Rightarrow> bool \<Rightarrow> string \<Rightarrow> world option" where
  "evictUser e t u unsub skip =
     (let found = map_of (t_perUser t) u; pud = user_of t u;
          t = (if unsub then
                 (if t_cat t = TopicCatP2P then put_user u (pud\<lparr>u_online := 0, u_deleted := True\<rparr>) t
                  else if found \<noteq> None then
                    (let t = computePerUserAcsUnion (del_user u t)
                     in if u_isChan pud then t else put_out (RegisterUser u False) t)
                  else t)
               else if found \<noteq> None then
                 (if u_isChan pud then del_user u t else put_user u (pud\<lparr>u_online := 0\<rparr>) t)
               else t)
      in do {
        name \<leftarrow> original t u;
        (let msg = NoErrEvicted [] name (e_now e);
             msg = msg\<lparr>Ctrl := map_option (\<lambda>c. c\<lparr>ctrl_Params := AMap [(''unsub'', ABool unsub)]\<rparr>) (Ctrl msg),
               scm_SkipSid := skip, scm_uid := u, scm_AsUser := UserId u\<rparr>
         in Some (evict_loop e u skip msg (map fst (t_sessions t)) t))
      })"

subsection \<open>A user's own subscription\<close>

text \<open>The part of \<^verbatim>\<open>thisUserSub\<close> for a user without a subscription, and the part for an existing one.\<close>

definition newUserData ::
  "env \<Rightarrow> world \<Rightarrow> string \<Rightarrow> ClientComMessage \<Rightarrow> uid \<Rightarrow> bool \<Rightarrow> access_mode \<Rightarrow>
     (topic_user \<times> subscription option \<times> string \<times> access_mode \<times> access_mode) handled" where
  "newUserData e t sid pkt asUid asChan modeWant =
     (let ud = user_of t asUid; now = e_now e; lvl = msg_AuthLvl pkt
      in if t_cat t = TopicCatP2P then
           (let ud = (if modeWant \<noteq> ModeUnset then ud\<lparr>u_modeWant := modeWant\<rparr> else ud);
                ud = ud\<lparr>u_modeWant := (u_modeWant ud AND e_typesModeCP2P e) OR ModeApprove\<rparr>
            in Some (t, Inr (ud, None, t_name t, ModeNone, ModeNone)))
         else if t_cat t = TopicCatSys then
           (if lvl \<noteq> LevelRoot
            then refuse e t sid (ErrPermissionDeniedReply pkt now) ''subscription to 'sys' topic requires root access level''
            else Some (t, Inr (ud\<lparr>u_modeGiven := ModeCSys,
                u_modeWant := (if modeWant \<noteq> ModeUnset then (modeWant AND ModeCSys) OR ModeWrite OR ModeJoin else ModeCSys)\<rparr>,
              None, t_name t, ModeNone, ModeNone)))
         else if asChan then
           (case e_SubsGet e (msg_Original pkt) asUid False of
              Inl err \<Rightarrow> refuse e t sid (ErrUnknownReply pkt now) err
            | Inr sub \<Rightarrow>
                (let oldWant = (case sub of Some s \<Rightarrow> ModeWant s | None \<Rightarrow> ModeCChnReader)
                 in Some (t, Inr (ud\<lparr>u_isChan := True, u_modeGiven := ModeCChnReader,
                      u_modeWant := (if modeWant \<noteq> ModeUnset then (modeWant AND ModeCChnReader) OR ModeRead OR ModeJoin else oldWant)\<rparr>,
                    sub, msg_Original pkt, oldWant, ModeCChnReader))))
         else
           (case (if map_of (t_perUser t) asUid = None then
                    (case e_SubsGet e (t_name t) asUid True of
                       Inl err \<Rightarrow> Inl err
                     | Inr sub \<Rightarrow> Inr (sub, case sub of Some s \<Rightarrow> ModeGiven s | None \<Rightarrow> ModeUnset))
                  else Inr (None, u_modeGiven ud)) of
              Inl err \<Rightarrow> refuse e t sid (ErrUnknownReply pkt now) err
            | Inr (sub, given) \<Rightarrow> do {
                given \<leftarrow> (if given = ModeUnset then accessFor t (e_typesModeCP2P e) lvl else Some given);
                want \<leftarrow> (if modeWant = ModeUnset then accessFor t (e_typesModeCP2P e) lvl else Some modeWant);
                Some (t, Inr (ud\<lparr>u_modeGiven := given, u_modeWant := want\<rparr>, sub, t_name t, ModeNone, ModeNone))
              }))"

definition saveNewSub ::
  "env \<Rightarrow> world \<Rightarrow> string \<Rightarrow> ClientComMessage \<Rightarrow> uid \<Rightarrow> bool \<Rightarrow> topic_user \<Rightarrow> subscription option \<Rightarrow> string \<Rightarrow> access_mode \<Rightarrow> unit handled" where
  "saveNewSub e t sid pkt asUid asChan ud sub tname oldWant =
     (let now = e_now e; fresh = new_sub t asUid tname (u_modeWant ud) (u_modeGiven ud) (u_private ud);
          announce = (\<lambda>t sub. if asChan
            then put_out (PluginSub sub (if u_modeWant ud \<noteq> oldWant then ''create'' else ''upd'')) t
            else put_out (PluginSub sub ''create'') (put_out (RegisterUser asUid True) t))
      in if (case sub of None \<Rightarrow> True | Some s \<Rightarrow> Sub_DeletedAt s \<noteq> None) then
           (case e_SubsCreate e fresh of
              Some err \<Rightarrow> refuse e t sid (ErrUnknownReply pkt now) err
            | None \<Rightarrow> Some (announce (put_out (Store (SubsCreate fresh)) t) fresh, Inr ()))
         else if asChan \<and> u_modeWant ud \<noteq> oldWant then
           (case e_SubsUpdate e tname asUid [UpdModeWant (u_modeWant ud)] of
              Some err \<Rightarrow> refuse e t sid (ErrUnknownReply pkt now) err
            | None \<Rightarrow>
                (let t = put_out (Store (SubsUpdate tname asUid [UpdModeWant (u_modeWant ud)])) t;
                     t = channelSubUnsub t asUid (IsPresencer (u_modeWant ud))
                 in Some (announce t (the sub), Inr ())))
         else Some (announce t (the sub), Inr ()))"

definition revive :: "topic_user \<Rightarrow> go_any \<Rightarrow> topic_user" where
  "revive ud private =
     (if u_deleted ud then ud\<lparr>u_deleted := False, u_delID := 0, u_readID := 0, u_recvID := 0\<rparr> else ud)
       \<lparr>u_private := (if isNullValue private then ANil else private)\<rparr>"

definition newSubscription ::
  "env \<Rightarrow> world \<Rightarrow> string \<Rightarrow> ClientComMessage \<Rightarrow> uid \<Rightarrow> bool \<Rightarrow> access_mode \<Rightarrow> go_any \<Rightarrow>
     (topic_user \<times> access_mode \<times> access_mode) handled" where
  "newSubscription e t sid pkt asUid asChan modeWant private =
     (let now = e_now e
      in if t_cat t = TopicCatGrp \<and> \<not> asChan \<and> subsCount t \<ge> e_maxSubscriberCount e
         then refuse e t sid (ErrPolicyReply pkt now) ''max subscription count exceeded''
         else do {
           (t, r) \<leftarrow> newUserData e t sid pkt asUid asChan modeWant;
           (case r of
              Inl err \<Rightarrow> Some (t, Inl err)
            | Inr (ud, sub, tname, oldWant, oldGiven) \<Rightarrow>
                if \<not> IsJoiner (u_modeGiven ud)
                then refuse e t sid (ErrPermissionDeniedReply pkt now) ''subscription rejected due to permissions''
                else
                  (let ud = revive ud private
                   in do {
                     (t, r) \<leftarrow> saveNewSub e t sid pkt asUid asChan ud sub tname oldWant;
                     Some (t, case r of Inl err \<Rightarrow> Inl err | Inr () \<Rightarrow> Inr (ud, oldWant, oldGiven))
                   }))
         })"

text \<open>
  The checks on an explicitly requested mode: the result has the granted mode, the requested mode
  and whether ownership is taken over.
\<close>

definition checkWant ::
  "env \<Rightarrow> world \<Rightarrow> string \<Rightarrow> ClientComMessage \<Rightarrow> uid \<Rightarrow> topic_user \<Rightarrow> access_mode \<Rightarrow> (access_mode \<times> access_mode \<times> bool) handled" where
  "checkWant e t sid pkt asUid ud modeWant =
     (let now = e_now e; given = u_modeGiven ud;
          clip = (\<lambda>m. if t_cat t = TopicCatP2P then (m AND e_typesModeCP2P e) OR ModeApprove
                      else if t_cat t = TopicCatSys then m AND ((m AND ModeCSys) OR ModeWrite) else m)
      in if t_owner t = asUid \<and> (\<not> IsOwner modeWant \<or> \<not> IsJoiner modeWant)
         then refuse e t sid (ErrPermissionDeniedReply pkt now) ''cannot unset ownership or self-ban the owner''
         else if IsOwner given then
           Some (t, Inr (if IsOwner modeWant \<and> \<not> BetterEqual given modeWant then given OR modeWant else given,
             clip modeWant, IsOwner modeWant \<and> \<not> IsOwner (u_modeWant ud)))
         else if IsOwner modeWant
         then refuse e t sid (ErrPermissionDeniedReply pkt now) ''non-owner cannot request ownership transfer''
         else if t_cat t = TopicCatGrp \<and> IsAdmin given \<and> IsAdmin modeWant then
           (let m = modeWant AND NOT ModeDelete
            in Some (t, Inr (if \<not> BetterEqual given m then given OR m else given, clip modeWant, False)))
         else Some (t, Inr (given, clip modeWant, False)))"

definition takeOwnership :: "env \<Rightarrow> world \<Rightarrow> uid \<Rightarrow> unit handled" where
  "takeOwnership e t asUid =
     (let od = user_of t (t_owner t);
          od' = od\<lparr>u_modeGiven := u_modeGiven od AND NOT ModeOwner, u_modeWant := u_modeWant od AND NOT ModeOwner\<rparr>;
          upd = [UpdModeWant (u_modeWant od'), UpdModeGiven (u_modeGiven od')]
      in case e_SubsUpdate e (t_name t) (t_owner t) upd of
           Some err \<Rightarrow> Some (t, Inl err)
         | None \<Rightarrow>
             (let t = put_out (Store (SubsUpdate (t_name t) (t_owner t) upd)) t
              in case e_OwnerChange e asUid of
                   Some err \<Rightarrow> Some (t, Inl err)
                 | None \<Rightarrow>
                     (let t = put_user (t_owner t) od' (put_out (Store (TopicsOwnerChange asUid)) t)
                      in do {
                        t \<leftarrow> notifySubChange e t (t_owner t) asUid False (u_modeWant od) (u_modeGiven od)
                               (u_modeWant od') (u_modeGiven od') [];
                        Some (t\<lparr>t_owner := asUid\<rparr>, Inr ())
                      })))"

definition updateSubscription ::
  "env \<Rightarrow> world \<Rightarrow> string \<Rightarrow> ClientComMessage \<Rightarrow> uid \<Rightarrow> bool \<Rightarrow> access_mode \<Rightarrow> go_any \<Rightarrow>
     (topic_user \<times> access_mode \<times> access_mode) handled" where
  "updateSubscription e t sid pkt asUid asChan modeWant private =
     (let ud = user_of t asUid; now = e_now e; oldWant = u_modeWant ud; oldGiven = u_modeGiven ud
      in if \<not> u_isChan ud \<and> asChan
         then refuse e t sid (InfoUseOtherReply pkt (t_name t) now) types_ErrNotFound
         else do {
           (t, r) \<leftarrow> (if modeWant \<noteq> ModeUnset then checkWant e t sid pkt asUid ud modeWant
                     else Some (t, Inr (oldGiven, ModeUnset, False)));
           (case r of
              Inl err \<Rightarrow> Some (t, Inl err)
            | Inr (given, modeWant, ownerChange) \<Rightarrow> do {
                want \<leftarrow> (if modeWant = ModeUnset then
                          (if \<not> IsJoiner oldWant
                           then map_option (\<lambda>m. given OR m) (accessFor t (e_typesModeCP2P e) (msg_AuthLvl pkt))
                           else Some oldWant)
                        else Some modeWant);
                (let upd = (if isNullValue private then [UpdPrivate ANil] else if private \<noteq> ANil then [UpdPrivate private] else [])
                       @ (if want \<noteq> oldWant then [UpdModeWant want] else [])
                       @ (if given \<noteq> oldGiven then [UpdModeGiven given] else []);
                     ud = ud\<lparr>u_modeGiven := given, u_modeWant := want,
                       u_private := (if isNullValue private then ANil else if private \<noteq> ANil then private else u_private ud)\<rparr>;
                     sub = sub0\<lparr>Sub_User := Uid_String asUid, Sub_Topic := t_name t, Sub_Private := private,
                       ModeWant := (if want \<noteq> oldWant then want else 0), ModeGiven := (if given \<noteq> oldGiven then given else 0)\<rparr>
                 in case (if upd = [] then None else e_SubsUpdate e (t_name t) asUid upd) of
                      Some err \<Rightarrow> refuse e t sid (ErrUnknownReply pkt now) err
                    | None \<Rightarrow>
                        (let t = (if upd = [] then t
                                  else put_out (PluginSub sub ''upd'') (put_out (Store (SubsUpdate (t_name t) asUid upd)) t))
                         in if \<not> ownerChange then Some (t, Inr (ud, oldWant, oldGiven))
                            else do {
                              (t, r) \<leftarrow> takeOwnership e t asUid;
                              Some (t, case r of Inl err \<Rightarrow> Inl err | Inr () \<Rightarrow> Inr (ud, oldWant, oldGiven))
                            }))
              })
         })"

definition updateUnread :: "uid \<Rightarrow> int \<Rightarrow> world \<Rightarrow> world" where
  "updateUnread u val t = (if val = 0 then t else put_out (UpdateUnread u val True) t)"

definition unread_change :: "uid \<Rightarrow> access_mode \<Rightarrow> access_mode \<Rightarrow> topic_user \<Rightarrow> world \<Rightarrow> world" where
  "unread_change u oldWant oldGiven ud t =
     (let oldReader = IsReader (oldWant AND oldGiven); newReader = IsReader (user_mode ud)
      in if oldReader \<and> \<not> newReader then updateUnread u (u_readID ud - t_lastID t) t
         else if \<not> oldReader \<and> newReader then updateUnread u (t_lastID t - u_readID ud) t
         else t)"

definition access_mode_of :: "topic_user \<Rightarrow> MsgAccessMode" where
  "access_mode_of ud =
     \<lparr>am_Want = AccessMode_String (u_modeWant ud), am_Given = AccessMode_String (u_modeGiven ud),
      am_Mode = AccessMode_String (user_mode ud)\<rparr>"

definition parse_mode :: "string \<Rightarrow> go_error + access_mode" where
  "parse_mode s = (if s = [] then Inr ModeUnset else AccessMode_UnmarshalText ModeUnset s)"

definition thisUserSub ::
  "env \<Rightarrow> world \<Rightarrow> string \<Rightarrow> ClientComMessage \<Rightarrow> uid \<Rightarrow> bool \<Rightarrow> string \<Rightarrow> go_any \<Rightarrow> MsgAccessMode option handled" where
  "thisUserSub e t sid pkt asUid asChan want private =
     (case parse_mode want of
        Inl err \<Rightarrow> refuse e t sid (ErrMalformedReply pkt (e_now e)) err
      | Inr modeWant \<Rightarrow> do {
          (t, r) \<leftarrow> (if map_of (t_perUser t) asUid = None \<or> u_deleted (user_of t asUid)
                    then newSubscription e t sid pkt asUid asChan modeWant private
                    else updateSubscription e t sid pkt asUid asChan modeWant private);
          (case r of
             Inl err \<Rightarrow> Some (t, Inl err)
           | Inr (ud, oldWant, oldGiven) \<Rightarrow> do {
               t \<leftarrow> (if \<not> asChan \<and> IsPresencer (oldWant AND oldGiven) \<and> \<not> IsPresencer (u_modeWant ud AND u_modeGiven ud) then
                      (if t_cat t = TopicCatMe then presUsersOfInterest t ''off+dis'' (t_userAgent t)
                       else presSingleUserOffline t asUid (u_modeWant ud AND u_modeGiven ud) ''off+dis'' nilPresParams [] False)
                    else Some t);
               (let t = put_user asUid ud t; changed = (oldWant \<noteq> u_modeWant ud \<or> oldGiven \<noteq> u_modeGiven ud)
                in do {
                  t \<leftarrow> (if changed then
                         notifySubChange e (if asChan then t else unread_change asUid oldWant oldGiven ud t)
                           asUid asUid asChan oldWant oldGiven (u_modeWant ud) (u_modeGiven ud) sid
                       else Some t);
                  (let modeChanged = (if (case cm_Sub pkt of Some s \<Rightarrow> sub_Newsub s | None \<Rightarrow> False) \<or> changed
                         then Some (access_mode_of ud) else None)
                   in if \<not> IsJoiner (u_modeWant ud) then do {
                        t \<leftarrow> evictUser e t asUid False [];
                        Some (t, Inr modeChanged)
                      }
                      else if \<not> IsJoiner (u_modeGiven ud)
                      then refuse e t sid (ErrPermissionDeniedReply pkt (e_now e)) ''topic access denied; user is banned''
                      else Some (t, Inr modeChanged))
                })
             })
        })"

subsection \<open>Another user's subscription\<close>

definition inviteUser ::
  "env \<Rightarrow> world \<Rightarrow> string \<Rightarrow> ClientComMessage \<Rightarrow> uid \<Rightarrow> uid \<Rightarrow> access_mode \<Rightarrow> topic_user handled" where
  "inviteUser e t sid pkt asUid target modeGiven =
     (let now = e_now e
      in if t_cat t = TopicCatGrp \<and> subsCount t \<ge> e_maxSubscriberCount e
         then refuse e t sid (ErrPolicyReply pkt now) ''max subscription count exceeded''
         else do {
           modeGiven \<leftarrow> (if modeGiven = ModeUnset
             then map_option (\<lambda>m. m OR ModeJoin) (accessFor t (e_typesModeCP2P e) LevelAuth) else Some modeGiven);
           (let invite = (\<lambda>modeWant.
              if \<not> IsJoiner modeWant
              then refuse e t sid (ErrPermissionDeniedReply pkt now) ''invitation rejected due to permissions''
              else
                (let sub = new_sub t target (t_name t) modeWant modeGiven ANil
                 in case e_SubsCreate e sub of
                      Some err \<Rightarrow> refuse e t sid (ErrUnknownReply pkt now) err
                    | None \<Rightarrow>
                        (let ud = user0\<lparr>u_modeGiven := modeGiven, u_modeWant := modeWant\<rparr>;
                             t = computePerUserAcsUnion (put_user target ud (put_out (Store (SubsCreate sub)) t));
                             t = put_out (PluginSub sub ''create'') (put_out (RegisterUser target True) t);
                             t = sendPush (Some (pushForP2PSub t asUid target modeWant modeGiven now)) t
                         in Some (t, Inr ud))))
            in case e_SubsGet e (t_name t) target True of
                 Inl err \<Rightarrow> refuse e t sid (ErrUnknownReply pkt now) err
               | Inr (Some sub) \<Rightarrow> invite (ModeWant sub)
               | Inr None \<Rightarrow>
                   (case e_UsersGet e target of
                      Inl err \<Rightarrow> refuse e t sid (ErrUnknownReply pkt now) err
                    | Inr None \<Rightarrow> refuse e t sid (ErrUserNotFoundReply pkt now) ''user not found''
                    | Inr (Some user) \<Rightarrow>
                        if User_State user \<noteq> StateOK
                        then refuse e t sid (ErrPermissionDeniedReply pkt now) ''user is suspended''
                        else invite (Auth (User_Access user) AND modeGiven)))
         })"

definition changeGiven ::
  "env \<Rightarrow> world \<Rightarrow> string \<Rightarrow> ClientComMessage \<Rightarrow> uid \<Rightarrow> access_mode \<Rightarrow> topic_user handled" where
  "changeGiven e t sid pkt target modeGiven =
     (let ud = user_of t target
      in if modeGiven = ModeUnset \<or> modeGiven = u_modeGiven ud then Some (t, Inr ud)
         else if t_owner t = target \<and> (\<not> IsOwner modeGiven \<or> \<not> IsJoiner modeGiven)
         then refuse e t sid (ErrPermissionDeniedReply pkt (e_now e)) ''cannot stip ownership or ban the owner''
         else
           (case e_SubsUpdate e (t_name t) target [UpdModeGiven modeGiven] of
              Some err \<Rightarrow> Some (t, Inl err)
            | None \<Rightarrow>
                (let ud = ud\<lparr>u_modeGiven := modeGiven\<rparr>
                 in Some (put_user target ud (put_out (Store (SubsUpdate (t_name t) target [UpdModeGiven modeGiven])) t), Inr ud))))"

definition anotherUserSub ::
  "env \<Rightarrow> world \<Rightarrow> string \<Rightarrow> uid \<Rightarrow> uid \<Rightarrow> bool \<Rightarrow> ClientComMessage \<Rightarrow> string \<Rightarrow> MsgAccessMode option handled" where
  "anotherUserSub e t sid asUid target asChan pkt mode =
     (let now = e_now e; hostMode = user_mode (user_of t asUid); denied = ErrPermissionDeniedReply pkt now
      in if map_of (t_perUser t) asUid = None \<or> \<not> IsSharer hostMode
         then refuse e t sid denied ''topic access denied; approver has no permission''
         else if asChan then refuse e t sid denied ''topic access denied: cannot subscribe reader to channel''
         else if isReadOnly t then refuse e t sid denied ''topic is suspended''
         else
           (case parse_mode mode of
              Inl err \<Rightarrow> refuse e t sid (ErrMalformedReply pkt now) err
            | Inr modeGiven \<Rightarrow>
                (let modeGiven = (if mode \<noteq> [] \<and> t_cat t = TopicCatP2P
                       then (modeGiven AND e_typesModeCP2P e) OR ModeApprove else modeGiven)
                 in if modeGiven \<noteq> ModeUnset \<and> \<not> IsAdmin hostMode
                    then refuse e t sid denied ''sharer cannot set explicit modeGiven''
                    else if IsOwner modeGiven \<and> t_owner t \<noteq> asUid
                    then refuse e t sid denied ''attempt to transfer ownership by non-owner''
                    else
                      (let new = (map_of (t_perUser t) target = None \<or> u_deleted (user_of t target));
                           oldWant = (if new then ModeUnset else u_modeWant (user_of t target));
                           oldGiven = (if new then ModeUnset else u_modeGiven (user_of t target))
                       in do {
                         (t, r) \<leftarrow> (if new then inviteUser e t sid pkt asUid target modeGiven
                                   else changeGiven e t sid pkt target modeGiven);
                         (case r of
                            Inl err \<Rightarrow> Some (t, Inl err)
                          | Inr ud \<Rightarrow>
                              (let changed = (oldGiven \<noteq> u_modeGiven ud)
                               in do {
                                 t \<leftarrow> (if changed then
                                        notifySubChange e (unread_change target oldWant oldGiven ud t) target asUid False
                                          oldWant oldGiven (u_modeWant ud) (u_modeGiven ud) sid
                                      else Some t);
                                 t \<leftarrow> (if \<not> IsJoiner (u_modeGiven ud) then evictUser e t target False [] else Some t);
                                 Some (t, Inr (if changed then Some (access_mode_of ud) else None))
                               }))
                       }))))"

text \<open>The access mode in the parameters of a reply, as it is serialised.\<close>

definition acs_value :: "MsgAccessMode \<Rightarrow> go_any" where
  "acs_value m = AMap [(''want'', AStr (am_Want m)), (''given'', AStr (am_Given m)), (''mode'', AStr (am_Mode m))]"

definition replySetSub :: "env \<Rightarrow> world \<Rightarrow> string \<Rightarrow> ClientComMessage \<Rightarrow> bool \<Rightarrow> unit handled" where
  "replySetSub e t sid pkt asChan =
     (let now = e_now e; asUid = ParseUserId (msg_AsUser pkt)
      in do {
        set \<leftarrow> cm_Set pkt;
        sub \<leftarrow> sq_Sub (set_Query set);
        (if Uid_IsZero (ParseUserId (ss_User sub)) \<and> ss_User sub \<noteq> []
         then refuse e t sid (ErrMalformedReply pkt now) ''invalid user id''
         else
           (let target = (if Uid_IsZero (ParseUserId (ss_User sub)) then asUid else ParseUserId (ss_User sub))
            in do {
              (t, r) \<leftarrow> (if target = asUid then thisUserSub e t sid pkt asUid asChan (ss_Mode sub) ANil
                        else anotherUserSub e t sid asUid target asChan pkt (ss_Mode sub));
              Some (case r of
                 Inl err \<Rightarrow> (t, Inl err)
               | Inr None \<Rightarrow> (reply e t (Some sid) (InfoNotModifiedReply pkt now), Inr ())
               | Inr (Some m) \<Rightarrow>
                   (reply e t (Some sid) (NoErrParamsReply pkt now
                      (AMap ((''acs'', acs_value m) # (if target \<noteq> asUid then [(''user'', AStr (UserId target))] else [])))), Inr ()))
            }))
      })"

subsection \<open>Removing a subscription\<close>

text \<open>The last user of a peer-to-peer topic takes the topic along.\<close>

definition drop_if_empty :: "world \<Rightarrow> world" where
  "drop_if_empty t =
     (if t_cat t = TopicCatP2P \<and> subsCount t = 0 then put_out (HubUnreg True) (markPaused t True) else t)"

definition replyDelSub :: "env \<Rightarrow> world \<Rightarrow> string \<Rightarrow> uid \<Rightarrow> ClientComMessage \<Rightarrow> unit handled" where
  "replyDelSub e t sid asUid msg =
     (let now = e_now e; denied = ErrPermissionDeniedReply msg now
      in case verifyChannelAccess t (msg_Original msg) of
           None \<Rightarrow> refuse e t sid (ErrNotFoundReply msg now) types_ErrNotFound
         | Some True \<Rightarrow> refuse e t sid denied ''channel access denied: cannot delete subscription''
         | Some False \<Rightarrow> do {
             del \<leftarrow> cm_Del msg;
             (let u = ParseUserId (del_User del); pud = user_of t u
              in if \<not> IsAdmin (user_mode (user_of t asUid)) then refuse e t sid denied ''del.sub: permission denied''
                 else if Uid_IsZero u \<or> u = asUid then refuse e t sid denied ''del.sub: cannot delete self-subscription''
                 else if t_cat t = TopicCatP2P then refuse e t sid denied ''del.sub: cannot apply to a P2P topic''
                 else if map_of (t_perUser t) u = None
                 then refuse e t sid (InfoNoActionReply msg now) ''del.sub: user not found''
                 else if IsOwner (user_mode pud) then refuse e t sid denied ''del.sub: cannot evict topic owner''
                 else if \<not> IsJoiner (u_modeWant pud) then refuse e t sid denied ''del.sub: cannot delete banned subscription''
                 else
                   (case e_SubsDelete e (t_name t) u of
                      Some err \<Rightarrow>
                        if err = types_ErrNotFound then Some (reply e t (Some sid) (InfoNoActionReply msg now), Inr ())
                        else refuse e t sid (ErrUnknownReply msg now) err
                    | None \<Rightarrow> Some (reply e (put_out (Store (SubsDelete (t_name t) u)) t) (Some sid) (NoErrReply msg now), Inr ()))
                   \<bind> (\<lambda>(t, r). case r of
                      Inl err \<Rightarrow> Some (t, Inl err)
                    | Inr () \<Rightarrow>
                        (let t = (if IsReader (user_mode pud) then updateUnread u (u_readID pud - t_lastID t) t else t)
                         in do {
                           t \<leftarrow> notifySubChange e t u asUid False (u_modeWant pud) (u_modeGiven pud) ModeUnset ModeUnset sid;
                           t \<leftarrow> evictUser e t u True [];
                           Some (drop_if_empty (put_out (PluginSub
                             (sub0\<lparr>Sub_TenantID := t_tenantID t, Sub_Topic := t_name t, Sub_User := Uid_String u\<rparr>) ''del'') t), Inr ())
                         })))
           })"

definition replyLeaveUnsub :: "env \<Rightarrow> world \<Rightarrow> string \<Rightarrow> ClientComMessage \<Rightarrow> uid \<Rightarrow> unit handled" where
  "replyLeaveUnsub e t sid msg asUid =
     (let now = e_now e; pud = user_of t asUid;
          answer = (\<lambda>t m. if msg_init msg then reply e t (Some sid) m else t);
          chan = (if msg_init msg then verifyChannelAccess t (msg_Original msg) else Some False)
      in if Uid_IsZero asUid then None
         else if t_owner t = asUid
         then Some (answer t (ErrPermissionDeniedReply msg now), Inl ''replyLeaveUnsub: owner cannot unsubscribe'')
         else
           (case chan of
              None \<Rightarrow> refuse e t sid (ErrNotFoundReply msg now) ''replyLeaveUnsub: incorrect addressing of channel''
            | Some asChan \<Rightarrow>
                (let name = (if u_isChan pud then GrpToChn (t_name t) else t_name t)
                 in case e_SubsDelete e name asUid of
                      Some err \<Rightarrow>
                        if msg_init msg \<and> err = types_ErrNotFound
                        then Some (answer t (InfoNoActionReply msg now), Inr ())
                        else Some (answer t (ErrUnknownReply msg now), Inl err)
                    | None \<Rightarrow>
                        (let t = answer (put_out (Store (SubsDelete name asUid)) t) (NoErrReply msg now);
                             t = (if asChan then channelSubUnsub t asUid False
                                  else if IsReader (user_mode pud) then updateUnread asUid (u_readID pud - t_lastID t) t else t);
                             oldWant = (if asChan then ModeCChnReader else u_modeWant pud);
                             oldGiven = (if asChan then ModeCChnReader else u_modeGiven pud)
                         in do {
                           t \<leftarrow> notifySubChange e t asUid asUid asChan oldWant oldGiven ModeUnset ModeUnset sid;
                           t \<leftarrow> evictUser e t asUid True sid;
                           (let t = put_out (PluginSub
                                  (sub0\<lparr>Sub_TenantID := t_tenantID t, Sub_Topic := t_name t, Sub_User := Uid_String asUid\<rparr>) ''del'') t;
                                t = (if t_cat t = TopicCatGrp then t\<lparr>t_subCnt := t_subCnt t - 1\<rparr> else t)
                            in Some (drop_if_empty t, Inr ()))
                         }))))"

subsection \<open>Sessions leaving and joining\<close>

definition went_offline :: "bool \<Rightarrow> uid \<Rightarrow> world \<Rightarrow> world" where
  "went_offline asChan u t =
     (if u_online (user_of t u) = 0 then
        (if asChan then del_user u t
         else presSubsOnline t ''off'' (UserId u) nilPresParams (nilPresFilters\<lparr>filterIn := ModeRead\<rparr>) [])
      else t)"

definition less_online :: "uid \<Rightarrow> world \<Rightarrow> world" where
  "less_online u t = (let pud = user_of t u in put_user u (pud\<lparr>u_online := u_online pud - 1\<rparr>) t)"

definition leave_category :: "env \<Rightarrow> world \<Rightarrow> string \<Rightarrow> bool \<Rightarrow> per_session \<Rightarrow> uid \<Rightarrow> world option" where
  "leave_category e t sid asChan pssd u =
     (case t_cat t of
        TopicCatMe \<Rightarrow>
          (let mrs = mostRecentSession t;
               ua = s_userAgent (w_sess t (case mrs of None \<Rightarrow> sid | Some s \<Rightarrow> s));
               t = (if mrs = None then t else put_out (UaUpdate ua) t);
               meUid = (if Uid_IsZero u \<and> pss_muids pssd \<noteq> [] then hd (pss_muids pssd) else u)
           in Some (if Uid_IsZero meUid then t else put_out (Store (UsersUpdateLastSeen meUid ua (e_now e))) t))
      | TopicCatFnd \<Rightarrow> fndRemovePublic t sid
      | TopicCatGrp \<Rightarrow>
          Some (if \<not> Uid_IsZero u then went_offline asChan u t else fold (went_offline asChan) (pss_muids pssd) t)
      | _ \<Rightarrow> Some t)"

text \<open>
  A request to address a plain group as a channel is answered by an error but processed further. The
  last branch of the case distinction on the user is a deliberate panic.
\<close>

definition handleLeaveRequest :: "env \<Rightarrow> world \<Rightarrow> ClientComMessage \<Rightarrow> string \<Rightarrow> world option" where
  "handleLeaveRequest e t msg sid =
     (let now = e_now e; s = w_sess t sid;
          asUid = (if msg_init msg then ParseUserId (msg_AsUser msg) else ZeroUid);
          chan = (if msg_init msg then verifyChannelAccess t (msg_Original msg) else Some False);
          asChan = (chan = Some True);
          t = (if chan = None then reply e t (Some sid) (ErrNotFoundReply msg now) else t)
      in if isInactive t then
           Some (if \<not> Uid_IsZero asUid \<and> msg_init msg then reply e t (Some sid) (ErrLockedReply msg now) else t)
         else do {
           unsub \<leftarrow> (if msg_init msg then map_option leave_Unsub (cm_Leave msg) else Some False);
           (if unsub then map_option fst (replyLeaveUnsub e t sid msg asUid)
            else
              (case remSession t sid asUid of
                 (t, None, _) \<Rightarrow> Some t
               | (t, Some pssd, _) \<Rightarrow>
                   (let t = (if isProxy s then t else delSub t sid (t_name t))
                    in if pss_isChanSub pssd \<noteq> asChan
                       then Some (if msg_init msg then reply e t (Some sid) (ErrNotFoundReply msg now) else t)
                       else
                         (let u = (if isProxy s then asUid else pss_uid pssd)
                          in do {
                            t \<leftarrow> (if \<not> Uid_IsZero u then Some (if s_background s then t else less_online u t)
                                 else if pss_muids pssd \<noteq> [] then Some (fold less_online (pss_muids pssd) t)
                                 else if isCluster s then Some t else None);
                            t \<leftarrow> leave_category e t sid asChan pssd u;
                            Some (if \<not> Uid_IsZero u \<and> msg_init msg then reply e t (Some sid) (NoErrReply msg now) else t)
                          }))))
         })"

definition sendSubNotifications :: "env \<Rightarrow> world \<Rightarrow> uid \<Rightarrow> string \<Rightarrow> string \<Rightarrow> world option" where
  "sendSubNotifications e t asUid sid userAgent =
     (case t_cat t of
        TopicCatMe \<Rightarrow>
          if isLoaded t then Some t
          else presUsersOfInterest (fst (loadContacts e (markLoaded t) asUid)) ''on'' userAgent
      | TopicCatGrp \<Rightarrow>
          (let pud = user_of t asUid
           in if u_isChan pud then Some t
              else if \<not> isLoaded t then
                presSubsOffline (markLoaded t) (if IsPresencer (user_mode pud) then ''on+en'' else ''on'')
                  nilPresParams nilPresFilters nilPresFilters [] False
              else if u_online pud = 1 then
                Some (presSubsOnline t ''on'' (UserId asUid) nilPresParams (nilPresFilters\<lparr>filterIn := ModeRead\<rparr>) sid)
              else Some t)
      | _ \<Rightarrow> Some t)"

text \<open>The user appended to the list of a multiplexing session is not written back to the table.\<close>

definition sessToForeground :: "env \<Rightarrow> world \<Rightarrow> string \<Rightarrow> world option" where
  "sessToForeground e t sid =
     (let k = sess_key t sid
      in case map_of (t_sessions t) k of
           None \<Rightarrow> Some t
         | Some pssd \<Rightarrow>
             if pss_isChanSub pssd then Some t
             else
               (let u = (if isMultiplex (w_sess t k) then s_uid (w_sess t sid) else pss_uid pssd);
                    pud = user_of t u;
                    t = put_user u (pud\<lparr>u_online := u_online pud + 1\<rparr>) t
                in sendSubNotifications e t u sid (s_userAgent (w_sess t sid))))"

definition sendImmediateSubNotifications ::
  "env \<Rightarrow> world \<Rightarrow> uid \<Rightarrow> MsgAccessMode \<Rightarrow> string \<Rightarrow> string \<Rightarrow> bool \<Rightarrow> bool \<Rightarrow> time \<Rightarrow> world option" where
  "sendImmediateSubNotifications e t asUid acs sid orig created newsub now =
     (let mode = result_or ModeUnset (ParseAcs (am_Want acs)) AND result_or ModeUnset (ParseAcs (am_Given acs));
          asChan = (t_isChan t \<and> IsChannel orig)
      in do {
        t \<leftarrow> (if t_cat t = TopicCatP2P then do {
              uid2 \<leftarrow> p2pOtherUser t asUid;
              (let pud2 = user_of t uid2; mode2 = (if u_deleted pud2 then ModeInvalid else user_mode pud2)
               in do {
                 t \<leftarrow> (if created then presSingleUserOffline t uid2 mode2 ''acs''
                        (nilPresParams\<lparr>pp_dWant := AccessMode_String (u_modeWant pud2), pp_dGiven := AccessMode_String (u_modeGiven pud2),
                          pp_actor := UserId asUid\<rparr>) [] False else Some t);
                 (if newsub then do {
                    t \<leftarrow> presSingleUserOffline t asUid mode ''?none+en'' nilPresParams [] False;
                    t \<leftarrow> presSingleUserOffline t uid2 mode2 (if IsPresencer mode2 then ''?unkn+en'' else ''?unkn'') nilPresParams [] False;
                    Some (sendPush (Some (pushForP2PSub t asUid uid2 (u_modeWant pud2) (u_modeGiven pud2) now)) t)
                  } else Some t)
               })
            }
            else if t_cat t = TopicCatGrp \<and> \<not> asChan \<and> newsub then Some (sendPush (pushForGroupSub t asUid now) t)
            else Some t);
        (if newsub then do {
           t \<leftarrow> presSingleUserOffline t asUid mode ''acs''
                 (nilPresParams\<lparr>pp_dWant := am_Want acs, pp_dGiven := am_Given acs, pp_actor := UserId asUid\<rparr>) sid False;
           Some (if asChan then channelSubUnsub t asUid True else t)
         } else Some t)
      })"

definition joinSession :: "world \<Rightarrow> string \<Rightarrow> uid \<Rightarrow> bool \<Rightarrow> bool \<Rightarrow> world" where
  "joinSession t sid asUid asChan newsub =
     (let t = addSession (addSub t sid (t_name t)) sid asUid asChan;
          pud = user_of t asUid;
          t = (if s_background (w_sess t sid) then t else put_user asUid (pud\<lparr>u_online := u_online pud + 1\<rparr>) t)
      in if t_cat t = TopicCatGrp \<and> newsub then t\<lparr>t_subCnt := t_subCnt t + 1\<rparr> else t)"

text \<open>The request is returned as the code leaves it: marked as a new subscription, under the name of the topic.\<close>

definition subscriptionReply :: "env \<Rightarrow> world \<Rightarrow> bool \<Rightarrow> string \<Rightarrow> ClientComMessage \<Rightarrow> ClientComMessage handled" where
  "subscriptionReply e t asChan sid msg =
     do {
       msgsub \<leftarrow> cm_Sub msg;
       (let now = (if sub_Created msgsub then t_updated t else e_now e);
            asUid = ParseUserId (msg_AsUser msg);
            newsub = (sub_Newsub msgsub \<or> ((t_cat t = TopicCatP2P \<or> t_cat t = TopicCatGrp) \<and>
              (map_of (t_perUser t) asUid = None \<or> u_deleted (user_of t asUid))));
            msg = msg\<lparr>cm_Sub := Some (msgsub\<lparr>sub_Newsub := newsub\<rparr>)\<rparr>;
            set = sub_Set msgsub;
            setSub = (case set of None \<Rightarrow> None | Some q \<Rightarrow> sq_Sub q);
            mode = (case setSub of None \<Rightarrow> [] | Some x \<Rightarrow> ss_Mode x);
            private = (case set of None \<Rightarrow> ANil | Some q \<Rightarrow> (case sq_Desc q of None \<Rightarrow> ANil | Some d \<Rightarrow> sd_Private d))
        in if (case setSub of None \<Rightarrow> False | Some x \<Rightarrow> ss_User x \<noteq> [])
           then refuse e t sid (ErrMalformedReply msg now) ''user id must not be specified''
           else do {
             (t, r) \<leftarrow> thisUserSub e t sid msg asUid asChan mode private;
             (case r of
                Inl err \<Rightarrow> Some (t, Inl err)
              | Inr modeChanged \<Rightarrow>
                  (let hasJoined = (case modeChanged of None \<Rightarrow> True | Some m \<Rightarrow>
                         (case ParseAcs (am_Mode m) of Inl _ \<Rightarrow> True | Inr acs \<Rightarrow> IsJoiner acs));
                       t = (if hasJoined then joinSession t sid asUid asChan newsub else t)
                   in do {
                     toriginal \<leftarrow> original t asUid;
                     (let tmp = (sub_Created msgsub \<and> msg_Original msg \<noteq> toriginal);
                          params = (case modeChanged of None \<Rightarrow> [] | Some m \<Rightarrow> [(''acs'', acs_value m)])
                            @ (if tmp then [(''tmpname'', AStr (msg_Original msg))] else []);
                          orig = (if tmp then toriginal else msg_Original msg);
                          t = reply e t (Some sid)
                            (if params = [] then NoErr (msg_Id msg) toriginal now else NoErrParams (msg_Id msg) toriginal now (AMap params))
                      in do {
                        t \<leftarrow> (case modeChanged of None \<Rightarrow> Some t
                             | Some m \<Rightarrow> sendImmediateSubNotifications e t asUid m sid orig (sub_Created msgsub) newsub now);
                        t \<leftarrow> (if \<not> s_background (w_sess t sid) \<and> hasJoined
                             then sendSubNotifications e t asUid sid (s_userAgent (w_sess t sid)) else Some t);
                        Some (t, Inr (msg\<lparr>msg_Original := orig\<rparr>))
                      })
                   }))
           })
     }"

end
