(* ===== verification/Broadcast.thy ===== *)
theory Broadcast
  imports Membership
begin

section \<open>Messages and calls (server/topic.go, server/calls.go)\<close>

text \<open>
  Publishing, receipts, deletion of messages, delivery to attached sessions and video calls. A session
  whose queue is full is dropped from the topic while a message is delivered, dropping a party of a
  call ends the call, and ending a call publishes another message: delivery calls itself. The
  functions below take the inner delivery as an argument \<open>bc\<close>; \<^verbatim>\<open>broadcastToSessions\<close> ties the knot
  for a given depth of the stack and fails when the stack is exhausted, as the Go runtime does. So \<open>None\<close>
  is a crash: a panic or a stack overflow.
\<close>

subsection \<open>Saving and fanning out a message\<close>

definition message0 :: message where
  "message0 = \<lparr>Id = [], header_id = ZeroUid, CreatedAt = 0, UpdatedAt = 0, Msg_TenantID = 0, Msg_DeletedAt = None,
     Msg_DelId = 0, Msg_SeqId = 0, Msg_Topic = [], Msg_From = [], Msg_Head = None, Msg_Content = ANil\<rparr>"

definition sender_head :: "world \<Rightarrow> string option \<Rightarrow> uid \<Rightarrow> go_map option \<Rightarrow> go_map option" where
  "sender_head t sess asUid head =
     (case sess of
        Some sid \<Rightarrow>
          if s_uid (w_sess t sid) \<noteq> asUid
          then Some (mset_key (case head of None \<Rightarrow> [] | Some m \<Rightarrow> m) ''sender'' (AStr (UserId (s_uid (w_sess t sid)))))
          else map_option (\<lambda>m. mdel_key m ''sender'') head
      | None \<Rightarrow> map_option (\<lambda>m. mdel_key m ''sender'') head)"

definition data_message :: "ClientComMessage \<Rightarrow> int \<Rightarrow> go_map option \<Rightarrow> go_any \<Rightarrow> ServerComMessage" where
  "data_message msg seq head content =
     empty_ServerComMessage
       \<lparr>Data := Some \<lparr>data_Topic = msg_Original msg, data_From = msg_AsUser msg, data_Timestamp = msg_Timestamp msg,
          data_DeletedAt = None, data_SeqId = seq, data_Head = head, data_Content = content\<rparr>,
        scm_Id := msg_Id msg, scm_RcptTo := msg_RcptTo msg, scm_AsUser := msg_AsUser msg,
        scm_Timestamp := msg_Timestamp msg, scm_sess := msg_sess msg\<rparr>"

type_synonym broadcast = "world \<Rightarrow> ServerComMessage \<Rightarrow> world option"

definition saveAndBroadcastMessage ::
  "broadcast \<Rightarrow> env \<Rightarrow> world \<Rightarrow> ClientComMessage \<Rightarrow> uid \<Rightarrow> bool \<Rightarrow> string list \<Rightarrow> go_map option \<Rightarrow> go_any \<Rightarrow>
     (world \<times> store_error option) option" where
  "saveAndBroadcastMessage bc e t msg asUid noEcho attachments head content =
     (let pud = user_of t asUid; found = (map_of (t_perUser t) asUid \<noteq> None)
      in if t_cat t \<noteq> TopicCatSys \<and> \<not> IsWriter (user_mode pud) then do {
           name \<leftarrow> original t asUid;
           Some (reply e t (msg_sess msg) (ErrPermissionDenied (msg_Id msg) name (msg_Timestamp msg)), Some types_ErrPermissionDenied)
         }
         else
           (let head = sender_head t (msg_sess msg) asUid head;
                saved = message0\<lparr>CreatedAt := msg_Timestamp msg, Msg_TenantID := t_tenantID t, Msg_SeqId := t_lastID t + 1,
                  Msg_Topic := t_name t, Msg_From := Uid_String asUid, Msg_Head := head, Msg_Content := content\<rparr>;
                readBySender = IsReader (user_mode pud)
            in case e_MessagesSave e saved attachments readBySender of
                 (Some err, _) \<Rightarrow> do {
                   name \<leftarrow> original t asUid;
                   Some (reply e t (msg_sess msg) (ErrUnknown (msg_Id msg) name (msg_Timestamp msg)), Some err)
                 }
               | (None, marked) \<Rightarrow>
                   (let t = put_out (Store (MessagesSave saved attachments readBySender)) t;
                        t = t\<lparr>t_lastID := t_lastID t + 1, t_touched := msg_Timestamp msg\<rparr>;
                        t = (if found then put_user asUid (pud\<lparr>u_readID := t_lastID t, u_recvID := t_lastID t\<rparr>) t else t)
                    in do {
                      t \<leftarrow> (if msg_Id msg \<noteq> [] \<and> msg_sess msg \<noteq> None then do {
                            name \<leftarrow> original t asUid;
                            (let r = NoErrAccepted (msg_Id msg) name (msg_Timestamp msg)
                             in Some (reply e t (msg_sess msg)
                               (r\<lparr>Ctrl := map_option (\<lambda>c. c\<lparr>ctrl_Params := AMap [(''seq'', AInt (t_lastID t))]\<rparr>) (Ctrl r)\<rparr>)))
                          } else Some t);
                      skip \<leftarrow> (if noEcho then msg_sess msg else Some []);
                      (let data = (data_message msg (t_lastID t) head content)\<lparr>scm_SkipSid := skip\<rparr>
                       in do {
                         t \<leftarrow> presSubsOffline t ''msg'' (nilPresParams\<lparr>pp_seqID := t_lastID t, pp_actor := msg_AsUser msg\<rparr>)
                               (nilPresFilters\<lparr>filterIn := ModeRead\<rparr>) nilPresFilters [] True;
                         t \<leftarrow> bc (put_out (PluginMessage (the (Data data))) t) data;
                         Some (sendPush (pushForData t asUid (the (Data data)) marked) t, None)
                       })
                    })))"

subsection \<open>Calls\<close>

definition messageHead :: "video_call \<Rightarrow> go_map option \<Rightarrow> string \<Rightarrow> int \<Rightarrow> go_map" where
  "messageHead call head newState duration =
     (let head = (case head of None \<Rightarrow> [] | Some m \<Rightarrow> m);
          head = mset_key head ''replace'' (AStr ('':'' @ FormatInt (vc_seq call)));
          head = mset_key head ''webrtc'' (AStr newState);
          head = (if duration > 0 then mset_key head ''webrtc-duration'' (AInt duration) else mdel_key head ''webrtc-duration'')
      in if vc_contentMime call \<noteq> ANil then mset_key head ''mime'' (vc_contentMime call) else head)"

definition infoMessage :: "video_call \<Rightarrow> string \<Rightarrow> ServerComMessage" where
  "infoMessage call event =
     empty_ServerComMessage\<lparr>Info := Some (info0\<lparr>info_What := ''call'', info_Event := event, info_SeqId := vc_seq call\<rparr>)\<rparr>"

definition getCallOriginator :: "world \<Rightarrow> (uid \<times> string) option" where
  "getCallOriginator t =
     (case t_currentCall t of
        None \<Rightarrow> None
      | Some call \<Rightarrow>
          map_option (\<lambda>p. (cp_uid p, cp_sess p)) (find cp_isOriginator (map snd (vc_parties call))))"

definition originator_uid :: "world \<Rightarrow> uid" where
  "originator_uid t = (case getCallOriginator t of None \<Rightarrow> ZeroUid | Some (u, _) \<Rightarrow> u)"

definition handleCallInvite :: "env \<Rightarrow> world \<Rightarrow> ClientComMessage \<Rightarrow> MsgClientPub \<Rightarrow> uid \<Rightarrow> world option" where
  "handleCallInvite e t msg pub asUid =
     map_option (\<lambda>sid.
       put_out (CallTimer True) (t\<lparr>t_currentCall := Some
         \<lparr>vc_parties = [(sid, \<lparr>cp_uid = asUid, cp_isOriginator = True, cp_sess = sid\<rparr>)], vc_seq = t_lastID t,
          vc_content = pub_Content pub,
          vc_contentMime = (case pub_Head pub of None \<Rightarrow> ANil | Some m \<Rightarrow> mget m ''mime''), vc_acceptedAt = 0\<rparr>\<rparr>))
       (msg_sess msg)"

text \<open>
  The user who hung up is empty for a call ended by the server. After the final message is published
  the code reads \<^verbatim>\<open>t.currentCall\<close> again: if the call was ended meanwhile, it is nil and the access panics.
\<close>

definition end_state :: "video_call \<Rightarrow> string \<Rightarrow> uid \<Rightarrow> bool \<Rightarrow> string" where
  "end_state call frm originatorUid callDidTimeout =
     (if frm \<noteq> [] \<and> length (vc_parties call) = 2 then ''finished''
      else if frm \<noteq> [] then (if frm = UserId originatorUid then ''missed'' else ''declined'')
      else if callDidTimeout then ''missed'' else ''disconnected'')"

fun hangup_loop :: "string \<Rightarrow> int \<Rightarrow> uid list \<Rightarrow> world \<Rightarrow> world option" where
  "hangup_loop frm seq [] t = Some t"
| "hangup_loop frm seq (u # us) t = do {
     t \<leftarrow> infoCallSubsOffline t frm u ''hang-up'' seq [] [] True;
     hangup_loop frm seq us t
   }"

definition maybeEndCallInProgress :: "broadcast \<Rightarrow> env \<Rightarrow> world \<Rightarrow> string \<Rightarrow> ClientComMessage \<Rightarrow> bool \<Rightarrow> world option" where
  "maybeEndCallInProgress bc e t frm msg callDidTimeout =
     (case t_currentCall t of
        None \<Rightarrow> Some t
      | Some call \<Rightarrow>
          (let t = put_out (CallTimer False) t;
               u = originator_uid t;
               duration = (if frm \<noteq> [] \<and> length (vc_parties call) = 2 then e_now e - vc_acceptedAt call else 0);
               head = messageHead call (case cm_Pub msg of None \<Rightarrow> None | Some p \<Rightarrow> pub_Head p)
                 (end_state call frm u callDidTimeout) duration
           in do {
             (t, err) \<leftarrow> saveAndBroadcastMessage bc e t (msg\<lparr>msg_AsUser := UserId u\<rparr>) u False [] (Some head) (vc_content call);
             call \<leftarrow> t_currentCall t;
             t \<leftarrow> bc t (infoMessage call ''hang-up'');
             t \<leftarrow> (if t_perUser t = [] then Some t
                  else do { call \<leftarrow> t_currentCall t; hangup_loop frm (vc_seq call) (map fst (t_perUser t)) t });
             Some (t\<lparr>t_currentCall := None\<rparr>)
           }))"

definition client_message0 :: ClientComMessage where
  "client_message0 = \<lparr>cm_Hi = None, cm_Acc = None, cm_Login = None, cm_Sub = None, cm_Leave = None, cm_Pub = None,
     cm_Get = None, cm_Set = None, cm_Del = None, cm_Note = None, cm_Extra = None, msg_Id = [], msg_Original = [],
     msg_RcptTo = [], msg_AsUser = [], msg_AuthLvl = 0, msg_MetaWhat = 0, msg_Timestamp = 0, msg_TenantID = 0,
     msg_sess = None, msg_init = False\<rparr>"

definition terminateCallInProgress :: "broadcast \<Rightarrow> env \<Rightarrow> world \<Rightarrow> bool \<Rightarrow> world option" where
  "terminateCallInProgress bc e t callDidTimeout =
     (case t_currentCall t of
        None \<Rightarrow> Some t
      | Some call \<Rightarrow>
          (case getCallOriginator t of
             None \<Rightarrow> Some (t\<lparr>t_currentCall := None\<rparr>)
           | Some (u, sid) \<Rightarrow>
               if Uid_IsZero u then Some (t\<lparr>t_currentCall := None\<rparr>)
               else do {
                 name \<leftarrow> original t u;
                 maybeEndCallInProgress bc e t []
                   (client_message0\<lparr>msg_Original := name, msg_RcptTo := UserId u, msg_AsUser := UserId u,
                     msg_Timestamp := e_now e, msg_sess := Some sid\<rparr>) callDidTimeout
               }))"

subsection \<open>Delivery to sessions\<close>

definition endsCall :: "world \<Rightarrow> string \<Rightarrow> bool" where
  "endsCall t sid =
     (case t_currentCall t of
        None \<Rightarrow> False
      | Some call \<Rightarrow>
          if isMultiplex (w_sess t sid)
          then \<exists>(_, p) \<in> set (vc_parties call). isProxy (w_sess t (cp_sess p)) \<and> s_multi (w_sess t (cp_sess p)) = Some sid
          else map_of (vc_parties call) sid \<noteq> None)"

definition unregisterSession :: "broadcast \<Rightarrow> env \<Rightarrow> world \<Rightarrow> string \<Rightarrow> ClientComMessage \<Rightarrow> world option" where
  "unregisterSession bc e t sid msg =
     do {
       t \<leftarrow> (if endsCall t sid then terminateCallInProgress bc e t False else Some t);
       t \<leftarrow> handleLeaveRequest e t msg sid;
       Some (if t_sessions t = [] \<and> t_cat t \<noteq> TopicCatSys then put_out (KillTimer True) t else t)
     }"

text \<open>Whether an attached session is given a message.\<close>

definition receives :: "world \<Rightarrow> ServerComMessage \<Rightarrow> string \<Rightarrow> per_session \<Rightarrow> bool" where
  "receives t msg sid pssd =
     (if \<not> isMultiplex (w_sess t sid) then
        sid \<noteq> scm_SkipSid msg \<and>
        (case Pres msg of
           Some p \<Rightarrow>
             \<not> (pres_SkipTopic p \<noteq> [] \<and> getSub t sid (pres_SkipTopic p)) \<and>
             \<not> (pres_SingleUser p \<noteq> [] \<and> UserId (pss_uid pssd) \<noteq> pres_SingleUser p) \<and>
             \<not> (pres_ExcludeUser p \<noteq> [] \<and> UserId (pss_uid pssd) = pres_ExcludeUser p) \<and>
             passesPresenceFilters t p (pss_uid pssd)
         | None \<Rightarrow>
             (case Info msg of
                Some i \<Rightarrow>
                  \<not> (info_Src i = [] \<and> (pss_isChanSub pssd \<or> \<not> userIsReader t (pss_uid pssd))) \<and>
                  \<not> (info_SkipTopic i \<noteq> [] \<and> getSub t sid (info_SkipTopic i)) \<and>
                  \<not> (info_What i = ''kp'' \<and> info_From i = UserId (pss_uid pssd))
              | None \<Rightarrow> userIsReader t (pss_uid pssd) \<or> pss_isChanSub pssd))
      else
        \<not> (pss_isChanSub pssd \<and> IsChannel sid \<and> isMultiplex (w_sess t (ChnToGrp sid)) \<and>
           map_of (t_sessions t) (ChnToGrp sid) \<noteq> None))"

fun send_loop ::
  "env \<Rightarrow> ServerComMessage \<Rightarrow> (string \<times> per_session) list \<Rightarrow> string list \<Rightarrow> world \<Rightarrow> (world \<times> string list) option" where
  "send_loop e msg [] dropped t = Some (t, dropped)"
| "send_loop e msg ((sid, pssd) # ss) dropped t =
     (if receives t msg sid pssd then do {
        m \<leftarrow> prepareBroadcastableMessage t msg (pss_uid pssd) (pss_isChanSub pssd);
        (case queueOut e t (Some sid) m of
           (t, ok) \<Rightarrow> send_loop e msg ss (if ok then dropped else dropped @ [sid]) t)
      } else send_loop e msg ss dropped t)"

fun drop_loop :: "broadcast \<Rightarrow> env \<Rightarrow> string list \<Rightarrow> world \<Rightarrow> world option" where
  "drop_loop bc e [] t = Some t"
| "drop_loop bc e (sid # sids) t = do {
     t \<leftarrow> unregisterSession bc e t sid (client_message0\<lparr>msg_sess := Some sid\<rparr>);
     drop_loop bc e sids t
   }"

fun broadcastToSessions :: "nat \<Rightarrow> env \<Rightarrow> world \<Rightarrow> ServerComMessage \<Rightarrow> world option" where
  "broadcastToSessions 0 e t msg = None"
| "broadcastToSessions (Suc depth) e t msg = do {
     (t, dropped) \<leftarrow> send_loop e (msg\<lparr>scm_TenantID := t_tenantID t\<rparr>) (t_sessions t) [] t;
     drop_loop (broadcastToSessions depth e) e dropped t
   }"

subsection \<open>Publishing\<close>

definition isCallPub :: "MsgClientPub \<Rightarrow> bool" where
  "isCallPub pub = (case pub_Head pub of None \<Rightarrow> False | Some m \<Rightarrow> mget m ''webrtc'' \<noteq> ANil)"

definition handlePubBroadcast :: "nat \<Rightarrow> env \<Rightarrow> world \<Rightarrow> ClientComMessage \<Rightarrow> MsgClientPub \<Rightarrow> world option" where
  "handlePubBroadcast depth e t msg pub =
     (let asUid = ParseUserId (msg_AsUser msg); now = e_now e; isCall = isCallPub pub
      in if isInactive t then do {
           name \<leftarrow> original t asUid;
           Some (reply e t (msg_sess msg) (ErrLocked (msg_Id msg) name (msg_Timestamp msg)))
         }
         else if isReadOnly t then do {
           name \<leftarrow> original t asUid;
           Some (reply e t (msg_sess msg) (ErrPermissionDenied (msg_Id msg) name (msg_Timestamp msg)))
         }
         else if isCall \<and> \<not> e_haveIceServers e then Some (reply e t (msg_sess msg) (ErrNotImplementedReply msg now))
         else if isCall \<and> t_cat t \<noteq> TopicCatP2P then Some (reply e t (msg_sess msg) (ErrPermissionDeniedReply msg now))
         else if isCall \<and> t_currentCall t \<noteq> None then Some (reply e t (msg_sess msg) (ErrCallBusyReply msg now))
         else do {
           (t, err) \<leftarrow> saveAndBroadcastMessage (broadcastToSessions depth e) e t msg asUid (pub_NoEcho pub)
              (case cm_Extra msg of None \<Rightarrow> [] | Some x \<Rightarrow> extra_Attachments x) (pub_Head pub) (pub_Content pub);
           (if err = None \<and> isCall then handleCallInvite e t msg pub asUid else Some t)
         })"

subsection \<open>Call events\<close>

definition acceptCall :: "nat \<Rightarrow> env \<Rightarrow> world \<Rightarrow> ClientComMessage \<Rightarrow> MsgClientNote \<Rightarrow> string \<Rightarrow> uid \<Rightarrow> uid \<Rightarrow> (world \<times> bool) option" where
  "acceptCall depth e t msg note sid asUid originatorUid =
     do {
       call \<leftarrow> t_currentCall t;
       (t, err) \<leftarrow> saveAndBroadcastMessage (broadcastToSessions depth e) e t (msg\<lparr>msg_AsUser := UserId originatorUid\<rparr>) originatorUid False []
          (Some (messageHead call (case cm_Pub msg of None \<Rightarrow> None | Some p \<Rightarrow> pub_Head p) ''accepted'' 0)) (vc_content call);
       (if err \<noteq> None then Some (t, False)
        else do {
          call \<leftarrow> t_currentCall t;
          (let call = call\<lparr>vc_parties := AList.update sid \<lparr>cp_uid = asUid, cp_isOriginator = False, cp_sess = sid\<rparr> (vc_parties call),
                 vc_acceptedAt := e_now e\<rparr>;
               t = t\<lparr>t_currentCall := Some call\<rparr>
           in do {
             t \<leftarrow> infoCallSubsOffline t (msg_AsUser msg) asUid (note_Event note) (vc_seq call) (note_Payload note) sid False;
             Some (put_out (CallTimer False) t, True)
           })
        })
     }"

definition handleCallEvent :: "nat \<Rightarrow> env \<Rightarrow> world \<Rightarrow> ClientComMessage \<Rightarrow> MsgClientNote \<Rightarrow> world option" where
  "handleCallEvent depth e t msg note =
     (case t_currentCall t of
        None \<Rightarrow> Some t
      | Some call \<Rightarrow>
          (let asUid = ParseUserId (msg_AsUser msg); event = note_Event note; parties = vc_parties call
           in if isInactive t \<or> vc_seq call \<noteq> note_SeqId note \<or> map_of (t_perUser t) asUid = None then Some t
              else do {
                sid \<leftarrow> msg_sess msg;
                (if event = ''ringing'' \<or> event = ''accept'' then
                   (if length parties \<noteq> 1 then Some t
                    else
                      (case getCallOriginator t of
                         None \<Rightarrow> terminateCallInProgress (broadcastToSessions depth e) e t False
                       | Some (originatorUid, originator) \<Rightarrow>
                           if originator = sid \<or> originatorUid = asUid then Some t
                           else do {
                             name \<leftarrow> original t originatorUid;
                             (let fwd = infoMessage call event;
                                  fwd = fwd\<lparr>Info := map_option (\<lambda>i. i\<lparr>info_From := msg_AsUser msg, info_Topic := name\<rparr>) (Info fwd)\<rparr>
                              in if event = ''accept'' then do {
                                   (t, ok) \<leftarrow> acceptCall depth e t msg note sid asUid originatorUid;
                                   Some (if ok then reply e t (Some originator) fwd else t)
                                 }
                                 else Some (reply e t (Some originator) fwd))
                           }))
                 else if event = ''offer'' \<or> event = ''answer'' \<or> event = ''ice-candidate'' then
                   (if length parties \<noteq> 2 \<or> map_of parties sid = None then Some t
                    else
                      (case find (\<lambda>(s, _). s \<noteq> sid) parties of
                         None \<Rightarrow> Some t
                       | Some (_, peer) \<Rightarrow> do {
                           name \<leftarrow> original t (cp_uid peer);
                           (let fwd = infoMessage call event
                            in Some (reply e t (Some (cp_sess peer))
                              (fwd\<lparr>Info := map_option (\<lambda>i. i\<lparr>info_From := msg_AsUser msg, info_Topic := name,
                                info_Payload := note_Payload note\<rparr>) (Info fwd)\<rparr>)))
                         }))
                 else if event = ''hang-up'' then
                   (if (length parties = 2 \<and> map_of parties sid = None) then Some t
                    else do {
                      other \<leftarrow> (if length parties = 1 \<and> asUid = originator_uid t
                                then map_option (\<lambda>(_, s). s \<noteq> sid) (getCallOriginator t) else Some False);
                      (if other then Some t
                       else maybeEndCallInProgress (broadcastToSessions depth e) e t (msg_AsUser msg) msg False)
                    })
                 else Some t)
              }))"

subsection \<open>Receipts and typing notes\<close>

text \<open>The read and received counters of a user after a note, with what was read or received.\<close>

definition noteCounters :: "string \<Rightarrow> int \<Rightarrow> topic_user \<Rightarrow> (topic_user \<times> int \<times> int \<times> int) option" where
  "noteCounters what seqId pud =
     (if what = ''read'' then
        (if seqId \<le> u_readID pud then None
         else Some (pud\<lparr>u_readID := seqId, u_recvID := max (u_recvID pud) seqId\<rparr>, seqId, 0, u_readID pud - seqId))
      else if what = ''recv'' then
        (if seqId \<le> u_recvID pud then None
         else (let recv = max seqId (u_readID pud) in Some (pud\<lparr>u_recvID := recv\<rparr>, 0, recv, 0)))
      else Some (pud, 0, 0, 0))"

definition handleNoteBroadcast :: "nat \<Rightarrow> env \<Rightarrow> world \<Rightarrow> ClientComMessage \<Rightarrow> MsgClientNote \<Rightarrow> world option" where
  "handleNoteBroadcast depth e t msg note =
     (let asUid = ParseUserId (msg_AsUser msg); pud = user_of t asUid; what = note_What note;
          mode = (if u_deleted pud then ModeInvalid else user_mode pud)
      in if isInactive t \<or> note_SeqId note > t_lastID t then Some t
         else
           (case verifyChannelAccess t (msg_Original msg) of
              None \<Rightarrow> Some t
            | Some asChan \<Rightarrow>
                if (what = ''kp'' \<or> what = ''kpa'' \<or> what = ''kpv'') \<and> (\<not> IsWriter mode \<or> isReadOnly t) then Some t
                else if (what = ''read'' \<or> what = ''recv'') \<and> \<not> IsReader mode then Some t
                else if what = ''call'' then handleCallEvent depth e t msg note
                else
                  (case noteCounters what (note_SeqId note) pud of
                     None \<Rightarrow> Some t
                   | Some (pud, read, recv, unread) \<Rightarrow>
                       (let seq = read + recv;
                            topicName = (if asChan then note_Topic note else t_name t);
                            upd = (if recv > 0 then [UpdRecvSeqId recv] else []) @ (if read > 0 then [UpdReadSeqId read] else [])
                        in if seq > 0 \<and> e_SubsUpdate e topicName asUid upd \<noteq> None then Some t
                           else do {
                             sid \<leftarrow> msg_sess msg;
                             t \<leftarrow> (if seq > 0 then do {
                                   t \<leftarrow> presPubMessageCount (put_out (Store (SubsUpdate topicName asUid upd)) t) asUid mode read recv sid;
                                   (let t = (if read > 0 then sendPush (Some (pushForReadRcpt t asUid read (msg_Timestamp msg))) t else t)
                                    in Some (if asChan then t else updateUnread asUid unread t))
                                 } else Some t);
                             (if asChan then Some t
                              else
                                (let t = (if seq > 0 then put_user asUid pud t else t)
                                 in do {
                                   t \<leftarrow> infoSubsOffline t asUid what seq sid;
                                   broadcastToSessions depth e t (empty_ServerComMessage
                                     \<lparr>Info := Some (info0\<lparr>info_Topic := msg_Original msg, info_From := msg_AsUser msg,
                                        info_What := what, info_SeqId := note_SeqId note\<rparr>),
                                      scm_RcptTo := msg_RcptTo msg, scm_AsUser := msg_AsUser msg, scm_Timestamp := msg_Timestamp msg,
                                      scm_SkipSid := sid, scm_sess := Some sid\<rparr>)
                                 }))
                           }))))"

definition handleClientMsg :: "nat \<Rightarrow> env \<Rightarrow> world \<Rightarrow> ClientComMessage \<Rightarrow> world option" where
  "handleClientMsg depth e t msg =
     (if \<not> TenantID_IsZero (msg_TenantID msg) \<and> msg_TenantID msg \<noteq> t_tenantID t then Some t
      else
        (let msg = msg\<lparr>msg_TenantID := t_tenantID t\<rparr>
         in case (cm_Pub msg, cm_Note msg) of
              (Some pub, _) \<Rightarrow> handlePubBroadcast depth e t msg pub
            | (None, Some note) \<Rightarrow> handleNoteBroadcast depth e t msg note
            | _ \<Rightarrow> None))"

definition handlePresence :: "nat \<Rightarrow> env \<Rightarrow> world \<Rightarrow> ServerComMessage \<Rightarrow> MsgServerPres \<Rightarrow> world option" where
  "handlePresence depth e t msg pres =
     do {
       (t, what) \<leftarrow> procPresReq t (pres_Src pres) (pres_What pres) (pres_WantReply pres);
       (if t_xoriginal t \<noteq> pres_Topic pres \<or> what = [] then Some t
        else broadcastToSessions depth e t (msg\<lparr>Pres := Some (pres\<lparr>pres_What := what\<rparr>)\<rparr>))
     }"

definition handleServerMsg :: "nat \<Rightarrow> env \<Rightarrow> world \<Rightarrow> ServerComMessage \<Rightarrow> world option" where
  "handleServerMsg depth e t msg =
     (if \<not> TenantID_IsZero (scm_TenantID msg) \<and> scm_TenantID msg \<noteq> t_tenantID t then Some t
      else if isInactive t then Some t
      else
        (let msg = msg\<lparr>scm_TenantID := t_tenantID t\<rparr>
         in case (Pres msg, Info msg) of
              (Some pres, _) \<Rightarrow> handlePresence depth e t msg pres
            | (None, Some _) \<Rightarrow> broadcastToSessions depth e t msg
            | _ \<Rightarrow> None))"

subsection \<open>Deleting messages\<close>

definition defaultMaxDeleteCount :: int where "defaultMaxDeleteCount = 1024"

text \<open>The checked and clipped ranges with the number of messages in them, up to the first invalid one.\<close>

fun del_ranges :: "int \<Rightarrow> range list \<Rightarrow> int \<Rightarrow> MsgRange list \<Rightarrow> range list \<times> int \<times> bool" where
  "del_ranges lastID ranges n [] = (ranges, n, True)"
| "del_ranges lastID ranges n (dq # dqs) =
     (if LowId dq > lastID \<or> LowId dq < 0 \<or> HiId dq < 0 \<or> (HiId dq > 0 \<and> LowId dq > HiId dq) \<or> (LowId dq = 0 \<and> HiId dq = 0)
      then (ranges, n, False)
      else
        (let hi = (if HiId dq > lastID then lastID + 1
                   else if LowId dq = HiId dq \<or> LowId dq + 1 = HiId dq then 0 else HiId dq)
         in del_ranges lastID (ranges @ [\<lparr>Low = LowId dq, Hi = hi\<rparr>]) (if hi = 0 then n + 1 else n + (hi - LowId dq)) dqs))"

text \<open>\<^verbatim>\<open>sort.Sort(RangeSorter)\<close>: by the low end upwards, then by the high end downwards.\<close>

fun range_insert :: "range \<Rightarrow> range list \<Rightarrow> range list" where
  "range_insert r [] = [r]"
| "range_insert r (s # ss) = (if RangeSorter_Less r s then r # s # ss else s # range_insert r ss)"

definition range_sort :: "range list \<Rightarrow> range list" where
  "range_sort rs = foldr range_insert rs []"

definition checkDelSeq :: "int \<Rightarrow> MsgRange list \<Rightarrow> go_error + range list" where
  "checkDelSeq lastID delSeq =
     (if delSeq = [] then Inl ''del.msg: no IDs to delete''
      else
        (case del_ranges lastID [] 0 delSeq of
           (ranges, n, ok) \<Rightarrow>
             (let ranges = (if ok then Normalize (range_sort ranges) else ranges)
              in if n > defaultMaxDeleteCount \<and> length ranges > 1 then Inl ''del.msg: too many messages to delete''
                 else if \<not> ok then Inl ''del.msg: invalid entry in list''
                 else Inr ranges)))"

definition hard_delete_for :: "int \<Rightarrow> range list \<Rightarrow> uid \<Rightarrow> world \<Rightarrow> world" where
  "hard_delete_for delID ranges u t =
     (let pud = user_of t u; t = put_user u (pud\<lparr>u_delID := delID\<rparr>) t;
          n = calculateUnreadInRanges (u_readID pud) (t_lastID t) ranges
      in if IsReader (user_mode pud) \<and> n > 0 then updateUnread u (- n) t else t)"

definition replyDelMsg :: "env \<Rightarrow> world \<Rightarrow> string \<Rightarrow> uid \<Rightarrow> bool \<Rightarrow> ClientComMessage \<Rightarrow> MsgClientDel \<Rightarrow> unit handled" where
  "replyDelMsg e t sid asUid asChan msg del =
     (let now = e_now e; mode = user_mode (user_of t asUid)
      in if asChan then refuse e t sid (ErrOperationNotAllowedReply msg now) ''channel readers cannot delete messages''
         else if \<not> IsDeleter mode \<and> \<not> IsReader mode
         then refuse e t sid (ErrPermissionDeniedReply msg now) ''del.msg: permission denied''
         else
           (let hard = (del_Hard del \<and> IsDeleter mode)
            in case checkDelSeq (t_lastID t) (del_DelSeq del) of
                 Inl err \<Rightarrow> refuse e t sid (ErrMalformedReply msg now) err
               | Inr ranges \<Rightarrow>
                   (let forUser = (if hard then ZeroUid else asUid); age = (if hard then e_msgDeleteAge e else 0)
                    in case e_DeleteList e (t_delID t + 1) forUser age ranges of
                         Some err \<Rightarrow> refuse e t sid (ErrUnknownReply msg now) err
                       | None \<Rightarrow>
                           (let t = put_out (Store (MessagesDeleteList (t_delID t + 1) forUser age ranges)) t;
                                t = t\<lparr>t_delID := t_delID t + 1\<rparr>;
                                dr = rangeDeserialize ranges
                            in do {
                              t \<leftarrow> (if hard then
                                     (let t = fold (hard_delete_for (t_delID t) ranges) (map fst (t_perUser t)) t;
                                          params = nilPresParams\<lparr>pp_delID := t_delID t, pp_delSeq := dr, pp_actor := UserId asUid\<rparr>;
                                          readers = nilPresFilters\<lparr>filterIn := ModeRead\<rparr>;
                                          t = presSubsOnline t ''del'' (UserId asUid) params readers sid
                                      in presSubsOffline t ''del'' params readers nilPresFilters sid True)
                                   else
                                     (let pud = user_of t asUid; t = put_user asUid (pud\<lparr>u_delID := t_delID t\<rparr>) t
                                      in presPubMessageDelete t asUid (user_mode pud) (t_delID t) dr sid));
                              Some (reply e t (Some sid) (NoErrParamsReply msg now (AMap [(''del'', AInt (t_delID t))])), Inr ())
                            }))))"

end
