(* ===== verification/Frames.thy ===== *)
theory Frames
  imports Broadcast
begin

section \<open>Rules for what a handler keeps\<close>

text \<open>
  Handlers are chains of operations on the state that may panic. To show that a handler relates the
  state before to the state after by a preorder \<open>R\<close>, it is enough that each of its operations does. The
  locale has one rule per construct the handlers are written with; \<open>ends R w t m\<close> says that if \<open>m\<close> returns,
  then \<open>R\<close> relates \<open>t\<close> to the state that \<open>w\<close> takes from the result.
\<close>

definition ends :: "(world \<Rightarrow> world \<Rightarrow> bool) \<Rightarrow> ('a \<Rightarrow> world) \<Rightarrow> world \<Rightarrow> 'a option \<Rightarrow> bool" where
  "ends R w t m \<longleftrightarrow> (\<forall>x. m = Some x \<longrightarrow> R t (w x))"

lemma endsD: "ends R (\<lambda>t. t) t m \<Longrightarrow> m = Some t' \<Longrightarrow> R t t'"
  by (simp add: ends_def)

lemma endsD2: "ends R fst t m \<Longrightarrow> m = Some (t', r) \<Longrightarrow> R t t'"
  by (force simp: ends_def)

lemma endsI: "(\<And>t'. m = Some t' \<Longrightarrow> R t t') \<Longrightarrow> ends R (\<lambda>t. t) t m"
  by (simp add: ends_def)

lemma endsI2: "(\<And>t' r. m = Some (t', r) \<Longrightarrow> R t t') \<Longrightarrow> ends R fst t m"
  by (force simp: ends_def)

lemma ends_if: "(c \<Longrightarrow> ends R w t a) \<Longrightarrow> (\<not> c \<Longrightarrow> ends R w t b) \<Longrightarrow> ends R w t (if c then a else b)"
  by simp

lemma ends_option:
  "(x = None \<Longrightarrow> ends R w t a) \<Longrightarrow> (\<And>y. x = Some y \<Longrightarrow> ends R w t (b y)) \<Longrightarrow>
   ends R w t (case x of None \<Rightarrow> a | Some y \<Rightarrow> b y)"
  by (cases x) simp_all

lemma ends_sum:
  "(\<And>y. x = Inl y \<Longrightarrow> ends R w t (a y)) \<Longrightarrow> (\<And>y. x = Inr y \<Longrightarrow> ends R w t (b y)) \<Longrightarrow>
   ends R w t (case x of Inl y \<Rightarrow> a y | Inr y \<Rightarrow> b y)"
  by (cases x) simp_all

lemma ends_prod: "(\<And>a b. x = (a, b) \<Longrightarrow> ends R w t (f a b)) \<Longrightarrow> ends R w t (case x of (a, b) \<Rightarrow> f a b)"
  by (cases x) simp

lemma ends_bool:
  "(x \<Longrightarrow> ends R w t a) \<Longrightarrow> (\<not> x \<Longrightarrow> ends R w t b) \<Longrightarrow> ends R w t (case x of True \<Rightarrow> a | False \<Rightarrow> b)"
  by (cases x) simp_all

lemma ends_cat:
  "(x = TopicCatMe \<Longrightarrow> ends R w t a) \<Longrightarrow> (x = TopicCatFnd \<Longrightarrow> ends R w t b) \<Longrightarrow> (x = TopicCatP2P \<Longrightarrow> ends R w t c) \<Longrightarrow>
   (x = TopicCatGrp \<Longrightarrow> ends R w t d) \<Longrightarrow> (x = TopicCatSys \<Longrightarrow> ends R w t f) \<Longrightarrow> (x = TopicCatSlf \<Longrightarrow> ends R w t g) \<Longrightarrow>
   ends R w t (case x of TopicCatMe \<Rightarrow> a | TopicCatFnd \<Rightarrow> b | TopicCatP2P \<Rightarrow> c | TopicCatGrp \<Rightarrow> d | TopicCatSys \<Rightarrow> f | TopicCatSlf \<Rightarrow> g)"
  by (cases x) simp_all

lemma ends_None: "ends R w t None"
  by (simp add: ends_def)

lemma ends_map: "ends R (\<lambda>x. w (f x)) t m \<Longrightarrow> ends R w t (map_option f m)"
  by (auto simp: ends_def)

text \<open>The same rules for an arbitrary property of the result.\<close>

definition post :: "('a \<Rightarrow> bool) \<Rightarrow> 'a option \<Rightarrow> bool" where
  "post Q m \<longleftrightarrow> (\<forall>x. m = Some x \<longrightarrow> Q x)"

lemma postD: "post Q m \<Longrightarrow> m = Some x \<Longrightarrow> Q x"
  by (simp add: post_def)

lemma post_None: "post Q None"
  by (simp add: post_def)

lemma post_some: "Q x \<Longrightarrow> post Q (Some x)"
  by (simp add: post_def)

lemma post_if: "(c \<Longrightarrow> post Q a) \<Longrightarrow> (\<not> c \<Longrightarrow> post Q b) \<Longrightarrow> post Q (if c then a else b)"
  by simp

lemma post_option:
  "(x = None \<Longrightarrow> post Q a) \<Longrightarrow> (\<And>y. x = Some y \<Longrightarrow> post Q (b y)) \<Longrightarrow> post Q (case x of None \<Rightarrow> a | Some y \<Rightarrow> b y)"
  by (cases x) simp_all

lemma post_sum:
  "(\<And>y. x = Inl y \<Longrightarrow> post Q (a y)) \<Longrightarrow> (\<And>y. x = Inr y \<Longrightarrow> post Q (b y)) \<Longrightarrow>
   post Q (case x of Inl y \<Rightarrow> a y | Inr y \<Rightarrow> b y)"
  by (cases x) simp_all

lemma post_prod: "(\<And>a b. x = (a, b) \<Longrightarrow> post Q (f a b)) \<Longrightarrow> post Q (case x of (a, b) \<Rightarrow> f a b)"
  by (cases x) simp

lemma post_bind_pair: "(\<And>a b. m = Some (a, b) \<Longrightarrow> post Q (f a b)) \<Longrightarrow> post Q (m \<bind> (\<lambda>(a, b). f a b))"
  by (cases m) (auto simp: post_def)

lemma post_bind: "(\<And>x. m = Some x \<Longrightarrow> post Q (f x)) \<Longrightarrow> post Q (m \<bind> f)"
  by (cases m) (auto simp: post_def)

lemma post_let: "(\<And>x. x = v \<Longrightarrow> post Q (f x)) \<Longrightarrow> post Q (let x = v in f x)"
  by simp

lemmas post_rules = post_None post_some post_if post_option post_sum post_bind_pair post_bind post_let post_prod

locale frame =
  fixes R :: "world \<Rightarrow> world \<Rightarrow> bool"
  assumes refl: "R t t" and trans: "R t t1 \<Longrightarrow> R t1 t2 \<Longrightarrow> R t t2"
begin

lemma some: "R t (w x) \<Longrightarrow> ends R w t (Some x)"
  by (simp add: ends_def)

lemma bind_world:
  "ends R (\<lambda>t. t) t m \<Longrightarrow> (\<And>t1. m = Some t1 \<Longrightarrow> R t t1 \<Longrightarrow> ends R w t1 (f t1)) \<Longrightarrow> ends R w t (m \<bind> f)"
  by (cases m) (auto simp: ends_def intro: trans)

lemma bind_pair:
  "ends R fst t m \<Longrightarrow> (\<And>t1 r. m = Some (t1, r) \<Longrightarrow> R t t1 \<Longrightarrow> ends R w t1 (f t1 r)) \<Longrightarrow>
   ends R w t (m \<bind> (\<lambda>(t1, r). f t1 r))"
  by (cases m) (auto simp: ends_def intro: trans)

lemma bind_value: "(\<And>x. m = Some x \<Longrightarrow> ends R w t (f x)) \<Longrightarrow> ends R w t (m \<bind> f)"
  by (cases m) (auto simp: ends_def)

lemma let_world: "R t v \<Longrightarrow> (\<And>t1. t1 = v \<Longrightarrow> R t t1 \<Longrightarrow> ends R w t1 (f t1)) \<Longrightarrow> ends R w t (let x = v in f x)"
  by (auto simp: ends_def intro: trans)

lemma let_value: "(\<And>x. x = v \<Longrightarrow> ends R w t (f x)) \<Longrightarrow> ends R w t (let x = v in f x)"
  by simp

lemma after: "R t t1 \<Longrightarrow> ends R w t1 m \<Longrightarrow> ends R w t m"
  by (auto simp: ends_def intro: trans)

lemma if_world: "(c \<Longrightarrow> R t a) \<Longrightarrow> (\<not> c \<Longrightarrow> R t b) \<Longrightarrow> R t (if c then a else b)"
  by simp

lemma folded: "(\<And>x t. R t (f x t)) \<Longrightarrow> R t (fold f xs t)"
  by (induction xs arbitrary: t) (auto intro: refl trans)

lemmas rules = ends_None some ends_if ends_option ends_sum ends_bool ends_cat bind_world bind_pair bind_value let_world let_value
  ends_prod

end

interpretation qm: frame quiet_me
  by unfold_locales (auto intro: quiet_me_trans)

interpretation qt: frame quiet
  by unfold_locales (auto intro: quiet_trans)

lemma quiet_me_ends:
  "ends quiet_me (\<lambda>t. t) t (presSubsOffline t what params fs ft skip oo)"
  "ends quiet_me (\<lambda>t. t) t (presSingleUserOffline t u mode what params skip oo)"
  "ends quiet_me (\<lambda>t. t) t (presSubsOnlineDirect e t what params flt skip)"
  "ends quiet_me (\<lambda>t. t) t (presUsersOfInterest t what ua)"
  "ends quiet_me (\<lambda>t. t) t (infoSubsOffline t u what seq skip)"
  "ends quiet_me (\<lambda>t. t) t (presPubMessageCount t u mode read recv skip)"
  "ends quiet_me (\<lambda>t. t) t (presPubMessageDelete t u mode delID rs skip)"
  "ends quiet_me (\<lambda>t. t) t (infoCallSubsOffline t frm u event seq sdp skip oo)"
  by (auto intro!: endsI intro: quiet_imp_me dest: quiet_presSubsOffline quiet_presSingleUserOffline quiet_presSubsOnlineDirect
      quiet_presUsersOfInterest quiet_infoSubsOffline quiet_presPubMessageCount quiet_presPubMessageDelete quiet_infoCall)

lemma quiet_me_notifySubChange:
  "ends quiet_me (\<lambda>t. t) t (notifySubChange e t u actor isChan ow og nw ng skip)"
  unfolding notifySubChange_def
  by (intro qm.rules quiet_me_ends qm.if_world) (simp_all add: quiet_imp_me)

end
