(* ===== verification/TopicInv.thy ===== *)
theory TopicInv
  imports Frames
begin

section \<open>Invariants of a topic\<close>

text \<open>
  What every handler of a topic keeps: the stored messages are numbered without gaps, the counters of
  every user stay within bounds, and the owner keeps the owner permission. The relation \<open>good\<close> collects
  these for one handler, and each handler has its lemma.
\<close>

lemma put_out_fields [simp]:
  "t_name (put_out x t) = t_name t" "t_cat (put_out x t) = t_cat t" "t_lastID (put_out x t) = t_lastID t"
  "t_delID (put_out x t) = t_delID t" "t_owner (put_out x t) = t_owner t" "t_sessions (put_out x t) = t_sessions t"
  "t_currentCall (put_out x t) = t_currentCall t" "t_status (put_out x t) = t_status t" "t_isChan (put_out x t) = t_isChan t"
  "w_sess (put_out x t) = w_sess t" "t_tenantID (put_out x t) = t_tenantID t" "t_xoriginal (put_out x t) = t_xoriginal t"
  "t_perUser (put_out x t) = t_perUser t" "user_of (put_out x t) u = user_of t u"
  by (simp_all add: put_out_def user_of_def)

definition user_ok :: "int \<Rightarrow> int \<Rightarrow> topic_user \<Rightarrow> bool" where
  "user_ok lastID delID p \<longleftrightarrow>
     0 \<le> u_readID p \<and> u_readID p \<le> u_recvID p \<and> u_recvID p \<le> lastID \<and> 0 \<le> u_delID p \<and> u_delID p \<le> delID"

definition ids_ok :: "world \<Rightarrow> bool" where
  "ids_ok t \<longleftrightarrow> 0 \<le> t_lastID t \<and> 0 \<le> t_delID t \<and> (\<forall>u. user_ok (t_lastID t) (t_delID t) (user_of t u))"

definition owns :: "topic_user \<Rightarrow> bool" where
  "owns p \<longleftrightarrow> IsOwner (u_modeGiven p) \<and> IsOwner (u_modeWant p) \<and> \<not> u_deleted p \<and> \<not> u_isChan p"

text \<open>In a group that is no channel nobody is a channel reader, and the owner, if any, owns.\<close>

definition owner_ok :: "world \<Rightarrow> bool" where
  "owner_ok t \<longleftrightarrow> (\<forall>u. \<not> u_isChan (user_of t u)) \<and> (t_owner t = ZeroUid \<or> owns (user_of t (t_owner t)))"

definition plain_group :: "world \<Rightarrow> bool" where
  "plain_group t \<longleftrightarrow> t_cat t = TopicCatGrp \<and> \<not> t_isChan t"

definition advances :: "world \<Rightarrow> world \<Rightarrow> bool" where
  "advances t t' \<longleftrightarrow> t_lastID t \<le> t_lastID t' \<and> saves t' = saves t @ [t_lastID t + 1..t_lastID t']"

definition good :: "world \<Rightarrow> world \<Rightarrow> bool" where
  "good t t' \<longleftrightarrow> advances t t' \<and> t_delID t \<le> t_delID t' \<and> t_cat t' = t_cat t \<and> t_isChan t' = t_isChan t \<and>
     (ids_ok t \<longrightarrow> ids_ok t')"

text \<open>The same with the owner kept.\<close>

definition safe :: "world \<Rightarrow> world \<Rightarrow> bool" where
  "safe t t' \<longleftrightarrow> good t t' \<and> t_owner t' = t_owner t \<and> (plain_group t \<and> owner_ok t \<longrightarrow> owner_ok t')"

lemma upto_append: "a \<le> b \<Longrightarrow> b \<le> c \<Longrightarrow> [a + 1..b] @ [b + 1..c] = [a + 1..c]" for a b c :: int
  using upto_split2 [of "a + 1" b c] by (cases "a = b") simp_all

lemma advances_refl [simp]: "advances t t"
  by (simp add: advances_def)

lemma advances_trans: "advances t t1 \<Longrightarrow> advances t1 t2 \<Longrightarrow> advances t t2"
  by (auto simp: advances_def upto_append)

lemma good_refl [simp]: "good t t"
  by (simp add: good_def)

lemma good_trans [trans]: "good t t1 \<Longrightarrow> good t1 t2 \<Longrightarrow> good t t2"
  unfolding good_def using advances_trans by auto

lemma safe_refl [simp]: "safe t t"
  by (simp add: safe_def)

lemma safe_trans [trans]: "safe t t1 \<Longrightarrow> safe t1 t2 \<Longrightarrow> safe t t2"
  unfolding safe_def plain_group_def using good_trans by (auto simp: good_def)

lemma safe_good: "safe t t' \<Longrightarrow> good t t'"
  by (simp add: safe_def)

lemma same_users_safe:
  assumes "t_perUser t' = t_perUser t" "t_lastID t' = t_lastID t" "t_delID t' = t_delID t" "t_owner t' = t_owner t"
    "t_cat t' = t_cat t" "t_isChan t' = t_isChan t" "saves t' = saves t"
  shows "safe t t'"
proof -
  have "user_of t' = user_of t" using assms(1) by (simp add: user_of_def fun_eq_iff)
  then show ?thesis using assms
    by (simp add: safe_def good_def advances_def ids_ok_def owner_ok_def)
qed

lemma quiet_safe: "quiet t t' \<Longrightarrow> safe t t'"
  by (rule same_users_safe) (simp_all add: quietD)

lemma quiet_me_safe: "quiet_me t t' \<Longrightarrow> safe t t'"
  by (rule same_users_safe) (simp_all add: quiet_meD)

text \<open>Changing one user's entry, or removing a user who is not the owner.\<close>

lemma put_user_safe:
  assumes "ids_ok t \<Longrightarrow> user_ok (t_lastID t) (t_delID t) p"
    and "plain_group t \<Longrightarrow> owner_ok t \<Longrightarrow> \<not> u_isChan p"
    and "plain_group t \<Longrightarrow> owner_ok t \<Longrightarrow> u = t_owner t \<Longrightarrow> u \<noteq> ZeroUid \<Longrightarrow> owns (user_of t u) \<Longrightarrow> owns p"
  shows "safe t (put_user u p t)"
  using assms by (auto simp: safe_def good_def advances_def ids_ok_def owner_ok_def)

lemma put_user_good:
  assumes "ids_ok t \<Longrightarrow> user_ok (t_lastID t) (t_delID t) p"
  shows "good t (put_user u p t)"
  using assms by (auto simp: good_def advances_def ids_ok_def)

lemma user_ok0: "0 \<le> l \<Longrightarrow> 0 \<le> d \<Longrightarrow> user_ok l d user0"
  by (simp add: user_ok_def user0_def)

lemma del_user_safe:
  assumes "plain_group t \<Longrightarrow> u \<noteq> t_owner t \<or> \<not> owns (user_of t u) \<or> t_owner t = ZeroUid"
  shows "safe t (del_user u t)"
  using assms by (auto simp: safe_def good_def advances_def ids_ok_def owner_ok_def user_ok0) (simp_all add: user0_def)

lemma ids_okD: "ids_ok t \<Longrightarrow> user_ok (t_lastID t) (t_delID t) (user_of t u)"
  by (simp add: ids_ok_def)

lemma safe_sends:
  "save_of x = [] \<Longrightarrow> safe t (put_out x t)" "safe t (reply e t s m)" "safe t (sendPush r t)"
  "safe t (channelSubUnsub t u b)" "safe t (presSubsOnline t what src params flt skip)"
  "safe t (presSingleUserOfflineOffline tid u src what params skip t)" "safe t (detachSession t sid)"
  "safe t (updateUnread u n t)"
  by (simp_all add: quiet_safe updateUnread_def)

lemma union_safe: "safe t (computePerUserAcsUnion t)"
  by (rule same_users_safe) simp_all

lemma safe_fields:
  "safe t (markLoaded t)" "safe t (markPaused t b)"
  "safe t (t\<lparr>t_status := st\<rparr>)" "safe t (t\<lparr>t_subCnt := k\<rparr>)" "safe t (t\<lparr>t_currentCall := c\<rparr>)"
  "safe t (t\<lparr>t_sessions := ss\<rparr>)" "safe t (t\<lparr>w_sess := h\<rparr>)" "safe t (t\<lparr>t_public := v\<rparr>)"
  by (rule same_users_safe; simp add: markLoaded_def markPaused_def statusChangeBits_def saves_def)+

lemma safe_addToPerSubs: "safe t (addToPerSubs t topic b1 b2)"
  by (simp add: quiet_me_safe)

lemmas safe_chain [simp] =
  safe_trans [OF _ safe_sends(1)] safe_trans [OF _ safe_sends(2)] safe_trans [OF _ safe_sends(3)] safe_trans [OF _ safe_sends(4)]
  safe_trans [OF _ safe_sends(5)] safe_trans [OF _ safe_sends(6)] safe_trans [OF _ safe_sends(7)] safe_trans [OF _ safe_sends(8)]
  safe_trans [OF _ safe_fields(1)] safe_trans [OF _ safe_fields(2)] safe_trans [OF _ safe_fields(3)] safe_trans [OF _ safe_fields(4)]
  safe_trans [OF _ safe_fields(5)] safe_trans [OF _ safe_fields(6)] safe_trans [OF _ safe_fields(7)] safe_trans [OF _ safe_fields(8)]
  safe_trans [OF _ union_safe] safe_trans [OF _ safe_addToPerSubs]

lemmas out_safe = safe_sends(1)
lemmas reply_safe = safe_sends(2)

interpretation sf: frame safe
  by unfold_locales (auto intro: safe_trans)

interpretation gd: frame good
  by unfold_locales (auto intro: good_trans)

lemma ends_safe: "ends quiet_me w t m \<Longrightarrow> ends safe w t m"
  by (simp add: ends_def quiet_me_safe)

lemma ends_good: "ends safe w t m \<Longrightarrow> ends good w t m"
  by (simp add: ends_def safe_good)

lemmas quiet_me_all = quiet_me_ends quiet_me_notifySubChange
lemmas safe_ends = quiet_me_all [THEN ends_safe]
lemmas good_ends = safe_ends [THEN ends_good]

subsection \<open>Evictions\<close>

lemma remSession_safe: "remSession t sid u = (t', p, r) \<Longrightarrow> safe t t'"
  by (auto simp: remSession_def Let_def split: option.splits if_splits)

lemma evict_loop_safe: "safe t (evict_loop e u skip msg ss t)"
proof (induction ss arbitrary: t msg)
  case (Cons s ss)
  obtain t1 p r where rem: "remSession t s u = (t1, p, r)" by (cases "remSession t s u")
  have d: "safe t1 (detachSession t1 s)" by (simp add: quiet_safe)
  have "safe t1 (evict_loop e u skip msg ss t1)" for msg by (rule Cons.IH)
  moreover have "safe t1 (evict_loop e u skip msg ss (detachSession t1 s))" for msg
    using safe_trans [OF d Cons.IH] .
  moreover have "safe t1 (evict_loop e u skip msg ss (reply e t1 (Some s) m))" for msg m
    using safe_trans [OF reply_safe Cons.IH] .
  moreover have "safe t1 (evict_loop e u skip msg ss (reply e (detachSession t1 s) (Some s) m))" for msg m
    using safe_trans [OF d safe_trans [OF reply_safe Cons.IH]] .
  ultimately show ?case using rem remSession_safe [OF rem]
    by (auto simp: Let_def split: option.split intro: safe_trans)
qed simp

definition may_evict :: "world \<Rightarrow> uid \<Rightarrow> bool \<Rightarrow> bool" where
  "may_evict t u unsub \<longleftrightarrow> (plain_group t \<and> unsub \<longrightarrow> u \<noteq> t_owner t \<or> \<not> owns (user_of t u) \<or> t_owner t = ZeroUid)"

lemma put_user_online:
  "safe t (put_user u ((user_of t u)\<lparr>u_online := n\<rparr>) t)"
  by (rule put_user_safe) (auto dest: ids_okD [of _ u] simp: user_ok_def owns_def owner_ok_def)

lemma evictUser_safe:
  assumes "may_evict t u unsub"
  shows "ends safe (\<lambda>t. t) t (evictUser e t u unsub skip)"
proof -
  have del: "plain_group t \<Longrightarrow> unsub \<or> u_isChan (user_of t u) \<Longrightarrow>
      u \<noteq> t_owner t \<or> \<not> owns (user_of t u) \<or> t_owner t = ZeroUid"
    using assms by (auto simp: may_evict_def owns_def)
  have p2p: "safe t (put_user u ((user_of t u)\<lparr>u_online := 0, u_deleted := True\<rparr>) t)" if "t_cat t = TopicCatP2P"
    by (rule put_user_safe) (use that in \<open>auto dest: ids_okD [of _ u] simp: user_ok_def plain_group_def\<close>)
  have grp: "safe t (computePerUserAcsUnion (del_user u t))" if "unsub"
    using that del by (intro safe_trans [OF del_user_safe union_safe]) blast
  show ?thesis
    unfolding evictUser_def
    apply (intro sf.rules evict_loop_safe sf.if_world)
    subgoal using p2p by simp
    subgoal using grp by (auto simp: Let_def)
    subgoal by simp
    subgoal using del_user_safe [OF del] by simp
    subgoal using put_user_online by simp
    by simp
qed

subsection \<open>Own subscription\<close>

lemma refuse_safe: "ends safe fst t (refuse e t sid msg err)"
  by (simp add: refuse_def ends_def)

lemma refuse_result [simp]: "refuse e t sid msg err = Some (t', Inr v) \<longleftrightarrow> False"
  by (simp add: refuse_def)

lemma newUserData_safe: "ends safe fst t (newUserData e t sid pkt asUid asChan modeWant)"
  unfolding newUserData_def
  by (intro sf.rules refuse_safe) simp_all

lemma saveNewSub_safe: "ends safe fst t (saveNewSub e t sid pkt asUid asChan ud sub tname oldWant)"
  unfolding saveNewSub_def Let_def
  by (intro sf.rules refuse_safe) simp_all

lemma newSubscription_safe: "ends safe fst t (newSubscription e t sid pkt asUid asChan modeWant private)"
  unfolding newSubscription_def
  by (intro sf.rules refuse_safe newUserData_safe saveNewSub_safe) simp_all

lemma checkWant_safe: "ends safe fst t (checkWant e t sid pkt asUid ud modeWant)"
  unfolding checkWant_def
  by (intro sf.rules refuse_safe) simp_all

lemma refuse_post: "(\<And>t. Q (t, Inl err)) \<Longrightarrow> post Q (refuse e t sid msg err)"
  by (simp add: refuse_def post_def)

lemma newUserData_user:
  "post (\<lambda>(t', r). \<forall>ud sub tname ow og. r = Inr (ud, sub, tname, ow, og) \<longrightarrow>
      u_readID ud = u_readID (user_of t asUid) \<and> u_recvID ud = u_recvID (user_of t asUid) \<and>
      u_delID ud = u_delID (user_of t asUid) \<and> u_deleted ud = u_deleted (user_of t asUid) \<and>
      (\<not> asChan \<longrightarrow> u_isChan ud = u_isChan (user_of t asUid)))
    (newUserData e t sid pkt asUid asChan modeWant)"
  unfolding newUserData_def by (intro post_rules refuse_post) auto

text \<open>
  What a subscription request establishes before the new entry of the user is put in place: the entry
  has valid counters and, in a plain group, it or someone else's entry owns the topic.
\<close>

definition sub_post :: "world \<Rightarrow> uid \<Rightarrow> bool \<Rightarrow> world \<Rightarrow> topic_user \<Rightarrow> bool" where
  "sub_post t asUid asChan t1 ud \<longleftrightarrow> good t t1 \<and> t_lastID t1 = t_lastID t \<and> t_delID t1 = t_delID t \<and>
     (ids_ok t \<longrightarrow> user_ok (t_lastID t) (t_delID t) ud) \<and>
     (plain_group t \<and> owner_ok t \<and> \<not> asChan \<longrightarrow>
        \<not> u_isChan ud \<and> (\<forall>u. \<not> u_isChan (user_of t1 u)) \<and>
        (t_owner t1 = ZeroUid \<or> (if t_owner t1 = asUid then owns ud else owns (user_of t1 (t_owner t1)))))"

definition kept :: "world \<Rightarrow> world \<Rightarrow> bool" where
  "kept t t' \<longleftrightarrow> good t t' \<and> (plain_group t \<and> owner_ok t \<longrightarrow> owner_ok t')"

lemma kept_refl [simp]: "kept t t"
  by (simp add: kept_def)

lemma kept_trans: "kept t t1 \<Longrightarrow> kept t1 t2 \<Longrightarrow> kept t t2"
  unfolding kept_def plain_group_def using good_trans by (auto simp: good_def)

lemma safe_kept: "safe t t' \<Longrightarrow> kept t t'"
  by (simp add: safe_def kept_def)

interpretation kp: frame kept
  by unfold_locales (auto intro: kept_trans)

lemma ends_kept: "ends safe w t m \<Longrightarrow> ends kept w t m"
  by (simp add: ends_def safe_kept)

lemma safe_users:
  assumes "quiet_me t t'"
  shows "user_of t' u = user_of t u"
  using assms by (simp add: user_of_def quiet_meD)

lemma quiet_newUserData: "ends quiet fst t (newUserData e t sid pkt asUid asChan modeWant)"
  unfolding newUserData_def refuse_def by (intro qt.rules) simp_all

lemma quiet_out2: "quiet t t1 \<Longrightarrow> save_of x = [] \<Longrightarrow> quiet t (put_out x t1)"
  by (rule quiet_trans [OF _ quiet_put_out])

lemma quiet_saveNewSub: "ends quiet fst t (saveNewSub e t sid pkt asUid asChan ud sub tname oldWant)"
  unfolding saveNewSub_def refuse_def channelSubUnsub_def Let_def by (intro qt.rules) (simp_all add: quiet_out2)

lemma newSubscription_post:
  assumes new: "map_of (t_perUser t) asUid = None \<or> u_deleted (user_of t asUid)"
  shows "post (\<lambda>(t1, r). \<forall>ud ow og. r = Inr (ud, ow, og) \<longrightarrow> sub_post t asUid asChan t1 ud)
    (newSubscription e t sid pkt asUid asChan modeWant private)"
proof -
  have *: "sub_post t asUid asChan t1 (revive ud0 private)"
    if n: "newUserData e t sid pkt asUid asChan modeWant = Some (t2, Inr (ud0, sub, tname, ow, og))"
      and s: "saveNewSub e t2 sid pkt asUid asChan (revive ud0 private) sub tname ow = Some (t1, r)"
    for t1 t2 ud0 sub tname ow og r
  proof -
    have q: "quiet t t1"
      using endsD2 [OF quiet_newUserData n] endsD2 [OF quiet_saveNewSub s] by (rule quiet_trans)
    note c = postD [OF newUserData_user n]
    have "user_ok (t_lastID t) (t_delID t) (revive ud0 private)" if "ids_ok t"
      using ids_okD [OF that, of asUid] that c by (auto simp: revive_def user_ok_def ids_ok_def)
    moreover have "\<not> u_isChan (revive ud0 private)" if "owner_ok t" "\<not> asChan"
      using c that by (auto simp: revive_def owner_ok_def)
    moreover have "asUid \<noteq> t_owner t \<or> t_owner t = ZeroUid" if "owner_ok t"
    proof (rule ccontr)
      assume "\<not> (asUid \<noteq> t_owner t \<or> t_owner t = ZeroUid)"
      with that have "owns (user_of t asUid)" by (auto simp: owner_ok_def)
      with new show False by (auto simp: owns_def user_of_def user0_def IsOwner_def)
    qed
    ultimately show ?thesis
      using safe_good [OF quiet_safe [OF q]] quietD [OF q] user_of_quiet [OF q]
      by (auto simp: sub_post_def owner_ok_def)
  qed
  show ?thesis
    unfolding newSubscription_def
    by (intro post_rules refuse_post) (auto split: sum.splits unit.splits intro: *)
qed

lemma IsOwner_or [simp]: "IsOwner (a OR b) \<longleftrightarrow> IsOwner a \<or> IsOwner b"
  by (simp add: mode_bits bit_simps)

lemma checkWant_post:
  "post (\<lambda>(t1, r). quiet t t1 \<and> (\<forall>g w oc. r = Inr (g, w, oc) \<longrightarrow>
      (IsOwner (u_modeGiven ud) \<longrightarrow> IsOwner g) \<and> (plain_group t \<longrightarrow> w = modeWant) \<and>
      (t_owner t = asUid \<longrightarrow> IsOwner modeWant) \<and>
      (oc \<longrightarrow> IsOwner g \<and> IsOwner modeWant \<and> \<not> IsOwner (u_modeWant ud))))
    (checkWant e t sid pkt asUid ud modeWant)"
  unfolding checkWant_def refuse_def by (intro post_rules) (auto simp: plain_group_def)

lemma owner_field_good [simp]: "good t (t\<lparr>t_owner := u\<rparr>)"
proof -
  have "user_of (t\<lparr>t_owner := u\<rparr>) = user_of t" by (simp add: user_of_def fun_eq_iff)
  then show ?thesis by (simp add: good_def advances_def ids_ok_def saves_def)
qed

definition disowned :: "topic_user \<Rightarrow> topic_user" where
  "disowned p = p\<lparr>u_modeGiven := u_modeGiven p AND NOT ModeOwner, u_modeWant := u_modeWant p AND NOT ModeOwner\<rparr>"

lemma takeOwnership_post:
  "post (\<lambda>(t1, r). good t t1 \<and> t_lastID t1 = t_lastID t \<and> t_delID t1 = t_delID t \<and>
      (case r of Inl _ \<Rightarrow> safe t t1
       | Inr _ \<Rightarrow> t_owner t1 = asUid \<and> (\<forall>v. user_of t1 v = (if v = t_owner t then disowned (user_of t v) else user_of t v))))
    (takeOwnership e t asUid)"
proof -
  define t2 where "t2 = put_user (t_owner t) (disowned (user_of t (t_owner t)))
    (put_out (Store (TopicsOwnerChange asUid)) (put_out (Store (SubsUpdate (t_name t) (t_owner t)
      [UpdModeWant (u_modeWant (disowned (user_of t (t_owner t)))), UpdModeGiven (u_modeGiven (disowned (user_of t (t_owner t))))])) t))"
  have "quiet t (put_out (Store (TopicsOwnerChange asUid)) (put_out (Store (SubsUpdate n o' us)) t))" for n o' us
    by (simp add: quiet_out2)
  note q = this
  have g2: "good t t2"
    unfolding t2_def by (rule good_trans [OF safe_good [OF quiet_safe [OF q]] put_user_good])
      (use q in \<open>auto dest!: ids_okD [of _ "t_owner t"] simp: user_ok_def disowned_def user_of_quiet [OF q]\<close>)
  have f2: "t_lastID t2 = t_lastID t" "t_delID t2 = t_delID t"
    "user_of t2 v = (if v = t_owner t then disowned (user_of t v) else user_of t v)" for v
    by (simp_all add: t2_def quietD [OF q] user_of_quiet [OF q])
  have n: "good t (t3\<lparr>t_owner := asUid\<rparr>) \<and> t_lastID t3 = t_lastID t \<and> t_delID t3 = t_delID t \<and>
      (\<forall>v. user_of (t3\<lparr>t_owner := asUid\<rparr>) v = (if v = t_owner t then disowned (user_of t v) else user_of t v))"
    if "notifySubChange e t2 a b c ow og nw ng [] = Some t3" for t3 a b c ow og nw ng
  proof -
    have qm: "quiet_me t2 t3" using endsD [OF quiet_me_notifySubChange that] .
    have "good t t3" using good_trans [OF g2 safe_good [OF quiet_me_safe [OF qm]]] .
    then have "good t (t3\<lparr>t_owner := asUid\<rparr>)" using good_trans owner_field_good by blast
    moreover have "user_of (t3\<lparr>t_owner := asUid\<rparr>) v = user_of t3 v" for v by (simp add: user_of_def)
    ultimately show ?thesis using f2 quiet_meD(5,6) [OF qm] safe_users [OF qm] by simp
  qed
  show ?thesis
    unfolding takeOwnership_def Let_def disowned_def [symmetric]
    by (intro post_rules) (auto simp: safe_good t2_def [symmetric] dest!: n)
qed

lemma update_core:
  assumes "quiet t t1" "\<not> u_deleted (user_of t asUid)"
    and ud: "ud = (user_of t asUid)\<lparr>u_modeGiven := g, u_modeWant := w, u_private := priv\<rparr>"
    and own: "plain_group t \<Longrightarrow> t_owner t = asUid \<Longrightarrow> owns (user_of t asUid) \<Longrightarrow> IsOwner g \<and> IsOwner w"
  shows "sub_post t asUid asChan t1 ud"
proof -
  have "user_ok (t_lastID t) (t_delID t) ud" if "ids_ok t"
    using ids_okD [OF that, of asUid] by (simp add: ud user_ok_def)
  then show ?thesis
    using assms safe_good [OF quiet_safe [OF assms(1)]] quietD [OF assms(1)] user_of_quiet [OF assms(1)]
    by (auto simp: sub_post_def owner_ok_def owns_def)
qed

lemma ownership_core:
  assumes q: "quiet t t2" and del: "\<not> u_deleted (user_of t asUid)"
    and ud: "ud = (user_of t asUid)\<lparr>u_modeGiven := g, u_modeWant := w, u_private := priv\<rparr>"
    and own: "plain_group t \<Longrightarrow> IsOwner g \<and> IsOwner w" "\<not> IsOwner (u_modeWant (user_of t asUid))"
    and take: "takeOwnership e t2 asUid = Some (t1, Inr ())"
  shows "sub_post t asUid asChan t1 ud"
proof -
  note k = postD [OF takeOwnership_post take, simplified]
  have "user_ok (t_lastID t) (t_delID t) ud" if "ids_ok t"
    using ids_okD [OF that, of asUid] by (simp add: ud user_ok_def)
  moreover have "good t t1" using good_trans [OF safe_good [OF quiet_safe [OF q]]] k by simp
  moreover have "\<not> u_isChan (user_of t1 u)" if "owner_ok t" for u
    using k that user_of_quiet [OF q] by (auto simp: owner_ok_def disowned_def)
  moreover have "\<not> u_isChan ud" if "owner_ok t" using that by (simp add: ud owner_ok_def)
  moreover have "owns ud" if "plain_group t" "owner_ok t"
    using that own(1) del by (simp add: ud owns_def owner_ok_def)
  moreover have "t_owner t1 = asUid" "t_lastID t1 = t_lastID t" "t_delID t1 = t_delID t"
    using k quietD(5,6) [OF q] by simp_all
  ultimately show ?thesis by (simp add: sub_post_def)
qed

lemma unset_no_owner: "\<not> IsOwner ModeUnset"
  by code_simp

lemma updateSubscription_post:
  assumes del: "\<not> u_deleted (user_of t asUid)"
  shows "post (\<lambda>(t1, r). \<forall>ud ow og. r = Inr (ud, ow, og) \<longrightarrow> sub_post t asUid asChan t1 ud)
    (updateSubscription e t sid pkt asUid asChan modeWant private)"
proof -
  let ?ud = "user_of t asUid"
  let ?check = "if modeWant \<noteq> ModeUnset then checkWant e t sid pkt asUid ?ud modeWant
    else Some (t, Inr (u_modeGiven ?ud, ModeUnset, False))"
  have chk: "quiet t t2 \<and> (IsOwner (u_modeGiven ?ud) \<longrightarrow> IsOwner g) \<and>
      (plain_group t \<longrightarrow> t_owner t = asUid \<longrightarrow> w \<noteq> ModeUnset \<longrightarrow> IsOwner w) \<and>
      (oc \<longrightarrow> \<not> IsOwner (u_modeWant ?ud) \<and> IsOwner g \<and> (plain_group t \<longrightarrow> IsOwner w))"
    if "?check = Some (t2, Inr (g, w, oc))" for t2 g w oc
    using that postD [OF checkWant_post, of e t sid pkt asUid ?ud modeWant] by (auto split: if_splits)
  define wants where "wants w g want \<longleftrightarrow> (if w = ModeUnset then
      (if \<not> IsJoiner (u_modeWant ?ud) then \<exists>m. want = g OR m else want = u_modeWant ?ud) else want = w)" for w g want
  have wants: "wants w g want" if "(if w = ModeUnset then if \<not> IsJoiner oldWant then map_option ((OR) g) a else Some oldWant else Some w)
      = Some want" "oldWant = u_modeWant ?ud" for w g want a oldWant
    using that by (auto simp: wants_def split: if_splits)
  have keep: "sub_post t asUid asChan t1 ud'"
    if "?check = Some (t2, Inr (g, w, False))" "wants w g want" "quiet t2 t1"
      "ud' = ?ud\<lparr>u_modeGiven := g, u_modeWant := want, u_private := p\<rparr>" for t1 t2 g w want p ud'
  proof (rule update_core [OF _ del that(4)])
    show "quiet t t1" using chk [OF that(1)] that(3) quiet_trans by blast
    show "IsOwner g \<and> IsOwner want" if "plain_group t" "t_owner t = asUid" "owns ?ud"
      using that \<open>wants w g want\<close> chk [OF \<open>?check = Some _\<close>] by (auto simp: wants_def owns_def split: if_splits)
  qed
  have take: "sub_post t asUid asChan t1 ud'"
    if "?check = Some (t2, Inr (g, w, True))" "wants w g want" "quiet t2 t3" "takeOwnership e t3 asUid = Some (t1, Inr ())"
    "ud' = ?ud\<lparr>u_modeGiven := g, u_modeWant := want, u_private := p\<rparr>" for t1 t2 t3 g w want p ud'
  proof (rule ownership_core [OF _ del that(5) _ _ that(4)])
    show "quiet t t3" using chk [OF that(1)] that(3) quiet_trans by blast
    show "\<not> IsOwner (u_modeWant ?ud)" using chk [OF that(1)] by simp
    show "IsOwner g \<and> IsOwner want" if "plain_group t"
      using that \<open>wants w g want\<close> chk [OF \<open>?check = Some _\<close>] by (auto simp: wants_def unset_no_owner split: if_splits)
  qed
  have q: "quiet t1 (if b then t1 else put_out (PluginSub s w) (put_out (Store (SubsUpdate n u us)) t1))" for t1 b s w n u us
    by (simp add: quiet_out2)
  show ?thesis
    unfolding updateSubscription_def
    apply (intro post_rules refuse_post)
    apply (simp_all (no_asm))
    subgoal premises p for ud now oldWant oldGiven t2 r v given v' w oc want upd ud' sub t1
    proof (rule keep)
      show "?check = Some (t2, Inr (given, w, False))" using p(6-9,16) unfolding p(1,3,4) by simp
      show "wants w given want" by (rule wants [OF p(10)]) (simp add: p(1,3))
      show "quiet t2 t1" unfolding p(15) by (rule q)
      show "ud' = ?ud\<lparr>u_modeGiven := given, u_modeWant := want, u_private := u_private ud'\<rparr>" by (simp add: p(1,12))
    qed
    subgoal premises p for ud now oldWant oldGiven t2 r v given v' w oc want upd ud' sub t3 t1 r2
    proof -
      have "sub_post t asUid asChan t1 ud'" if "r2 = Inr ()"
      proof (rule take)
        show "?check = Some (t2, Inr (given, w, True))" using p(6-9,16) unfolding p(1,3,4) by simp
        show "wants w given want" by (rule wants [OF p(10)]) (simp add: p(1,3))
        show "quiet t2 t3" unfolding p(15) by (rule q)
        show "takeOwnership e t3 asUid = Some (t1, Inr ())" using p(17) that by simp
        show "ud' = ?ud\<lparr>u_modeGiven := given, u_modeWant := want, u_private := u_private ud'\<rparr>" by (simp add: p(1,12))
      qed
      then show ?thesis by (cases r2) (simp_all split: unit.split)
    qed
    done
qed

lemma updateSubscription_refused:
  "post (\<lambda>(t1, r). isl r \<longrightarrow> safe t t1) (updateSubscription e t sid pkt asUid asChan modeWant private)"
proof -
  have chk: "safe t t2"
    if "(if c then checkWant e t sid pkt asUid ud modeWant else Some (t, Inr x)) = Some (t2, r)" for t2 r ud x c
    using that quiet_safe postD [OF checkWant_post, of e t sid pkt asUid ud modeWant] by (auto split: if_splits)
  have own: "safe t t1" if "takeOwnership e t3 asUid = Some (t1, Inl err)" "safe t t3" for t1 t3 err
    using postD [OF takeOwnership_post that(1)] that(2) safe_trans by auto
  show ?thesis
    unfolding updateSubscription_def refuse_def
    apply (intro post_rules)
    apply (simp_all (no_asm))
    apply (drule chk, simp)
    apply (drule chk, simp)
    apply (auto dest!: chk own split: sum.splits unit.splits)
    done
qed

lemma sub_post_kept:
  assumes s: "sub_post t asUid asChan t1 ud" and q: "quiet_me t1 t2" and c: "plain_group t \<Longrightarrow> \<not> asChan"
  shows "kept t (put_user asUid ud t2)"
proof -
  have g: "good t t2" using s good_trans [OF _ safe_good [OF quiet_me_safe [OF q]]] by (simp add: sub_post_def)
  have f: "t_lastID t2 = t_lastID t" "t_delID t2 = t_delID t" "t_owner t2 = t_owner t1" "\<And>v. user_of t2 v = user_of t1 v"
    using s quiet_meD [OF q] safe_users [OF q] by (simp_all add: sub_post_def)
  have "user_ok (t_lastID t2) (t_delID t2) ud" if "ids_ok t2" "ids_ok t"
    using s that f by (simp add: sub_post_def)
  then have "good t (put_user asUid ud t2)"
    using g by (auto simp: good_def advances_def ids_ok_def)
  then show ?thesis using s c f by (auto simp: kept_def owner_ok_def sub_post_def split: if_splits)
qed

lemma unread_change_safe: "safe t (unread_change u ow og ud t)"
  by (simp add: unread_change_def Let_def)

lemma evictUser_kept: "ends kept (\<lambda>t. t) t (evictUser e t u False skip)"
  by (intro ends_kept evictUser_safe) (simp add: may_evict_def)

lemmas kept_ends = safe_ends [THEN ends_kept]

lemma notify_changed:
  "ends kept (\<lambda>t. t) t (notifySubChange e (unread_change u ow og ud t) v actor c ow' og' nw ng skip)"
  "ends kept (\<lambda>t. t) t (notifySubChange e (if b then t else unread_change u ow og ud t) v actor c ow' og' nw ng skip)"
  by (cases b; simp add: kp.after [OF safe_kept [OF unread_change_safe] kept_ends(9)] kept_ends)+

lemma thisUserSub_kept:
  assumes c: "plain_group t \<Longrightarrow> \<not> asChan"
  shows "ends kept fst t (thisUserSub e t sid pkt asUid asChan want private)"
proof -
  let ?sub = "\<lambda>m. if map_of (t_perUser t) asUid = None \<or> u_deleted (user_of t asUid)
      then newSubscription e t sid pkt asUid asChan m private
      else updateSubscription e t sid pkt asUid asChan m private"
  have err: "kept t t1" if "?sub m = Some (t1, Inl err)" for m t1 err
    using that endsD2 [OF newSubscription_safe] postD [OF updateSubscription_refused]
    by (fastforce simp: safe_kept split: if_splits)
  have sub: "sub_post t asUid asChan t1 ud" if "?sub m = Some (t1, Inr (ud, ow, og))" for m t1 ud ow og
    using that postD [OF newSubscription_post] postD [OF updateSubscription_post]
    by (fastforce split: if_splits)
  have off: "quiet_me t1 t2" if "(if c then if d then presUsersOfInterest t1 w ua else presSingleUserOffline t1 u m w' ps s b else Some t1) = Some t2"
    for t1 t2 c d w ua u m w' ps s b
    using that endsD [OF quiet_me_ends(4)] endsD [OF quiet_me_ends(2)] by (auto split: if_splits)
  show ?thesis
    unfolding thisUserSub_def
    apply (intro ends_sum kp.bind_value ends_prod)
    subgoal by (rule ends_kept [OF refuse_safe])
    subgoal using err by (simp add: ends_def)
    subgoal premises p for m x t1 r v ud v' ow og t2
      apply (rule kp.let_world [OF sub_post_kept [OF sub off [OF p(7)] c]])
      using p apply simp
      using p apply simp
      apply (intro kp.rules evictUser_kept refuse_safe [THEN ends_kept] kept_ends notify_changed)
      by simp_all
    done
qed

subsection \<open>Other users' subscriptions\<close>

lemma not_subscribed:
  assumes "map_of (t_perUser t) u = None \<or> u_deleted (user_of t u)"
  shows "\<not> owns (user_of t u)"
  using assms by (auto simp: owns_def user_of_def user0_def IsOwner_def)

lemma invited_safe:
  assumes "map_of (t_perUser t) u = None \<or> u_deleted (user_of t u)"
  shows "safe t (put_user u (user0\<lparr>u_modeGiven := g, u_modeWant := w\<rparr>) t)"
  by (rule put_user_safe) (use not_subscribed [OF assms] in \<open>auto simp: ids_ok_def user_ok_def user0_def\<close>)

lemma inviteUser_safe:
  assumes "map_of (t_perUser t) u = None \<or> u_deleted (user_of t u)"
  shows "ends safe fst t (inviteUser e t sid pkt asUid u g)"
proof -
  have "safe t (put_user u (user0\<lparr>u_modeGiven := g, u_modeWant := w\<rparr>) (put_out (Store (SubsCreate s)) t))" for g w s
    by (rule safe_trans [OF out_safe invited_safe]) (use assms in simp_all)
  then show ?thesis
    unfolding inviteUser_def Let_def
    by (intro sf.rules refuse_safe) simp_all
qed

lemma changeGiven_safe: "ends safe fst t (changeGiven e t sid pkt u g)"
proof -
  have "safe t (put_user u ((user_of t u)\<lparr>u_modeGiven := g\<rparr>) (put_out (Store (SubsUpdate n u us)) t))"
    if "\<not> (t_owner t = u \<and> (\<not> IsOwner g \<or> \<not> IsJoiner g))" for n us
    using that by (intro safe_trans [OF out_safe put_user_safe])
      (auto dest!: ids_okD [of _ u] simp: user_ok_def owner_ok_def owns_def)
  then show ?thesis
    unfolding changeGiven_def Let_def
    by (intro sf.rules refuse_safe) simp_all
qed

lemma anotherUserSub_kept: "ends kept fst t (anotherUserSub e t sid asUid u asChan pkt mode)"
  unfolding anotherUserSub_def
  by (intro kp.rules refuse_safe [THEN ends_kept] inviteUser_safe [THEN ends_kept] changeGiven_safe [THEN ends_kept]
      evictUser_kept notify_changed) simp_all

lemma replySetSub_kept:
  assumes "plain_group t \<Longrightarrow> \<not> asChan"
  shows "ends kept fst t (replySetSub e t sid pkt asChan)"
  unfolding replySetSub_def
  by (intro kp.rules refuse_safe [THEN ends_kept] thisUserSub_kept [OF assms] anotherUserSub_kept)
    (auto split: sum.split option.split intro: safe_kept)

subsection \<open>Leaving\<close>

lemma drop_if_empty_safe: "safe t t1 \<Longrightarrow> safe t (drop_if_empty t1)"
  by (simp add: drop_if_empty_def)

lemma ends_unit: "ends R w t a \<Longrightarrow> ends R w t (case x of () \<Rightarrow> a)"
  by (simp split: unit.split)

lemma may_evict_quiet: "quiet t t1 \<Longrightarrow> may_evict t1 u b = may_evict t u b"
  by (simp add: may_evict_def plain_group_def quietD user_of_quiet)

lemma notify_evict:
  assumes "may_evict t u True" and f: "\<And>t1. ends safe w t1 (f t1)"
  shows "ends safe w t (notifySubChange e t u actor c ow og nw ng sk \<bind> (\<lambda>t. evictUser e t u True skip \<bind> f))"
proof (rule sf.bind_world [OF safe_ends(9)])
  fix t1 assume "notifySubChange e t u actor c ow og nw ng sk = Some t1"
  then have q: "quiet_me t t1" using endsD [OF quiet_me_notifySubChange] by blast
  have "may_evict t1 u True"
    using assms(1) safe_users [OF q] by (simp add: may_evict_def plain_group_def quiet_meD [OF q])
  then show "ends safe w t1 (evictUser e t1 u True skip \<bind> f)"
    by (intro sf.bind_world evictUser_safe f)
qed

lemma may_evict_nonowner: "\<not> IsOwner (user_mode (user_of t u)) \<Longrightarrow> may_evict t u b"
  by (auto simp: may_evict_def owns_def user_mode_def mode_bits bit_simps)

lemma quiet_updateUnread: "quiet t (updateUnread u n t)"
  by (simp add: updateUnread_def)

lemma replyDelSub_safe: "ends safe fst t (replyDelSub e t sid asUid msg)"
proof -
  have q: "quiet t t1" if "(case d of None \<Rightarrow> Some (reply e (put_out (Store (SubsDelete n u)) t) s m1, Inr ())
      | Some err \<Rightarrow> if err = nf then Some (reply e t s m2, Inr ()) else refuse e t sid m3 err) = Some (t1, r)"
    for d n u s m1 nf m2 m3 t1 r
    using that by (auto simp: refuse_def intro: quiet_trans [OF _ quiet_reply] split: option.splits if_splits)
  have tail: "ends safe fst t1 (do {
        t \<leftarrow> notifySubChange e t1 u asUid False ow og ModeUnset ModeUnset sid;
        t \<leftarrow> evictUser e t u True [];
        Some (drop_if_empty (put_out (PluginSub (s t) ''del'') t), Inr ())
      })" if "quiet t t1" "\<not> IsOwner (user_mode (user_of t u))" for t1 u ow og s
    using that by (intro notify_evict sf.rules) (simp_all add: may_evict_quiet may_evict_nonowner drop_if_empty_safe)
  have tail': "ends safe fst t1 (let t2 = if b then updateUnread u n t1 else t1 in do {
        t \<leftarrow> notifySubChange e t2 u asUid False ow og ModeUnset ModeUnset sid;
        t \<leftarrow> evictUser e t u True [];
        Some (drop_if_empty (put_out (PluginSub (s t) ''del'') t), Inr ())
      })" if "quiet t t1" "\<not> IsOwner (user_mode (user_of t u))" for t1 u ow og s b n
    by (intro sf.let_world tail)
      (use that quiet_trans [OF that(1) quiet_updateUnread] in simp_all)
  show ?thesis
    unfolding replyDelSub_def
    by (intro tail' sf.rules refuse_safe ends_unit) (auto dest: q)
qed


lemma replyLeaveUnsub_safe: "ends safe fst t (replyLeaveUnsub e t sid msg asUid)"
proof -
  have tail: "ends safe fst t1 (do {
        t \<leftarrow> notifySubChange e t1 asUid asUid c ow og ModeUnset ModeUnset sid;
        t \<leftarrow> evictUser e t asUid True sid;
        (let t = put_out (PluginSub (s t) ''del'') t;
             t = (if t_cat t = TopicCatGrp then t\<lparr>t_subCnt := t_subCnt t - 1\<rparr> else t)
         in Some (drop_if_empty t, Inr ()))
      })" if "quiet t t1" "t_owner t \<noteq> asUid" for t1 c ow og s
    using that by (intro notify_evict sf.rules) (simp_all add: may_evict_quiet drop_if_empty_safe, simp add: may_evict_def)
  show ?thesis
    unfolding replyLeaveUnsub_def
    by (intro tail sf.rules refuse_safe ends_unit)
      (simp_all add: quiet_out2 quiet_trans [OF _ quiet_updateUnread] quiet_trans [OF _ quiet_reply] channelSubUnsub_def)
qed

lemma remSession_ends: "remSession t sid u = (t', p, r) \<Longrightarrow> ends safe w t' m \<Longrightarrow> ends safe w t m"
  using remSession_safe sf.after by blast

lemma delSub_safe: "safe t (delSub t sid n)"
  unfolding delSub_def Let_def by simp

lemma addSub_safe: "safe t (addSub t sid n)"
  unfolding addSub_def Let_def by (cases "s_multi (w_sess t sid)") simp_all

lemma addSession_safe: "safe t (addSession t sid u c)"
  by (simp add: addSession_def Let_def split: option.split)

lemma less_online_safe: "safe t (less_online u t)"
  unfolding less_online_def Let_def by (rule put_user_online)

lemma went_offline_safe: "(plain_group t \<Longrightarrow> \<not> c) \<Longrightarrow> safe t (went_offline c u t)"
  by (auto simp: went_offline_def intro: del_user_safe)

lemma went_offline_all_safe:
  "(plain_group t \<Longrightarrow> \<not> c) \<Longrightarrow> safe t (fold (went_offline c) us t)"
proof (induction us arbitrary: t)
  case (Cons u us)
  have s: "safe t (went_offline c u t)" using went_offline_safe Cons.prems by blast
  then have "plain_group (went_offline c u t) = plain_group t" by (simp add: plain_group_def safe_def good_def)
  then show ?case using safe_trans [OF s Cons.IH] Cons.prems by simp
qed simp

lemma fndRemovePublic_safe: "ends safe (\<lambda>t. t) t (fndRemovePublic t sid)"
  by (simp add: fndRemovePublic_def ends_def split: go_any.split)

lemma leave_category_safe:
  assumes "plain_group t \<Longrightarrow> \<not> c"
  shows "ends safe (\<lambda>t. t) t (leave_category e t sid c p u)"
  unfolding leave_category_def Let_def
  by (intro sf.rules fndRemovePublic_safe) (use assms went_offline_safe went_offline_all_safe in simp_all)


lemma category_chan: "verifyChannelAccess t n = Some True \<Longrightarrow> \<not> plain_group t"
  by (simp add: verifyChannelAccess_def plain_group_def split: if_splits)

lemma plain_group_safe: "safe t t' \<Longrightarrow> plain_group t' = plain_group t"
  by (simp add: plain_group_def safe_def good_def)

lemma not_as_channel:
  assumes "chan = (if i then verifyChannelAccess t n else Some False)" "c = (chan = Some True)"
    "safe t t1" "safe t1 t2" "safe t2 t3" "plain_group t3"
  shows "\<not> c"
  using assms category_chan [of t n] by (auto simp: plain_group_safe)

lemma handleLeaveRequest_safe: "ends safe (\<lambda>t. t) t (handleLeaveRequest e t msg sid)"
  unfolding handleLeaveRequest_def
  by (intro sf.rules ends_map leave_category_safe)
    ((rule not_as_channel; assumption) |
     simp add: replyLeaveUnsub_safe less_online_safe sf.folded remSession_safe safe_trans [OF remSession_safe delSub_safe])+

subsection \<open>Sessions joining\<close>

lemma sendSubNotifications_safe: "ends safe (\<lambda>t. t) t (sendSubNotifications e t u sid ua)"
proof -
  have "safe t (fst (loadContacts e (markLoaded t) u))"
    using safe_trans [OF safe_fields(1) quiet_me_safe [OF quiet_loadContacts]] by (metis prod.collapse)
  then show ?thesis
    unfolding sendSubNotifications_def Let_def
    by (intro sf.rules safe_ends [THEN sf.after [rotated]]) simp_all
qed

lemma sessToForeground_safe: "ends safe (\<lambda>t. t) t (sessToForeground e t sid)"
  unfolding sessToForeground_def
  by (intro sf.rules sendSubNotifications_safe) (simp_all add: put_user_online)

lemma sendImmediate_safe: "ends safe (\<lambda>t. t) t (sendImmediateSubNotifications e t u acs sid n c b now)"
  unfolding sendImmediateSubNotifications_def
  by (intro sf.rules safe_ends) simp_all

lemma joinSession_safe: "safe t (joinSession t sid u c b)"
proof -
  let ?t = "addSession (addSub t sid (t_name t)) sid u c"
  have 1: "safe t ?t" by (rule safe_trans [OF addSub_safe addSession_safe])
  then have "safe t (put_user u ((user_of ?t u)\<lparr>u_online := n\<rparr>) ?t)" for n by (rule safe_trans) (rule put_user_online)
  then show ?thesis using 1 by (simp add: joinSession_def Let_def)
qed

lemma subscriptionReply_kept:
  assumes "plain_group t \<Longrightarrow> \<not> asChan"
  shows "ends kept fst t (subscriptionReply e t asChan sid msg)"
  unfolding subscriptionReply_def
  by (intro kp.rules refuse_safe [THEN ends_kept] thisUserSub_kept [OF assms] sendImmediate_safe [THEN ends_kept]
      sendSubNotifications_safe [THEN ends_kept]) (simp_all add: safe_kept joinSession_safe)

subsection \<open>Messages\<close>

definition safe_bc :: "broadcast \<Rightarrow> bool" where
  "safe_bc bc \<longleftrightarrow> (\<forall>t m. ends safe (\<lambda>t. t) t (bc t m))"

lemma safe_bcD: "safe_bc bc \<Longrightarrow> ends safe (\<lambda>t. t) t (bc t m)"
  by (simp add: safe_bc_def)

lemma user_ok_mono: "user_ok l d p \<Longrightarrow> l \<le> l' \<Longrightarrow> d \<le> d' \<Longrightarrow> user_ok l' d' p"
  by (auto simp: user_ok_def)

lemma saved_safe:
  assumes "Msg_SeqId m = t_lastID t + 1"
  shows "safe t ((put_out (Store (MessagesSave m att rb)) t)\<lparr>t_lastID := t_lastID t + 1, t_touched := now\<rparr>)" (is "safe t ?t")
proof -
  have u: "user_of ?t u = user_of t u" for u by (simp add: user_of_def put_out_def)
  have f: "t_lastID ?t = t_lastID t + 1" "t_delID ?t = t_delID t" "t_cat ?t = t_cat t" "t_isChan ?t = t_isChan t"
    "t_owner ?t = t_owner t" "saves ?t = saves t @ [t_lastID t + 1]"
    using assms by (simp_all add: put_out_def saves_def)
  then show ?thesis
    unfolding safe_def good_def advances_def ids_ok_def owner_ok_def u by (auto intro: user_ok_mono)
qed

lemma read_all_safe:
  "safe t (put_user u ((user_of t u)\<lparr>u_readID := t_lastID t, u_recvID := t_lastID t\<rparr>) t)"
  by (rule put_user_safe) (auto dest!: ids_okD [of _ u] simp: user_ok_def owner_ok_def owns_def)

lemma save_step:
  assumes "Msg_SeqId m = t_lastID t + 1" "\<And>t1. (\<And>u. user_of t1 u = user_of t u) \<Longrightarrow> ends safe w t1 (f t1)"
  shows "ends safe w t (let t1 = put_out (Store (MessagesSave m att rb)) t; t2 = t1\<lparr>t_lastID := t_lastID t1 + 1, t_touched := now\<rparr> in f t2)"
proof -
  have "ends safe w t (f ((put_out (Store (MessagesSave m att rb)) t)\<lparr>t_lastID := t_lastID t + 1, t_touched := now\<rparr>))"
    by (rule sf.after [OF saved_safe [OF assms(1)] assms(2)]) (simp add: user_of_def put_out_def)
  then show ?thesis by simp
qed

lemma saveAndBroadcastMessage_safe:
  assumes "safe_bc bc"
  shows "ends safe fst t (saveAndBroadcastMessage bc e t msg u noEcho att head content)"
proof -
  have bc: "ends safe (\<lambda>t. t) t (bc (put_out (PluginMessage d) t) m)" for t d m
    using sf.after [OF out_safe safe_bcD [OF assms]] by simp
  have rd: "safe t1 (if b then put_user u (pud\<lparr>u_readID := t_lastID t1, u_recvID := t_lastID t1\<rparr>) t1 else t1)"
    if "\<And>u. user_of t1 u = user_of t u" "pud = user_of t u" for t1 pud b
    using that read_all_safe [of t1 u] by simp
  show ?thesis
    unfolding saveAndBroadcastMessage_def
    by (intro save_step rd sf.rules safe_ends bc) simp_all
qed

lemma hangup_loop_safe: "ends safe (\<lambda>t. t) t (hangup_loop frm seq us t)"
proof (induction us arbitrary: t)
  case (Cons u us)
  show ?case unfolding hangup_loop.simps by (intro sf.bind_world safe_ends Cons.IH)
qed (simp add: ends_def)

lemma maybeEndCallInProgress_safe:
  assumes "safe_bc bc"
  shows "ends safe (\<lambda>t. t) t (maybeEndCallInProgress bc e t frm msg b)"
  unfolding maybeEndCallInProgress_def
  by (intro sf.rules safe_ends safe_bcD [OF assms] saveAndBroadcastMessage_safe [OF assms] hangup_loop_safe) simp_all

lemma terminateCallInProgress_safe:
  assumes "safe_bc bc"
  shows "ends safe (\<lambda>t. t) t (terminateCallInProgress bc e t b)"
  unfolding terminateCallInProgress_def
  by (intro sf.rules maybeEndCallInProgress_safe [OF assms]) simp_all

lemma unregisterSession_safe:
  assumes "safe_bc bc"
  shows "ends safe (\<lambda>t. t) t (unregisterSession bc e t sid msg)"
  unfolding unregisterSession_def
  by (intro sf.rules terminateCallInProgress_safe [OF assms] handleLeaveRequest_safe) simp_all

lemma send_loop_safe: "ends safe fst t (send_loop e msg ss dropped t)"
proof (induction ss arbitrary: t dropped)
  case (Cons p ss)
  have q: "queueOut e t s m = (t1, ok) \<Longrightarrow> safe t t1" for s m t1 ok
    using reply_safe [of t e s m] by (simp add: reply_def)
  show ?case
    by (cases p) (auto intro!: sf.rules Cons.IH sf.after [OF q Cons.IH])
qed (simp add: ends_def)

lemma drop_loop_safe: "safe_bc bc \<Longrightarrow> ends safe (\<lambda>t. t) t (drop_loop bc e sids t)"
proof (induction sids arbitrary: t)
  case (Cons sid sids)
  then show ?case unfolding drop_loop.simps by (intro sf.bind_world unregisterSession_safe)
qed (simp add: ends_def)

lemma broadcastToSessions_safe: "safe_bc (broadcastToSessions depth e)"
proof (induction depth)
  case (Suc depth)
  then have "ends safe (\<lambda>t. t) t (broadcastToSessions (Suc depth) e t m)" for t m
    unfolding broadcastToSessions.simps by (intro sf.bind_pair send_loop_safe drop_loop_safe)
  then show ?case by (simp add: safe_bc_def)
qed (simp add: safe_bc_def ends_def)

lemmas bc_safe = safe_bcD [OF broadcastToSessions_safe]
lemmas save_safe = saveAndBroadcastMessage_safe [OF broadcastToSessions_safe]


subsection \<open>Client and server messages\<close>

lemma acceptCall_safe: "ends safe fst t (acceptCall depth e t msg note sid u ou)"
  unfolding acceptCall_def
  by (intro sf.rules save_safe safe_ends) simp_all

lemma handleCallInvite_safe: "ends safe (\<lambda>t. t) t (handleCallInvite e t msg pub u)"
  unfolding handleCallInvite_def by (intro ends_map sf.rules) (simp add: ends_def)

lemma handlePubBroadcast_safe: "ends safe (\<lambda>t. t) t (handlePubBroadcast depth e t msg pub)"
  unfolding handlePubBroadcast_def
  by (intro sf.rules save_safe handleCallInvite_safe) simp_all

lemma handleCallEvent_safe: "ends safe (\<lambda>t. t) t (handleCallEvent depth e t msg note)"
  unfolding handleCallEvent_def
  by (intro sf.rules save_safe acceptCall_safe maybeEndCallInProgress_safe terminateCallInProgress_safe
      broadcastToSessions_safe) simp_all

lemma noteCounters_ok:
  assumes "noteCounters what seq p = Some (p', read, recv, unread)" "seq \<le> l" "user_ok l d p"
  shows "user_ok l d p'"
  using assms by (auto simp: noteCounters_def user_ok_def Let_def split: if_splits)

lemma noteCounters_owns:
  "noteCounters what seq p = Some (p', read, recv, unread) \<Longrightarrow> owns p' = owns p \<and> u_isChan p' = u_isChan p"
  by (auto simp: noteCounters_def owns_def Let_def split: if_splits)

lemma put_counters_safe:
  assumes q: "quiet_me t t1" and p: "pud = user_of t u" "noteCounters what seq pud = Some y" "y = (p', b)" and l: "\<not> (c \<or> seq > t_lastID t)"
  shows "safe t1 (if d then put_user u p' t1 else t1)"
proof -
  obtain read recv unread where y: "noteCounters what seq (user_of t1 u) = Some (p', read, recv, unread)"
    using p safe_users [OF q] by (cases b) auto
  have l': "seq \<le> t_lastID t1" using l quiet_meD(5) [OF q] by simp
  have "safe t1 (put_user u p' t1)"
    by (rule put_user_safe)
      (use noteCounters_ok [OF y l' ids_okD] noteCounters_owns [OF y] in \<open>auto simp: owner_ok_def\<close>)
  then show ?thesis by simp
qed

lemma note_counted:
  "ends quiet_me (\<lambda>t. t) t (if c then presPubMessageCount (put_out (Store (SubsUpdate n u us)) t) u m rd rc sid \<bind>
       (\<lambda>t. let t = if c1 then sendPush (r t) t else t in Some (if c2 then t else updateUnread u k t)) else Some t)"
  by (intro qm.rules quiet_me_ends [THEN qm.after [rotated]]) (simp_all add: quiet_imp_me quiet_updateUnread)

lemma handleNoteBroadcast_safe: "ends safe (\<lambda>t. t) t (handleNoteBroadcast depth e t msg note)"
  unfolding handleNoteBroadcast_def
  by (intro sf.rules handleCallEvent_safe safe_ends bc_safe ends_safe [OF note_counted])
    ((rule put_counters_safe [OF endsD [OF note_counted]]; assumption) | simp)+

lemma handleClientMsg_safe: "ends safe (\<lambda>t. t) t (handleClientMsg depth e t msg)"
  unfolding handleClientMsg_def Let_def
  by (intro sf.rules handlePubBroadcast_safe handleNoteBroadcast_safe) simp_all

lemma handlePresence_safe: "ends safe (\<lambda>t. t) t (handlePresence depth e t msg pres)"
proof -
  have "ends safe fst t (procPresReq t src what r)" for src what r
    by (rule endsI2) (auto dest: quiet_procPresReq intro: quiet_me_safe)
  then show ?thesis unfolding handlePresence_def by (intro sf.rules bc_safe) simp_all
qed

lemma handleServerMsg_safe: "ends safe (\<lambda>t. t) t (handleServerMsg depth e t msg)"
  unfolding handleServerMsg_def Let_def
  by (intro sf.rules handlePresence_safe bc_safe) simp_all

subsection \<open>Deleted messages\<close>

lemma next_delID_safe: "safe t (t\<lparr>t_delID := t_delID t + 1\<rparr>)" (is "safe t ?t")
proof -
  have u: "user_of ?t u = user_of t u" for u by (simp add: user_of_def)
  show ?thesis
    unfolding safe_def good_def advances_def ids_ok_def owner_ok_def u by (auto intro: user_ok_mono simp: saves_def)
qed

lemma del_user_delID: "p = user_of t u \<Longrightarrow> safe t (put_user u (p\<lparr>u_delID := t_delID t\<rparr>) t)"
  by (rule put_user_safe) (auto dest!: ids_okD [of _ u] simp: user_ok_def owner_ok_def owns_def ids_ok_def)

lemma hard_delete_safe:
  "safe t (fold (hard_delete_for (t_delID t) rs) us t)"
proof -
  have one: "safe t (hard_delete_for (t_delID t) rs u t) \<and> t_delID (hard_delete_for (t_delID t) rs u t) = t_delID t" for u t
    using del_user_delID [OF refl, of t u] by (simp add: hard_delete_for_def Let_def updateUnread_def)
  have "safe t (fold (hard_delete_for d rs) us t)" if "t_delID t = d" for d
    using that
  proof (induction us arbitrary: t)
    case (Cons u us)
    then show ?case using one [of t u] safe_trans [OF _ Cons.IH] by simp
  qed simp
  then show ?thesis by simp
qed

lemma replyDelMsg_safe: "ends safe fst t (replyDelMsg e t sid u c msg del)"
  unfolding replyDelMsg_def
  by (intro sf.rules refuse_safe safe_ends next_delID_safe del_user_delID hard_delete_safe) simp_all

end
