(* ===== verification/Delivery.thy ===== *)
theory Delivery
  imports TopicInv
begin

section \<open>Delivery of messages\<close>

text \<open>
  What a published message does: to whom it is delivered, what is saved, and what is left unchanged when
  it is refused. A session is ready if it is connected, of the topic's tenant and has room in its queue.
\<close>

definition ready :: "env \<Rightarrow> world \<Rightarrow> string \<Rightarrow> bool" where
  "ready e t sid \<longleftrightarrow> \<not> s_terminating (w_sess t sid) \<and> s_multi (w_sess t sid) = None \<and>
     s_tenantID (w_sess t sid) = t_tenantID t \<and> (\<forall>n. e_room e n sid)"

definition copies :: "world \<Rightarrow> ServerComMessage \<Rightarrow> (string \<times> per_session) list \<Rightarrow> effect list" where
  "copies t msg ss = map (\<lambda>(sid, p). SendTo sid (the (prepareBroadcastableMessage t msg (pss_uid p) (pss_isChanSub p))))
     (filter (\<lambda>(sid, p). receives t msg sid p) ss)"

lemma user_of_quiet_fun: "quiet t t' \<Longrightarrow> user_of t' = user_of t"
  by (simp add: fun_eq_iff user_of_quiet)

text \<open>Delivery depends on these parts of the state only.\<close>

definition same_views :: "world \<Rightarrow> world \<Rightarrow> bool" where
  "same_views t t1 \<longleftrightarrow> t_tenantID t1 = t_tenantID t \<and> t_cat t1 = t_cat t \<and> t_isChan t1 = t_isChan t \<and>
     t_xoriginal t1 = t_xoriginal t \<and> t_sessions t1 = t_sessions t \<and> w_sess t1 = w_sess t \<and>
     getPerUserAcs t1 = getPerUserAcs t \<and> original t1 = original t"

lemma same_views:
  assumes "same_views t t1"
  shows "receives t1 = receives t" "prepareBroadcastableMessage t1 = prepareBroadcastableMessage t"
    "copies t1 = copies t" "ready e t1 = ready e t" "t_sessions t1 = t_sessions t" "t_cat t1 = t_cat t" "t_tenantID t1 = t_tenantID t"
    "original t1 = original t"
proof -
  have v: "t_tenantID t1 = t_tenantID t" "t_cat t1 = t_cat t" "t_isChan t1 = t_isChan t" "t_xoriginal t1 = t_xoriginal t"
    "t_sessions t1 = t_sessions t" "w_sess t1 = w_sess t" "getPerUserAcs t1 = getPerUserAcs t" "original t1 = original t"
    using assms by (simp_all add: same_views_def)
  have g: "getSub t1 = getSub t" using v by (simp add: fun_eq_iff getSub_def sess_key_def)
  have r: "userIsReader t1 = userIsReader t" "passesPresenceFilters t1 = passesPresenceFilters t"
    using v by (simp_all add: fun_eq_iff userIsReader_def passesPresenceFilters_def)
  show 1: "receives t1 = receives t" unfolding receives_def fun_eq_iff g r v by simp
  show 2: "prepareBroadcastableMessage t1 = prepareBroadcastableMessage t"
    unfolding prepareBroadcastableMessage_def fun_eq_iff v by simp
  show "copies t1 = copies t" by (simp add: fun_eq_iff copies_def 1 2)
  show "ready e t1 = ready e t" using v by (simp add: fun_eq_iff ready_def)
qed (use assms in \<open>simp_all add: same_views_def\<close>)

lemma quiet_same_views: "quiet t t1 \<Longrightarrow> same_views t t1"
  using user_of_quiet_fun [of t t1] by (simp add: same_views_def quietD fun_eq_iff getPerUserAcs_def original_def)

lemma same_views_trans: "same_views t t1 \<Longrightarrow> same_views t1 t2 \<Longrightarrow> same_views t t2"
  by (simp add: same_views_def)

lemmas quiet_views = same_views [OF quiet_same_views]

lemma prepared_tenant: "prepareBroadcastableMessage t msg u c = Some m \<Longrightarrow> scm_TenantID m = t_tenantID t"
  by (auto simp: prepareBroadcastableMessage_def Let_def split: if_splits bind_splits)

lemma original_total: "t_cat t \<noteq> TopicCatP2P \<Longrightarrow> \<exists>n. original t u = Some n"
  by (simp add: original_def)

lemma prepared_total: "t_cat t \<noteq> TopicCatP2P \<Longrightarrow> \<exists>m. prepareBroadcastableMessage t msg u c = Some m"
  by (auto simp: prepareBroadcastableMessage_def original_def Let_def)

lemma queueOut_ready:
  assumes "ready e t sid" "scm_TenantID m = t_tenantID t"
  shows "queueOut e t (Some sid) m = (put_out (SendTo sid m) (t\<lparr>w_tries := Suc (w_tries t)\<rparr>), True)"
proof -
  have m: "m\<lparr>scm_TenantID := t_tenantID t\<rparr> = m" using assms(2) by (cases m) simp
  show ?thesis using assms by (auto simp: m queueOut_def stamp_tenant_def ready_def session_push_def Let_def)
qed

lemma send_loop_ready:
  assumes "\<forall>(sid, p) \<in> set ss. ready e t sid" "t_cat t \<noteq> TopicCatP2P"
  shows "\<exists>t'. send_loop e msg ss dropped t = Some (t', dropped) \<and> quiet t t' \<and> w_out t' = w_out t @ copies t msg ss"
  using assms
proof (induction ss arbitrary: t)
  case (Cons a ss)
  obtain sid p where a: "a = (sid, p)" by (cases a)
  show ?case
  proof (cases "receives t msg sid p")
    case True
    obtain m where m: "prepareBroadcastableMessage t msg (pss_uid p) (pss_isChanSub p) = Some m"
      using prepared_total Cons.prems(2) by blast
    let ?t = "put_out (SendTo sid m) (t\<lparr>w_tries := Suc (w_tries t)\<rparr>)"
    have q: "quiet t ?t" by (simp add: quiet_out2)
    have "queueOut e t (Some sid) m = (?t, True)"
      using Cons.prems(1) a by (intro queueOut_ready prepared_tenant [OF m]) auto
    moreover obtain t' where "send_loop e msg ss dropped ?t = Some (t', dropped)" "quiet ?t t'"
        "w_out t' = w_out ?t @ copies t msg ss"
      using Cons.IH [of ?t] Cons.prems unfolding quiet_views [OF q] by auto
    moreover have "w_out ?t @ copies t msg ss = w_out t @ copies t msg (a # ss)"
      using a True m by (simp add: copies_def put_out_def)
    ultimately show ?thesis using a True m quiet_trans [OF q] by auto
  next
    case False
    then show ?thesis using a Cons.IH [of t] Cons.prems by (auto simp: copies_def)
  qed
qed (simp add: copies_def)

lemma broadcast_ready:
  assumes "\<forall>(sid, p) \<in> set (t_sessions t). ready e t sid" "t_cat t \<noteq> TopicCatP2P"
  shows "\<exists>t'. broadcastToSessions (Suc d) e t msg = Some t' \<and> quiet t t' \<and>
    w_out t' = w_out t @ copies t (msg\<lparr>scm_TenantID := t_tenantID t\<rparr>) (t_sessions t)"
  using send_loop_ready [OF assms, of "msg\<lparr>scm_TenantID := t_tenantID t\<rparr>" "[]"] by auto

subsection \<open>Publishing\<close>

lemma offline_loop_total:
  "t_cat t \<noteq> TopicCatP2P \<Longrightarrow> \<exists>t'. offline_loop what params fs ft skip oo us t = Some t'"
proof (induction us arbitrary: t)
  case (Cons a us)
  obtain u pud where "a = (u, pud)" by (cases a)
  then show ?case using Cons by (auto simp: original_def Let_def)
qed simp

lemma presSubsOffline_total:
  "t_cat t \<noteq> TopicCatP2P \<Longrightarrow> \<exists>t'. presSubsOffline t what params fs ft skip oo = Some t' \<and> quiet t t'"
  using offline_loop_total quiet_presSubsOffline by (metis presSubsOffline_def)

text \<open>The message as it is saved, and the state right after.\<close>

definition saved_message :: "world \<Rightarrow> ClientComMessage \<Rightarrow> uid \<Rightarrow> go_map option \<Rightarrow> go_any \<Rightarrow> message" where
  "saved_message t msg u head content =
     message0\<lparr>CreatedAt := msg_Timestamp msg, Msg_TenantID := t_tenantID t, Msg_SeqId := t_lastID t + 1,
       Msg_Topic := t_name t, Msg_From := Uid_String u, Msg_Head := sender_head t (msg_sess msg) u head, Msg_Content := content\<rparr>"

definition numbered :: "world \<Rightarrow> ClientComMessage \<Rightarrow> uid \<Rightarrow> message \<Rightarrow> string list \<Rightarrow> bool \<Rightarrow> world" where
  "numbered t msg u m att rb =
     (let t1 = (put_out (Store (MessagesSave m att rb)) t)\<lparr>t_lastID := t_lastID t + 1, t_touched := msg_Timestamp msg\<rparr>
      in if map_of (t_perUser t) u \<noteq> None
         then put_user u ((user_of t u)\<lparr>u_readID := t_lastID t + 1, u_recvID := t_lastID t + 1\<rparr>) t1 else t1)"

lemma numbered_views: "same_views t (numbered t msg u m att rb)"
proof -
  let ?t1 = "(put_out (Store (MessagesSave m att rb)) t)\<lparr>t_lastID := t_lastID t + 1, t_touched := msg_Timestamp msg\<rparr>"
  have u: "user_of ?t1 = user_of t" by (simp add: fun_eq_iff user_of_def put_out_def)
  have "same_views t ?t1" using u by (simp add: same_views_def fun_eq_iff getPerUserAcs_def original_def put_out_def)
  moreover have "same_views t1 (put_user u ((user_of t1 u)\<lparr>u_readID := a, u_recvID := b\<rparr>) t1)"
    if "map_of (t_perUser t1) u \<noteq> None" for t1 a b
    using that by (auto simp: same_views_def fun_eq_iff getPerUserAcs_def original_def user_of_def put_user_def update_conv')
  from calculation this [of ?t1] show ?thesis
    using u same_views_trans by (auto simp: numbered_def Let_def put_out_def)
qed

definition data_copy :: "ClientComMessage \<Rightarrow> bool \<Rightarrow> string \<Rightarrow> go_map option \<Rightarrow> go_any \<Rightarrow> int \<Rightarrow> ServerComMessage" where
  "data_copy msg noEcho s head content seq = (data_message msg seq head content)\<lparr>scm_SkipSid := (if noEcho then s else [])\<rparr>"

lemma save_unfold:
  assumes "t_cat t = TopicCatSys \<or> IsWriter (user_mode (user_of t u))" "msg_sess msg = Some s"
    "e_MessagesSave e (saved_message t msg u head content) att (IsReader (user_mode (user_of t u))) = (None, marked)"
    "n = numbered t msg u (saved_message t msg u head content) att (IsReader (user_mode (user_of t u)))"
    "hd' = sender_head t (Some s) u head"
  shows "saveAndBroadcastMessage bc e t msg u noEcho att head content = do {
     t1 \<leftarrow> (if msg_Id msg \<noteq> [] then do {
           name \<leftarrow> original n u;
           (let r = NoErrAccepted (msg_Id msg) name (msg_Timestamp msg)
            in Some (reply e n (Some s) (r\<lparr>Ctrl := map_option (\<lambda>c. c\<lparr>ctrl_Params := AMap [(''seq'', AInt (t_lastID n))]\<rparr>) (Ctrl r)\<rparr>)))
         } else Some n);
     (let data = data_copy msg noEcho s hd' content (t_lastID t1) in do {
       t2 \<leftarrow> presSubsOffline t1 ''msg'' (nilPresParams\<lparr>pp_seqID := t_lastID t1, pp_actor := msg_AsUser msg\<rparr>)
             (nilPresFilters\<lparr>filterIn := ModeRead\<rparr>) nilPresFilters [] True;
       t4 \<leftarrow> bc (put_out (PluginMessage (the (Data data))) t2) data;
       Some (sendPush (pushForData t4 u (the (Data data)) marked) t4, None)
     })
   }"
proof -
  have may: "(t_cat t \<noteq> TopicCatSys \<and> \<not> IsWriter (user_mode (user_of t u))) = False" using assms(1) by blast
  show ?thesis
    unfolding saveAndBroadcastMessage_def assms(2,4,5) numbered_def data_copy_def Let_def may if_False
    using assms(3) by (cases noEcho) (simp_all add: saved_message_def assms(2) split del: if_split cong: if_cong)
qed

lemma publish_core:
  assumes cat: "t_cat t \<noteq> TopicCatP2P" and rdy: "\<forall>(sid, p) \<in> set (t_sessions t). ready e t sid"
    and may: "t_cat t = TopicCatSys \<or> IsWriter (user_mode (user_of t u))" and sess: "msg_sess msg = Some s"
    and save: "e_MessagesSave e (saved_message t msg u head content) att (IsReader (user_mode (user_of t u))) = (None, marked)"
  shows "\<exists>t'. saveAndBroadcastMessage (broadcastToSessions (Suc d) e) e t msg u noEcho att head content = Some (t', None) \<and>
     quiet (numbered t msg u (saved_message t msg u head content) att (IsReader (user_mode (user_of t u)))) t' \<and>
     set (copies t ((data_copy msg noEcho s (sender_head t (Some s) u head) content (t_lastID t + 1))\<lparr>scm_TenantID := t_tenantID t\<rparr>) (t_sessions t)) \<subseteq> set (w_out t')"
proof -
  let ?rb = "IsReader (user_mode (user_of t u))"
  let ?m = "saved_message t msg u head content"
  let ?data = "data_copy msg noEcho s (sender_head t (Some s) u head) content (t_lastID t + 1)"
  define n where "n = numbered t msg u ?m att ?rb"
  note nv = same_views [OF numbered_views [of t msg u ?m att ?rb], folded n_def]
  have l: "t_lastID n = t_lastID t + 1" by (simp add: n_def numbered_def Let_def)
  obtain name where name: "original n u = Some name" using original_total [OF cat] unfolding nv by blast
  define ans where "ans = (let r = NoErrAccepted (msg_Id msg) name (msg_Timestamp msg)
     in r\<lparr>Ctrl := map_option (\<lambda>c. c\<lparr>ctrl_Params := AMap [(''seq'', AInt (t_lastID n))]\<rparr>) (Ctrl r)\<rparr>)"
  define t1 where "t1 = (if msg_Id msg \<noteq> [] then reply e n (Some s) ans else n)"
  have q1: "quiet n t1" by (simp add: t1_def)
  have c1: "t_cat t1 \<noteq> TopicCatP2P" using cat nv quiet_views [OF q1] by simp
  obtain t2 where t2: "presSubsOffline t1 ''msg'' (nilPresParams\<lparr>pp_seqID := t_lastID t1, pp_actor := msg_AsUser msg\<rparr>)
      (nilPresFilters\<lparr>filterIn := ModeRead\<rparr>) nilPresFilters [] True = Some t2" and q2: "quiet t1 t2"
    using presSubsOffline_total [OF c1] by blast
  define t3 where "t3 = put_out (PluginMessage (the (Data ?data))) t2"
  have q3: "quiet n t3" using quiet_trans [OF q1 q2] by (simp add: t3_def quiet_out2)
  obtain t4 where t4: "broadcastToSessions (Suc d) e t3 ?data = Some t4" "quiet t3 t4"
      "w_out t4 = w_out t3 @ copies t (?data\<lparr>scm_TenantID := t_tenantID t\<rparr>) (t_sessions t)"
    using broadcast_ready [of t3 e d ?data] cat rdy nv quiet_views [OF q3] by auto
  have l1: "t_lastID t1 = t_lastID t + 1" using l quietD [OF q1] by simp
  have r1: "(if msg_Id msg \<noteq> [] then do {
         name \<leftarrow> original n u;
         (let r = NoErrAccepted (msg_Id msg) name (msg_Timestamp msg)
          in Some (reply e n (Some s) (r\<lparr>Ctrl := map_option (\<lambda>c. c\<lparr>ctrl_Params := AMap [(''seq'', AInt (t_lastID n))]\<rparr>) (Ctrl r)\<rparr>)))
       } else Some n) = Some t1"
    using name by (simp add: t1_def ans_def Let_def)
  define t5 where "t5 = sendPush (pushForData t4 u (the (Data ?data)) marked) t4"
  have "saveAndBroadcastMessage (broadcastToSessions (Suc d) e) e t msg u noEcho att head content = Some (t5, None)"
    unfolding save_unfold [OF may sess save n_def refl] r1
    using t2 t4(1) by (simp add: l1 t3_def t5_def del: broadcastToSessions.simps)
  moreover have "quiet n t5" using quiet_trans [OF q3 t4(2)] quiet_trans [OF _ quiet_sendPush] by (simp add: t5_def)
  moreover have "set (w_out t4) \<subseteq> set (w_out t5)" by (auto simp: t5_def sendPush_def put_out_def split: option.split)
  ultimately show ?thesis using t4(3) unfolding n_def by auto
qed

lemma numbered_saves:
  "t_lastID (numbered t msg u m att rb) = t_lastID t + 1" "saves (numbered t msg u m att rb) = saves t @ [Msg_SeqId m]"
  by (simp_all add: numbered_def Let_def saves_def put_out_def put_user_def)

lemma prepared_data:
  assumes "prepareBroadcastableMessage t msg u c = Some m" "Data msg = Some x"
  shows "\<exists>y. Data m = Some y \<and> data_SeqId y = data_SeqId x \<and> data_Content y = data_Content x"
  using assms by (auto simp: prepareBroadcastableMessage_def Let_def split: if_splits bind_splits)

lemma publish_returns:
  assumes cat: "t_cat t \<noteq> TopicCatP2P" and act: "\<not> isInactive t" "\<not> isReadOnly t" "\<not> isCallPub pub"
    and rdy: "\<forall>(sid, p) \<in> set (t_sessions t). ready e t sid"
    and may: "t_cat t = TopicCatSys \<or> IsWriter (user_mode (user_of t u))" and u: "u = ParseUserId (msg_AsUser msg)"
    and sess: "msg_sess msg = Some s"
    and save: "\<And>m att rb. fst (e_MessagesSave e m att rb) = None"
  shows "\<exists>t'. handlePubBroadcast (Suc d) e t msg pub = Some t' \<and> t_lastID t' = t_lastID t + 1 \<and>
     saves t' = saves t @ [t_lastID t + 1] \<and>
     set (copies t ((data_copy msg (pub_NoEcho pub) s (sender_head t (Some s) u (pub_Head pub)) (pub_Content pub) (t_lastID t + 1))
       \<lparr>scm_TenantID := t_tenantID t\<rparr>) (t_sessions t)) \<subseteq> set (w_out t')"
proof -
  let ?att = "case cm_Extra msg of None \<Rightarrow> [] | Some x \<Rightarrow> extra_Attachments x"
  let ?m = "saved_message t msg u (pub_Head pub) (pub_Content pub)"
  let ?rb = "IsReader (user_mode (user_of t u))"
  obtain marked where "e_MessagesSave e ?m ?att ?rb = (None, marked)"
    using save [of ?m ?att ?rb] by (metis prod.collapse)
  from publish_core [OF cat rdy may sess this, of d "pub_NoEcho pub"] obtain t' where
    t': "saveAndBroadcastMessage (broadcastToSessions (Suc d) e) e t msg u (pub_NoEcho pub) ?att (pub_Head pub) (pub_Content pub)
       = Some (t', None)" "quiet (numbered t msg u ?m ?att ?rb) t'"
    "set (copies t ((data_copy msg (pub_NoEcho pub) s (sender_head t (Some s) u (pub_Head pub)) (pub_Content pub) (t_lastID t + 1))
       \<lparr>scm_TenantID := t_tenantID t\<rparr>) (t_sessions t)) \<subseteq> set (w_out t')"
    by blast
  have "handlePubBroadcast (Suc d) e t msg pub = Some t'"
    using act t'(1) by (simp add: handlePubBroadcast_def Let_def u del: broadcastToSessions.simps)
  moreover have "t_lastID t' = t_lastID t + 1" "saves t' = saves t @ [t_lastID t + 1]"
    using quietD [OF t'(2)] by (simp_all add: numbered_saves saved_message_def)
  ultimately show ?thesis using t'(3) by blast
qed


text \<open>
  C19. A refused message changes nothing. If the topic is locked or read-only, or the author may not
  write, then publishing leaves the topic as it is and saves nothing; all that happens is one error
  reply to the session of the author.
\<close>

theorem publish_refused:
  assumes "isInactive t \<or> isReadOnly t \<or> (t_cat t \<noteq> TopicCatSys \<and> \<not> IsWriter (user_mode (user_of t (ParseUserId (msg_AsUser msg)))))"
    and "handlePubBroadcast depth e t msg pub = Some t'"
  shows "topic.truncate t' = topic.truncate t \<and> saves t' = saves t \<and>
    (\<exists>m. t' = reply e t (msg_sess msg) m \<and> ctrl_code m \<ge> 400)"
proof -
  let ?err = "\<lambda>t'. \<exists>m. t' = reply e t (msg_sess msg) m \<and> ctrl_code m \<ge> 400"
  have err: "?err (reply e t (msg_sess msg) m)" if "ctrl_code m \<ge> 400" for m using that by blast
  have "post ?err (handlePubBroadcast depth e t msg pub)"
    unfolding handlePubBroadcast_def
    by (intro post_rules)
      (use assms(1) in \<open>auto simp: saveAndBroadcastMessage_def Let_def reply_defs intro: err split: bind_splits if_splits\<close>)
  from postD [OF this assms(2)] obtain m where m: "t' = reply e t (msg_sess msg) m" "ctrl_code m \<ge> 400"
    by blast
  have "quiet t t'" by (simp add: m(1))
  then show ?thesis using m by (auto simp: quiet_def)
qed

subsection \<open>Depth of delivery\<close>

definition same_call :: "world \<Rightarrow> world \<Rightarrow> bool" where
  "same_call t t' \<longleftrightarrow> t_currentCall t' = t_currentCall t"

interpretation sc: frame same_call
  by unfold_locales (auto simp: same_call_def)

lemma same_call_quiet: "quiet t t1 \<Longrightarrow> same_call t t1"
  by (simp add: same_call_def quietD)

lemma same_call_remSession: "remSession t sid u = (t', p, r) \<Longrightarrow> same_call t t'"
  by (auto simp: remSession_def same_call_def Let_def split: option.splits if_splits)

lemma same_call_users [simp]: "same_call t (put_user u p t)" "same_call t (del_user u t)" "same_call t (delSub t sid n)"
  by (simp_all add: same_call_def put_user_def del_user_def delSub_def Let_def)

lemma same_call_offline: "same_call t (went_offline c u t)" "same_call t (less_online u t)"
  by (simp_all add: went_offline_def less_online_def Let_def same_call_quiet)

lemma same_call_category: "ends same_call (\<lambda>t. t) t (leave_category e t sid c p u)"
proof -
  have "ends same_call (\<lambda>t. t) t (fndRemovePublic t sid)"
    by (simp add: fndRemovePublic_def ends_def same_call_def split: go_any.split)
  then show ?thesis
    unfolding leave_category_def Let_def
    by (intro sc.rules) (simp_all add: same_call_offline sc.folded, simp_all add: same_call_def)
qed

lemma same_call_leave: "\<not> msg_init msg \<Longrightarrow> ends same_call (\<lambda>t. t) t (handleLeaveRequest e t msg sid)"
  unfolding handleLeaveRequest_def
  by (intro sc.rules same_call_category)
    (simp_all add: same_call_quiet same_call_offline sc.folded same_call_remSession sc.trans [OF same_call_remSession same_call_users(3)] sc.refl)

lemma unregister_no_call:
  assumes "t_currentCall t = None"
  shows "unregisterSession bc e t sid msg = unregisterSession bc' e t sid msg"
  using assms by (simp add: unregisterSession_def endsCall_def)

lemma unregister_same_call:
  assumes "t_currentCall t = None" "\<not> msg_init msg" "unregisterSession bc e t sid msg = Some t'"
  shows "t_currentCall t' = None"
  using assms endsD [OF same_call_leave [OF assms(2)]]
  by (auto simp: unregisterSession_def endsCall_def same_call_def split: bind_splits if_splits)

lemma send_loop_quiet: "send_loop e msg ss dropped t = Some (t', ds) \<Longrightarrow> quiet t t'"
proof (induction ss arbitrary: t dropped)
  case (Cons a ss)
  then show ?case
    by (cases a) (auto split: if_splits bind_splits prod.splits dest!: Cons.IH intro: quiet_trans [OF quiet_queueOut])
qed simp

lemma drop_loop_no_call: "t_currentCall t = None \<Longrightarrow> drop_loop bc e sids t = drop_loop bc' e sids t"
proof (induction sids arbitrary: t)
  case (Cons sid sids)
  let ?m = "client_message0\<lparr>msg_sess := Some sid\<rparr>"
  have i: "\<not> msg_init ?m" by (simp add: client_message0_def)
  show ?case
  proof (cases "unregisterSession bc' e t sid ?m")
    case (Some t')
    with Cons.IH [OF unregister_same_call [OF Cons.prems i Some]] show ?thesis
      using unregister_no_call [OF Cons.prems, of bc e sid ?m bc'] by simp
  qed (use unregister_no_call [OF Cons.prems, of bc e sid ?m bc'] in simp)
qed simp

text \<open>
  Without a call in progress delivery does not call itself: sessions that are stuck are dropped
  without publishing anything, so a stack of one frame gives the result that any deeper one gives.
\<close>

theorem broadcast_depth:
  assumes "t_currentCall t = None"
  shows "broadcastToSessions (Suc d) e t msg = broadcastToSessions 1 e t msg"
proof -
  have "t_currentCall t' = None" if "send_loop e m ss [] t = Some (t', ds)" for t' ds m ss
    using quietD [OF send_loop_quiet [OF that]] assms by simp
  then have "(case x of (t, ds) \<Rightarrow> drop_loop (broadcastToSessions d e) e ds t) = (case x of (t, ds) \<Rightarrow> drop_loop (broadcastToSessions 0 e) e ds t)"
    if "send_loop e m ss [] t = Some x" for x m ss
    using that drop_loop_no_call [of _ "broadcastToSessions d e" e _ "broadcastToSessions 0 e"] by (cases x) auto
  then show ?thesis by (cases "send_loop e (msg\<lparr>scm_TenantID := t_tenantID t\<rparr>) (t_sessions t) [] t") simp_all
qed

subsection \<open>A stuck party of a call\<close>

text \<open>
  The first session of the topic is a party of the call in progress, and its queue has no room. When it
  is dropped the call is ended, which publishes a message, which drops the session again: it is still
  attached, because it is detached only after the call has ended.
\<close>

definition stuck :: "env \<Rightarrow> string \<Rightarrow> per_session \<Rightarrow> world \<Rightarrow> bool" where
  "stuck e sid p t \<longleftrightarrow>
     (\<exists>call. t_currentCall t = Some call \<and> map_of (vc_parties call) sid \<noteq> None) \<and>
     (\<exists>u s. getCallOriginator t = Some (u, s) \<and> \<not> Uid_IsZero u) \<and>
     (\<exists>ss. t_sessions t = (sid, p) # ss) \<and> \<not> isMultiplex (w_sess t sid) \<and> \<not> pss_isChanSub p \<and> userIsReader t (pss_uid p) \<and>
     \<not> s_terminating (w_sess t sid) \<and> s_multi (w_sess t sid) = None \<and> (\<forall>n. \<not> e_room e n sid) \<and> sid \<noteq> []"

definition keeps_stuck :: "env \<Rightarrow> string \<Rightarrow> per_session \<Rightarrow> world \<Rightarrow> world \<Rightarrow> bool" where
  "keeps_stuck e sid p t t' \<longleftrightarrow> (stuck e sid p t \<longrightarrow> stuck e sid p t')"

interpretation st: frame "keeps_stuck e sid p" for e sid p
  by unfold_locales (auto simp: keeps_stuck_def)

lemma same_views_stuck: "same_views t t1 \<Longrightarrow> same_call t t1 \<Longrightarrow> keeps_stuck e sid p t t1"
  by (simp add: keeps_stuck_def stuck_def same_views_def same_call_def getCallOriginator_def userIsReader_def)

lemma quiet_stuck [simp]: "quiet t t1 \<Longrightarrow> keeps_stuck e sid p t t1"
  by (simp add: same_views_stuck quiet_same_views same_call_quiet)

text \<open>The messages a call sends to the topic.\<close>

definition call_traffic :: "string \<Rightarrow> ServerComMessage \<Rightarrow> bool" where
  "call_traffic sid m \<longleftrightarrow> Pres m = None \<and> scm_SkipSid m \<noteq> sid \<and>
     (case Info m of None \<Rightarrow> True | Some i \<Rightarrow> info_Src i = [] \<and> info_SkipTopic i = [] \<and> info_What i \<noteq> ''kp'')"

lemma stuck_receives: "stuck e sid p t \<Longrightarrow> call_traffic sid m \<Longrightarrow> receives t m sid p"
  by (auto simp: stuck_def receives_def call_traffic_def split: option.splits)

definition jams :: "env \<Rightarrow> string \<Rightarrow> per_session \<Rightarrow> broadcast \<Rightarrow> bool" where
  "jams e sid p bc \<longleftrightarrow> (\<forall>t m. stuck e sid p t \<and> call_traffic sid m \<longrightarrow> bc t m = None)"

lemma jams_ends: "jams e sid p bc \<Longrightarrow> call_traffic sid m \<Longrightarrow> ends (keeps_stuck e sid p) (\<lambda>t. t) t (bc t m)"
  by (auto simp: jams_def ends_def keeps_stuck_def)

lemma numbered_stuck: "keeps_stuck e sid p t (numbered t msg u m att rb)"
proof (rule same_views_stuck [OF numbered_views])
  show "same_call t (numbered t msg u m att rb)"
    by (simp add: same_call_def numbered_def Let_def put_user_def)
qed

lemma number_step:
  fixes msg :: ClientComMessage
  assumes "pud = user_of t u" "b = (map_of (t_perUser t) u \<noteq> None)" "\<And>t1. ends (keeps_stuck e sid p) w t1 (f t1)"
  shows "ends (keeps_stuck e sid p) w t (let t1 = put_out (Store (MessagesSave m att rb)) t;
      t2 = t1\<lparr>t_lastID := t_lastID t1 + 1, t_touched := msg_Timestamp msg\<rparr>;
      t3 = if b then put_user u (pud\<lparr>u_readID := t_lastID t2, u_recvID := t_lastID t2\<rparr>) t2 else t2 in f t3)"
proof -
  have "ends (keeps_stuck e sid p) w t (f (numbered t msg u m att rb))"
    by (rule st.after [OF numbered_stuck assms(3)])
  then show ?thesis unfolding assms(1,2) numbered_def Let_def by (simp split del: if_split cong: if_cong)
qed

lemma stuck_ends:
  "ends (keeps_stuck e sid p) (\<lambda>t. t) t (presSubsOffline t what params fs ft skip oo)"
  by (auto intro!: endsI dest: quiet_presSubsOffline)

lemma stuck_save:
  assumes "jams e sid p bc" "sid \<noteq> []"
  shows "ends (keeps_stuck e sid p) fst t (saveAndBroadcastMessage bc e t msg u False att head content)"
proof -
  have bc: "ends (keeps_stuck e sid p) (\<lambda>t. t) t (bc (put_out (PluginMessage x) t) ((data_message msg seq head content)\<lparr>scm_SkipSid := []\<rparr>))"
    for t x seq head
    by (rule st.after [OF _ jams_ends [OF assms(1)]])
      (use assms(2) in \<open>simp_all add: call_traffic_def data_message_def empty_ServerComMessage_def\<close>)
  show ?thesis
    unfolding saveAndBroadcastMessage_def
    by (intro number_step st.rules stuck_ends) (simp_all add: bc)
qed

lemma stuck_queue:
  assumes "stuck e sid p t" "queueOut e t (Some sid) m = (t1, ok)"
  shows "\<not> ok"
  using assms by (auto simp: stuck_def queueOut_def session_push_def Let_def split: option.splits)

lemma send_loop_dropped: "send_loop e m ss ds t = Some (t', ds') \<Longrightarrow> \<exists>xs. ds' = ds @ xs"
  by (induction ss arbitrary: t ds) (fastforce split: if_splits bind_splits prod.splits)+

lemma stuck_end:
  assumes "jams e sid p bc" "stuck e sid p t"
  shows "maybeEndCallInProgress bc e t frm msg b = None"
proof -
  have sid: "sid \<noteq> []" using assms(2) by (simp add: stuck_def)
  have s0: "stuck e sid p (put_out (CallTimer False) t)"
    using quiet_stuck [OF quiet_put_out, of "CallTimer False" e sid p t] assms(2) by (simp add: keeps_stuck_def)
  have no: "bc t1 (infoMessage call ''hang-up'') = None"
    if "saveAndBroadcastMessage bc e (put_out (CallTimer False) t) m u False [] h c = Some (t1, err)" for t1 err call m u h c
  proof -
    have "stuck e sid p t1" using endsD2 [OF stuck_save [OF assms(1) sid] that] s0 by (simp add: keeps_stuck_def)
    moreover have "call_traffic sid (infoMessage call ''hang-up'')"
      using sid by (simp add: call_traffic_def infoMessage_def info0_def empty_ServerComMessage_def)
    ultimately show ?thesis using assms(1) by (auto simp: jams_def)
  qed
  have "post (\<lambda>_. False) (maybeEndCallInProgress bc e t frm msg b)"
    using assms(2) unfolding maybeEndCallInProgress_def
    by (intro post_rules) (auto simp: stuck_def no)
  then show ?thesis by (cases "maybeEndCallInProgress bc e t frm msg b") (auto simp: post_def)
qed

lemma stuck_terminate:
  assumes "jams e sid p bc" "stuck e sid p t"
  shows "terminateCallInProgress bc e t b = None"
  using assms stuck_end [OF assms] by (auto simp: terminateCallInProgress_def stuck_def split: option.split)

lemma stuck_unregister:
  assumes "jams e sid p bc" "stuck e sid p t"
  shows "unregisterSession bc e t sid msg = None"
proof -
  have "endsCall t sid" using assms(2) by (auto simp: stuck_def endsCall_def)
  then show ?thesis using stuck_terminate [OF assms] by (simp add: unregisterSession_def)
qed

lemma broadcast_jams: "jams e sid p (broadcastToSessions depth e)"
proof (induction depth)
  case (Suc depth)
  have "broadcastToSessions (Suc depth) e t msg = None" if st: "stuck e sid p t" and m: "call_traffic sid msg" for t msg
  proof -
    obtain ss where ss: "t_sessions t = (sid, p) # ss" using st by (auto simp: stuck_def)
    let ?m = "msg\<lparr>scm_TenantID := t_tenantID t\<rparr>"
    have r: "receives t ?m sid p" using stuck_receives [OF st] m by (simp add: call_traffic_def)
    have "post (\<lambda>_. False) (broadcastToSessions (Suc depth) e t msg)"
      unfolding broadcastToSessions.simps
    proof (intro post_rules)
      fix t1 ds assume l: "send_loop e ?m (t_sessions t) [] t = Some (t1, ds)"
      have "stuck e sid p t1" using quiet_stuck [OF send_loop_quiet [OF l]] st by (simp add: keeps_stuck_def)
      moreover obtain xs where "ds = sid # xs"
        using l r stuck_queue [OF st] by (auto simp: ss split: bind_splits prod.splits if_splits dest!: send_loop_dropped)
      ultimately show "post (\<lambda>_. False) (drop_loop (broadcastToSessions depth e) e ds t1)"
        using stuck_unregister [OF Suc.IH] by (simp add: post_None)
    qed
    then show ?thesis by (cases "broadcastToSessions (Suc depth) e t msg") (auto simp: post_def)
  qed
  then show ?case by (simp add: jams_def del: broadcastToSessions.simps)
qed (simp add: jams_def)

text \<open>
  C32. If the queue of a party of a call in progress is full, delivering a message to the topic never
  returns, however deep the stack: dropping the party ends the call, ending the call publishes a message,
  and publishing it drops the party again. So the server crashes.
\<close>

theorem stuck_call_party_crashes:
  assumes "t_currentCall t = Some call" "map_of (vc_parties call) sid \<noteq> None"
    "getCallOriginator t = Some (u, s)" "\<not> Uid_IsZero u"
    "t_sessions t = (sid, p) # ss" "\<not> isMultiplex (w_sess t sid)" "\<not> pss_isChanSub p" "userIsReader t (pss_uid p)"
    "\<not> s_terminating (w_sess t sid)" "s_multi (w_sess t sid) = None" "\<forall>n. \<not> e_room e n sid"
    "sid \<noteq> []" "Data msg = Some d" "Pres msg = None" "Info msg = None" "scm_SkipSid msg \<noteq> sid"
  shows "broadcastToSessions depth e t msg = None"
proof -
  have "stuck e sid p t" using assms by (simp add: stuck_def)
  moreover have "call_traffic sid msg" using assms by (simp add: call_traffic_def)
  ultimately show ?thesis using broadcast_jams by (auto simp: jams_def)
qed

subsection \<open>Ownership\<close>

definition same_owner :: "world \<Rightarrow> world \<Rightarrow> bool" where
  "same_owner t t' \<longleftrightarrow> t_owner t' = t_owner t"

interpretation so: frame same_owner
  by unfold_locales (auto simp: same_owner_def)

lemma safe_same_owner: "ends safe w t m \<Longrightarrow> ends same_owner w t m"
  by (simp add: ends_def safe_def same_owner_def)

lemma same_owner_user [simp]: "same_owner t (put_user u p t)"
  by (simp add: same_owner_def put_user_def)

lemma safe_owner: "safe t t' \<Longrightarrow> same_owner t t'"
  by (simp add: safe_def same_owner_def)

lemma updateSubscription_owner:
  assumes "IsOwner (u_modeWant (user_of t asUid))"
  shows "ends same_owner fst t (updateSubscription e t sid pkt asUid asChan modeWant private)"
proof -
  have no: "\<not> oc" if "(if c then checkWant e t sid pkt asUid ud m else Some (t, Inr (g', w', False))) = Some (t1, Inr (g, w, oc))"
      "ud = user_of t asUid" for c ud m g' w' t1 g w oc
    using that postD [OF checkWant_post, of e t sid pkt asUid ud m] assms by (auto split: if_splits)
  show ?thesis
    unfolding updateSubscription_def
    apply (intro so.rules refuse_safe [THEN safe_same_owner] checkWant_safe [THEN safe_same_owner])
    apply (simp_all add: safe_owner)
    apply (drule no; simp)
    done
qed

text \<open>
  A user who asked for the owner permission before it was granted never becomes the owner: whatever
  this user requests later, the topic keeps its owner, also after the owner has granted the permission.
  New subscribers may ask for it at once, while for existing ones asking is what starts the transfer.
\<close>

theorem early_owner_request_blocks_transfer:
  assumes "map_of (t_perUser t) u \<noteq> None" "IsOwner (u_modeWant (user_of t u))"
    "thisUserSub e t sid pkt u asChan want private = Some (t', r)"
  shows "t_owner t' = t_owner t"
proof -
  have ev: "ends same_owner (\<lambda>t. t) t (evictUser e t u False skip)" for t skip
    by (rule safe_same_owner [OF evictUser_safe]) (simp add: may_evict_def)
  have no: "ends same_owner (\<lambda>t. t) t (notifySubChange e (if b then t else unread_change u ow og ud t) v actor c ow' og' nw ng skip)"
    for t b ow og ud v actor c ow' og' nw ng skip
    using so.after [OF safe_owner [OF unread_change_safe] safe_ends(9) [THEN safe_same_owner]] safe_ends(9) [THEN safe_same_owner]
    by (cases b) simp_all
  have "ends same_owner fst t (thisUserSub e t sid pkt u asChan want private)"
    unfolding thisUserSub_def
    by (intro so.rules newSubscription_safe [THEN safe_same_owner] updateSubscription_owner [OF assms(2)]
        refuse_safe [THEN safe_same_owner] safe_ends [THEN safe_same_owner] ev no) (simp_all add: so.refl)
  from endsD2 [OF this assms(3)] show ?thesis by (simp add: same_owner_def)
qed

subsection \<open>A sample group\<close>

text \<open>A group with an owner and a member, the owner attached with one session, for the witnesses.\<close>

definition env0 :: env where
  "env0 = \<lparr>e_now = 100, e_maxSubscriberCount = 32, e_typesModeCP2P = ModeCP2P, e_haveIceServers = True, e_msgDeleteAge = 0,
     e_room = (\<lambda>_ _. True), e_SubsGet = (\<lambda>_ _ _. Inr None), e_SubsCreate = (\<lambda>_. None), e_SubsUpdate = (\<lambda>_ _ _. None),
     e_SubsDelete = (\<lambda>_ _. None), e_UsersGet = (\<lambda>_. Inr None), e_UsersGetSubs = (\<lambda>_. Inr []), e_OwnerChange = (\<lambda>_. None),
     e_MessagesSave = (\<lambda>_ _ _. (None, False)), e_DeleteList = (\<lambda>_ _ _ _. None)\<rparr>"

definition group0 :: world where
  "group0 =
     \<lparr>t_tenantID = 1, t_name = ''grpA'', t_xoriginal = ''grpA'', t_cat = TopicCatGrp, t_created = 0, t_updated = 0,
      t_touched = 0, t_lastID = 7, t_delID = 0, t_subCnt = 2, t_userAgent = [], t_owner = 1, t_accessAuth = ModeCPublic,
      t_accessAnon = 0, t_tags = [], t_aux = [], t_public = ANil, t_trusted = ANil,
      t_perUser = [(1, user0\<lparr>u_online := 1, u_modeGiven := ModeCFull, u_modeWant := ModeCFull, u_readID := 5, u_recvID := 7\<rparr>),
        (2, user0\<lparr>u_modeGiven := ModeCPublic, u_modeWant := ModeCPublic\<rparr>)],
      t_modeWantUnion = ModeCFull, t_modeGivenUnion = ModeCFull, t_perSubs = [],
      t_sessions = [(''s1'', \<lparr>pss_uid = 1, pss_isChanSub = False, pss_muids = []\<rparr>)], t_currentCall = None,
      t_status = topicStatusLoaded, t_isChan = False, t_isProxy = False,
      w_sess = (\<lambda>_. session0\<lparr>s_uid := 1\<rparr>), w_out = [], w_tries = 0\<rparr>"

definition pub0 :: ClientComMessage where
  "pub0 = client_message0\<lparr>cm_Pub := Some \<lparr>pub_Id = ''m'', pub_Topic = ''grpA'', pub_NoEcho = False, pub_Head = None,
     pub_Content = AStr ''hi''\<rparr>, msg_Id := ''m'', msg_Original := ''grpA'', msg_RcptTo := ''grpA'', msg_AsUser := UserId 1,
     msg_AuthLvl := LevelAuth, msg_Timestamp := 100, msg_sess := Some ''s1''\<rparr>"


lemma group0_modes:
  "user_of group0 1 = user0\<lparr>u_online := 1, u_modeGiven := ModeCFull, u_modeWant := ModeCFull, u_readID := 5, u_recvID := 7\<rparr>"
  "user_of group0 3 = user0" "\<not> isInactive group0" "\<not> isReadOnly group0" "IsWriter (ModeCFull AND ModeCFull)" "IsReader (ModeCFull AND ModeCFull)"
  by (simp_all add: user_of_def group0_def) code_simp+

lemma group0_ready: "ready env0 group0 sid"
  by (simp add: ready_def env0_def group0_def session0_def)

lemma group0_publishes:
  "\<exists>t'. handleClientMsg 1 env0 group0 pub0 = Some t' \<and> t_lastID t' = 8 \<and> saves t' = [8]"
proof -
  let ?m = "pub0\<lparr>msg_TenantID := 1\<rparr>" and ?p = "the (cm_Pub pub0)"
  have f: "t_cat group0 \<noteq> TopicCatP2P" "\<not> isCallPub ?p" "t_lastID group0 = 7" "saves group0 = []" "t_tenantID group0 = 1"
    "msg_sess ?m = Some ''s1''" "\<And>m att rb. fst (e_MessagesSave env0 m att rb) = None" "msg_TenantID pub0 = 0"
    "ParseUserId (msg_AsUser ?m) = 1"
    by (simp_all add: group0_def pub0_def client_message0_def isCallPub_def env0_def saves_def)
  have "cm_Pub pub0 = Some p \<Longrightarrow> ?p = p" for p by simp
  then have "handleClientMsg 1 env0 group0 pub0 = handlePubBroadcast 1 env0 group0 ?m ?p"
    using f(5,8) by (simp add: handleClientMsg_def TenantID_IsZero_def Let_def split: option.split) (simp add: pub0_def)
  moreover have "IsWriter (user_mode (user_of group0 1))" using group0_modes by (simp add: user_mode_def)
  ultimately show ?thesis
    using publish_returns [of group0 ?p env0 1 ?m "''s1''" 0] f group0_modes group0_ready by auto
qed


theorem publish_refused_witness:
  "\<exists>t'. handlePubBroadcast 1 env0 group0 (pub0\<lparr>msg_AsUser := UserId 3\<rparr>) (the (cm_Pub pub0)) = Some t' \<and> saves t' = [] \<and> t_lastID t' = 7"
proof -
  let ?m = "pub0\<lparr>msg_AsUser := UserId 3\<rparr>"
  have no: "\<not> IsWriter (user_mode (user_of group0 3))" by (simp add: group0_modes user_mode_def user0_def IsWriter_def)
  have cat: "t_cat group0 = TopicCatGrp" "t_isChan group0 = False" by (simp_all add: group0_def)
  obtain t' where t': "handlePubBroadcast 1 env0 group0 ?m (the (cm_Pub pub0)) = Some t'"
    using no cat by (simp add: handlePubBroadcast_def saveAndBroadcastMessage_def original_def group0_modes isCallPub_def pub0_def client_message0_def Let_def)
  then have "topic.truncate t' = topic.truncate group0 \<and> saves t' = saves group0"
    using publish_refused [OF _ t'] no cat by simp
  then show ?thesis using t' by (auto simp: group0_def saves_def topic.defs)
qed

theorem broadcast_depth_witness:
  "broadcastToSessions 5 env0 group0 empty_ServerComMessage = broadcastToSessions 1 env0 group0 empty_ServerComMessage"
  using broadcast_depth [of group0 4 env0 empty_ServerComMessage] by (simp add: group0_def eval_nat_numeral)

text \<open>The owner as the originator of a call, with a full queue; and a member who wants to own the group.\<close>

definition call0 :: world where
  "call0 = group0\<lparr>t_cat := TopicCatP2P, t_currentCall := Some \<lparr>vc_parties = [(''s1'', \<lparr>cp_uid = 1, cp_isOriginator = True, cp_sess = ''s1''\<rparr>)],
     vc_seq = 7, vc_content = ANil, vc_contentMime = ANil, vc_acceptedAt = 0\<rparr>\<rparr>"

theorem stuck_call_party_crashes_witness:
  "broadcastToSessions 1000 (env0\<lparr>e_room := \<lambda>_ _. False\<rparr>) call0 (data_message pub0 8 None ANil) = None"
proof (rule stuck_call_party_crashes)
  show "t_currentCall call0 = Some (the (t_currentCall call0))" "map_of (vc_parties (the (t_currentCall call0))) ''s1'' \<noteq> None"
    "getCallOriginator call0 = Some (1, ''s1'')" "\<not> Uid_IsZero 1"
    "t_sessions call0 = (''s1'', \<lparr>pss_uid = 1, pss_isChanSub = False, pss_muids = []\<rparr>) # []"
    by (simp_all add: call0_def group0_def getCallOriginator_def Uid_IsZero_def ZeroUid_def)
  have "user_of call0 1 = user_of group0 1" by (simp add: user_of_def call0_def group0_def)
  then show "userIsReader call0 (pss_uid \<lparr>pss_uid = 1, pss_isChanSub = False, pss_muids = []\<rparr>)"
    using group0_modes by (simp add: userIsReader_def getPerUserAcs_def Uid_IsZero_def ZeroUid_def)
qed (simp_all add: call0_def group0_def session0_def isMultiplex_def data_message_def empty_ServerComMessage_def env0_def)

definition group1 :: world where
  "group1 = group0\<lparr>t_perUser := [(1, user0\<lparr>u_modeGiven := ModeCFull, u_modeWant := ModeCFull\<rparr>),
     (2, user0\<lparr>u_modeGiven := ModeCFull, u_modeWant := ModeCFull\<rparr>)]\<rparr>"

theorem early_owner_request_blocks_transfer_witness:
  "\<exists>t' r. thisUserSub env0 group1 ''s1'' client_message0 2 False ''JRWPASDO'' ANil = Some (t', r) \<and>
     IsOwner (user_mode (user_of group1 2)) \<and> t_owner t' = 1"
proof -
  have modes: "parse_mode ''JRWPASDO'' = Inr ModeCFull" "IsOwner ModeCFull" "ModeCFull \<noteq> ModeUnset" "BetterEqual ModeCFull ModeCFull"
    "IsJoiner ModeCFull" "IsOwner (ModeCFull AND ModeCFull)" "\<not> isNullValue ANil"
    by code_simp+
  have g: "user_of group1 2 = user0\<lparr>u_modeGiven := ModeCFull, u_modeWant := ModeCFull\<rparr>" "t_owner group1 = 1" "t_cat group1 = TopicCatGrp"
    "map_of (t_perUser group1) 2 \<noteq> None" "\<not> u_deleted (user_of group1 2)"
    by (simp_all add: user_of_def group1_def group0_def user0_def)
  obtain t' r where t': "thisUserSub env0 group1 ''s1'' client_message0 2 False ''JRWPASDO'' ANil = Some (t', r)"
    using modes g by (simp add: thisUserSub_def updateSubscription_def checkWant_def Let_def)
  then have "t_owner t' = t_owner group1"
    using g modes by (intro early_owner_request_blocks_transfer [OF g(4) _ t']) simp
  then show ?thesis using t' g modes by (auto simp: user_mode_def)
qed

end
