(* ===== verification/UserCreds.thy ===== *)
theory UserCreds
  imports TopicState
begin

section \<open>Credentials of a user (server/user.go)\<close>

text \<open>
  Adding, checking and deleting credentials such as email addresses and phone numbers. The validators
  are reached through an interface; a \<open>validator\<close> has its answers. A call returns the changes it made in
  the store, in order, beside its result. The tags of a user are returned only if they changed.
\<close>

record credential = obj_header +
  crd_User :: string
  crd_Method :: string
  crd_Value :: string
  crd_Resp :: string
  crd_Done :: bool
  crd_Retries :: int

record validator =
  v_IsInitialized :: bool
  v_Request :: "tenant_id \<Rightarrow> uid \<Rightarrow> string \<Rightarrow> string \<Rightarrow> string \<Rightarrow> bytes \<Rightarrow> store_result + bool"
  v_Check :: "tenant_id \<Rightarrow> uid \<Rightarrow> string \<Rightarrow> store_result + string"
  v_Remove :: "tenant_id \<Rightarrow> uid \<Rightarrow> string \<Rightarrow> store_result"

text \<open>
  \<open>ce_addToTags\<close> is the configured validators of \<^verbatim>\<open>globals.validators\<close> with their flag, \<open>ce_authValidators\<close> the methods
  required at each level, \<open>ce_order\<close> the order of iteration over a Go map of credentials.
\<close>

record cred_env =
  ce_validator :: "string \<Rightarrow> validator option"
  ce_addToTags :: "string \<Rightarrow> bool option"
  ce_authValidators :: "level \<Rightarrow> string list"
  ce_order :: "(string \<times> MsgCredClient) list \<Rightarrow> (string \<times> MsgCredClient) list"
  ce_GetAllCreds :: "tenant_id \<Rightarrow> uid \<Rightarrow> string \<Rightarrow> bool \<Rightarrow> store_result + credential list"
  ce_UpdateTags :: "tenant_id \<Rightarrow> uid \<Rightarrow> string list \<Rightarrow> string list \<Rightarrow> store_result + string list option"

definition adds_tags :: "cred_env \<Rightarrow> string \<Rightarrow> bool" where
  "adds_tags ce method \<longleftrightarrow> ce_addToTags ce method = Some True"

definition cred_tag :: "string \<Rightarrow> string \<Rightarrow> string" where
  "cred_tag method value = method @ '':'' @ value"

subsection \<open>Adding credentials\<close>

fun addCreds_loop ::
  "cred_env \<Rightarrow> tenant_id \<Rightarrow> uid \<Rightarrow> string \<Rightarrow> bytes \<Rightarrow> string list \<Rightarrow> string list \<Rightarrow> store_op list \<Rightarrow> MsgCredClient list \<Rightarrow>
     store_op list \<times> (store_result + string list \<times> string list)" where
  "addCreds_loop ce tn u lang token validated extraTags out [] = (out, Inr (validated, extraTags))"
| "addCreds_loop ce tn u lang token validated extraTags out (cr # creds) =
     (case ce_validator ce (cred_Method cr) of
        None \<Rightarrow> addCreds_loop ce tn u lang token validated extraTags out creds
      | Some vld \<Rightarrow>
          if \<not> v_IsInitialized vld then addCreds_loop ce tn u lang token validated extraTags out creds
          else
            (case v_Request vld tn u (cred_Value cr) lang (cred_Response cr) token of
               Inl err \<Rightarrow> (out, Inl err)
             | Inr isNew \<Rightarrow>
                 (let out = out @ [ValidatorRequest (cred_Method cr) u (cred_Value cr) (cred_Response cr)]
                  in if isNew \<and> cred_Response cr \<noteq> [] then
                       addCreds_loop ce tn u lang token (validated @ [cred_Method cr])
                         (if adds_tags ce (cred_Method cr) then extraTags @ [cred_tag (cred_Method cr) (cred_Value cr)] else extraTags)
                         out creds
                     else addCreds_loop ce tn u lang token validated extraTags out creds)))"

text \<open>When the tags cannot be saved, the unsaved tags are returned in place of the full set.\<close>

definition addCreds ::
  "cred_env \<Rightarrow> tenant_id \<Rightarrow> uid \<Rightarrow> MsgCredClient list \<Rightarrow> string list \<Rightarrow> string \<Rightarrow> bytes \<Rightarrow>
     store_op list \<times> (store_result + string list \<times> string list option)" where
  "addCreds ce tn u creds extraTags lang token =
     (case addCreds_loop ce tn u lang token [] extraTags [] creds of
        (out, Inl err) \<Rightarrow> (out, Inl err)
      | (out, Inr (validated, extraTags)) \<Rightarrow>
          if extraTags = [] then (out, Inr (validated, None))
          else
            (case ce_UpdateTags ce tn u extraTags [] of
               Inl _ \<Rightarrow> (out, Inr (validated, Some extraTags))
             | Inr utags \<Rightarrow> (out @ [UsersUpdateTags u extraTags []], Inr (validated, utags))))"

subsection \<open>Checking responses\<close>

fun validatedCreds_loop ::
  "cred_env \<Rightarrow> tenant_id \<Rightarrow> uid \<Rightarrow> bool \<Rightarrow> string list \<Rightarrow> string list \<Rightarrow> store_op list \<Rightarrow> MsgCredClient list \<Rightarrow>
     (store_op list \<times> (store_result + string list \<times> string list)) option" where
  "validatedCreds_loop ce tn u errorOnFail methods tagsToAdd out [] = Some (out, Inr (methods, tagsToAdd))"
| "validatedCreds_loop ce tn u errorOnFail methods tagsToAdd out (cr # creds) =
     (if cred_Response cr = [] then validatedCreds_loop ce tn u errorOnFail methods tagsToAdd out creds
      else
        (case ce_validator ce (cred_Method cr) of
           None \<Rightarrow> None
         | Some vld \<Rightarrow>
             (case v_Check vld tn u (cred_Response cr) of
                Inl err \<Rightarrow>
                  if err = StoreErr types_ErrCredentials then
                    (if errorOnFail then Some (out, Inl (StoreErr types_ErrInvalidResponse))
                     else validatedCreds_loop ce tn u errorOnFail methods tagsToAdd out creds)
                  else Some (out, Inl err)
              | Inr value \<Rightarrow>
                  validatedCreds_loop ce tn u errorOnFail (List.insert (cred_Method cr) methods)
                    (if adds_tags ce (cred_Method cr) then tagsToAdd @ [cred_tag (cred_Method cr) value] else tagsToAdd)
                    (out @ [ValidatorCheck (cred_Method cr) u (cred_Response cr)]) creds)))"

text \<open>A configured validator that is not registered is a nil interface; calling it panics.\<close>

definition validatedCreds ::
  "cred_env \<Rightarrow> tenant_id \<Rightarrow> uid \<Rightarrow> level \<Rightarrow> MsgCredClient list \<Rightarrow> bool \<Rightarrow>
     (store_op list \<times> (store_result + string list \<times> string list option)) option" where
  "validatedCreds ce tn u lvl creds errorOnFail =
     (if ce_authValidators ce lvl = [] then Some ([], Inr ([], None))
      else
        (case ce_GetAllCreds ce tn u [] True of
           Inl err \<Rightarrow> Some ([], Inl err)
         | Inr allCreds \<Rightarrow>
             (let methods = remdups (map crd_Method allCreds);
                  creds = normalizeCredentials (ce_order ce) (\<lambda>m. ce_addToTags ce m \<noteq> None) creds False
              in do {
                (out, r) \<leftarrow> validatedCreds_loop ce tn u errorOnFail methods [] [] creds;
                Some (case r of
                   Inl err \<Rightarrow> (out, Inl err)
                 | Inr (methods, tagsToAdd) \<Rightarrow>
                     if tagsToAdd = [] then (out, Inr (methods, None))
                     else
                       (case ce_UpdateTags ce tn u tagsToAdd [] of
                          Inl _ \<Rightarrow> (out, Inr (methods, None))
                        | Inr utags \<Rightarrow> (out @ [UsersUpdateTags u tagsToAdd []], Inr (methods, utags))))
              })))"

subsection \<open>Deleting a credential\<close>

definition may_delete :: "string \<Rightarrow> credential \<Rightarrow> bool" where
  "may_delete value cr \<longleftrightarrow> (crd_Done cr \<and> crd_Value cr \<noteq> value) \<or> (\<not> crd_Done cr \<and> crd_Value cr = value)"

definition deleteCred ::
  "cred_env \<Rightarrow> tenant_id \<Rightarrow> uid \<Rightarrow> level \<Rightarrow> MsgCredClient \<Rightarrow> store_op list \<times> (store_result + string list option)" where
  "deleteCred ce tn u lvl cred =
     (let method = cred_Method cred; value = cred_Value cred
      in case ce_validator ce method of
           None \<Rightarrow> ([], Inl (StoreErr types_ErrMalformed))
         | Some vld \<Rightarrow>
             if value = [] then ([], Inl (StoreErr types_ErrMalformed))
             else
               (case (if method \<in> set (ce_authValidators ce lvl) then
                        (case ce_GetAllCreds ce tn u method False of
                           Inl err \<Rightarrow> err
                         | Inr allCreds \<Rightarrow> if list_ex (may_delete value) allCreds then NilErr else StoreErr types_ErrPolicy)
                      else NilErr) of
                  NilErr \<Rightarrow>
                    (case v_Remove vld tn u value of
                       NilErr \<Rightarrow>
                         (let out = [ValidatorRemove method u value]; tag = cred_tag method value
                          in if adds_tags ce method then
                               (case ce_UpdateTags ce tn u [] [tag] of
                                  Inl _ \<Rightarrow> (out, Inr None)
                                | Inr utags \<Rightarrow> (out @ [UsersUpdateTags u [] [tag]], Inr utags))
                             else (out, Inr None))
                     | err \<Rightarrow> if err = StoreErr types_ErrNotFound then ([], Inr None) else ([], Inl err))
                | err \<Rightarrow> ([], Inl err)))"

text \<open>
  C22. A user does not lose a required way of contact: if the method is required at the user's level and
  the user has a validated credential of it, then deleting a credential of this method leaves a
  validated one.
\<close>

theorem required_credential_stays:
  assumes "deleteCred ce tn u lvl cred = (out, r)" "ValidatorRemove (cred_Method cred) u (cred_Value cred) \<in> set out"
    "cred_Method cred \<in> set (ce_authValidators ce lvl)" "ce_GetAllCreds ce tn u (cred_Method cred) False = Inr creds"
    "distinct (map crd_Value creds)" "c \<in> set creds" "crd_Done c"
  shows "\<exists>d \<in> set creds. crd_Done d \<and> crd_Value d \<noteq> cred_Value cred"
proof -
  have "list_ex (may_delete (cred_Value cred)) creds"
    using assms(1-4) by (auto simp: deleteCred_def Let_def split: option.splits if_splits store_result.splits)
  then obtain d where d: "d \<in> set creds" "may_delete (cred_Value cred) d" by (auto simp: list_ex_iff)
  show ?thesis
  proof (cases "crd_Value c = cred_Value cred \<and> \<not> crd_Done d")
    case True
    with d have "crd_Value c = crd_Value d" by (simp add: may_delete_def)
    then have "c = d" using assms(5,6) d(1) by (metis distinct_map inj_onD)
    with True assms(7) show ?thesis by simp
  next
    case False
    with d assms(6,7) show ?thesis by (auto simp: may_delete_def)
  qed
qed

text \<open>A user with two validated addresses, for the witness.\<close>

definition cred0 :: "string \<Rightarrow> credential" where
  "cred0 v = \<lparr>Id = [], header_id = ZeroUid, CreatedAt = 0, UpdatedAt = 0, crd_User = [], crd_Method = ''email'', crd_Value = v,
     crd_Resp = [], crd_Done = True, crd_Retries = 0\<rparr>"

definition cred_env0 :: cred_env where
  "cred_env0 = \<lparr>ce_validator = (\<lambda>_. Some \<lparr>v_IsInitialized = True, v_Request = (\<lambda>_ _ _ _ _ _. Inr True),
       v_Check = (\<lambda>_ _ _. Inr ''a@b.c''), v_Remove = (\<lambda>_ _ _. NilErr)\<rparr>),
     ce_addToTags = (\<lambda>_. Some True), ce_authValidators = (\<lambda>_. [''email'']), ce_order = (\<lambda>xs. xs),
     ce_GetAllCreds = (\<lambda>_ _ _ _. Inr [cred0 ''a@b.c'', cred0 ''d@e.f'']), ce_UpdateTags = (\<lambda>_ _ a r. Inr (Some [])) \<rparr>"

theorem required_credential_stays_witness:
  "\<exists>d \<in> set [cred0 ''a@b.c'', cred0 ''d@e.f'']. crd_Done d \<and> crd_Value d \<noteq> ''a@b.c''"
proof -
  let ?c = "\<lparr>cred_Method = ''email'', cred_Value = ''a@b.c'', cred_Response = [], cred_Params = []\<rparr>"
  have 1: "deleteCred cred_env0 1 5 LevelAuth ?c =
      ([ValidatorRemove ''email'' 5 ''a@b.c'', UsersUpdateTags 5 [] [''email:a@b.c'']], Inr (Some []))"
    by (simp add: deleteCred_def cred_env0_def may_delete_def cred0_def adds_tags_def cred_tag_def Let_def)
  show ?thesis
    using required_credential_stays [OF 1, of "[cred0 ''a@b.c'', cred0 ''d@e.f'']" "cred0 ''d@e.f''"]
    by (simp add: cred_env0_def cred0_def)
qed

end
