(* ===== verification/TopicMeta.thy ===== *)
theory TopicMeta
  imports UserCreds SearchQuery Membership Broadcast
begin

section \<open>Topic metadata (server/topic.go)\<close>

text \<open>
  The requests that read or change what a topic says about itself: description, subscriptions,
  stored messages, deleted messages, tags, credentials and auxiliary data, and the handlers that
  dispatch them. \<open>meta_env\<close> has the configuration and the answers of the store, of the plugins and of the
  validators that only these requests need.
\<close>

datatype subs_query =
    GetTopics uid "query_opt option"
  | GetTopicsAny uid "query_opt option"
  | GetSubs string "query_opt option"
  | GetSubsAny string "query_opt option"
  | GetUsers string "query_opt option"
  | GetUsersAny string "query_opt option"
  | FindSubs uid string "string list list" "string list" bool

record meta_env =
  m_un :: unicode_tables
  m_maxTagCount :: nat
  m_immutableTagNS :: "string \<Rightarrow> bool"
  m_maskedTagNS :: "string \<Rightarrow> bool"
  m_aliasTagNS :: string
  m_preCheck :: "string \<Rightarrow> string \<Rightarrow> string option"
  m_creds :: cred_env
  m_tmpToken :: "tenant_id \<Rightarrow> uid \<Rightarrow> bytes"
  m_UsersUpdate :: "uid \<Rightarrow> obj_update list \<Rightarrow> store_result"
  m_TopicsUpdate :: "string \<Rightarrow> obj_update list \<Rightarrow> store_result"
  m_LinkAttachments :: "string \<Rightarrow> string list \<Rightarrow> store_result"
  m_UpdateSubCnt :: "string \<Rightarrow> store_result"
  m_Subs :: "subs_query \<Rightarrow> store_result + subscription list"
  m_FindOne :: "string \<Rightarrow> store_result + string"
  m_GetAll :: "string \<Rightarrow> uid \<Rightarrow> query_opt option \<Rightarrow> store_result + message list"
  m_GetDeleted :: "string \<Rightarrow> uid \<Rightarrow> query_opt option \<Rightarrow> store_result + (range list \<times> int)"
  m_pluginFind :: "uid \<Rightarrow> string \<Rightarrow> store_result + (string \<times> subscription list option)"

text \<open>The message of an error; what is returned to the dispatcher is only logged there.\<close>

definition err_text :: "store_result \<Rightarrow> go_error" where
  "err_text r = (case r of NilErr \<Rightarrow> [] | StoreErr x \<Rightarrow> x | OtherErr x \<Rightarrow> x)"

text \<open>The decoded error goes to the session and the error to the caller.\<close>

definition store_refuse ::
  "env \<Rightarrow> world \<Rightarrow> string \<Rightarrow> store_result \<Rightarrow> string \<Rightarrow> string \<Rightarrow> time \<Rightarrow> unit handled" where
  "store_refuse e t sid err i topic its =
     do {
       m \<leftarrow> decodeStoreErrorExplicitTs err i topic (e_now e) its None;
       Some (reply e t (Some sid) m, if err = NilErr then Inr () else Inl (err_text err))
     }"

definition answer :: "env \<Rightarrow> world \<Rightarrow> string \<Rightarrow> ServerComMessage \<Rightarrow> unit handled" where
  "answer e t sid m = Some (reply e t (Some sid) m, Inr ())"

definition what_params :: "string \<Rightarrow> go_any" where
  "what_params s = AMap [(''what'', AStr s)]"

definition meta0 :: "string \<Rightarrow> string \<Rightarrow> time \<Rightarrow> MsgServerMeta" where
  "meta0 i topic now = \<lparr>meta_Id = i, meta_Topic = topic, meta_Timestamp = Some now, meta_Desc = None, meta_Sub = [],
     meta_Del = None, meta_Tags = [], meta_Cred = [], meta_Aux = []\<rparr>"

definition meta_message :: "MsgServerMeta \<Rightarrow> ServerComMessage" where
  "meta_message m = empty_ServerComMessage\<lparr>Meta := Some m\<rparr>"

subsection \<open>Sending a batch (server/session.go)\<close>

definition supportsMessageBatching :: "session \<Rightarrow> bool" where
  "supportsMessageBatching s \<longleftrightarrow> s_proto s = WEBSOCK \<or> s_proto s = GRPC"

text \<open>All messages of a batch are one item of the queue.\<close>

definition batch_push :: "env \<Rightarrow> world \<Rightarrow> string \<Rightarrow> ServerComMessage list \<Rightarrow> world" where
  "batch_push e t sid msgs =
     (if supportsMessageBatching (w_sess t sid) then
        (let t' = t\<lparr>w_tries := w_tries t + 1\<rparr>
         in if e_room e (w_tries t) sid then fold (\<lambda>m. put_out (SendTo sid m)) msgs t' else t')
      else fold (\<lambda>m t. reply e t (Some sid) m) msgs t)"

definition queueOutBatch :: "env \<Rightarrow> world \<Rightarrow> string \<Rightarrow> ServerComMessage list \<Rightarrow> world" where
  "queueOutBatch e t sid msgs =
     (let s = w_sess t sid; stamped = map (stamp_tenant s) msgs
      in if s_terminating s \<or> None \<in> set stamped then t
         else
           (let msgs = map the stamped
            in case s_multi s of
                 None \<Rightarrow> batch_push e t sid msgs
               | Some k \<Rightarrow>
                   (let stamped = map (\<lambda>m. stamp_tenant (w_sess t k) (m\<lparr>scm_sess := Some sid\<rparr>)) msgs
                    in if s_terminating (w_sess t k) \<or> None \<in> set stamped then t
                       else batch_push e t k (map the stamped))))"

subsection \<open>Description\<close>

definition desc0 :: MsgTopicDesc where
  "desc0 = \<lparr>td_CreatedAt = None, td_UpdatedAt = None, td_TouchedAt = None, td_State = [], td_Online = False,
     td_IsChan = False, td_LastSeen = None, td_DefaultAcs = None, td_Acs = None, td_SeqId = 0, td_ReadSeqId = 0,
     td_RecvSeqId = 0, td_DelId = 0, td_SubCnt = 0, td_Public = ANil, td_Trusted = ANil, td_Private = ANil\<rparr>"

definition mode_strings :: "access_mode \<Rightarrow> access_mode \<Rightarrow> MsgAccessMode" where
  "mode_strings want given =
     \<lparr>am_Want = AccessMode_String want, am_Given = AccessMode_String given, am_Mode = AccessMode_String (given AND want)\<rparr>"

definition nonzero_time :: "time \<Rightarrow> time option" where
  "nonzero_time x = (if time_IsZero x then None else Some x)"

text \<open>What a stranger sees of a topic.\<close>

definition desc_common :: "world \<Rightarrow> bool \<Rightarrow> bool \<Rightarrow> bool \<Rightarrow> topic_user \<Rightarrow> MsgTopicDesc" where
  "desc_common t ifModifiedGiven ifUpdated full pud =
     (let d = desc0\<lparr>td_CreatedAt := (if ifModifiedGiven then None else Some (t_created t)), td_UpdatedAt := nonzero_time (t_updated t)\<rparr>;
          d = (if t_cat t = TopicCatGrp then d\<lparr>td_IsChan := t_isChan t, td_SubCnt := t_subCnt t\<rparr> else d)
      in if \<not> ifUpdated then d
         else if t_public t \<noteq> ANil \<or> t_trusted t \<noteq> ANil then d\<lparr>td_Public := t_public t, td_Trusted := t_trusted t\<rparr>
         else if full \<and> t_cat t = TopicCatP2P then d\<lparr>td_Public := u_public pud, td_Trusted := u_trusted pud\<rparr>
         else d)"

text \<open>What a subscriber sees in addition.\<close>

definition desc_full :: "world \<Rightarrow> session \<Rightarrow> bool \<Rightarrow> topic_user \<Rightarrow> MsgTopicDesc \<Rightarrow> MsgTopicDesc" where
  "desc_full t s ifUpdated pud d =
     (let mode = user_mode pud;
          d = (if t_cat t \<noteq> TopicCatP2P \<and> (t_cat t = TopicCatMe \<or> IsSharer mode)
               then d\<lparr>td_DefaultAcs := Some \<lparr>da_Auth = AccessMode_String (t_accessAuth t), da_Anon = AccessMode_String (t_accessAnon t)\<rparr>\<rparr>
               else d);
          d = d\<lparr>td_Acs := Some (mode_strings (u_modeWant pud) (u_modeGiven pud))\<rparr>;
          d = (if t_cat t = TopicCatMe \<and> s_authLvl s = LevelRoot then d\<lparr>td_State := ObjState_String StateOK\<rparr> else d);
          d = (if \<not> IsPresencer mode then d
               else if t_cat t = TopicCatGrp then d\<lparr>td_Online := isOnline t\<rparr>
               else if t_cat t = TopicCatP2P \<and> u_lastSeen pud \<noteq> None
               then d\<lparr>td_LastSeen := Some \<lparr>ls_When = u_lastSeen pud, ls_UserAgent = u_lastUA pud\<rparr>\<rparr>
               else d);
          d = (if ifUpdated then d\<lparr>td_Private := u_private pud\<rparr> else d)
      in if IsReader mode
         then d\<lparr>td_SeqId := t_lastID t, td_TouchedAt := nonzero_time (t_touched t), td_DelId := max (u_delID pud) (t_delID t),
                td_ReadSeqId := u_readID pud, td_RecvSeqId := max (u_recvID pud) (u_readID pud)\<rparr>
         else d\<lparr>td_TouchedAt := Some (t_updated t)\<rparr>)"

definition replyGetDesc ::
  "env \<Rightarrow> world \<Rightarrow> string \<Rightarrow> uid \<Rightarrow> MsgGetOpts option \<Rightarrow> ClientComMessage \<Rightarrow> unit handled" where
  "replyGetDesc e t sid asUid opts msg =
     (let now = e_now e
      in if (case opts of None \<Rightarrow> False | Some q \<Rightarrow> go_User q \<noteq> [] \<or> go_Limit q \<noteq> 0)
         then refuse e t sid (ErrMalformedReply msg now) ''invalid GetDesc query''
         else
           (let since = (case opts of None \<Rightarrow> None | Some q \<Rightarrow> go_IfModifiedSince q);
                ifUpdated = (case since of None \<Rightarrow> True | Some x \<Rightarrow> x < t_updated t);
                pud = user_of t asUid;
                full = (map_of (t_perUser t) asUid \<noteq> None \<or> t_cat t = TopicCatMe);
                d = desc_common t (since \<noteq> None) ifUpdated full pud;
                d = (if full then desc_full t (w_sess t sid) ifUpdated pud d else d)
            in answer e t sid (meta_message ((meta0 (msg_Id msg) (msg_Original msg) now)\<lparr>meta_Desc := Some d\<rparr>))))"

text \<open>\<^verbatim>\<open>assignAccess\<close>: the new default access if it differs from the current one.\<close>

definition assignAccess :: "env \<Rightarrow> world \<Rightarrow> MsgDefaultAcsMode option \<Rightarrow> go_error + default_access option" where
  "assignAccess e t mode =
     (case mode of
        None \<Rightarrow> Inr None
      | Some mode \<Rightarrow>
          (case parseTopicAccess mode ModeUnset ModeUnset of
             (auth, anon, Some err) \<Rightarrow> Inl err
           | (auth, anon, None) \<Rightarrow>
               if IsOwner auth \<or> IsOwner anon then Inl ''default 'owner' access is not permitted''
               else
                 (let me = (\<lambda>m mask. if t_cat t = TopicCatMe then (let m = m AND mask in if m \<noteq> ModeNone then m OR ModeApprove else m) else m);
                      auth = (if auth \<noteq> ModeUnset then me auth ModeCAuth else t_accessAuth t);
                      anon = (if anon \<noteq> ModeUnset then me anon (e_typesModeCP2P e) else t_accessAnon t)
                  in Inr (if auth \<noteq> t_accessAuth t \<or> anon \<noteq> t_accessAnon t then Some \<lparr>Auth = auth, Anon = anon\<rparr> else None))))"

text \<open>
  Merging writes into the map it is given, so a map of the topic has the merged value at once, before
  the change is saved and also when saving fails.
\<close>

definition in_place :: "go_any \<Rightarrow> go_any \<Rightarrow> go_any" where
  "in_place dst src = (case (dst, src) of (AMap _, AMap _) \<Rightarrow> fst (mergeInterfaces dst src) | _ \<Rightarrow> dst)"

definition private_in_place :: "uid \<Rightarrow> go_any \<Rightarrow> world \<Rightarrow> world" where
  "private_in_place u src t =
     (case map_of (t_perUser t) u of None \<Rightarrow> t | Some p \<Rightarrow> put_user u (p\<lparr>u_private := in_place (u_private p) src\<rparr>) t)"

text \<open>The changes a request asks for: access, public and trusted of the core object, private of the subscription.\<close>

record desc_change =
  dc_access :: "default_access option"
  dc_public :: "go_any option"
  dc_trusted :: "go_any option"
  dc_private :: "go_any option"

definition changed_value :: "go_any \<Rightarrow> go_any \<Rightarrow> go_any option" where
  "changed_value dst src = (case mergeInterfaces dst src of (v, c) \<Rightarrow> if c then Some v else None)"

definition core_updates :: "desc_change \<Rightarrow> obj_update list" where
  "core_updates c =
     (case dc_access c of None \<Rightarrow> [] | Some a \<Rightarrow> [UpdAccess a]) @ (case dc_public c of None \<Rightarrow> [] | Some v \<Rightarrow> [UpdPublic v]) @
     (case dc_trusted c of None \<Rightarrow> [] | Some v \<Rightarrow> [UpdTrusted v])"

text \<open>First part of \<^verbatim>\<open>replySetDesc\<close>: the checks and the changes; the world has the maps merged in place.\<close>

definition desc_changes ::
  "env \<Rightarrow> world \<Rightarrow> string \<Rightarrow> uid \<Rightarrow> level \<Rightarrow> ClientComMessage \<Rightarrow> MsgSetDesc \<Rightarrow> desc_change handled" where
  "desc_changes e t sid asUid lvl msg desc =
     (let now = e_now e; denied = ErrPermissionDeniedReply msg now; pub = sd_Public desc; tr = sd_Trusted desc;
          priv = changed_value (u_private (user_of t asUid)) (sd_Private desc);
          none = \<lparr>dc_access = None, dc_public = None, dc_trusted = None, dc_private = priv\<rparr>;
          merged = t\<lparr>t_public := in_place (t_public t) pub, t_trusted := in_place (t_trusted t) tr\<rparr>
      in if tr \<noteq> ANil \<and> lvl \<noteq> LevelRoot then refuse e t sid denied ''attempt to change Trusted by non-root''
         else if t_cat t = TopicCatMe \<or> (t_cat t = TopicCatGrp \<and> t_owner t = asUid) then
           (case assignAccess e t (sd_DefaultAcs desc) of
              Inl err \<Rightarrow> refuse e merged sid (ErrMalformedReply msg now) err
            | Inr a \<Rightarrow> Some (private_in_place asUid (sd_Private desc) merged,
                Inr (none\<lparr>dc_access := a, dc_public := changed_value (t_public t) pub, dc_trusted := changed_value (t_trusted t) tr\<rparr>)))
         else if t_cat t = TopicCatFnd then
           (if tr \<noteq> ANil then refuse e t sid denied ''attempt to assign Trusted in fnd topic''
            else do {
              q \<leftarrow> fndGetPublic t sid;
              Some (private_in_place asUid (sd_Private desc) t, Inr (none\<lparr>dc_public := changed_value (AStr q) pub\<rparr>))
            })
         else if (t_cat t = TopicCatP2P \<or> t_cat t = TopicCatGrp) \<and> (pub \<noteq> ANil \<or> tr \<noteq> ANil \<or> sd_DefaultAcs desc \<noteq> None) then
           refuse e t sid denied
             (if t_cat t = TopicCatP2P then ''incorrect attempt to change metadata of a p2p topic''
              else ''attempt to change public or permissions by non-owner'')
         else Some (private_in_place asUid (sd_Private desc) t, Inr none))"

text \<open>The values cached in the topic.\<close>

definition assign_desc :: "world \<Rightarrow> string \<Rightarrow> uid \<Rightarrow> desc_change \<Rightarrow> world option" where
  "assign_desc t sid asUid c =
     do {
       t \<leftarrow> (if t_cat t = TopicCatMe \<or> t_cat t = TopicCatGrp then
               Some (t\<lparr>t_accessAuth := (case dc_access c of None \<Rightarrow> t_accessAuth t | Some a \<Rightarrow> Auth a),
                       t_accessAnon := (case dc_access c of None \<Rightarrow> t_accessAnon t | Some a \<Rightarrow> Anon a),
                       t_public := (case dc_public c of None \<Rightarrow> t_public t | Some v \<Rightarrow> v),
                       t_trusted := (case dc_trusted c of None \<Rightarrow> t_trusted t | Some v \<Rightarrow> v)\<rparr>)
             else if t_cat t = TopicCatFnd then
               map_option fst (fndSetPublic t sid (case dc_public c of None \<Rightarrow> ANil | Some v \<Rightarrow> v))
             else Some t);
       Some (case dc_private c of None \<Rightarrow> t | Some v \<Rightarrow> put_user asUid ((user_of t asUid)\<lparr>u_private := v\<rparr>) t)
     }"

text \<open>The announcements; only a changed public or trusted value counts as a change of the object.\<close>

definition announce_desc :: "env \<Rightarrow> world \<Rightarrow> string \<Rightarrow> uid \<Rightarrow> access_mode \<Rightarrow> desc_change \<Rightarrow> world option" where
  "announce_desc e t sid asUid mode c =
     (let sendCommon = (t_cat t \<noteq> TopicCatFnd \<and> (dc_public c \<noteq> None \<or> dc_trusted c \<noteq> None)); sendPriv = (dc_private c \<noteq> None);
          flt = nilPresFilters\<lparr>excludeUser := UserId asUid, filterIn := ModeJoin\<rparr>
      in if \<not> sendCommon \<and> \<not> sendPriv then Some t
         else do {
           t \<leftarrow> (if sendCommon then do {
                 t \<leftarrow> (if t_cat t = TopicCatMe then presUsersOfInterest t ''upd'' []
                       else presSubsOffline t ''upd'' nilPresParams flt flt sid False);
                 Some (t\<lparr>t_updated := e_now e\<rparr>)
               } else Some t);
           presSingleUserOffline t asUid mode ''upd'' nilPresParams sid False
         })"

definition save_desc :: "env \<Rightarrow> meta_env \<Rightarrow> world \<Rightarrow> uid \<Rightarrow> bool \<Rightarrow> desc_change \<Rightarrow> world \<times> store_result" where
  "save_desc e m t asUid asChan c =
     (let core = core_updates c; core' = core @ [UpdUpdatedAt (e_now e)];
          (t, err) =
            (if core = [] \<or> t_cat t = TopicCatFnd then (t, NilErr)
             else if t_cat t = TopicCatMe then
               (case m_UsersUpdate m asUid core' of NilErr \<Rightarrow> (put_out (Store (UsersUpdate asUid core')) t, NilErr) | err \<Rightarrow> (t, err))
             else
               (case m_TopicsUpdate m (t_name t) core' of
                  NilErr \<Rightarrow> (put_out (Store (TopicsUpdate (t_name t) core')) t, NilErr) | err \<Rightarrow> (t, err)));
          tname = (if asChan then GrpToChn (t_name t) else t_name t)
      in case (err, dc_private c) of
           (NilErr, Some v) \<Rightarrow>
             (case e_SubsUpdate e tname asUid [UpdPrivate v] of
                None \<Rightarrow> (put_out (Store (SubsUpdate tname asUid [UpdPrivate v])) t, NilErr)
              | Some x \<Rightarrow> (t, StoreErr x))
         | _ \<Rightarrow> (t, err))"

definition link_avatar :: "meta_env \<Rightarrow> ClientComMessage \<Rightarrow> desc_change \<Rightarrow> world \<Rightarrow> world" where
  "link_avatar m msg c t =
     (let att = (case cm_Extra msg of None \<Rightarrow> [] | Some x \<Rightarrow> extra_Attachments x)
      in if core_updates c \<noteq> [] \<and> att \<noteq> [] \<and> m_LinkAttachments m (t_name t) att = NilErr
         then put_out (Store (FilesLinkAttachments (t_name t) att)) t else t)"

definition replySetDesc ::
  "env \<Rightarrow> meta_env \<Rightarrow> world \<Rightarrow> string \<Rightarrow> uid \<Rightarrow> bool \<Rightarrow> level \<Rightarrow> ClientComMessage \<Rightarrow> unit handled" where
  "replySetDesc e m t sid asUid asChan lvl msg =
     (let now = e_now e
      in do {
        set \<leftarrow> cm_Set msg;
        (t, r) \<leftarrow> (case sq_Desc (set_Query set) of
             None \<Rightarrow> Some (t, Inr \<lparr>dc_access = None, dc_public = None, dc_trusted = None, dc_private = None\<rparr>)
           | Some desc \<Rightarrow> desc_changes e t sid asUid lvl msg desc);
        (case r of
           Inl err \<Rightarrow> Some (t, Inl err)
         | Inr c \<Rightarrow>
             if core_updates c = [] \<and> dc_private c = None
             then refuse e t sid (InfoNotModifiedReply msg now) ''{set} generated no update to DB''
             else
               (case save_desc e m t asUid asChan c of
                  (t, err) \<Rightarrow>
                    if err \<noteq> NilErr then refuse e t sid (ErrUnknownReply msg now) (err_text err)
                    else
                      (let t = link_avatar m msg c t
                       in do {
                         t \<leftarrow> assign_desc t sid asUid c;
                         t \<leftarrow> announce_desc e t sid asUid (user_mode (user_of t asUid)) c;
                         answer e t sid (NoErrReply msg now)
                       })))
      })"

subsection \<open>Subscriptions\<close>

definition acs0 :: MsgAccessMode where "acs0 = \<lparr>am_Want = [], am_Given = [], am_Mode = []\<rparr>"

definition mts0 :: MsgTopicSub where
  "mts0 = \<lparr>ts_UpdatedAt = None, ts_DeletedAt = None, ts_Online = False, ts_Acs = acs0, ts_ReadSeqId = 0, ts_RecvSeqId = 0,
     ts_Public = ANil, ts_Trusted = ANil, ts_Private = ANil, ts_User = [], ts_Topic = [], ts_TouchedAt = None, ts_SeqId = 0,
     ts_DelId = 0, ts_SubCnt = 0, ts_LastSeen = None\<rparr>"

text \<open>Contacts that are online and not among the changed subscriptions.\<close>

definition dummy_subs :: "world \<Rightarrow> subscription list \<Rightarrow> subscription list" where
  "dummy_subs t subs =
     (let selected = map (\<lambda>s. if sub_with s \<noteq> [] then sub_with s else Sub_Topic s) subs
      in map (\<lambda>(topic, _). sub0\<lparr>Sub_Topic := topic, sub_with := topic, dummy := True\<rparr>)
           (filter (\<lambda>(topic, psd). topic \<notin> set selected \<and> ps_online psd) (t_perSubs t)))"

definition opts0 :: MsgGetOpts where
  "opts0 = \<lparr>go_User = [], go_Topic = [], go_IfModifiedSince = None, go_SinceId = 0, go_BeforeId = 0, go_Limit = 0, go_IdRanges = []\<rparr>"

text \<open>The result of loading: the subscriptions, an error of the store, or a search for restricted tags.\<close>

datatype loaded_subs = Loaded "subscription list" | LoadFailed store_result | RestrictedTags

text \<open>A query that does not parse finds nothing.\<close>

definition find_subs :: "meta_env \<Rightarrow> world \<Rightarrow> string \<Rightarrow> uid \<Rightarrow> string \<Rightarrow> loaded_subs option" where
  "find_subs m t sid asUid query =
     (case m_pluginFind m asUid query of
        Inl err \<Rightarrow> Some (LoadFailed err)
      | Inr (query, Some subs) \<Rightarrow> Some (Loaded subs)
      | Inr (query, None) \<Rightarrow>
          if query = [] then Some (Loaded [])
          else do {
            r \<leftarrow> parseSearchQuery (m_un m) query;
            Some (case r of
               Inl _ \<Rightarrow> Loaded []
             | Inr (ands, opt) \<Rightarrow>
                 (let cc = s_countryCode (w_sess t sid);
                      req = filter (\<lambda>ts. ts \<noteq> []) (map (\<lambda>tag. rewriteTag (m_un m) (m_preCheck m) tag cc) ands);
                      opt = rewriteTagSlice (m_un m) (m_preCheck m) opt cc;
                      (restr, _, _) = stringSliceDelta (t_tags t) (filterTags (m_un m) (FlattenDoubleSlice req @ opt) (m_maskedTagNS m))
                  in if restr \<noteq> [] then RestrictedTags
                     else
                       (case m_Subs m (FindSubs asUid (m_aliasTagNS m) req opt (s_authLvl (w_sess t sid) \<noteq> LevelRoot)) of
                          Inl err \<Rightarrow> LoadFailed err
                        | Inr subs \<Rightarrow> Loaded subs)))
          })"

definition of_query :: "store_result + subscription list \<Rightarrow> loaded_subs" where
  "of_query r = (case r of Inl err \<Rightarrow> LoadFailed err | Inr subs \<Rightarrow> Loaded subs)"

definition load_subs :: "meta_env \<Rightarrow> world \<Rightarrow> string \<Rightarrow> uid \<Rightarrow> bool \<Rightarrow> MsgGetOpts option \<Rightarrow> ClientComMessage \<Rightarrow> loaded_subs option" where
  "load_subs m t sid asUid asChan req msg =
     (let since = (case req of None \<Rightarrow> None | Some q \<Rightarrow> go_IfModifiedSince q);
          fresh = (case since of None \<Rightarrow> True | Some x \<Rightarrow> time_IsZero x)
      in case t_cat t of
           TopicCatMe \<Rightarrow>
             (let req = map_option (\<lambda>q.
                    (let uid2 = ParseUserId (go_Topic q);
                         q = (if Uid_IsZero uid2 then q else q\<lparr>go_Topic := P2PName uid2 asUid\<rparr>)
                     in if go_Topic q = ''slf'' then q\<lparr>go_Topic := SlfName asUid\<rparr> else q)) req;
                  opts = msgOpts2storeOpts req
              in Some (if fresh then of_query (m_Subs m (GetTopics asUid opts))
                 else (case m_Subs m (GetTopicsAny asUid opts) of
                    Inl err \<Rightarrow> LoadFailed err
                  | Inr subs \<Rightarrow> Loaded (subs @ dummy_subs t subs))))
         | TopicCatFnd \<Rightarrow> do {
             query \<leftarrow> fndGetPublic t sid;
             (let query = (if query = [] then (case u_private (user_of t asUid) of AStr s \<Rightarrow> s | _ \<Rightarrow> []) else query)
              in if query = [] then Some (Loaded []) else find_subs m t sid asUid query)
           }
         | TopicCatP2P \<Rightarrow>
             Some (of_query (m_Subs m ((if fresh then GetSubs else GetSubsAny) (t_name t) (msgOpts2storeOpts req))))
         | TopicCatGrp \<Rightarrow>
             (let req = (if asChan then Some ((case req of None \<Rightarrow> opts0 | Some q \<Rightarrow> q)\<lparr>go_User := UserId asUid\<rparr>) else req);
                  topicName = (if asChan then msg_Original msg else t_name t)
              in Some (of_query (m_Subs m ((if fresh then GetUsers else GetUsersAny) topicName (msgOpts2storeOpts req)))))
         | _ \<Rightarrow> Some (Loaded []))"

definition contact_online :: "world \<Rightarrow> string \<Rightarrow> bool" where
  "contact_online t name = (case map_of (t_perSubs t) name of None \<Rightarrow> False | Some psd \<Rightarrow> ps_online psd)"

text \<open>One entry of the list for the topic \<^verbatim>\<open>me\<close>: the topic the subscription is for.\<close>

definition me_entry :: "world \<Rightarrow> bool \<Rightarrow> subscription \<Rightarrow> MsgTopicSub \<Rightarrow> MsgTopicSub" where
  "me_entry t presencer s mts =
     (let deleted = (Sub_DeletedAt s \<noteq> None); subMode = ModeGiven s AND ModeWant s;
          banned = (\<not> IsJoiner subMode);
          mts = (if sub_with s \<noteq> [] then mts\<lparr>ts_Topic := sub_with s, ts_Online := contact_online t (sub_with s) \<and> \<not> deleted \<and> presencer\<rparr>
                 else if HasPrefix (Sub_Topic s) ''slf'' then mts\<lparr>ts_Topic := ''slf''\<rparr>
                 else mts\<lparr>ts_Topic := Sub_Topic s, ts_Online := contact_online t (Sub_Topic s) \<and> \<not> deleted \<and> presencer\<rparr>)
      in if deleted \<or> banned then mts
         else
           (let mts = (if IsReader subMode
                  then mts\<lparr>ts_TouchedAt := nonzero_time (sub_touchedAt s), ts_SeqId := sub_seqId s, ts_DelId := Sub_DelId s\<rparr>
                  else if \<not> time_IsZero (UpdatedAt s) then mts\<lparr>ts_TouchedAt := Some (UpdatedAt s)\<rparr> else mts);
                mts = (if GetLastSeen s \<noteq> None \<and> \<not> ts_Online mts
                  then mts\<lparr>ts_LastSeen := Some \<lparr>ls_When = GetLastSeen s, ls_UserAgent = GetUserAgent s\<rparr>\<rparr> else mts)
            in mts\<lparr>ts_SubCnt := subCnt s\<rparr>))"

text \<open>One entry for any other topic: the subscriber.\<close>

definition member_entry :: "world \<Rightarrow> bool \<Rightarrow> uid \<Rightarrow> subscription \<Rightarrow> MsgTopicSub \<Rightarrow> MsgTopicSub" where
  "member_entry t presencer asUid s mts =
     (let deleted = (Sub_DeletedAt s \<noteq> None); subMode = ModeGiven s AND ModeWant s; u = ParseUid (Sub_User s);
          banned = (t_cat t = TopicCatGrp \<and> \<not> IsJoiner subMode);
          mts = mts\<lparr>ts_User := UserId u\<rparr>;
          mts = (if t_cat t = TopicCatFnd then mts\<lparr>ts_Topic := Sub_Topic s\<rparr> else mts)
      in if deleted then mts
         else
           (let mts = (if u = asUid \<and> IsReader subMode \<and> \<not> banned then mts\<lparr>ts_DelId := Sub_DelId s\<rparr> else mts)
            in if t_cat t = TopicCatGrp then mts\<lparr>ts_Online := u_online (user_of t u) > 0 \<and> presencer\<rparr> else mts))"

text \<open>The access modes an entry shows.\<close>

definition entry_acs :: "world \<Rightarrow> bool \<Rightarrow> uid \<Rightarrow> level \<Rightarrow> subscription \<Rightarrow> MsgAccessMode" where
  "entry_acs t sharer asUid lvl s =
     (let subMode = ModeGiven s AND ModeWant s; full = mode_strings (ModeWant s) (ModeGiven s)
      in if t_cat t \<noteq> TopicCatFnd then
           (if \<not> dummy s \<and> (sharer \<or> ParseUid (Sub_User s) = asUid \<or> IsAdmin subMode) then full else acs0)
         else if IsDefined (ModeGiven s) \<and> IsDefined (ModeWant s) then full
         else if IsChannel (Sub_Topic s) then acs0\<lparr>am_Mode := AccessMode_String ModeCChnReader\<rparr>
         else
           (case modeDefault s of
              None \<Rightarrow> acs0
            | Some d \<Rightarrow>
                if lvl = LevelAnon then acs0\<lparr>am_Mode := AccessMode_String (Anon d)\<rparr>
                else if lvl = LevelAuth \<or> lvl = LevelRoot then acs0\<lparr>am_Mode := AccessMode_String (Auth d)\<rparr>
                else acs0))"

definition sub_entry :: "world \<Rightarrow> uid \<Rightarrow> level \<Rightarrow> time \<Rightarrow> subscription \<Rightarrow> MsgTopicSub option" where
  "sub_entry t asUid lvl ifModified s =
     (let mode = user_mode (user_of t asUid); presencer = IsPresencer mode; sharer = IsSharer mode;
          deleted = (Sub_DeletedAt s \<noteq> None); u = ParseUid (Sub_User s); subMode = ModeGiven s AND ModeWant s;
          banned = ((t_cat t = TopicCatMe \<or> t_cat t = TopicCatGrp) \<and> \<not> IsJoiner subMode);
          sendPubPriv = (if time_IsZero ifModified then True else \<not> deleted \<and> UpdatedAt s > ifModified);
          skipped = (\<not> time_IsZero ifModified \<and> (case Sub_DeletedAt s of None \<Rightarrow> False | Some d \<Rightarrow> d \<le> ifModified));
          mts = (if time_IsZero ifModified then mts0 else mts0\<lparr>ts_DeletedAt := Sub_DeletedAt s\<rparr>);
          mts = (if t_cat t = TopicCatMe then me_entry t presencer s mts else member_entry t presencer asUid s mts)
      in if skipped then None
         else if deleted then Some mts
         else
           (let mts = (if time_IsZero (UpdatedAt s) then mts else mts\<lparr>ts_UpdatedAt := Some (UpdatedAt s)\<rparr>);
                mts = (if IsReader subMode \<and> \<not> banned then mts\<lparr>ts_ReadSeqId := ReadSeqId s, ts_RecvSeqId := RecvSeqId s\<rparr> else mts);
                mts = mts\<lparr>ts_Acs := entry_acs t sharer asUid lvl s\<rparr>;
                mts = (if t_cat t = TopicCatFnd then mts\<lparr>ts_SubCnt := subCnt s\<rparr> else mts);
                mts = (if sendPubPriv then mts\<lparr>ts_Public := sub_public s, ts_Trusted := sub_trusted s\<rparr> else mts);
                mts = (if sendPubPriv \<and> u = asUid then mts\<lparr>ts_Private := Sub_Private s\<rparr> else mts)
            in Some (if t_cat t = TopicCatFnd then mts\<lparr>ts_Private := Sub_Private s\<rparr> else mts)))"

definition replyGetSub ::
  "env \<Rightarrow> meta_env \<Rightarrow> world \<Rightarrow> string \<Rightarrow> uid \<Rightarrow> level \<Rightarrow> bool \<Rightarrow> ClientComMessage \<Rightarrow> unit handled" where
  "replyGetSub e m t sid asUid lvl asChan msg =
     (let now = e_now e; i = msg_Id msg
      in do {
        query \<leftarrow> (case cm_Sub msg of
             Some s \<Rightarrow> sub_Get s
           | None \<Rightarrow> map_option get_Query (cm_Get msg));
        (let req = gq_Sub query
         in if (case req of None \<Rightarrow> False | Some q \<Rightarrow> go_SinceId q \<noteq> 0 \<or> go_BeforeId q \<noteq> 0)
            then refuse e t sid (ErrMalformedReply msg now) ''invalid MsgGetOpts query''
            else do {
              r \<leftarrow> load_subs m t sid asUid asChan req msg;
              (case r of
                 LoadFailed err \<Rightarrow> store_refuse e t sid err i (msg_Original msg) (msg_Timestamp msg)
               | RestrictedTags \<Rightarrow> refuse e t sid (ErrPermissionDeniedReply msg now) ''attempt to search by restricted tags''
               | Loaded [] \<Rightarrow> answer e t sid (NoContentParamsReply msg now (what_params ''sub''))
               | Loaded subs \<Rightarrow>
                   (let ifModified = (case req of None \<Rightarrow> 0 | Some q \<Rightarrow> (case go_IfModifiedSince q of None \<Rightarrow> 0 | Some x \<Rightarrow> x))
                    in answer e t sid (meta_message ((meta0 i (msg_Original msg) now)
                         \<lparr>meta_Sub := List.map_filter (sub_entry t asUid lvl ifModified) subs\<rparr>))))
            })
      })"

subsection \<open>Stored and deleted messages\<close>

definition stored_data :: "string \<Rightarrow> bool \<Rightarrow> message \<Rightarrow> ServerComMessage" where
  "stored_data toriginal asChan mm =
     empty_ServerComMessage\<lparr>Data := Some \<lparr>data_Topic = toriginal, data_From = (if asChan then [] else UserId (ParseUid (Msg_From mm))),
       data_Timestamp = CreatedAt mm, data_DeletedAt = None, data_SeqId = Msg_SeqId mm, data_Head = Msg_Head mm,
       data_Content = Msg_Content mm\<rparr>\<rparr>"

definition bad_opts :: "MsgGetOpts option \<Rightarrow> bool" where
  "bad_opts req = (case req of None \<Rightarrow> False | Some q \<Rightarrow> go_IfModifiedSince q \<noteq> None \<or> go_User q \<noteq> [] \<or> go_Topic q \<noteq> [])"

definition replyGetData ::
  "env \<Rightarrow> meta_env \<Rightarrow> world \<Rightarrow> string \<Rightarrow> uid \<Rightarrow> bool \<Rightarrow> MsgGetOpts option \<Rightarrow> ClientComMessage \<Rightarrow> unit handled" where
  "replyGetData e m t sid asUid asChan req msg =
     (let now = e_now e
      in do {
        toriginal \<leftarrow> original t asUid;
        (if bad_opts req then refuse e t sid (ErrMalformedReply msg now) ''invalid MsgGetOpts query''
         else if \<not> IsReader (user_mode (user_of t asUid))
         then refuse e t sid (ErrPermissionDeniedReply msg now) ''attempt to get messages by non-reader''
         else
           (case m_GetAll m (t_name t) asUid (msgOpts2storeOpts req) of
              Inl err \<Rightarrow> refuse e t sid (ErrUnknownReply msg now) (err_text err)
            | Inr [] \<Rightarrow> answer e t sid (NoContentParamsReply msg now (what_params ''data''))
            | Inr messages \<Rightarrow>
                (let t = queueOutBatch e t sid (map (stored_data toriginal asChan) messages)
                 in answer e t sid (NoErrDeliveredParams (msg_Id msg) (msg_Original msg) now
                      (AMap [(''what'', AStr ''data''), (''count'', AInt (int (length messages)))])))))
      })"

definition replyGetDel ::
  "env \<Rightarrow> meta_env \<Rightarrow> world \<Rightarrow> string \<Rightarrow> uid \<Rightarrow> MsgGetOpts option \<Rightarrow> ClientComMessage \<Rightarrow> unit handled" where
  "replyGetDel e m t sid asUid req msg =
     (let now = e_now e
      in do {
        toriginal \<leftarrow> original t asUid;
        (let nothing = answer e t sid (NoContentParams (msg_Id msg) toriginal now (msg_Timestamp msg) (what_params ''del''))
         in if bad_opts req then refuse e t sid (ErrMalformedReply msg now) ''invalid MsgGetOpts query''
            else if \<not> IsReader (user_mode (user_of t asUid)) then nothing
            else
              (case m_GetDeleted m (t_name t) asUid (msgOpts2storeOpts req) of
                 Inl err \<Rightarrow> refuse e t sid (ErrUnknownReply msg now) (err_text err)
               | Inr ([], delID) \<Rightarrow> nothing
               | Inr (ranges, delID) \<Rightarrow>
                   answer e t sid (meta_message ((meta0 (msg_Id msg) toriginal now)
                     \<lparr>meta_Del := Some \<lparr>dv_DelId = delID, dv_DelSeq = rangeDeserialize ranges\<rparr>\<rparr>))))
      })"

subsection \<open>Tags\<close>

text \<open>In \<^verbatim>\<open>fnd\<close> the request asks whether the tag of the session's query is taken.\<close>

definition find_tag :: "meta_env \<Rightarrow> uid \<Rightarrow> string \<Rightarrow> (store_result + string) option" where
  "find_tag m asUid tag =
     (case m_pluginFind m asUid tag of
        Inl err \<Rightarrow> Some (Inl err)
      | Inr (tag, None) \<Rightarrow> Some (if fst (validateTag (m_un m) tag) \<noteq> [] then m_FindOne m tag else Inr [])
      | Inr (_, Some []) \<Rightarrow> None
      | Inr (_, Some (s # _)) \<Rightarrow> Some (Inr (Sub_Topic s)))"

definition replyGetTags :: "env \<Rightarrow> meta_env \<Rightarrow> world \<Rightarrow> string \<Rightarrow> uid \<Rightarrow> ClientComMessage \<Rightarrow> unit handled" where
  "replyGetTags e m t sid asUid msg =
     (let now = e_now e; nothing = answer e t sid (NoContentParamsReply msg now (what_params ''tags''))
      in if t_cat t = TopicCatFnd then do {
           tag \<leftarrow> fndGetPublic t sid;
           (if tag = [] then nothing
            else do {
              r \<leftarrow> find_tag m asUid tag;
              (case r of
                 Inl err \<Rightarrow> store_refuse e t sid err (msg_Id msg) (msg_Original msg) (msg_Timestamp msg)
               | Inr found \<Rightarrow>
                   if found = [] then nothing
                   else answer e t sid (meta_message ((meta0 (msg_Id msg) (msg_Original msg) now)\<lparr>meta_Tags := [found]\<rparr>)))
            })
         }
         else if t_cat t \<noteq> TopicCatMe \<and> t_cat t \<noteq> TopicCatGrp
         then refuse e t sid (ErrOperationNotAllowedReply msg now) ''invalid topic category for getting tags''
         else if t_cat t = TopicCatGrp \<and> t_owner t \<noteq> asUid
         then refuse e t sid (ErrPermissionDeniedReply msg now) ''request for tags from non-owner''
         else if t_tags t = [] then nothing
         else do {
           name \<leftarrow> original t asUid;
           answer e t sid (meta_message ((meta0 (msg_Id msg) name now)\<lparr>meta_Tags := t_tags t\<rparr>))
         })"

text \<open>The loop over the tags that must be unique: an error of the store, a tag that is taken, or neither.\<close>

fun unique_loop :: "meta_env \<Rightarrow> string list \<Rightarrow> store_result option \<times> bool" where
  "unique_loop m [] = (None, False)"
| "unique_loop m (tag # tags) =
     (case m_FindOne m tag of
        Inl err \<Rightarrow> (Some err, False)
      | Inr r \<Rightarrow> if r \<noteq> [] then (None, True) else unique_loop m tags)"

text \<open>For a user the prefixes of the added tags take the place of the tags.\<close>

definition added_tags :: "meta_env \<Rightarrow> topic_cat \<Rightarrow> string list \<Rightarrow> string list" where
  "added_tags m cat added =
     (if cat = TopicCatMe \<and> added \<noteq> []
      then filter (\<lambda>p. p \<noteq> []) (map (\<lambda>tag. fst (validateTag (m_un m) tag)) added) else added)"

definition save_tags :: "env \<Rightarrow> meta_env \<Rightarrow> world \<Rightarrow> uid \<Rightarrow> string list \<Rightarrow> world \<times> store_result" where
  "save_tags e m t asUid tags =
     (let upd = [UpdTags tags, UpdUpdatedAt (e_now e)]
      in if t_cat t = TopicCatMe then
           (case m_UsersUpdate m asUid upd of NilErr \<Rightarrow> (put_out (Store (UsersUpdate asUid upd)) t, NilErr) | err \<Rightarrow> (t, err))
         else
           (case m_TopicsUpdate m (t_name t) upd of
              NilErr \<Rightarrow> (put_out (Store (TopicsUpdate (t_name t) upd)) t, NilErr) | err \<Rightarrow> (t, err)))"

definition replySetTags :: "env \<Rightarrow> meta_env \<Rightarrow> world \<Rightarrow> string \<Rightarrow> uid \<Rightarrow> ClientComMessage \<Rightarrow> unit handled" where
  "replySetTags e m t sid asUid msg =
     (let now = e_now e; unchanged = answer e t sid (InfoNotModifiedReply msg now)
      in if t_cat t \<noteq> TopicCatMe \<and> t_cat t \<noteq> TopicCatGrp
         then refuse e t sid (ErrOperationNotAllowedReply msg now) ''invalid topic category to assign tags''
         else if t_cat t = TopicCatGrp \<and> t_owner t \<noteq> asUid
         then refuse e t sid (ErrPermissionDeniedReply msg now) ''tags update by non-owner''
         else do {
           set \<leftarrow> cm_Set msg;
           (case normalizeTags (m_un m) (sq_Tags (set_Query set)) (m_maxTagCount m) of
              None \<Rightarrow> unchanged
            | Some [] \<Rightarrow> unchanged
            | Some tags \<Rightarrow>
                if \<not> restrictedTagsEqual (m_un m) (t_tags t) tags (m_immutableTagNS m)
                then refuse e t sid (ErrPermissionDeniedReply msg now) ''attempt to mutate restricted tags''
                else if hasDuplicateNamespaceTags (m_un m) tags (m_aliasTagNS m)
                then refuse e t sid (ErrMalformedReply msg now) ''duplicate unique tags''
                else
                  (let (added, removed, _) = stringSliceDelta (t_tags t) tags;
                       added = added_tags m (t_cat t) added
                   in if added = [] \<and> removed = [] then unchanged
                      else
                        (case unique_loop m (filterTags (m_un m) added (\<lambda>p. p = m_aliasTagNS m)) of
                           (Some err, _) \<Rightarrow> refuse e t sid (ErrUnknownReply msg now) (err_text err)
                         | (None, True) \<Rightarrow> refuse e t sid (ErrMalformedReply msg now) ''globally duplicate unique tags''
                         | (None, False) \<Rightarrow>
                             (case save_tags e m t asUid tags of
                                (t, err) \<Rightarrow>
                                  if err \<noteq> NilErr then refuse e t sid (ErrUnknownReply msg now) (err_text err)
                                  else
                                    (let t = presSubsOnline (t\<lparr>t_tags := tags\<rparr>) ''tags'' [] nilPresParams
                                           (nilPresFilters\<lparr>singleUser := UserId asUid\<rparr>) sid
                                     in answer e t sid (NoErrParamsReply msg now (AMap
                                          ((if added \<noteq> [] then [(''added'', AInt (int (length added)))] else []) @
                                           (if removed \<noteq> [] then [(''removed'', AInt (int (length removed)))] else [])))))))))
         })"

subsection \<open>Credentials\<close>

definition replyGetCreds :: "env \<Rightarrow> meta_env \<Rightarrow> world \<Rightarrow> string \<Rightarrow> uid \<Rightarrow> ClientComMessage \<Rightarrow> unit handled" where
  "replyGetCreds e m t sid asUid msg =
     (let now = e_now e
      in if t_cat t \<noteq> TopicCatMe
         then refuse e t sid (ErrOperationNotAllowedReply msg now) ''invalid topic category for getting credentials''
         else
           (case ce_GetAllCreds (m_creds m) (s_tenantID (w_sess t sid)) asUid [] False of
              Inl err \<Rightarrow> store_refuse e t sid err (msg_Id msg) (msg_Original msg) (msg_Timestamp msg)
            | Inr [] \<Rightarrow> answer e t sid (NoContentParamsReply msg now (what_params ''creds''))
            | Inr screds \<Rightarrow> do {
                name \<leftarrow> original t asUid;
                answer e t sid (meta_message ((meta0 (msg_Id msg) name now)\<lparr>meta_Cred :=
                  map (\<lambda>sc. \<lparr>crs_Method = crd_Method sc, crs_Value = crd_Value sc, crs_Done = crd_Done sc\<rparr>) screds\<rparr>))
              }))"

definition stored :: "store_op list \<Rightarrow> world \<Rightarrow> world" where
  "stored ops t = fold (\<lambda>x. put_out (Store x)) ops t"

definition new_tags :: "string list \<Rightarrow> world \<Rightarrow> world" where
  "new_tags tags t = presSubsOnline (t\<lparr>t_tags := tags\<rparr>) ''tags'' [] nilPresParams nilPresFilters []"

definition replySetCred :: "env \<Rightarrow> meta_env \<Rightarrow> world \<Rightarrow> string \<Rightarrow> uid \<Rightarrow> level \<Rightarrow> ClientComMessage \<Rightarrow> unit handled" where
  "replySetCred e m t sid asUid lvl msg =
     (let now = e_now e; s = w_sess t sid; tn = s_tenantID s
      in if t_cat t \<noteq> TopicCatMe
         then refuse e t sid (ErrOperationNotAllowedReply msg now) ''invalid topic category for updating credentials''
         else do {
           set \<leftarrow> cm_Set msg;
           cred \<leftarrow> sq_Cred (set_Query set);
           (out, r) \<leftarrow> (if cred_Response cred \<noteq> [] then validatedCreds (m_creds m) tn asUid lvl [cred] True
                        else Some (addCreds (m_creds m) tn asUid [cred] [] (s_lang s) (m_tmpToken m tn asUid)));
           (let t = stored out t;
                t = (case r of Inr (_, Some tags) \<Rightarrow> new_tags tags t | _ \<Rightarrow> t)
            in do {
              name \<leftarrow> original t asUid;
              store_refuse e t sid (case r of Inl err \<Rightarrow> err | Inr _ \<Rightarrow> NilErr) (set_Id set) name (msg_Timestamp msg)
            })
         })"

definition replyDelCred :: "env \<Rightarrow> meta_env \<Rightarrow> world \<Rightarrow> string \<Rightarrow> uid \<Rightarrow> level \<Rightarrow> ClientComMessage \<Rightarrow> unit handled" where
  "replyDelCred e m t sid asUid lvl msg =
     (let now = e_now e
      in do {
        del \<leftarrow> cm_Del msg;
        (if t_cat t \<noteq> TopicCatMe then refuse e t sid (ErrPermissionDeniedReply msg now) ''del.cred: invalid topic category''
         else
           (case del_Cred del of
              None \<Rightarrow> refuse e t sid (ErrMalformedReply msg now) ''del.cred: missing method''
            | Some cred \<Rightarrow>
                if cred_Method cred = [] then refuse e t sid (ErrMalformedReply msg now) ''del.cred: missing method''
                else
                  (case deleteCred (m_creds m) (s_tenantID (w_sess t sid)) asUid lvl cred of
                     (out, Inl err) \<Rightarrow> store_refuse e (stored out t) sid err (del_Id del) (del_Topic del) (msg_Timestamp msg)
                   | (out, Inr None) \<Rightarrow> answer e (stored out t) sid (InfoNoActionReply msg now)
                   | (out, Inr (Some tags)) \<Rightarrow>
                       (let t = stored out t; (_, removed, _) = stringSliceDelta (t_tags t) tags;
                            t = (if removed \<noteq> [] then new_tags tags t else t)
                        in store_refuse e t sid NilErr (del_Id del) (del_Topic del) (msg_Timestamp msg)))))
      })"

subsection \<open>Auxiliary data\<close>

definition has_aux :: "topic_cat \<Rightarrow> bool" where
  "has_aux cat \<longleftrightarrow> cat = TopicCatP2P \<or> cat = TopicCatGrp \<or> cat = TopicCatSlf"

definition replyGetAux :: "env \<Rightarrow> world \<Rightarrow> string \<Rightarrow> uid \<Rightarrow> ClientComMessage \<Rightarrow> unit handled" where
  "replyGetAux e t sid asUid msg =
     (let now = e_now e
      in if \<not> has_aux (t_cat t) then refuse e t sid (ErrOperationNotAllowedReply msg now) ''invalid topic category to query aux''
         else if t_aux t = [] then answer e t sid (NoContentParamsReply msg now (what_params ''aux''))
         else do {
           name \<leftarrow> original t asUid;
           answer e t sid (meta_message ((meta0 (msg_Id msg) name now)\<lparr>meta_Aux := t_aux t\<rparr>))
         })"

text \<open>
  The copy that is merged into is shallow: the maps inside the auxiliary data are shared with it and
  change at once, also when saving fails.
\<close>

definition aux_in_place :: "go_map \<Rightarrow> go_map \<Rightarrow> go_map" where
  "aux_in_place aux src =
     map (\<lambda>(k, v). (k, case map_of src k of None \<Rightarrow> v | Some w \<Rightarrow> in_place v w)) aux"

text \<open>Iterating over a nil map does nothing.\<close>

definition the_aux :: "MsgClientSet \<Rightarrow> go_map" where
  "the_aux q = (case sq_Aux (set_Query q) of None \<Rightarrow> [] | Some a \<Rightarrow> a)"

definition replySetAux :: "env \<Rightarrow> meta_env \<Rightarrow> world \<Rightarrow> string \<Rightarrow> uid \<Rightarrow> ClientComMessage \<Rightarrow> unit handled" where
  "replySetAux e m t sid asUid msg =
     (let now = e_now e
      in if \<not> has_aux (t_cat t) then refuse e t sid (ErrOperationNotAllowedReply msg now) ''invalid topic category to assign aux''
         else if \<not> IsAdmin (user_mode (user_of t asUid))
         then refuse e t sid (ErrPermissionDeniedReply msg now) ''aux update by non-admin''
         else do {
           set \<leftarrow> cm_Set msg;
           (case mergeMaps (Some (t_aux t)) (the_aux set) of
              (aux, False) \<Rightarrow> answer e (t\<lparr>t_aux := aux_in_place (t_aux t) (the_aux set)\<rparr>) sid (InfoNotModifiedReply msg now)
            | (aux, True) \<Rightarrow>
                (let aux = (case aux of None \<Rightarrow> [] | Some a \<Rightarrow> a);
                     t = t\<lparr>t_aux := aux_in_place (t_aux t) (the_aux set)\<rparr>;
                     upd = [UpdAux aux, UpdUpdatedAt now];
                     err = m_TopicsUpdate m (t_name t) upd;
                     t = (if err = NilErr then presSubsOnline ((put_out (Store (TopicsUpdate (t_name t) upd)) t)\<lparr>t_aux := aux\<rparr>)
                            ''aux'' [] nilPresParams nilPresFilters sid else t)
                 in do {
                   name \<leftarrow> original t asUid;
                   store_refuse e t sid err (set_Id set) name (msg_Timestamp msg)
                 }))
         })"

subsection \<open>Dispatch of requests for metadata\<close>

definition replyDelTopic :: "env \<Rightarrow> world \<Rightarrow> string \<Rightarrow> uid \<Rightarrow> ClientComMessage \<Rightarrow> unit handled" where
  "replyDelTopic e t sid asUid msg =
     (if t_owner t \<noteq> asUid then replyLeaveUnsub e t sid msg asUid else Some (t, Inr ()))"

text \<open>An error is logged and the next part of the request goes on.\<close>

definition part :: "int \<Rightarrow> int \<Rightarrow> (world \<Rightarrow> 'a handled) \<Rightarrow> world \<Rightarrow> world option" where
  "part what flag h t = (if what AND flag \<noteq> 0 then map_option fst (h t) else Some t)"

definition handleMetaGet :: "env \<Rightarrow> meta_env \<Rightarrow> world \<Rightarrow> string \<Rightarrow> ClientComMessage \<Rightarrow> uid \<Rightarrow> bool \<Rightarrow> level \<Rightarrow> world option" where
  "handleMetaGet e m t sid msg asUid asChan lvl =
     (let what = msg_MetaWhat msg
      in do {
        q \<leftarrow> map_option get_Query (cm_Get msg);
        t \<leftarrow> part what constMsgMetaDesc (\<lambda>t. replyGetDesc e t sid asUid (gq_Desc q) msg) t;
        t \<leftarrow> part what constMsgMetaSub (\<lambda>t. replyGetSub e m t sid asUid lvl asChan msg) t;
        t \<leftarrow> part what constMsgMetaData (\<lambda>t. replyGetData e m t sid asUid asChan (gq_Data q) msg) t;
        t \<leftarrow> part what constMsgMetaDel (\<lambda>t. replyGetDel e m t sid asUid (gq_Del q) msg) t;
        t \<leftarrow> part what constMsgMetaTags (\<lambda>t. replyGetTags e m t sid asUid msg) t;
        t \<leftarrow> part what constMsgMetaCred (\<lambda>t. replyGetCreds e m t sid asUid msg) t;
        part what constMsgMetaAux (\<lambda>t. replyGetAux e t sid asUid msg) t
      })"

definition set_desc_part :: "env \<Rightarrow> meta_env \<Rightarrow> string \<Rightarrow> ClientComMessage \<Rightarrow> uid \<Rightarrow> bool \<Rightarrow> level \<Rightarrow> world \<Rightarrow> unit handled" where
  "set_desc_part e m sid msg asUid asChan lvl t =
     do {
       (t, r) \<leftarrow> replySetDesc e m t sid asUid asChan lvl msg;
       Some (case r of Inl _ \<Rightarrow> t | Inr _ \<Rightarrow> put_out (PluginTopic (t_name t) ''upd'') t, r)
     }"

definition handleMetaSet :: "env \<Rightarrow> meta_env \<Rightarrow> world \<Rightarrow> string \<Rightarrow> ClientComMessage \<Rightarrow> uid \<Rightarrow> bool \<Rightarrow> level \<Rightarrow> world option" where
  "handleMetaSet e m t sid msg asUid asChan lvl =
     (let what = msg_MetaWhat msg
      in do {
        t \<leftarrow> part what constMsgMetaDesc (set_desc_part e m sid msg asUid asChan lvl) t;
        t \<leftarrow> part what constMsgMetaSub (\<lambda>t. replySetSub e t sid msg asChan) t;
        t \<leftarrow> part what constMsgMetaTags (\<lambda>t. replySetTags e m t sid asUid msg) t;
        t \<leftarrow> part what constMsgMetaCred (\<lambda>t. replySetCred e m t sid asUid lvl msg) t;
        part what constMsgMetaAux (\<lambda>t. replySetAux e m t sid asUid msg) t
      })"

definition handleMetaDel :: "env \<Rightarrow> meta_env \<Rightarrow> world \<Rightarrow> string \<Rightarrow> ClientComMessage \<Rightarrow> uid \<Rightarrow> bool \<Rightarrow> level \<Rightarrow> world option" where
  "handleMetaDel e m t sid msg asUid asChan lvl =
     do {
       del \<leftarrow> cm_Del msg;
       (let what = msg_MetaWhat msg
        in if what = constMsgDelMsg then map_option fst (replyDelMsg e t sid asUid asChan msg del)
           else if what = constMsgDelSub then map_option fst (replyDelSub e t sid asUid msg)
           else if what = constMsgDelTopic then map_option fst (replyDelTopic e t sid asUid msg)
           else if what = constMsgDelCred then map_option fst (replyDelCred e m t sid asUid lvl msg)
           else Some t)
     }"

definition handleMeta :: "env \<Rightarrow> meta_env \<Rightarrow> world \<Rightarrow> string \<Rightarrow> ClientComMessage \<Rightarrow> world option" where
  "handleMeta e m t sid msg =
     (let asUid = ParseUserId (msg_AsUser msg); lvl = msg_AuthLvl msg
      in case verifyChannelAccess t (msg_Original msg) of
           None \<Rightarrow> Some (reply e t (Some sid) (ErrNotFoundReply msg (e_now e)))
         | Some asChan \<Rightarrow>
             if cm_Get msg \<noteq> None then handleMetaGet e m t sid msg asUid asChan lvl
             else if cm_Set msg \<noteq> None then handleMetaSet e m t sid msg asUid asChan lvl
             else if cm_Del msg \<noteq> None then handleMetaDel e m t sid msg asUid asChan lvl
             else Some t)"

subsection \<open>Sessions joining\<close>

definition subscription_queries ::
  "env \<Rightarrow> meta_env \<Rightarrow> world \<Rightarrow> string \<Rightarrow> ClientComMessage \<Rightarrow> MsgGetQuery \<Rightarrow> uid \<Rightarrow> bool \<Rightarrow> level \<Rightarrow> world option" where
  "subscription_queries e m t sid msg q asUid asChan lvl =
     (let what = parseMsgClientMeta (gq_What q)
      in do {
        t \<leftarrow> part what constMsgMetaDesc (\<lambda>t. replyGetDesc e t sid asUid (gq_Desc q) msg) t;
        t \<leftarrow> part what constMsgMetaSub (\<lambda>t. replyGetSub e m t sid asUid lvl asChan msg) t;
        t \<leftarrow> part what constMsgMetaTags (\<lambda>t. replyGetTags e m t sid asUid msg) t;
        t \<leftarrow> part what constMsgMetaCred (\<lambda>t. replyGetCreds e m t sid asUid msg) t;
        t \<leftarrow> part what constMsgMetaAux (\<lambda>t. replyGetAux e t sid asUid msg) t;
        t \<leftarrow> part what constMsgMetaData (\<lambda>t. replyGetData e m t sid asUid asChan (gq_Data q) msg) t;
        part what constMsgMetaDel (\<lambda>t. replyGetDel e m t sid asUid (gq_Del q) msg) t
      })"

definition handleSubscription :: "env \<Rightarrow> meta_env \<Rightarrow> world \<Rightarrow> string \<Rightarrow> ClientComMessage \<Rightarrow> unit handled" where
  "handleSubscription e m t sid msg =
     (case verifyChannelAccess t (msg_Original msg) of
        None \<Rightarrow> refuse e t sid (ErrNotFoundReply msg (e_now e)) types_ErrNotFound
      | Some asChan \<Rightarrow> do {
          (t, r) \<leftarrow> subscriptionReply e t asChan sid msg;
          (case r of
             Inl err \<Rightarrow> Some (t, Inl err)
           | Inr msg \<Rightarrow> do {
               msgsub \<leftarrow> cm_Sub msg;
               (case sub_Get msgsub of
                  None \<Rightarrow> Some (t, Inr ())
                | Some q \<Rightarrow> do {
                    t \<leftarrow> subscription_queries e m t sid msg q (ParseUserId (msg_AsUser msg)) asChan (msg_AuthLvl msg);
                    Some (t, Inr ())
                  })
             })
        })"

definition registerSession :: "env \<Rightarrow> meta_env \<Rightarrow> world \<Rightarrow> string \<Rightarrow> ClientComMessage \<Rightarrow> world option" where
  "registerSession e m t sid msg =
     (if isInactive t then Some (reply e t (Some sid) (ErrLockedReply msg (e_now e)))
      else if getSub t sid (t_name t)
      then Some (reply e t (Some sid) (InfoAlreadySubscribed (msg_Id msg) (msg_Original msg) (msg_Timestamp msg)))
      else do {
        msgsub \<leftarrow> cm_Sub msg;
        (t, r) \<leftarrow> handleSubscription e m (put_out (KillTimer False) t) sid msg;
        Some (case r of
           Inr () \<Rightarrow> if sub_Created msgsub then put_out (PluginTopic (t_name t) ''create'') t else t
         | Inl _ \<Rightarrow> if t_sessions t = [] \<and> t_cat t \<noteq> TopicCatSys then put_out (KillTimer True) t else t)
      })"

subsection \<open>Updates of sessions and termination\<close>

text \<open>A session that comes to the foreground, or a new user agent, which is the local state of the loop.\<close>

definition handleSessionUpdate :: "env \<Rightarrow> world \<Rightarrow> string option \<Rightarrow> string \<Rightarrow> string \<Rightarrow> (world \<times> string) option" where
  "handleSessionUpdate e t sess userAgent currentUA =
     (case sess of
        Some sid \<Rightarrow> map_option (\<lambda>t. (t, currentUA)) (sessToForeground e t sid)
      | None \<Rightarrow>
          if currentUA = userAgent then Some (t, currentUA)
          else if t_cat t \<noteq> TopicCatMe then None
          else Some (t, userAgent))"

datatype stop_reason = StopNone | StopShutdown | StopDeleted | StopRehashing

text \<open>Every subscriber who is not a reader of a channel leaves the cache of users.\<close>

definition usersRegisterTopic :: "world \<Rightarrow> bool \<Rightarrow> world" where
  "usersRegisterTopic t add =
     (if t_cat t = TopicCatFnd \<or> t_cat t = TopicCatMe then t
      else fold (\<lambda>(u, pud) t. if u_isChan pud then t else put_out (RegisterUser u add) t) (t_perUser t) t)"

definition handleTopicTermination :: "env \<Rightarrow> meta_env \<Rightarrow> world \<Rightarrow> stop_reason \<Rightarrow> world option" where
  "handleTopicTermination e m t reason =
     do {
       t \<leftarrow> (case reason of
            StopDeleted \<Rightarrow> do {
              t \<leftarrow> (if t_cat t = TopicCatGrp then presSubsOffline t ''gone'' nilPresParams nilPresFilters nilPresFilters [] False else Some t);
              Some (put_out (PluginTopic (t_name t) ''del'') t)
            }
          | StopRehashing \<Rightarrow> presSubsOnlineDirect e t ''term'' nilPresParams nilPresFilters []
          | _ \<Rightarrow> Some t);
       (let t = fold (\<lambda>(sid, _) t. detachSession t sid) (t_sessions t) t;
            t = (if t_cat t = TopicCatGrp \<and> m_UpdateSubCnt m (t_name t) = NilErr then put_out (Store (TopicsUpdateSubCnt (t_name t))) t else t)
        in Some (usersRegisterTopic t False))
     }"

end
