(* ===== verification/MetaInv.thy ===== *)
theory MetaInv
  imports TopicMeta TopicInv
begin

section \<open>Invariants of the requests for metadata\<close>

text \<open>
  Every request for metadata keeps what the other handlers of a topic keep: it numbers no message,
  leaves the counters of the users in bounds and the ownership where it is.
\<close>

subsection \<open>Requests for metadata\<close>

lemma ends_list:
  "(xs = [] \<Longrightarrow> ends R w t a) \<Longrightarrow> (\<And>y ys. xs = y # ys \<Longrightarrow> ends R w t (f y ys)) \<Longrightarrow> ends R w t (case xs of [] \<Rightarrow> a | y # ys \<Rightarrow> f y ys)"
  by (cases xs) simp_all

lemma ends_loaded:
  "(\<And>s. r = Loaded s \<Longrightarrow> ends R w t (f s)) \<Longrightarrow> (\<And>err. r = LoadFailed err \<Longrightarrow> ends R w t (g err)) \<Longrightarrow>
   (r = RestrictedTags \<Longrightarrow> ends R w t h) \<Longrightarrow>
   ends R w t (case r of Loaded s \<Rightarrow> f s | LoadFailed err \<Rightarrow> g err | RestrictedTags \<Rightarrow> h)"
  by (cases r) simp_all

lemma answer_safe: "ends safe fst t (answer e t sid m)"
  by (simp add: answer_def ends_def)

lemma store_refuse_safe: "ends safe fst t (store_refuse e t sid err i topic its)"
  unfolding store_refuse_def by (intro sf.rules) simp_all

lemmas said_safe = refuse_safe answer_safe store_refuse_safe

lemma safe_meta_fields:
  "safe t (t\<lparr>t_trusted := v\<rparr>)" "safe t (t\<lparr>t_tags := ts\<rparr>)" "safe t (t\<lparr>t_aux := a\<rparr>)" "safe t (t\<lparr>t_updated := x\<rparr>)"
  "safe t (t\<lparr>t_public := p, t_trusted := v\<rparr>)" "safe t (t\<lparr>t_accessAuth := a1, t_accessAnon := a2, t_public := p, t_trusted := v\<rparr>)"
  "safe t (t\<lparr>w_tries := k\<rparr>)"
  by (rule same_users_safe; simp add: saves_def)+

lemmas meta_chain [simp] = safe_meta_fields [THEN [2] safe_trans]

lemma batch_push_safe: "safe t (batch_push e t k ms)"
proof -
  let ?t = "t\<lparr>w_tries := w_tries t + 1\<rparr>"
  have 1: "safe t ?t" by (rule safe_meta_fields)
  have 2: "safe ?t (fold (\<lambda>m. put_out (SendTo k m)) ms ?t)" by (rule sf.folded) (simp add: safe_sends)
  have 3: "safe t (fold (\<lambda>m t. reply e t (Some k) m) ms t)" by (rule sf.folded) (simp add: safe_sends)
  show ?thesis
    unfolding batch_push_def Let_def by (intro sf.if_world 1 3 safe_trans [OF 1 2])
qed

lemma queueOutBatch_safe: "safe t (queueOutBatch e t sid msgs)"
  by (simp add: queueOutBatch_def Let_def batch_push_safe split: option.split)

lemma replyGet_safe:
  "ends safe fst t (replyGetDesc e t sid u opts msg)"
  "ends safe fst t (replyGetSub e m t sid u lvl c msg)"
  "ends safe fst t (replyGetData e m t sid u c req msg)"
  "ends safe fst t (replyGetDel e m t sid u req msg)"
  "ends safe fst t (replyGetTags e m t sid u msg)"
  "ends safe fst t (replyGetCreds e m t sid u msg)"
  "ends safe fst t (replyGetAux e t sid u msg)"
  unfolding replyGetDesc_def replyGetSub_def replyGetData_def replyGetDel_def replyGetTags_def replyGetCreds_def replyGetAux_def
  by (intro sf.rules ends_list ends_loaded said_safe queueOutBatch_safe; simp add: said_safe)+

text \<open>Only the private data of a user changes.\<close>

lemma put_private_safe: "safe t (put_user u ((user_of t u)\<lparr>u_private := v\<rparr>) t)"
  by (rule put_user_safe) (auto dest: ids_okD [of _ u] simp: user_ok_def owner_ok_def owns_def)

lemma private_in_place_safe: "safe t (private_in_place u src t)"
proof (cases "map_of (t_perUser t) u")
  case (Some p)
  then have "p = user_of t u" by (simp add: user_of_def)
  with Some put_private_safe show ?thesis by (simp add: private_in_place_def)
qed (simp add: private_in_place_def)

lemma merged_safe:
  "safe t (private_in_place u src (t\<lparr>t_public := a, t_trusted := b\<rparr>))"
  "ends safe fst t (refuse e (t\<lparr>t_public := a, t_trusted := b\<rparr>) sid x y)"
  by (rule safe_trans [OF safe_meta_fields(5) private_in_place_safe]) (rule sf.after [OF safe_meta_fields(5) refuse_safe])

lemma desc_changes_safe: "ends safe fst t (desc_changes e t sid u lvl msg desc)"
  unfolding desc_changes_def Let_def
  by (intro sf.rules said_safe merged_safe) (simp_all add: private_in_place_safe merged_safe)

lemma save_desc_safe: "save_desc e m t u c d = (t', err) \<Longrightarrow> safe t t'"
  unfolding save_desc_def
  by (auto simp: Let_def split: if_splits store_result.splits option.splits)

lemma save_tags_safe: "save_tags e m t u tags = (t', err) \<Longrightarrow> safe t t'"
  unfolding save_tags_def by (auto simp: Let_def split: if_splits store_result.splits)

lemma saved_ends:
  "(\<And>t1 r. safe t t1 \<Longrightarrow> ends safe w t1 (f t1 r)) \<Longrightarrow> ends safe w t (case save_desc e m t u c d of (t1, r) \<Rightarrow> f t1 r)"
  "(\<And>t1 r. safe t t1 \<Longrightarrow> ends safe w t1 (f t1 r)) \<Longrightarrow> ends safe w t (case save_tags e m t u tags of (t1, r) \<Rightarrow> f t1 r)"
  by (auto split: prod.split intro: sf.after save_desc_safe save_tags_safe)

lemma assign_desc_safe: "ends safe (\<lambda>t. t) t (assign_desc t sid u c)"
proof -
  have "safe t (case x of None \<Rightarrow> t | Some v \<Rightarrow> put_user u ((user_of t u)\<lparr>u_private := v\<rparr>) t)" for t x
    by (simp add: put_private_safe split: option.split)
  moreover have "ends safe (\<lambda>t. t) t (map_option fst (fndSetPublic t sid v))" for v
    by (auto simp: fndSetPublic_def ends_def split: go_any.splits if_splits)
  ultimately show ?thesis
    unfolding assign_desc_def by (intro sf.rules) (simp_all add: safe_meta_fields)
qed

lemma announce_desc_safe: "ends safe (\<lambda>t. t) t (announce_desc e t sid u mode c)"
  unfolding announce_desc_def Let_def by (intro sf.rules safe_ends) (simp_all add: safe_meta_fields)

lemma link_avatar_safe: "safe t (link_avatar m msg c t)"
  by (simp add: link_avatar_def Let_def)

lemma replySetDesc_safe: "ends safe fst t (replySetDesc e m t sid u c lvl msg)"
  unfolding replySetDesc_def
  by (intro saved_ends sf.rules said_safe desc_changes_safe assign_desc_safe announce_desc_safe)
    (simp_all add: link_avatar_safe split: option.splits)

lemma tags_saved_safe: "safe t (presSubsOnline (t\<lparr>t_tags := ts\<rparr>) what src params flt skip)"
  by (rule safe_trans [OF safe_meta_fields(2) safe_sends(5)])

lemma new_tags_safe: "safe t (new_tags ts t)"
  unfolding new_tags_def by (rule tags_saved_safe)

lemma replySetTags_safe: "ends safe fst t (replySetTags e m t sid u msg)"
  unfolding replySetTags_def
  by (intro saved_ends sf.rules ends_list said_safe) (simp_all add: tags_saved_safe said_safe)

text \<open>Credentials are stored by their validators; no message is among the changes.\<close>

definition no_saves :: "store_op list \<Rightarrow> bool" where
  "no_saves ops \<longleftrightarrow> (\<forall>x \<in> set ops. save_of (Store x) = [])"

lemma no_saves_append [simp]: "no_saves (xs @ ys) \<longleftrightarrow> no_saves xs \<and> no_saves ys"
  by (auto simp: no_saves_def)

lemma no_saves_list [simp]: "no_saves []" "no_saves (x # xs) \<longleftrightarrow> save_of (Store x) = [] \<and> no_saves xs"
  by (simp_all add: no_saves_def)

lemma stored_safe: "no_saves ops \<Longrightarrow> safe t (stored ops t)"
proof (induction ops arbitrary: t)
  case (Cons x ops)
  then have "save_of (Store x) = []" "no_saves ops" by (simp_all add: no_saves_def)
  with Cons.IH [of "put_out (Store x) t"] show ?case
    by (simp add: stored_def) (rule safe_trans [OF out_safe], simp_all)
qed (simp add: stored_def)

lemma addCreds_loop_stores: "no_saves out \<Longrightarrow> no_saves (fst (addCreds_loop ce tn u lang token v x out cs))"
  by (induction cs arbitrary: v x out) (simp_all add: Let_def split: option.split sum.split)

lemma validatedCreds_loop_stores: "no_saves out \<Longrightarrow> post (\<lambda>r. no_saves (fst r)) (validatedCreds_loop ce tn u b ms ts out cs)"
  by (induction cs arbitrary: ms ts out)
    (simp add: post_some, simp only: validatedCreds_loop.simps, intro post_rules, simp_all)

lemma addCreds_stores: "no_saves (fst (addCreds ce tn u cs x lang token))"
  using addCreds_loop_stores [of "[]" ce tn u lang token "[]" x cs]
  by (cases "addCreds_loop ce tn u lang token [] x [] cs") (simp add: addCreds_def split: sum.split)

lemma validatedCreds_stores: "post (\<lambda>r. no_saves (fst r)) (validatedCreds ce tn u lvl cs b)"
  unfolding validatedCreds_def
  by (intro post_rules; (drule postD [OF validatedCreds_loop_stores, rotated])?) (auto split: sum.split)

lemma deleteCred_stores: "no_saves (fst (deleteCred ce tn u lvl c))"
  by (simp add: deleteCred_def Let_def split: option.split store_result.split sum.split)

lemma creds_ends:
  "validatedCreds ce tn u lvl cs b = Some (out, r) \<Longrightarrow> safe t (stored out t)"
  "addCreds ce tn u cs x lang token = (out, r) \<Longrightarrow> safe t (stored out t)"
  "deleteCred ce tn u lvl c = (out, d) \<Longrightarrow> safe t (stored out t)"
  using postD [OF validatedCreds_stores] addCreds_stores [of ce tn u cs x lang token] deleteCred_stores [of ce tn u lvl c]
  by (auto intro!: stored_safe)

lemma replySetCred_safe: "ends safe fst t (replySetCred e m t sid u lvl msg)"
  unfolding replySetCred_def
  by (intro sf.rules said_safe)
    (auto intro: creds_ends split: if_splits sum.split option.split simp: new_tags_safe)

lemma replyDelCred_safe: "ends safe fst t (replyDelCred e m t sid u lvl msg)"
  unfolding replyDelCred_def
  by (intro sf.rules said_safe; (rule sf.after [OF creds_ends(3) said_safe(2)] sf.after [OF creds_ends(3) said_safe(3)])?)
    (auto intro: creds_ends simp: new_tags_safe)

lemma replySetAux_safe: "ends safe fst t (replySetAux e m t sid u msg)"
proof -
  have 1: "safe t1 ((put_out (Store (TopicsUpdate n upd)) t1)\<lparr>t_aux := a\<rparr>)" for t1 n upd a
    by (rule safe_trans [OF out_safe safe_meta_fields(3)]) simp
  have 2: "safe t1 (if err = NilErr then presSubsOnline ((put_out (Store (TopicsUpdate n upd)) t1)\<lparr>t_aux := a\<rparr>) w s p f k else t1)"
    for t1 n upd a err w s p f k
    using safe_trans [OF 1 safe_sends(5)] by simp
  have 3: "ends safe fst t (answer e (t\<lparr>t_aux := a\<rparr>) sid x)" for a x
    by (rule sf.after [OF safe_meta_fields(3) answer_safe])
  show ?thesis
    unfolding replySetAux_def
    by (intro sf.rules said_safe 3) (simp_all add: safe_meta_fields 2)
qed

lemma replyDelTopic_safe: "ends safe fst t (replyDelTopic e t sid u msg)"
  unfolding replyDelTopic_def by (intro sf.rules replyLeaveUnsub_safe) simp_all

subsection \<open>Dispatch\<close>

lemma part_ends:
  assumes "\<And>t. R t t" "ends R fst t (h t)"
  shows "ends R (\<lambda>t. t) t (part what flag h t)"
  using assms by (cases "h t") (auto simp: part_def ends_def)

lemmas part_safe = part_ends [where R = safe, OF safe_refl]
lemmas part_kept = part_ends [where R = kept, OF kept_refl]

lemma handleMetaGet_safe: "ends safe (\<lambda>t. t) t (handleMetaGet e m t sid msg u c lvl)"
  unfolding handleMetaGet_def Let_def
  by (intro part_safe sf.bind_world sf.bind_value replyGet_safe)

lemma set_desc_part_safe: "ends safe fst t (set_desc_part e m sid msg u c lvl t)"
  unfolding set_desc_part_def
  by (intro sf.rules replySetDesc_safe) (simp split: sum.split)

lemma handleMetaSet_kept:
  assumes "plain_group t \<Longrightarrow> \<not> c"
  shows "ends kept (\<lambda>t. t) t (handleMetaSet e m t sid msg u c lvl)"
proof -
  have p: "plain_group t' = plain_group t" if "kept t t'" for t'
    using that by (simp add: kept_def good_def plain_group_def)
  show ?thesis
    unfolding handleMetaSet_def Let_def
    by (intro part_kept kp.bind_world replySetSub_kept set_desc_part_safe [THEN ends_kept] replySetTags_safe [THEN ends_kept]
        replySetCred_safe [THEN ends_kept] replySetAux_safe [THEN ends_kept]) (use assms p in blast)
qed

lemma handleMetaDel_safe: "ends safe (\<lambda>t. t) t (handleMetaDel e m t sid msg u c lvl)"
  unfolding handleMetaDel_def Let_def
  by (intro sf.rules ends_map replyDelMsg_safe replyDelSub_safe replyDelTopic_safe replyDelCred_safe) simp_all

lemma handleMeta_kept: "ends kept (\<lambda>t. t) t (handleMeta e m t sid msg)"
  unfolding handleMeta_def Let_def
  by (intro kp.rules handleMetaGet_safe [THEN ends_kept] handleMetaSet_kept handleMetaDel_safe [THEN ends_kept])
    (auto simp: safe_kept dest: category_chan)

lemma subscription_queries_safe: "ends safe (\<lambda>t. t) t (subscription_queries e m t sid msg q u c lvl)"
  unfolding subscription_queries_def Let_def
  by (intro part_safe sf.bind_world replyGet_safe)

lemma handleSubscription_kept: "ends kept fst t (handleSubscription e m t sid msg)"
  unfolding handleSubscription_def
  by (intro kp.rules refuse_safe [THEN ends_kept] subscriptionReply_kept subscription_queries_safe [THEN ends_kept])
    (auto dest: category_chan)

lemma registerSession_kept: "ends kept (\<lambda>t. t) t (registerSession e m t sid msg)"
proof -
  have "kept t (put_out (KillTimer False) t)" by (rule safe_kept) simp
  then have "ends kept fst t (handleSubscription e m (put_out (KillTimer False) t) sid msg)"
    by (rule kp.after) (rule handleSubscription_kept)
  note sub = this
  have "safe t1 (case r of Inl _ \<Rightarrow> if a then put_out (KillTimer True) t1 else t1
      | Inr () \<Rightarrow> if b then put_out (PluginTopic (t_name t1) ''create'') t1 else t1)" for t1 a b and r :: "go_error + unit"
    by (simp split: sum.split unit.split)
  then show ?thesis
    unfolding registerSession_def
    by (intro kp.rules sub) (simp_all add: safe_kept)
qed

lemma handleSessionUpdate_safe: "ends safe fst t (handleSessionUpdate e t s ua cur)"
  unfolding handleSessionUpdate_def
  by (intro sf.rules ends_map sessToForeground_safe) (simp_all add: sessToForeground_safe)

lemma usersRegisterTopic_safe: "safe t (usersRegisterTopic t add)"
proof -
  have "safe t (fold (\<lambda>(u, pud) t. if u_isChan pud then t else put_out (RegisterUser u add) t) us t)" for us :: "(uid \<times> topic_user) list"
    by (rule sf.folded) (auto simp: safe_sends)
  then show ?thesis by (simp add: usersRegisterTopic_def)
qed

lemma ends_reason:
  "ends R w t a \<Longrightarrow> ends R w t b \<Longrightarrow> ends R w t c \<Longrightarrow> ends R w t d \<Longrightarrow>
   ends R w t (case reason of StopNone \<Rightarrow> a | StopShutdown \<Rightarrow> b | StopDeleted \<Rightarrow> c | StopRehashing \<Rightarrow> d)"
  by (cases reason) simp_all

lemma handleTopicTermination_safe: "ends safe (\<lambda>t. t) t (handleTopicTermination e m t reason)"
proof -
  have "safe t1 (fold (\<lambda>(sid, _) t. detachSession t sid) ss t1)" for t1 :: world and ss :: "(string \<times> per_session) list"
    by (rule sf.folded) (auto simp: safe_sends)
  then show ?thesis
    unfolding handleTopicTermination_def
    by (intro sf.rules ends_reason safe_ends) (simp_all add: usersRegisterTopic_safe)
qed

end
