(* ===== verification/TopicRun.thy ===== *)
theory TopicRun
  imports Delivery MetaInv
begin

section \<open>A running topic (server/topic.go)\<close>

text \<open>
  The loop \<^verbatim>\<open>runLocal\<close> of a topic serves one event at a time: a session registers or leaves, a client
  or the server sends a message, a subscription is changed or removed, messages are deleted, a session
  comes to the foreground, a timer fires. \<open>topic_step\<close> has a rule for each event; the answers of the store
  and the room in the queues differ from one step to the next. The theorems are about all states a
  topic can reach.
\<close>

definition handleUATimerEvent :: "world \<Rightarrow> string \<Rightarrow> world option" where
  "handleUATimerEvent t currentUA =
     (if currentUA = [] \<or> currentUA = t_userAgent t then Some t
      else presUsersOfInterest (t\<lparr>t_userAgent := currentUA\<rparr>) ''ua'' currentUA)"

definition handleTopicTimeout :: "world \<Rightarrow> string \<Rightarrow> world option" where
  "handleTopicTimeout t currentUA =
     (let t = put_out (HubUnreg False) t
      in case t_cat t of
           TopicCatMe \<Rightarrow> presUsersOfInterest t ''off'' currentUA
         | TopicCatGrp \<Rightarrow> presSubsOffline t ''off'' nilPresParams nilPresFilters nilPresFilters [] False
         | _ \<Rightarrow> Some t)"

text \<open>The loop keeps the last user agent it was told of, and ends when the topic is told to exit.\<close>

datatype topic_loop = Running world string | Stopped world

fun loop_world :: "topic_loop \<Rightarrow> world" where
  "loop_world (Running t ua) = t"
| "loop_world (Stopped t) = t"

inductive topic_step :: "topic_loop \<Rightarrow> topic_loop \<Rightarrow> bool" where
  register: "registerSession e m t sid msg = Some t' \<Longrightarrow> topic_step (Running t ua) (Running t' ua)"
| unregister: "unregisterSession (broadcastToSessions depth e) e t sid msg = Some t' \<Longrightarrow> topic_step (Running t ua) (Running t' ua)"
| client: "handleClientMsg depth e t msg = Some t' \<Longrightarrow> topic_step (Running t ua) (Running t' ua)"
| server: "handleServerMsg depth e t smsg = Some t' \<Longrightarrow> topic_step (Running t ua) (Running t' ua)"
| meta: "handleMeta e m t sid msg = Some t' \<Longrightarrow> topic_step (Running t ua) (Running t' ua)"
| session_update: "handleSessionUpdate e t sess userAgent ua = Some (t', ua') \<Longrightarrow> topic_step (Running t ua) (Running t' ua')"
| ua_timer: "handleUATimerEvent t ua = Some t' \<Longrightarrow> topic_step (Running t ua) (Running t' ua)"
| kill_timer: "handleTopicTimeout t ua = Some t' \<Longrightarrow> topic_step (Running t ua) (Running t' ua)"
| call_timer: "terminateCallInProgress (broadcastToSessions depth e) e t True = Some t' \<Longrightarrow> topic_step (Running t ua) (Running t' ua)"
| exit: "handleTopicTermination e m t reason = Some t' \<Longrightarrow> topic_step (Running t ua) (Stopped t')"

inductive_cases stopped_stepE: "topic_step (Stopped t) s"

lemma timers_safe:
  "ends safe (\<lambda>t. t) t (handleUATimerEvent t ua)" "ends safe (\<lambda>t. t) t (handleTopicTimeout t ua)"
proof -
  have "safe t (t\<lparr>t_userAgent := ua\<rparr>)" by (rule same_users_safe) (simp_all add: saves_def)
  then show "ends safe (\<lambda>t. t) t (handleUATimerEvent t ua)"
    unfolding handleUATimerEvent_def by (intro sf.rules sf.after [OF _ safe_ends(4)]) simp_all
  show "ends safe (\<lambda>t. t) t (handleTopicTimeout t ua)"
    unfolding handleTopicTimeout_def by (intro sf.rules safe_ends) simp_all
qed

lemma topic_step_kept: "topic_step s s' \<Longrightarrow> kept (loop_world s) (loop_world s')"
proof (induction rule: topic_step.induct)
  case (register e m t sid msg t' ua)
  then show ?case using endsD [OF registerSession_kept] by simp
next
  case (meta e m t sid msg t' ua)
  then show ?case using endsD [OF handleMeta_kept] by simp
next
  case (session_update e t sess userAgent ua t' ua')
  then show ?case using endsD2 [OF handleSessionUpdate_safe] by (simp add: safe_kept)
qed (simp; blast intro: safe_kept endsD unregisterSession_safe broadcastToSessions_safe handleClientMsg_safe handleServerMsg_safe
      timers_safe terminateCallInProgress_safe handleTopicTermination_safe)+

lemma reachable_kept: "topic_step\<^sup>*\<^sup>* (Running t ua) s \<Longrightarrow> kept t (loop_world s)"
  by (induction rule: rtranclp_induct) (auto intro: kept_trans topic_step_kept)

text \<open>
  C1. Messages of a topic are numbered without gaps or repetition: whatever a topic goes through, the
  messages it has saved since carry exactly the numbers after the last one it had, in order, up to its
  current last number.
\<close>

theorem messages_numbered:
  assumes "topic_step\<^sup>*\<^sup>* (Running t ua) s" "t' = loop_world s"
  shows "saves t' = saves t @ [t_lastID t + 1..t_lastID t'] \<and> t_lastID t \<le> t_lastID t'"
  using reachable_kept [OF assms(1)] assms(2) by (simp add: kept_def good_def advances_def)

text \<open>
  C6. Once the counters of a topic are in order they stay so in every state the topic reaches: no user
  has read more than was received or received more than was sent, and no user's deletion mark is
  ahead of the topic's.
\<close>

theorem counters_in_bounds:
  assumes "ids_ok t" "topic_step\<^sup>*\<^sup>* (Running t ua) s" "t' = loop_world s"
  shows "0 \<le> u_readID (user_of t' u) \<and> u_readID (user_of t' u) \<le> u_recvID (user_of t' u) \<and>
    u_recvID (user_of t' u) \<le> t_lastID t' \<and> u_delID (user_of t' u) \<le> t_delID t'"
  using reachable_kept [OF assms(2)] assms(1,3) by (simp add: kept_def good_def ids_ok_def user_ok_def)

text \<open>
  C2. The owner of a group that is not a channel keeps the owner permission, both granted and wanted,
  and stays subscribed in every state the group reaches, also when ownership moves to another user.
\<close>

theorem owner_keeps_ownership:
  assumes "plain_group t" "owner_ok t" "topic_step\<^sup>*\<^sup>* (Running t ua) s" "t' = loop_world s"
  shows "t_owner t' = ZeroUid \<or>
    (IsOwner (u_modeGiven (user_of t' (t_owner t'))) \<and> IsOwner (u_modeWant (user_of t' (t_owner t'))) \<and>
     \<not> u_deleted (user_of t' (t_owner t')))"
  using reachable_kept [OF assms(3)] assms(1,2,4) by (auto simp: kept_def owner_ok_def owns_def)

lemma group0_step: "\<exists>t'. topic_step\<^sup>*\<^sup>* (Running group0 []) (Running t' []) \<and> t_lastID t' = 8 \<and> saves t' = [8]"
  using group0_publishes topic_step.client by blast

lemma group0_users:
  "user_of group0 u = (if u = 1 then user0\<lparr>u_online := 1, u_modeGiven := ModeCFull, u_modeWant := ModeCFull, u_readID := 5, u_recvID := 7\<rparr>
     else if u = 2 then user0\<lparr>u_modeGiven := ModeCPublic, u_modeWant := ModeCPublic\<rparr> else user0)"
  by (simp add: user_of_def group0_def)

theorem messages_numbered_witness:
  "\<exists>t'. topic_step\<^sup>*\<^sup>* (Running group0 []) (Running t' []) \<and> t_lastID t' = 8 \<and> saves t' = saves group0 @ [t_lastID group0 + 1..8]"
proof -
  from group0_step obtain t' where t': "topic_step\<^sup>*\<^sup>* (Running group0 []) (Running t' [])" "t_lastID t' = 8" by blast
  with messages_numbered [OF t'(1)] show ?thesis by auto
qed

theorem counters_in_bounds_witness:
  "\<exists>t'. topic_step\<^sup>*\<^sup>* (Running group0 []) (Running t' []) \<and> t_lastID t' = 8 \<and> u_recvID (user_of t' 1) \<le> 8"
proof -
  have "ids_ok group0"
    unfolding ids_ok_def group0_users by (simp add: user_ok_def user0_def) (simp add: group0_def)
  moreover from group0_step obtain t' where t': "topic_step\<^sup>*\<^sup>* (Running group0 []) (Running t' [])" "t_lastID t' = 8" by blast
  ultimately show ?thesis using counters_in_bounds [OF _ t'(1), of t' 1] t' by auto
qed

theorem owner_keeps_ownership_witness:
  "\<exists>t'. topic_step\<^sup>*\<^sup>* (Running group0 []) (Running t' []) \<and> t_lastID t' = 8 \<and>
     (t_owner t' = ZeroUid \<or> IsOwner (u_modeGiven (user_of t' (t_owner t'))))"
proof -
  have "IsOwner ModeCFull" by code_simp
  then have "plain_group group0" "owner_ok group0"
    unfolding plain_group_def owner_ok_def group0_users by (simp_all add: group0_def user0_def owns_def)
  moreover from group0_step obtain t' where t': "topic_step\<^sup>*\<^sup>* (Running group0 []) (Running t' [])" "t_lastID t' = 8" by blast
  ultimately show ?thesis using owner_keeps_ownership [OF _ _ t'(1), of t'] t' by auto
qed

end
