(* ===== verification/MetaProps.thy ===== *)
theory MetaProps
  imports MetaInv Delivery
begin

section \<open>Who may see and change what\<close>

text \<open>
  Stored messages go to readers only and reach them complete and in order; descriptions report sane
  counters and keep from strangers what is not theirs; a group is changed by its owner only; and the
  cases where the code does less than it means to.
\<close>

subsection \<open>History\<close>

text \<open>The worlds differ by what was sent, and no stored or live message was among it.\<close>

definition no_data :: "world \<Rightarrow> world \<Rightarrow> bool" where
  "no_data t t' \<longleftrightarrow> user_of t' = user_of t \<and> (\<exists>out. w_out t' = w_out t @ out \<and> (\<forall>k m. SendTo k m \<in> set out \<longrightarrow> Data m = None))"

interpretation nd: frame no_data
proof
  show "no_data t t" for t by (simp add: no_data_def)
next
  fix t t1 t2
  assume "no_data t t1" "no_data t1 t2"
  then obtain a b where "w_out t1 = w_out t @ a" "w_out t2 = w_out t1 @ b" "user_of t2 = user_of t"
    "\<forall>k m. SendTo k m \<in> set a \<longrightarrow> Data m = None" "\<forall>k m. SendTo k m \<in> set b \<longrightarrow> Data m = None"
    unfolding no_data_def by auto
  then show "no_data t t2"
    unfolding no_data_def by (intro conjI exI [of _ "a @ b"]) auto
qed

lemma no_data_push: "Data m = None \<Longrightarrow> no_data t (fst (session_push e t sid m))"
  by (simp add: session_push_def Let_def put_out_def no_data_def user_of_def fun_eq_iff)

lemma stamp_tenant_data: "stamp_tenant s m = Some m' \<Longrightarrow> Data m' = Data m"
  by (auto simp: stamp_tenant_def split: if_splits)

lemma no_data_reply: "Data m = None \<Longrightarrow> no_data t (reply e t s m)"
  unfolding reply_def queueOut_def Let_def
  by (auto intro!: no_data_push nd.refl dest!: stamp_tenant_data split: option.split)

lemma no_data_said:
  "Data m = None \<Longrightarrow> ends no_data fst t (refuse e t sid m err)"
  "Data m = None \<Longrightarrow> ends no_data fst t (answer e t sid m)"
  by (simp_all add: refuse_def answer_def ends_def no_data_reply)

lemma ctrl_no_data [simp]: "Data (ctrl_message i tp p c x ts si sts) = None"
  by (simp add: ctrl_defs)

lemma meta_no_data [simp]: "Data (meta_message x) = None"
  by (simp add: meta_message_def empty_ServerComMessage_def)

lemma storeErrorReply_no_data: "storeErrorReply err i topic ts its p = Some m \<Longrightarrow> Data m = None"
  by (auto simp: storeErrorReply_def reply_defs split: if_splits go_any.splits)

lemma no_data_store_refuse: "ends no_data fst t (store_refuse e t sid err i topic its)"
  by (auto simp: store_refuse_def decodeStoreErrorExplicitTs_def reply_defs ends_def bind_eq_Some_conv
      intro!: no_data_reply split: store_result.splits dest: storeErrorReply_no_data)

lemma no_data_get:
  "ends no_data fst t (replyGetDesc e t sid u opts msg)"
  "ends no_data fst t (replyGetSub e m t sid u lvl c msg)"
  "ends no_data fst t (replyGetDel e m t sid u req msg)"
  "ends no_data fst t (replyGetTags e m t sid u msg)"
  "ends no_data fst t (replyGetCreds e m t sid u msg)"
  "ends no_data fst t (replyGetAux e t sid u msg)"
  unfolding replyGetDesc_def replyGetSub_def replyGetDel_def replyGetTags_def replyGetCreds_def replyGetAux_def
  by (intro nd.rules ends_list ends_loaded no_data_store_refuse no_data_said; simp add: reply_defs no_data_said)+

lemma no_data_refused:
  "\<not> IsReader (user_mode (user_of t u)) \<Longrightarrow> ends no_data fst t (replyGetData e m t sid u c req msg)"
  unfolding replyGetData_def
  by (intro nd.rules no_data_said) (simp_all add: reply_defs no_data_said)

lemmas part_no_data = part_ends [where R = no_data, OF nd.refl]

text \<open>
  C20. A user who may not read a topic gets none of its messages: whatever a request for metadata asks
  for, if it makes the topic send a message to some session, the user it was made for has the read
  permission.
\<close>

theorem history_needs_read:
  assumes "handleMetaGet e m t sid msg u asChan lvl = Some t'" "w_out t' = w_out t @ out"
    "SendTo k x \<in> set out" "Data x \<noteq> None"
  shows "IsReader (user_mode (user_of t u))"
proof (rule ccontr)
  assume no: "\<not> IsReader (user_mode (user_of t u))"
  have "ends no_data (\<lambda>t. t) t (handleMetaGet e m t sid msg u asChan lvl)"
    unfolding handleMetaGet_def Let_def
    by (intro part_no_data nd.bind_world nd.bind_value no_data_get no_data_refused) (use no in \<open>simp add: no_data_def\<close>)
  from endsD [OF this assms(1)] show False using assms(2-4) by (auto simp: no_data_def)
qed

lemma history_core:
  assumes "IsReader (user_mode (user_of t u))" "\<not> bad_opts req" "original t u = Some name"
    "m_GetAll m (t_name t) u (msgOpts2storeOpts req) = Inr ms" "ms \<noteq> []"
    "ready e t sid" "supportsMessageBatching (w_sess t sid)"
  shows "\<exists>t'. replyGetData e m t sid u asChan req msg = Some (t', Inr ()) \<and> topic.truncate t' = topic.truncate t \<and>
    w_out t' = w_out t @ map (\<lambda>mm. SendTo sid ((stored_data name asChan mm)\<lparr>scm_TenantID := t_tenantID t\<rparr>)) ms @
      [SendTo sid ((NoErrDeliveredParams (msg_Id msg) (msg_Original msg) (e_now e)
         (AMap [(''what'', AStr ''data''), (''count'', AInt (int (length ms)))]))\<lparr>scm_TenantID := t_tenantID t\<rparr>)]"
proof -
  let ?d = "stored_data name asChan"
  have r: "\<not> s_terminating (w_sess t sid)" "s_multi (w_sess t sid) = None" "s_tenantID (w_sess t sid) = t_tenantID t" "e_room e n sid" for n
    using assms(6) by (simp_all add: ready_def)
  have st: "stamp_tenant (w_sess t sid) x = Some (x\<lparr>scm_TenantID := t_tenantID t\<rparr>)" if "scm_TenantID x = 0" for x
    using that r(3) by (simp add: stamp_tenant_def TenantID_IsZero_def)
  have z: "scm_TenantID (?d mm) = 0" for mm by (simp add: stored_data_def empty_ServerComMessage_def)
  have out: "fold (\<lambda>x. put_out (SendTo sid x)) xs t1 = t1\<lparr>w_out := w_out t1 @ map (SendTo sid) xs\<rparr>" for xs and t1 :: world
    by (induction xs arbitrary: t1) (simp_all add: put_out_def)
  define t1 where "t1 = t\<lparr>w_tries := w_tries t + 1, w_out := w_out t @ map (\<lambda>mm. SendTo sid ((?d mm)\<lparr>scm_TenantID := t_tenantID t\<rparr>)) ms\<rparr>"
  have q: "queueOutBatch e t sid (map ?d ms) = t1"
    using r assms(7) by (simp add: queueOutBatch_def Let_def st z batch_push_def out t1_def comp_def image_iff)
  have "replyGetData e m t sid u asChan req msg = answer e t1 sid (NoErrDeliveredParams (msg_Id msg) (msg_Original msg) (e_now e)
      (AMap [(''what'', AStr ''data''), (''count'', AInt (int (length ms)))]))"
    using assms(1-5) q by (cases ms) (simp_all add: replyGetData_def Let_def)
  moreover have "w_sess t1 = w_sess t" "w_out t1 = w_out t @ map (\<lambda>mm. SendTo sid ((?d mm)\<lparr>scm_TenantID := t_tenantID t\<rparr>)) ms"
    "topic.truncate t1 = topic.truncate t"
    by (simp_all add: t1_def topic.defs)
  ultimately show ?thesis
    using r by (simp add: answer_def reply_def queueOut_def Let_def st reply_defs ctrl_defs session_push_def put_out_def topic.defs)
qed

text \<open>
  A reader who asks for the history gets it: the messages the store returned, in order, under the
  name of the topic the reader knows, followed by one reply with their number, and nothing else.
\<close>

theorem history_served:
  assumes "IsReader (user_mode (user_of t u))" "\<not> bad_opts req" "original t u = Some name"
    "m_GetAll m (t_name t) u (msgOpts2storeOpts req) = Inr ms" "ms \<noteq> []"
    "ready e t sid" "supportsMessageBatching (w_sess t sid)"
  shows "\<exists>t'. replyGetData e m t sid u asChan req msg = Some (t', Inr ()) \<and> topic.truncate t' = topic.truncate t \<and>
    w_out t' = w_out t @ map (\<lambda>mm. SendTo sid ((stored_data name asChan mm)\<lparr>scm_TenantID := t_tenantID t\<rparr>)) ms @
      [SendTo sid ((NoErrDeliveredParams (msg_Id msg) (msg_Original msg) (e_now e)
         (AMap [(''what'', AStr ''data''), (''count'', AInt (int (length ms)))]))\<lparr>scm_TenantID := t_tenantID t\<rparr>)]"
  using assms by (rule history_core)

subsection \<open>Descriptions\<close>

text \<open>The part of a description that is about messages.\<close>

definition desc_of :: "world \<Rightarrow> session \<Rightarrow> uid \<Rightarrow> bool \<Rightarrow> bool \<Rightarrow> MsgTopicDesc" where
  "desc_of t s u since ifUpdated =
     (let pud = user_of t u; full = (map_of (t_perUser t) u \<noteq> None \<or> t_cat t = TopicCatMe); d = desc_common t since ifUpdated full pud
      in if full then desc_full t s ifUpdated pud d else d)"

lemma desc_common_fields [simp]:
  "td_SeqId (desc_common t a b c p) = 0" "td_ReadSeqId (desc_common t a b c p) = 0" "td_RecvSeqId (desc_common t a b c p) = 0"
  "td_DelId (desc_common t a b c p) = 0" "td_Private (desc_common t a b c p) = ANil" "td_Acs (desc_common t a b c p) = None"
  "td_DefaultAcs (desc_common t a b c p) = None"
  by (simp_all add: desc_common_def desc0_def Let_def)

lemma desc_full_ids:
  "td_SeqId (desc_full t s b p d) = (if IsReader (user_mode p) then t_lastID t else td_SeqId d)"
  "td_ReadSeqId (desc_full t s b p d) = (if IsReader (user_mode p) then u_readID p else td_ReadSeqId d)"
  "td_RecvSeqId (desc_full t s b p d) = (if IsReader (user_mode p) then max (u_recvID p) (u_readID p) else td_RecvSeqId d)"
  "td_DelId (desc_full t s b p d) = (if IsReader (user_mode p) then max (u_delID p) (t_delID t) else td_DelId d)"
  by (simp_all add: desc_full_def Let_def)

lemma replyGetDesc_sends:
  assumes "replyGetDesc e t sid u opts msg = Some (t', Inr ())"
  shows "\<exists>since ifUpdated. t' = reply e t (Some sid) (meta_message
    ((meta0 (msg_Id msg) (msg_Original msg) (e_now e))\<lparr>meta_Desc := Some (desc_of t (w_sess t sid) u since ifUpdated)\<rparr>))"
proof -
  let ?since = "case opts of None \<Rightarrow> None | Some q \<Rightarrow> go_IfModifiedSince q"
  let ?bad = "case opts of None \<Rightarrow> False | Some q \<Rightarrow> go_User q \<noteq> [] \<or> go_Limit q \<noteq> 0"
  have "replyGetDesc e t sid u opts msg =
    (if ?bad then refuse e t sid (ErrMalformedReply msg (e_now e)) ''invalid GetDesc query''
     else answer e t sid (meta_message ((meta0 (msg_Id msg) (msg_Original msg) (e_now e))\<lparr>meta_Desc :=
       Some (desc_of t (w_sess t sid) u (?since \<noteq> None) (case ?since of None \<Rightarrow> True | Some x \<Rightarrow> x < t_updated t))\<rparr>)))"
    by (simp only: replyGetDesc_def desc_of_def Let_def)
  with assms show ?thesis by (cases ?bad) (simp_all only: if_True if_False refuse_result answer_def, blast)
qed

text \<open>
  The description a topic answers with shows sane counters: in a topic whose counters are in
  order it never says that the user read more than was received or received more than the topic has,
  and it says nothing about messages to a user who may not read them.
\<close>

theorem description_counters:
  assumes "ids_ok t" "replyGetDesc e t sid u opts msg = Some (t', Inr ())"
  shows "\<exists>d. t' = reply e t (Some sid) (meta_message ((meta0 (msg_Id msg) (msg_Original msg) (e_now e))\<lparr>meta_Desc := Some d\<rparr>)) \<and>
    0 \<le> td_ReadSeqId d \<and> td_ReadSeqId d \<le> td_RecvSeqId d \<and> td_RecvSeqId d \<le> td_SeqId d \<and> td_SeqId d \<le> t_lastID t \<and>
    (\<not> IsReader (user_mode (user_of t u)) \<longrightarrow> td_SeqId d = 0 \<and> td_DelId d = 0)"
proof -
  from replyGetDesc_sends [OF assms(2)] obtain since upd where
    t': "t' = reply e t (Some sid) (meta_message ((meta0 (msg_Id msg) (msg_Original msg) (e_now e))
      \<lparr>meta_Desc := Some (desc_of t (w_sess t sid) u since upd)\<rparr>))" by blast
  have "user_ok (t_lastID t) (t_delID t) (user_of t u)" "0 \<le> t_lastID t" using assms(1) by (simp_all add: ids_ok_def)
  then show ?thesis
    by (intro exI [of _ "desc_of t (w_sess t sid) u since upd"]) (auto simp: t' desc_of_def Let_def desc_full_ids user_ok_def)
qed

subsection \<open>Lists of subscribers\<close>

text \<open>
  A list of subscribers shows of another user what the requester may see: never the private data,
  and the access modes only to a requester with the share permission or if that user is an
  administrator.
\<close>

theorem subscriber_privacy:
  assumes "sub_entry t asUid lvl ifModified s = Some mts" "t_cat t = TopicCatP2P \<or> t_cat t = TopicCatGrp"
    "ParseUid (Sub_User s) \<noteq> asUid"
  shows "ts_Private mts = ANil \<and> ts_DelId mts = 0 \<and>
    (\<not> IsSharer (user_mode (user_of t asUid)) \<and> \<not> IsAdmin (ModeGiven s AND ModeWant s) \<longrightarrow> ts_Acs mts = acs0)"
  using assms by (auto simp: sub_entry_def Let_def member_entry_def entry_acs_def mts0_def split: if_splits)

subsection \<open>Changing a description\<close>

text \<open>The part of a topic that describes it to everyone.\<close>

definition profile :: "world \<Rightarrow> go_any \<times> go_any \<times> access_mode \<times> access_mode" where
  "profile t = (t_public t, t_trusted t, t_accessAuth t, t_accessAnon t)"

text \<open>What a user of a level may change: the trusted data if root, the profile of a group if its owner.\<close>

definition allowed :: "uid \<Rightarrow> level \<Rightarrow> world \<Rightarrow> world \<Rightarrow> bool" where
  "allowed u lvl t t' \<longleftrightarrow> t_cat t' = t_cat t \<and> t_owner t' = t_owner t \<and> (lvl \<noteq> LevelRoot \<longrightarrow> t_trusted t' = t_trusted t) \<and>
     (t_cat t = TopicCatGrp \<and> t_owner t \<noteq> u \<longrightarrow> profile t' = profile t)"

interpretation al: frame "allowed u lvl" for u lvl
  by unfold_locales (auto simp: allowed_def)

lemma quiet_me_trusted: "quiet_me t t' \<Longrightarrow> t_trusted t' = t_trusted t"
  by (simp add: quiet_me_def quiet_def topic.defs)

lemma quiet_me_allowed: "quiet_me t t' \<Longrightarrow> allowed u lvl t t'"
  by (simp add: allowed_def profile_def quiet_me_trusted quiet_meD)

lemma quiet_allowed: "quiet t t' \<Longrightarrow> allowed u lvl t t'"
  by (rule quiet_me_allowed) (rule quiet_imp_me)

lemma put_user_allowed: "allowed u lvl t (put_user v p t)"
  by (simp add: allowed_def profile_def put_user_def)

lemma allowed_said:
  "ends (allowed u lvl) fst t (refuse e t sid m err)" "ends (allowed u lvl) fst t (answer e t sid m)"
  by (simp_all add: refuse_def answer_def ends_def quiet_allowed)

definition change_ok :: "uid \<Rightarrow> level \<Rightarrow> world \<Rightarrow> desc_change \<Rightarrow> bool" where
  "change_ok u lvl t c \<longleftrightarrow> (lvl \<noteq> LevelRoot \<longrightarrow> dc_trusted c = None) \<and>
     (t_cat t = TopicCatGrp \<and> t_owner t \<noteq> u \<longrightarrow> dc_access c = None \<and> dc_public c = None \<and> dc_trusted c = None)"

lemma unset_value [simp]: "in_place dst ANil = dst" "changed_value dst ANil = None"
  by (simp_all add: in_place_def changed_value_def mergeInterfaces_def split: go_any.split)

lemma private_in_place_allowed: "allowed u lvl t (private_in_place v src t)"
  by (auto simp: private_in_place_def put_user_allowed al.refl split: option.split)

lemma merged_allowed:
  assumes "lvl \<noteq> LevelRoot \<longrightarrow> b = t_trusted t" "t_cat t = TopicCatMe \<or> t_owner t = u"
  shows "allowed u lvl t (t\<lparr>t_public := a, t_trusted := b\<rparr>)"
  using assms by (auto simp: allowed_def)

lemma desc_changes_allowed: "ends (allowed u lvl) fst t (desc_changes e t sid u lvl msg desc)"
proof -
  let ?t = "t\<lparr>t_public := in_place (t_public t) (sd_Public desc), t_trusted := in_place (t_trusted t) (sd_Trusted desc)\<rparr>"
  have m: "allowed u lvl t ?t" if "\<not> (sd_Trusted desc \<noteq> ANil \<and> lvl \<noteq> LevelRoot)" "t_cat t = TopicCatMe \<or> t_cat t = TopicCatGrp \<and> t_owner t = u"
    using that by (intro merged_allowed) auto
  show ?thesis
    unfolding desc_changes_def Let_def
    by (intro al.rules allowed_said al.after [OF m allowed_said(1)])
      (assumption | simp only: fst_conv | rule al.trans [OF m private_in_place_allowed] private_in_place_allowed)+
qed

lemma desc_changes_ok: "post (\<lambda>(t', r). case r of Inl _ \<Rightarrow> True | Inr c \<Rightarrow> change_ok u lvl t c) (desc_changes e t sid u lvl msg desc)"
  unfolding desc_changes_def Let_def
  by (intro post_rules refuse_post) (auto simp: change_ok_def)

lemma assign_desc_allowed:
  assumes "change_ok u lvl t c"
  shows "ends (allowed u lvl) (\<lambda>t. t) t (assign_desc t sid v c)"
proof -
  have "ends (allowed u lvl) (\<lambda>t. t) t (map_option fst (fndSetPublic t sid x))" for x
    by (auto simp: fndSetPublic_def ends_def allowed_def profile_def split: go_any.splits if_splits)
  moreover have "allowed u lvl t (case x of None \<Rightarrow> t | Some y \<Rightarrow> put_user v ((user_of t v)\<lparr>u_private := y\<rparr>) t)" for t x
    by (simp add: put_user_allowed al.refl split: option.split)
  ultimately show ?thesis
    unfolding assign_desc_def
    by (intro al.rules) (use assms in \<open>simp_all add: change_ok_def allowed_def profile_def\<close>)
qed

lemma quiet_saves:
  "save_desc e m t u c d = (t', err) \<Longrightarrow> quiet t t'" "save_tags e m t u tags = (t', err) \<Longrightarrow> quiet t t'"
  unfolding save_desc_def save_tags_def
  by (auto simp: Let_def split: if_splits store_result.splits option.splits
      intro: quiet_trans [OF quiet_put_out quiet_put_out])

lemma save_desc_allowed:
  "(\<And>t1 r. quiet t t1 \<Longrightarrow> ends (allowed u lvl) w t1 (f t1 r)) \<Longrightarrow> ends (allowed u lvl) w t (case save_desc e m t v c d of (t1, r) \<Rightarrow> f t1 r)"
  by (auto split: prod.split intro: al.after quiet_allowed quiet_saves)

lemma announce_desc_allowed: "ends (allowed u lvl) (\<lambda>t. t) t (announce_desc e t sid v mode c)"
proof -
  have q: "ends quiet_me w t m \<Longrightarrow> ends (allowed u lvl) w t m" for w t and m :: "world option"
    by (simp add: ends_def quiet_me_allowed)
  have "allowed u lvl t (t\<lparr>t_updated := x\<rparr>)" for t x by (simp add: allowed_def profile_def)
  then show ?thesis
    unfolding announce_desc_def Let_def
    by (intro al.rules quiet_me_ends [THEN q]) (simp_all add: al.refl)
qed

lemma change_ok_allowed: "change_ok u lvl t c \<Longrightarrow> allowed u lvl t t1 \<Longrightarrow> change_ok u lvl t1 c"
  by (auto simp: change_ok_def allowed_def)

lemma desc_changes_Inr: "desc_changes e t sid u lvl msg desc = Some (t1, Inr c) \<Longrightarrow> change_ok u lvl t c"
  using postD [OF desc_changes_ok] by fastforce

lemma replySetDesc_allowed: "ends (allowed u lvl) fst t (replySetDesc e m t sid u asChan lvl msg)"
proof -
  let ?changes = "\<lambda>set. case sq_Desc (set_Query set) of
      None \<Rightarrow> Some (t, Inr \<lparr>dc_access = None, dc_public = None, dc_trusted = None, dc_private = None\<rparr>)
    | Some desc \<Rightarrow> desc_changes e t sid u lvl msg desc"
  have c: "change_ok u lvl t c" if "?changes set = Some (t1, Inr c)" for set t1 c
    using that by (auto split: option.splits dest: desc_changes_Inr) (simp add: change_ok_def)
  have l: "quiet t1 (link_avatar m msg d t1)" for t1 d by (simp add: link_avatar_def Let_def)
  have a: "ends (allowed u lvl) (\<lambda>t. t) (link_avatar m msg d t2) (assign_desc (link_avatar m msg d t2) sid u d)"
    if "?changes set = Some (t1, Inr d)" "allowed u lvl t t1" "quiet t1 t2" for set t1 t2 d
  proof -
    have "allowed u lvl t (link_avatar m msg d t2)"
      using al.trans [OF that(2) al.trans [OF quiet_allowed [OF that(3)] quiet_allowed [OF l]]] .
    then show ?thesis by (intro assign_desc_allowed change_ok_allowed [OF c [OF that(1)]])
  qed
  show ?thesis
    unfolding replySetDesc_def
    by (intro save_desc_allowed al.rules allowed_said desc_changes_allowed announce_desc_allowed)
      (simp_all add: al.refl quiet_allowed [OF l] a)
qed

text \<open>
  C21. Only the owner of a group changes how it presents itself: a request of any other user leaves its
  public and trusted data and its default access as they are, whether it succeeds or fails; and in
  every topic only a root session changes the trusted data.
\<close>

theorem profile_owner_only:
  assumes "replySetDesc e m t sid u asChan lvl msg = Some (t', r)"
  shows "(t_cat t = TopicCatGrp \<and> t_owner t \<noteq> u \<longrightarrow> profile t' = profile t) \<and> (lvl \<noteq> LevelRoot \<longrightarrow> t_trusted t' = t_trusted t)"
  using endsD2 [OF replySetDesc_allowed assms] by (simp add: allowed_def)


subsection \<open>Unique tags\<close>

lemma prefix_not_tag: "prefixedTag un tag = Some (p, b) \<Longrightarrow> prefixedTag un p = None"
  by (auto simp: prefixedTag_def Let_def split: if_splits dest!: set_takeWhileD)

lemma prefixes_unfiltered: "filterTags un (added_tags m TopicCatMe added) ns = []" if "un = m_un m"
proof -
  have "fst (validateTag un tag) = [] \<or> prefixedTag un (fst (validateTag un tag)) = None" for tag
    by (auto simp: validateTag_def split: option.split dest: prefix_not_tag)
  moreover have "prefixedTag un [] = None" by (simp add: prefixedTag_def)
  ultimately have "prefixedTag un (fst (validateTag un tag)) = None" for tag by metis
  then show ?thesis by (auto simp: filterTags_def added_tags_def filter_empty_conv that)
qed

text \<open>
  The check that nobody else uses an alias is never made for users: at the topic \<^verbatim>\<open>me\<close> the outcome of setting
  tags does not depend on which tags are taken, since only the prefixes of the new tags are checked.
\<close>

theorem alias_of_user_unchecked:
  assumes "t_cat t = TopicCatMe"
  shows "replySetTags e (m\<lparr>m_FindOne := f\<rparr>) t sid u msg = replySetTags e m t sid u msg"
proof -
  let ?m = "m\<lparr>m_FindOne := f\<rparr>"
  have eqs: "m_un ?m = m_un m" "m_maxTagCount ?m = m_maxTagCount m" "m_immutableTagNS ?m = m_immutableTagNS m"
    "m_aliasTagNS ?m = m_aliasTagNS m" "added_tags ?m = added_tags m" "save_tags e ?m = save_tags e m"
    by (simp_all add: fun_eq_iff added_tags_def save_tags_def Let_def)
  have u: "unique_loop m' (filterTags (m_un m) (added_tags m TopicCatMe added) ns) = (None, False)" for m' added ns
    by (simp add: prefixes_unfiltered)
  show ?thesis unfolding replySetTags_def Let_def assms eqs u ..
qed

subsection \<open>A sample environment\<close>

text \<open>One stored message and a store that refuses updates, for the witnesses.\<close>

definition meta_env0 :: meta_env where
  "meta_env0 = \<lparr>m_un = ascii_tables, m_maxTagCount = 16, m_immutableTagNS = (\<lambda>_. False), m_maskedTagNS = (\<lambda>_. False),
     m_aliasTagNS = ''alias'', m_preCheck = (\<lambda>_ _. None), m_creds = cred_env0, m_tmpToken = (\<lambda>_ _. []),
     m_UsersUpdate = (\<lambda>_ _. NilErr), m_TopicsUpdate = (\<lambda>_ _. OtherErr ''down''), m_LinkAttachments = (\<lambda>_ _. NilErr),
     m_UpdateSubCnt = (\<lambda>_. NilErr), m_Subs = (\<lambda>_. Inr []), m_FindOne = (\<lambda>_. Inr ''usrX''),
     m_GetAll = (\<lambda>_ _ _. Inr [message0\<lparr>Msg_SeqId := 7, Msg_Content := AStr ''hi''\<rparr>]),
     m_GetDeleted = (\<lambda>_ _ _. Inr ([], 0)), m_pluginFind = (\<lambda>_ q. Inr (q, None))\<rparr>"

definition get0 :: "string \<Rightarrow> ClientComMessage" where
  "get0 what = client_message0\<lparr>cm_Get := Some \<lparr>get_Id = ''g'', get_Topic = ''grpA'',
     get_Query = \<lparr>gq_What = what, gq_Desc = None, gq_Sub = None, gq_Data = None, gq_Del = None\<rparr>\<rparr>, msg_Id := ''g'',
     msg_Original := ''grpA'', msg_MetaWhat := parseMsgClientMeta what\<rparr>"

lemma reader0: "IsReader (user_mode (user_of group0 1))" "original group0 1 = Some ''grpA''"
  using group0_modes by (simp_all add: user_mode_def original_def) (simp add: group0_def)

lemma group0_history:
  "\<exists>t'. replyGetData env0 meta_env0 group0 ''s1'' 1 False None (get0 ''data'') = Some (t', Inr ()) \<and>
     (\<exists>a b. w_out t' = [SendTo ''s1'' a, SendTo ''s1'' b] \<and> map_option data_SeqId (Data a) = Some 7 \<and> ctrl_code b = 208)"
proof -
  have "m_GetAll meta_env0 (t_name group0) 1 (msgOpts2storeOpts None) = Inr [message0\<lparr>Msg_SeqId := 7, Msg_Content := AStr ''hi''\<rparr>]"
    by (simp add: meta_env0_def)
  moreover have "supportsMessageBatching (w_sess group0 ''s1'')" "w_out group0 = []"
    by (simp_all add: supportsMessageBatching_def group0_def session0_def)
  ultimately obtain t' where "replyGetData env0 meta_env0 group0 ''s1'' 1 False None (get0 ''data'') = Some (t', Inr ())"
    "w_out t' = [SendTo ''s1'' ((stored_data ''grpA'' False (message0\<lparr>Msg_SeqId := 7, Msg_Content := AStr ''hi''\<rparr>))\<lparr>scm_TenantID := t_tenantID group0\<rparr>),
       SendTo ''s1'' ((NoErrDeliveredParams (msg_Id (get0 ''data'')) (msg_Original (get0 ''data'')) (e_now env0)
         (AMap [(''what'', AStr ''data''), (''count'', AInt 1)]))\<lparr>scm_TenantID := t_tenantID group0\<rparr>)]"
    using history_core [OF reader0(1) _ reader0(2), of None meta_env0 _ env0 "''s1''" False "get0 ''data''"] group0_ready
    by (auto simp: bad_opts_def)
  then show ?thesis
    by (auto simp: stored_data_def reply_defs ctrl_code_def ctrl_defs)
qed

theorem history_served_witness:
  "\<exists>t'. replyGetData env0 meta_env0 group0 ''s1'' 1 False None (get0 ''data'') = Some (t', Inr ()) \<and> length (w_out t') = 2"
proof -
  have "m_GetAll meta_env0 (t_name group0) 1 (msgOpts2storeOpts None) = Inr [message0\<lparr>Msg_SeqId := 7, Msg_Content := AStr ''hi''\<rparr>]"
    by (simp add: meta_env0_def)
  moreover have "supportsMessageBatching (w_sess group0 ''s1'')" "w_out group0 = []"
    by (simp_all add: supportsMessageBatching_def group0_def session0_def)
  ultimately show ?thesis
    using history_served [OF reader0(1) _ reader0(2), of None meta_env0 _ env0 "''s1''" False "get0 ''data''"] group0_ready
    by (auto simp: bad_opts_def)
qed

theorem history_needs_read_witness: "IsReader (user_mode (user_of group0 1))"
proof -
  from group0_history obtain t' a b where t': "replyGetData env0 meta_env0 group0 ''s1'' 1 False None (get0 ''data'') = Some (t', Inr ())"
    "w_out t' = [SendTo ''s1'' a, SendTo ''s1'' b]" "Data a \<noteq> None" by fastforce
  have out: "w_out group0 = []" by (simp add: group0_def)
  have what: "msg_MetaWhat (get0 ''data'') = 4" by (simp add: get0_def) code_simp
  have "handleMetaGet env0 meta_env0 group0 ''s1'' (get0 ''data'') 1 False LevelAuth = Some t'"
    using t'(1) by (simp add: handleMetaGet_def Let_def part_def what constMsgMetaDesc_def constMsgMetaSub_def constMsgMetaData_def
      constMsgMetaDel_def constMsgMetaTags_def constMsgMetaCred_def constMsgMetaAux_def)
      (simp add: get0_def)
  then show ?thesis
    using history_needs_read [of env0 meta_env0 group0 "''s1''" "get0 ''data''" 1 False LevelAuth t' "[SendTo ''s1'' a, SendTo ''s1'' b]" "''s1''" a]
      t' out by simp
qed

theorem description_counters_witness:
  "\<exists>d. replyGetDesc env0 group0 ''s1'' 1 None (get0 ''desc'') =
     Some (reply env0 group0 (Some ''s1'') (meta_message ((meta0 ''g'' ''grpA'' 100)\<lparr>meta_Desc := Some d\<rparr>)), Inr ()) \<and>
     td_ReadSeqId d \<le> td_RecvSeqId d \<and> td_RecvSeqId d \<le> 7"
proof -
  have ok: "ids_ok group0"
    by (auto simp: ids_ok_def user_of_def group0_def user_ok_def user0_def)
  obtain t' where t': "replyGetDesc env0 group0 ''s1'' 1 None (get0 ''desc'') = Some (t', Inr ())"
    by (simp add: replyGetDesc_def Let_def answer_def)
  from description_counters [OF ok t'] obtain d where
    "t' = reply env0 group0 (Some ''s1'') (meta_message ((meta0 (msg_Id (get0 ''desc'')) (msg_Original (get0 ''desc'')) (e_now env0))\<lparr>meta_Desc := Some d\<rparr>))"
    "td_ReadSeqId d \<le> td_RecvSeqId d" "td_RecvSeqId d \<le> td_SeqId d" "td_SeqId d \<le> t_lastID group0" by blast
  then show ?thesis
    using t' by (intro exI [of _ d]) (simp add: get0_def env0_def group0_def)
qed

theorem subscriber_privacy_witness:
  "\<exists>mts. sub_entry group0 2 LevelAuth 0 (sub0\<lparr>Sub_User := Uid_String 1, ModeGiven := ModeJoin, ModeWant := ModeJoin, Sub_Private := AStr ''x''\<rparr>) = Some mts \<and>
     ts_Private mts = ANil"
proof -
  let ?s = "sub0\<lparr>Sub_User := Uid_String 1, ModeGiven := ModeJoin, ModeWant := ModeJoin, Sub_Private := AStr ''x''\<rparr>"
  have "ParseUid (Uid_String 1) = 1" by (simp add: ParseUid_def Uid_String_def Uid_text_result)
  then have u: "ParseUid (Sub_User ?s) \<noteq> 2" by (simp add: sub0_def)
  obtain mts where m: "sub_entry group0 2 LevelAuth 0 ?s = Some mts"
    by (simp add: sub_entry_def Let_def sub0_def time_IsZero_def)
  from subscriber_privacy [OF m _ u] m show ?thesis by (simp add: group0_def)
qed

definition set0 :: "MsgSetDesc \<Rightarrow> ClientComMessage" where
  "set0 desc = client_message0\<lparr>cm_Set := Some \<lparr>set_Id = ''s'', set_Topic = ''grpA'',
     set_Query = \<lparr>sq_Desc = Some desc, sq_Sub = None, sq_Tags = None, sq_Cred = None, sq_Aux = None\<rparr>\<rparr>,
     msg_Id := ''s'', msg_Original := ''grpA'', msg_MetaWhat := 1\<rparr>"

definition desc_ab :: MsgSetDesc where
  "desc_ab = \<lparr>sd_DefaultAcs = None, sd_Public = AMap [(''b'', AInt 2)], sd_Trusted = ANil, sd_Private = ANil\<rparr>"


theorem profile_owner_only_witness:
  "\<exists>t' r. replySetDesc env0 meta_env0 group0 ''s1'' 2 False LevelAuth (set0 desc_ab) = Some (t', r) \<and> profile t' = profile group0"
proof -
  obtain t' r where t': "replySetDesc env0 meta_env0 group0 ''s1'' 2 False LevelAuth (set0 desc_ab) = Some (t', r)"
    by (simp add: replySetDesc_def set0_def desc_changes_def desc_ab_def group0_def refuse_def Let_def)
  from profile_owner_only [OF t'] t' show ?thesis by (simp add: group0_def)
qed

theorem alias_of_user_unchecked_witness:
  "replySetTags env0 (meta_env0\<lparr>m_FindOne := (\<lambda>_. Inr [])\<rparr>) (group0\<lparr>t_cat := TopicCatMe\<rparr>) ''s1'' 1 (set0 desc_ab) =
   replySetTags env0 meta_env0 (group0\<lparr>t_cat := TopicCatMe\<rparr>) ''s1'' 1 (set0 desc_ab)"
  by (rule alias_of_user_unchecked) simp

end
