(* ===== verification/SessionTypes.thy ===== *)
theory SessionTypes
  imports UserCreds Cluster Presence
begin

section \<open>Client sessions (server/session.go)\<close>

text \<open>
  The state of a session that belongs to a client, what its handlers ask the rest of the server, and what
  they send out. A subscription of a session is known by the name of the topic; sending to a channel of
  the topic, to the hub, to the store or to the client is an entry of the log \<open>cs_out\<close>. A session has at
  most one subscribe or unsubscribe request in flight: \<^verbatim>\<open>inflightReqs.Add\<close> returns only once the earlier
  request is done. A panic is \<open>None\<close>.
\<close>

record tenant =
  tn_ID :: tenant_id
  tn_Code :: string
  tn_Name :: string
  tn_State :: tenant_state

definition Tenant_IsActive :: "tenant option \<Rightarrow> bool" where
  "Tenant_IsActive t \<longleftrightarrow> (case t of None \<Rightarrow> False | Some x \<Rightarrow> tn_State x = TenantStateActive)"

record device_def =
  dd_TenantID :: tenant_id
  dd_DeviceId :: string
  dd_Platform :: string
  dd_LastSeen :: time
  dd_Lang :: string

text \<open>The message that stands for a session alone.\<close>

definition empty_ClientComMessage :: ClientComMessage where
  "empty_ClientComMessage =
     \<lparr>cm_Hi = None, cm_Acc = None, cm_Login = None, cm_Sub = None, cm_Leave = None, cm_Pub = None, cm_Get = None,
      cm_Set = None, cm_Del = None, cm_Note = None, cm_Extra = None, msg_Id = [], msg_Original = [],
      msg_RcptTo = [], msg_AsUser = [], msg_AuthLvl = 0, msg_MetaWhat = 0, msg_Timestamp = 0, msg_TenantID = 0,
      msg_sess = None, msg_init = False\<rparr>"

subsection \<open>What a session sends out\<close>

datatype sess_effect =
    Queue ServerComMessage
  | QueueBytes bytes
  | HubJoin ClientComMessage
  | HubRouteCli ClientComMessage
  | HubMeta ClientComMessage
  | HubUnregTopic tenant_id string ClientComMessage
  | HubUnregUser tenant_id uid bool
  | HubUserStatus tenant_id uid obj_state
  | SubBroadcast string ClientComMessage
  | SubDone string ClientComMessage
  | SubMeta string ClientComMessage
  | SubAgent string string
  | SubForeground string
  | BkgTimerReset
  | BkgTimerStop
  | DevicesDelete tenant_id uid string
  | DevicesUpdate tenant_id uid string device_def
  | DeviceChannels tenant_id uid string bool
  | UsersCreate tenant_id user go_any
  | UsersDelete tenant_id uid bool
  | UsersUpdateState tenant_id uid obj_state
  | UsersResetTags tenant_id uid "string list"
  | AuthAddRecord string auth_rec
  | AuthUpdateRecord string auth_rec
  | AuthDelRecords string tenant_id uid
  | AuthGenSecret string auth_rec
  | ResetSecret string tenant_id string string
  | SessStore store_op
  | EvictUser uid string
  | CacheRemoveUser tenant_id uid
  | RoutePres ServerComMessage
  | PluginAccount user string
  | PurgeChannels
  | StoreDelete string
  | StopWith "ServerComMessage option"

record client_session = session +
  cs_sid :: string
  cs_ver :: int
  cs_deviceID :: string
  cs_platf :: string
  cs_tenantCode :: string
  cs_remoteAddr :: string
  cs_lastTouched :: time
  cs_clnode :: "(string \<times> int) option"
  cs_inflight :: bool
  cs_out :: "sess_effect list"
  cs_tries :: nat

definition emit :: "sess_effect \<Rightarrow> client_session \<Rightarrow> client_session" where
  "emit x s = s\<lparr>cs_out := cs_out s @ [x]\<rparr>"

text \<open>The state of a session when its connection is accepted.\<close>

definition new_session :: "string \<Rightarrow> session_proto \<Rightarrow> client_session" where
  "new_session sid proto = \<lparr>s_proto = proto, s_multi = None, s_userAgent = [], s_uid = ZeroUid, s_authLvl = LevelNone, s_countryCode = [],
     s_lang = [], s_tenantID = 0, s_lastAction = 0, s_terminating = False, s_background = False, s_subs = [], cs_sid = sid,
     cs_ver = 0, cs_deviceID = [], cs_platf = [], cs_tenantCode = [], cs_remoteAddr = [], cs_lastTouched = 0, cs_clnode = None, cs_inflight = False, cs_out = [],
     cs_tries = 0\<rparr>"

subsection \<open>What a session asks\<close>

text \<open>
  An authenticator, as the interface \<^verbatim>\<open>auth.AuthHandler\<close> shows it. \<^verbatim>\<open>GenSecret\<close> may change the record it is
  given, so its answer has the record, then the secret, its expiration and the error.
\<close>

record auth_handler =
  ah_IsInitialized :: bool
  ah_Authenticate :: "auth_context \<Rightarrow> bytes \<Rightarrow> store_result + (auth_rec option \<times> bytes option)"
  ah_IsUnique :: "auth_context \<Rightarrow> bytes \<Rightarrow> bool \<times> store_result"
  ah_AddRecord :: "auth_context \<Rightarrow> auth_rec \<Rightarrow> bytes \<Rightarrow> store_result + auth_rec"
  ah_UpdateRecord :: "auth_context \<Rightarrow> auth_rec \<Rightarrow> bytes \<Rightarrow> store_result + auth_rec"
  ah_DelRecords :: "tenant_id \<Rightarrow> uid \<Rightarrow> store_result"
  ah_GenSecret :: "auth_rec \<Rightarrow> auth_rec \<times> bytes \<times> time \<times> store_result"
  ah_GetResetParams :: "tenant_id \<Rightarrow> uid \<Rightarrow> store_result + go_map"

text \<open>The configuration of the server that sessions use.\<close>

record server_config =
  gc_build :: string
  gc_maxMessageSize :: int
  gc_maxSubscriberCount :: int
  gc_maxTagCount :: nat
  gc_maxFileUploadSize :: int
  gc_validatorClientConfig :: go_any
  gc_msgDeleteAge :: int
  gc_iceServers :: "go_any list"
  gc_callTimeout :: int
  gc_servingAt :: string
  gc_defaultCountryCode :: string
  gc_permanentAccounts :: bool
  gc_typesModeCP2P :: access_mode
  gc_immutableTagNS :: "string \<Rightarrow> bool"

text \<open>
  The answers of the rest of the server: the clock, whether a channel has room, the plugins, the locale
  library, the random names of new topics, the authenticators and validators, and the store facade.
\<close>

record sess_env =
  se_now :: time
  se_un :: unicode_tables
  se_config :: server_config
  se_cluster :: "cluster option"
  se_room :: "nat \<Rightarrow> bool"
  se_joinRoom :: bool
  se_routeRoom :: bool
  se_hubMetaRoom :: bool
  se_unregRoom :: bool
  se_broadcastRoom :: "string \<Rightarrow> bool"
  se_metaRoom :: "string \<Rightarrow> bool"
  se_fireHose :: "ClientComMessage \<Rightarrow> ClientComMessage option \<times> ServerComMessage option"
  se_region :: "string \<Rightarrow> string option"
  se_uidString :: "nat \<Rightarrow> string"
  se_tenants :: "(string \<Rightarrow> store_result + tenant option) option"
  se_auth :: "string \<Rightarrow> auth_handler option"
  se_authNames :: "string list"
  se_creds :: cred_env
  se_preCheck :: "string \<Rightarrow> string \<Rightarrow> go_map \<Rightarrow> store_result"
  se_tempAuthScheme :: "string \<Rightarrow> store_result + string"
  se_resetSecret :: "string \<Rightarrow> tenant_id \<Rightarrow> string \<Rightarrow> string \<Rightarrow> string \<Rightarrow> bytes \<Rightarrow> go_map \<Rightarrow> store_result"
  se_DevicesDelete :: "tenant_id \<Rightarrow> uid \<Rightarrow> string \<Rightarrow> store_result"
  se_DevicesUpdate :: "tenant_id \<Rightarrow> uid \<Rightarrow> string \<Rightarrow> device_def \<Rightarrow> store_result"
  se_UsersGet :: "tenant_id \<Rightarrow> uid \<Rightarrow> store_result + user option"
  se_UsersCreate :: "tenant_id \<Rightarrow> user \<Rightarrow> go_any \<Rightarrow> store_result + user"
  se_UsersDelete :: "tenant_id \<Rightarrow> uid \<Rightarrow> bool \<Rightarrow> store_result"
  se_UsersUpdateState :: "tenant_id \<Rightarrow> uid \<Rightarrow> obj_state \<Rightarrow> store_result"
  se_UsersResetTags :: "tenant_id \<Rightarrow> uid \<Rightarrow> string list \<Rightarrow> store_result"
  se_UsersGetByCred :: "tenant_id \<Rightarrow> string \<Rightarrow> string \<Rightarrow> store_result + uid"
  se_UsersGetSubs :: "tenant_id \<Rightarrow> uid \<Rightarrow> store_result + subscription list"
  se_UsersGetOwnTopics :: "tenant_id \<Rightarrow> uid \<Rightarrow> store_result + string list"
  se_TopicsGetSubs :: "tenant_id \<Rightarrow> string \<Rightarrow> store_result + subscription list"
  se_LinkAttachments :: "tenant_id \<Rightarrow> string \<Rightarrow> string list \<Rightarrow> store_result"

subsection \<open>Sending to the client\<close>

text \<open>The session of a client is not multiplexed, so the message goes to its own queue.\<close>

definition sess_queueOut :: "sess_env \<Rightarrow> client_session \<Rightarrow> ServerComMessage \<Rightarrow> client_session" where
  "sess_queueOut e s msg =
     (if s_terminating s then s
      else
        (case stamp_tenant (session.truncate s) msg of
           None \<Rightarrow> s
         | Some msg \<Rightarrow>
             (let s' = s\<lparr>cs_tries := cs_tries s + 1\<rparr>
              in if se_room e (cs_tries s) then emit (Queue msg) s' else s')))"

definition sess_queueOutBytes :: "sess_env \<Rightarrow> client_session \<Rightarrow> bytes \<Rightarrow> client_session" where
  "sess_queueOutBytes e s data =
     (if s_terminating s then s
      else
        (let s' = s\<lparr>cs_tries := cs_tries s + 1\<rparr>
         in if se_room e (cs_tries s) then emit (QueueBytes data) s' else s'))"

text \<open>A decoded store error is a reply; decoding a redirection without a topic panics.\<close>

definition reply_error ::
  "sess_env \<Rightarrow> client_session \<Rightarrow> store_result \<Rightarrow> string \<Rightarrow> time \<Rightarrow> go_map option \<Rightarrow> client_session option" where
  "reply_error e s err i ts params = map_option (sess_queueOut e s) (decodeStoreError err i ts params)"

definition with_params :: "ServerComMessage \<Rightarrow> go_any \<Rightarrow> ServerComMessage" where
  "with_params m p = m\<lparr>Ctrl := map_option (\<lambda>c. c\<lparr>ctrl_Params := p\<rparr>) (Ctrl m)\<rparr>"

definition stopSession :: "ServerComMessage option \<Rightarrow> client_session \<Rightarrow> client_session" where
  "stopSession m s = emit (StopWith m) s"

definition sess_subscribed :: "client_session \<Rightarrow> string \<Rightarrow> bool" where
  "sess_subscribed s topic \<longleftrightarrow> topic \<in> set (s_subs s)"

definition auth_ctx :: "client_session \<Rightarrow> auth_context" where
  "auth_ctx s = \<lparr>ctx_TenantID = s_tenantID s, ctx_RemoteAddr = cs_remoteAddr s\<rparr>"

subsection \<open>After a successful authentication\<close>

text \<open>A time among the parameters of a reply is a value of another type.\<close>

definition login_reply ::
  "sess_env \<Rightarrow> client_session \<Rightarrow> ServerComMessage \<Rightarrow> go_map \<Rightarrow> auth_rec \<Rightarrow> (client_session \<times> ServerComMessage \<times> go_map) option" where
  "login_reply e s m params rec =
     (case se_auth e ''token'' of
        None \<Rightarrow> None
      | Some h \<Rightarrow>
          (case ah_GenSecret h rec of
             (rec', token, expires, err) \<Rightarrow>
               (let params = params @ [(''token'', ABytes token), (''expires'', AOther (nat expires))]
                in Some (emit (AuthGenSecret ''token'' rec) s, with_params m (AMap params), params))))"

definition onLogin ::
  "sess_env \<Rightarrow> client_session \<Rightarrow> string \<Rightarrow> time \<Rightarrow> auth_rec \<Rightarrow> string list \<Rightarrow> (client_session \<times> ServerComMessage \<times> go_map) option" where
  "onLogin e s msgID timestamp rec missing =
     (let params = [(''user'', AStr (UserId (rec_Uid rec))), (''authlvl'', AStr (Level_String (rec_AuthLevel rec)))]
      in if missing \<noteq> [] then
           login_reply e s (InfoValidateCredentials msgID timestamp) (params @ [(''cred'', AArr (map AStr missing))]) rec
         else
           (let login = (rec_Features rec AND FeatureNoLogin = 0);
                s = (if login then s\<lparr>s_uid := rec_Uid rec, s_authLvl := rec_AuthLevel rec\<rparr> else s);
                rec' = (if login then rec\<lparr>rec_Lifetime := 0\<rparr> else rec);
                dev = \<lparr>dd_TenantID = s_tenantID s, dd_DeviceId = cs_deviceID s, dd_Platform = cs_platf s,
                  dd_LastSeen = timestamp, dd_Lang = s_lang s\<rparr>;
                s = (if cs_deviceID s \<noteq> [] \<and> se_DevicesUpdate e (s_tenantID s) (rec_Uid rec) [] dev = NilErr
                     then emit (DevicesUpdate (s_tenantID s) (rec_Uid rec) [] dev) s else s)
            in login_reply e s (NoErr msgID [] timestamp) params
                 (rec'\<lparr>rec_Features := rec_Features rec OR FeatureValidated\<rparr>)))"

end
