(* ===== verification/Accounts.thy ===== *)
theory Accounts
  imports SessionTypes
begin

section \<open>Accounts (server/user.go)\<close>

text \<open>
  Creating, changing, suspending and deleting a user at the request of a session. A reply goes out before
  the work that follows it in the code. The description of the new account among the parameters of a
  reply is shown as the map of its fields, a nil map of parameters as nil.
\<close>

subsection \<open>State of a user\<close>

definition userGetState :: "sess_env \<Rightarrow> tenant_id \<Rightarrow> uid \<Rightarrow> obj_state \<times> store_result" where
  "userGetState e tn u =
     (case se_UsersGet e tn u of
        Inl err \<Rightarrow> (StateUndefined, err)
      | Inr None \<Rightarrow> (StateUndefined, StoreErr types_ErrUserNotFound)
      | Inr (Some usr) \<Rightarrow>
          if User_TenantID usr \<noteq> tn then (StateUndefined, StoreErr types_ErrUserNotFound)
          else (User_State usr, NilErr))"

subsection \<open>New accounts\<close>

definition new_user :: "tenant_id \<Rightarrow> user" where
  "new_user tn = \<lparr>Id = [], header_id = ZeroUid, CreatedAt = 0, UpdatedAt = 0, User_TenantID = tn, User_State = StateOK,
     User_StateAt = None, User_Access = \<lparr>Auth = 0, Anon = 0\<rparr>, User_LastSeen = None, User_UserAgent = [],
     User_Public = ANil, User_Trusted = ANil, User_Tags = []\<rparr>"

definition user_uid :: "user \<Rightarrow> uid" where
  "user_uid usr = fst (ObjHeader_Uid usr)"

fun pre_check :: "sess_env \<Rightarrow> MsgCredClient list \<Rightarrow> (store_result \<times> string) option option" where
  "pre_check e [] = Some None"
| "pre_check e (cr # creds) =
     (case ce_validator (se_creds e) (cred_Method cr) of
        None \<Rightarrow> None
      | Some _ \<Rightarrow>
          (case se_preCheck e (cred_Method cr) (cred_Value cr) (cred_Params cr) of
             NilErr \<Rightarrow> pre_check e creds
           | err \<Rightarrow> Some (Some (err, cred_Method cr))))"

text \<open>A text that does not parse leaves the default; whoever may do anything may also approve.\<close>

definition account_mode :: "access_mode \<Rightarrow> access_mode \<Rightarrow> string \<Rightarrow> access_mode" where
  "account_mode modeP2P m txt =
     (if txt = [] then m
      else
        (let m = result_or m (AccessMode_UnmarshalText m txt) AND modeP2P
         in if m \<noteq> ModeNone then m OR ModeApprove else m))"

definition account_access :: "access_mode \<Rightarrow> MsgSetDesc option \<Rightarrow> default_access \<Rightarrow> default_access" where
  "account_access modeP2P desc d =
     (case Option.bind desc sd_DefaultAcs of
        None \<Rightarrow> d
      | Some acs \<Rightarrow> \<lparr>Auth = account_mode modeP2P (Auth d) (da_Auth acs), Anon = account_mode modeP2P (Anon d) (da_Anon acs)\<rparr>)"

definition not_null :: "go_any \<Rightarrow> go_any" where
  "not_null v = (if isNullValue v then ANil else v)"

definition account_desc :: "user \<Rightarrow> go_any \<Rightarrow> go_any" where
  "account_desc usr private = AMap
     [(''created'', AOther (nat (CreatedAt usr))), (''updated'', AOther (nat (UpdatedAt usr))),
      (''defacs'', AMap [(''auth'', AStr (AccessMode_String (Auth (User_Access usr)))),
                         (''anon'', AStr (AccessMode_String (Anon (User_Access usr))))]),
      (''public'', User_Public usr), (''private'', private)]"

text \<open>The state and the tags a new account asks for, or the reply that refuses it.\<close>

definition account_state :: "sess_env \<Rightarrow> ClientComMessage \<Rightarrow> MsgClientAcc \<Rightarrow> ServerComMessage + obj_state" where
  "account_state e msg acc =
     (if acc_State acc = [] then Inr StateOK
      else if msg_AuthLvl msg \<noteq> LevelRoot
      then Inl (with_params (ErrPermissionDenied (msg_Id msg) [] (msg_Timestamp msg)) (AMap [(''what'', AStr ''state'')]))
      else
        (case NewObjState (un_lower (se_un e)) (acc_State acc) of
           (state, err) \<Rightarrow>
             if err \<noteq> None \<or> state = StateUndefined \<or> state = StateDeleted
             then Inl (ErrMalformed (msg_Id msg) [] (msg_Timestamp msg))
             else Inr state))"

definition account_tags :: "sess_env \<Rightarrow> ClientComMessage \<Rightarrow> MsgClientAcc \<Rightarrow> ServerComMessage + string list" where
  "account_tags e msg acc =
     (case normalizeTags (se_un e) (Some (acc_Tags acc)) (gc_maxTagCount (se_config e)) of
        None \<Rightarrow> Inr []
      | Some tags \<Rightarrow>
          if \<not> restrictedTagsEqual (se_un e) tags [] (gc_immutableTagNS (se_config e))
          then Inl (with_params (ErrPermissionDenied (msg_Id msg) [] (msg_Timestamp msg)) (AMap [(''what'', AStr ''tags'')]))
          else Inr tags)"

text \<open>An incomplete account is deleted again; a failure to do so is only logged.\<close>

definition undo_account :: "sess_env \<Rightarrow> uid \<Rightarrow> client_session \<Rightarrow> client_session" where
  "undo_account e u s =
     (if se_UsersDelete e (s_tenantID s) u True = NilErr then emit (UsersDelete (s_tenantID s) u True) s else s)"

definition day :: int where "day = 24 * 3600 * 10 ^ 9"

text \<open>
  What follows the creation of the record in the database: the authentication record, the credentials,
  the avatar and the reply.
\<close>

definition finish_account ::
  "sess_env \<Rightarrow> client_session \<Rightarrow> ClientComMessage \<Rightarrow> MsgClientAcc \<Rightarrow> auth_handler \<Rightarrow> MsgCredClient list \<Rightarrow> user \<Rightarrow> go_any \<Rightarrow>
     client_session option" where
  "finish_account e s msg acc h creds usr private =
     (let tn = s_tenantID s; u = user_uid usr; required = ce_authValidators (se_creds e);
          fresh = empty_rec\<lparr>rec_TenantID := tn, rec_Uid := u, rec_Tags := User_Tags usr\<rparr>
      in case ah_AddRecord h (auth_ctx s) fresh (acc_Secret acc) of
           Inl err \<Rightarrow> map_option (undo_account e u) (reply_error e s err (msg_Id msg) (msg_Timestamp msg) None)
         | Inr rec \<Rightarrow>
             (let s = emit (AuthAddRecord (acc_Scheme acc) rec) s
              in if length creds < length (required (rec_AuthLevel rec)) then
                   (let missing = fst (snd (stringSliceDelta (required (rec_AuthLevel rec)) (credentialMethods creds)))
                    in map_option (undo_account e u)
                         (reply_error e s (StoreErr types_ErrPolicy) (msg_Id msg) (msg_Timestamp msg)
                           (Some [(''creds'', AArr (map AStr missing))])))
                 else
                   (case se_auth e ''token'' of
                      None \<Rightarrow> None
                    | Some th \<Rightarrow>
                        (case ah_GenSecret th (empty_rec\<lparr>rec_TenantID := tn, rec_Uid := u, rec_AuthLevel := LevelAuth, rec_Lifetime := day\<rparr>) of
                           (_, tmpToken, _, _) \<Rightarrow>
                             (case addCreds (se_creds e) tn u creds (rec_Tags rec) (s_lang s) tmpToken of
                                (out, Inl err) \<Rightarrow>
                                  map_option (undo_account e u)
                                    (reply_error e (fold (\<lambda>x. emit (SessStore x)) out s) err (msg_Id msg) (msg_Timestamp msg) None)
                              | (out, Inr (validated, _)) \<Rightarrow>
                                  (let s = fold (\<lambda>x. emit (SessStore x)) out s;
                                       files = (case cm_Extra msg of None \<Rightarrow> [] | Some x \<Rightarrow> extra_Attachments x);
                                       s = (if files \<noteq> [] \<and> se_LinkAttachments e tn (UserId u) files = NilErr
                                            then emit (SessStore (FilesLinkAttachments (UserId u) files)) s else s);
                                       missing = fst (snd (stringSliceDelta (required (rec_AuthLevel rec)) validated));
                                       created = [(''user'', AStr (UserId u)), (''authlvl'', AStr (Level_String (rec_AuthLevel rec)))]
                                   in do {
                                     (s, r, params) \<leftarrow> (if acc_Login acc then onLogin e s (msg_Id msg) (msg_Timestamp msg) rec missing
                                       else Some (s, NoErrCreated (msg_Id msg) [] (msg_Timestamp msg), created));
                                     Some (emit (PluginAccount usr ''create'')
                                       (sess_queueOut e s (with_params r (AMap (params @ [(''desc'', account_desc usr private)])))))
                                   }))))))"

definition replyCreateUser ::
  "sess_env \<Rightarrow> client_session \<Rightarrow> ClientComMessage \<Rightarrow> MsgClientAcc \<Rightarrow> auth_rec option \<Rightarrow> client_session option" where
  "replyCreateUser e s msg acc rec =
     (let i = msg_Id msg; ts = msg_Timestamp msg; tn = s_tenantID s; modeP2P = gc_typesModeCP2P (se_config e)
      in if acc_Login acc \<and> (\<not> Uid_IsZero (s_uid s) \<or> rec \<noteq> None)
         then Some (sess_queueOut e s (ErrAlreadyAuthenticated i [] ts))
         else
           (case se_auth e (acc_Scheme acc) of
              None \<Rightarrow> Some (sess_queueOut e s (ErrMalformed i [] ts))
            | Some h \<Rightarrow>
                (case ah_IsUnique h (auth_ctx s) (acc_Secret acc) of
                   (False, err) \<Rightarrow> reply_error e s err i ts (Some [(''what'', AStr ''auth'')])
                 | (True, _) \<Rightarrow>
                     (case account_state e msg acc of
                        Inl r \<Rightarrow> Some (sess_queueOut e s r)
                      | Inr state \<Rightarrow>
                          (case account_tags e msg acc of
                             Inl r \<Rightarrow> Some (sess_queueOut e s r)
                           | Inr tags \<Rightarrow>
                               (let creds = normalizeCredentials (ce_order (se_creds e)) (\<lambda>m. ce_addToTags (se_creds e) m \<noteq> None)
                                      (acc_Cred acc) True
                                in do {
                                  bad \<leftarrow> pre_check e creds;
                                  p2p \<leftarrow> getDefaultAccess modeP2P TopicCatP2P True False;
                                  grp \<leftarrow> getDefaultAccess modeP2P TopicCatGrp True False;
                                  p2pAnon \<leftarrow> getDefaultAccess modeP2P TopicCatP2P False False;
                                  grpAnon \<leftarrow> getDefaultAccess modeP2P TopicCatGrp False False;
                                  (case bad of
                                     Some (err, method) \<Rightarrow> reply_error e s err i ts (Some [(''what'', AStr method)])
                                   | None \<Rightarrow>
                                       (let access = account_access modeP2P (acc_Desc acc) \<lparr>Auth = p2p OR grp, Anon = p2pAnon OR grpAnon\<rparr>;
                                            public = (case acc_Desc acc of None \<Rightarrow> ANil | Some d \<Rightarrow> not_null (sd_Public d));
                                            private = (case acc_Desc acc of None \<Rightarrow> ANil | Some d \<Rightarrow> not_null (sd_Private d))
                                        in case se_UsersCreate e tn
                                               ((new_user tn)\<lparr>User_State := state, User_Tags := tags, User_Access := access, User_Public := public\<rparr>)
                                               private of
                                             Inl _ \<Rightarrow> Some (sess_queueOut e s (ErrUnknown i [] ts))
                                           | Inr usr \<Rightarrow> finish_account e (emit (UsersCreate tn usr private) s) msg acc h creds usr private))
                                })))))
     )"

subsection \<open>Changing an account\<close>

text \<open>The tags an authenticator has changed are saved; a failure is only logged.\<close>

definition updateUserAuth ::
  "sess_env \<Rightarrow> client_session \<Rightarrow> MsgClientAcc \<Rightarrow> user \<Rightarrow> client_session \<times> store_result" where
  "updateUserAuth e s acc usr =
     (let tn = s_tenantID s; u = user_uid usr
      in case se_auth e (acc_Scheme acc) of
           None \<Rightarrow> (s, StoreErr types_ErrMalformed)
         | Some h \<Rightarrow>
             (case ah_UpdateRecord h (auth_ctx s)
                 (empty_rec\<lparr>rec_TenantID := tn, rec_Uid := u, rec_Tags := User_Tags usr\<rparr>) (acc_Secret acc) of
                Inl err \<Rightarrow> (s, err)
              | Inr rec \<Rightarrow>
                  (let s = emit (AuthUpdateRecord (acc_Scheme acc) rec) s
                   in (if se_UsersResetTags e tn u (rec_Tags rec) = NilErr then emit (UsersResetTags tn u (rec_Tags rec)) s else s,
                       NilErr))))"

text \<open>The result is whether the state has changed and the error.\<close>

definition changeUserState ::
  "sess_env \<Rightarrow> client_session \<Rightarrow> uid \<Rightarrow> user \<Rightarrow> MsgClientAcc \<Rightarrow> client_session \<times> user \<times> bool \<times> store_result" where
  "changeUserState e s u usr acc =
     (case NewObjState (un_lower (se_un e)) (acc_State acc) of
        (state, err) \<Rightarrow>
          if err \<noteq> None \<or> state = StateUndefined then (s, usr, False, StoreErr types_ErrMalformed)
          else if User_State usr = state then (s, usr, False, NilErr)
          else
            (let s = (if state \<noteq> StateOK then emit (EvictUser u []) s else s);
                 err = se_UsersUpdateState e (s_tenantID s) u state
             in if err \<noteq> NilErr then (s, usr, False, err)
                else (emit (HubUserStatus (s_tenantID s) u state) (emit (UsersUpdateState (s_tenantID s) u state) s),
                      usr\<lparr>User_State := state\<rparr>, True, NilErr)))"

text \<open>
  The credentials part of an update. The error of \<^verbatim>\<open>addCreds\<close> is kept in a variable of the inner block, and
  the list of missing credentials is made only if the store failed to return the credentials.
\<close>

definition update_creds ::
  "sess_env \<Rightarrow> client_session \<Rightarrow> uid \<Rightarrow> level \<Rightarrow> MsgClientAcc \<Rightarrow> (client_session \<times> go_any) option" where
  "update_creds e s u lvl acc =
     (let tn = s_tenantID s
      in case se_auth e ''token'' of
           None \<Rightarrow> None
         | Some th \<Rightarrow>
             (case ah_GenSecret th (empty_rec\<lparr>rec_TenantID := tn, rec_Uid := u, rec_AuthLevel := LevelNone, rec_Lifetime := day,
                  rec_Features := FeatureNoLogin\<rparr>) of
                (_, tmpToken, _, _) \<Rightarrow>
                  (case addCreds (se_creds e) tn u (acc_Cred acc) [] (s_lang s) tmpToken of
                     (out, Inl _) \<Rightarrow> Some (fold (\<lambda>x. emit (SessStore x)) out s, ANil)
                   | (out, Inr _) \<Rightarrow>
                       (case ce_GetAllCreds (se_creds e) tn u [] True of
                          Inr _ \<Rightarrow> Some (fold (\<lambda>x. emit (SessStore x)) out s, ANil)
                        | Inl _ \<Rightarrow>
                            (let missing = fst (snd (stringSliceDelta (ce_authValidators (se_creds e) lvl) []))
                             in Some (fold (\<lambda>x. emit (SessStore x)) out s,
                                  if missing \<noteq> [] then AMap [(''cred'', AArr (map AStr missing))] else ANil))))))"

definition update_reply ::
  "sess_env \<Rightarrow> client_session \<Rightarrow> ClientComMessage \<Rightarrow> user \<Rightarrow> store_result \<Rightarrow> go_any \<Rightarrow> client_session option" where
  "update_reply e s msg usr err params =
     (if err \<noteq> NilErr then reply_error e s err (msg_Id msg) (msg_Timestamp msg) None
      else Some (emit (PluginAccount usr ''upd'') (sess_queueOut e s (NoErrParams (msg_Id msg) [] (msg_Timestamp msg) params))))"

text \<open>Whose account it is and at which level, or the reply that refuses the request.\<close>

definition account_target ::
  "client_session \<Rightarrow> ClientComMessage \<Rightarrow> MsgClientAcc \<Rightarrow> auth_rec option \<Rightarrow> ServerComMessage + (uid \<times> level)" where
  "account_target s msg acc rec =
     (let denied = ErrPermissionDenied (msg_Id msg) [] (msg_Timestamp msg); bad = ErrMalformed (msg_Id msg) [] (msg_Timestamp msg)
      in if Uid_IsZero (s_uid s) \<and> rec = None then Inl denied
         else if msg_AsUser msg \<noteq> [] \<and> rec \<noteq> None then Inl bad
         else
           (let (userId, lvl) = (case rec of None \<Rightarrow> (msg_AsUser msg, msg_AuthLvl msg) | Some r \<Rightarrow> (UserId (rec_Uid r), rec_AuthLevel r));
                other = (acc_User acc \<noteq> [] \<and> acc_User acc \<noteq> userId);
                u = ParseUserId (if other then acc_User acc else userId)
            in if other \<and> s_authLvl s \<noteq> LevelRoot then Inl denied
               else if Uid_IsZero u then Inl bad
               else if acc_State acc \<noteq> [] \<and> s_authLvl s \<noteq> LevelRoot then Inl denied
               else Inr (u, if other then ParseAuthLevel (acc_AuthLevel acc) else lvl)))"

definition replyUpdateUser ::
  "sess_env \<Rightarrow> client_session \<Rightarrow> ClientComMessage \<Rightarrow> MsgClientAcc \<Rightarrow> auth_rec option \<Rightarrow> client_session option" where
  "replyUpdateUser e s msg acc rec =
     (let i = msg_Id msg; ts = msg_Timestamp msg
      in case account_target s msg acc rec of
           Inl r \<Rightarrow> Some (sess_queueOut e s r)
         | Inr (u, lvl) \<Rightarrow>
             (case se_UsersGet e (s_tenantID s) u of
                Inl err \<Rightarrow> reply_error e s err i ts None
              | Inr None \<Rightarrow> reply_error e s (StoreErr types_ErrNotFound) i ts None
              | Inr (Some usr) \<Rightarrow>
                  if User_TenantID usr \<noteq> s_tenantID s then reply_error e s (StoreErr types_ErrNotFound) i ts None
                  else if acc_Scheme acc \<noteq> [] then
                    (case updateUserAuth e s acc usr of (s, err) \<Rightarrow> update_reply e s msg usr err ANil)
                  else if acc_Cred acc \<noteq> [] then
                    (if lvl = LevelNone then Some (sess_queueOut e s (ErrMalformed i [] ts))
                     else do {
                       (s, params) \<leftarrow> update_creds e s u lvl acc;
                       update_reply e s msg usr NilErr params
                     })
                  else if acc_State acc \<noteq> [] then
                    (case changeUserState e s u usr acc of
                       (s, usr, changed, err) \<Rightarrow>
                         if \<not> changed \<and> err = NilErr then Some (sess_queueOut e s (InfoNotModified i [] ts))
                         else update_reply e s msg usr err ANil)
                  else update_reply e s msg usr (StoreErr types_ErrMalformed) ANil))"

subsection \<open>Deleting an account\<close>

text \<open>Whose account is deleted, or the reply that refuses it.\<close>

definition delete_target :: "sess_env \<Rightarrow> client_session \<Rightarrow> ClientComMessage \<Rightarrow> MsgClientDel \<Rightarrow> ServerComMessage + uid" where
  "delete_target e s msg del =
     (let i = msg_Id msg; ts = msg_Timestamp msg
      in if del_User del = [] \<or> del_User del = UserId (s_uid s) then
           (if gc_permanentAccounts (se_config e) \<and> s_authLvl s \<noteq> LevelRoot then Inl (ErrPolicy i [] ts) else Inr (s_uid s))
         else if s_authLvl s = LevelRoot then
           (let u = ParseUserId (del_User del)
            in if Uid_IsZero u then Inl (ErrMalformed i [] ts)
               else
                 (case userGetState e (s_tenantID s) u of
                    (state, err) \<Rightarrow>
                      if err \<noteq> NilErr \<or> state = StateDeleted then Inl (ErrPermissionDenied i [] ts) else Inr u))
         else Inl (ErrPermissionDenied i [] ts))"

text \<open>An authenticator that refuses to delete its records stops the deletion; other errors do not.\<close>

fun disable_auth :: "sess_env \<Rightarrow> uid \<Rightarrow> string list \<Rightarrow> client_session \<Rightarrow> (client_session \<times> bool) option" where
  "disable_auth e u [] s = Some (s, True)"
| "disable_auth e u (name # names) s =
     (case se_auth e name of
        None \<Rightarrow> None
      | Some h \<Rightarrow>
          if \<not> ah_IsInitialized h then disable_auth e u names s
          else
            (case ah_DelRecords h (s_tenantID s) u of
               NilErr \<Rightarrow> disable_auth e u names (emit (AuthDelRecords name (s_tenantID s) u) s)
             | err \<Rightarrow> if err = StoreErr types_ErrUnsupported then Some (s, False) else disable_auth e u names s))"

fun topics_gone :: "sess_env \<Rightarrow> string list \<Rightarrow> client_session \<Rightarrow> client_session option" where
  "topics_gone e [] s = Some s"
| "topics_gone e (topic # topics) s =
     (case se_TopicsGetSubs e (s_tenantID s) topic of
        Inl _ \<Rightarrow> topics_gone e topics s
      | Inr subs \<Rightarrow> do {
          msgs \<leftarrow> presSubsOfflineOffline (s_tenantID s) topic TopicCatGrp subs ''gone'' nilPresParams (cs_sid s);
          topics_gone e topics (fold (\<lambda>m. emit (RoutePres m)) msgs s)
        })"

definition announce_gone :: "sess_env \<Rightarrow> uid \<Rightarrow> client_session \<Rightarrow> client_session option" where
  "announce_gone e u s =
     do {
       s \<leftarrow> (case se_UsersGetSubs e (s_tenantID s) u of
            Inl _ \<Rightarrow> Some s
          | Inr uoi \<Rightarrow> do {
              msgs \<leftarrow> presUsersOfInterestOffline (s_tenantID s) u uoi ''gone'';
              Some (fold (\<lambda>m. emit (RoutePres m)) msgs s)
            });
       (case se_UsersGetOwnTopics e (s_tenantID s) u of
          Inl _ \<Rightarrow> Some s
        | Inr topics \<Rightarrow> topics_gone e topics s)
     }"

definition replyDelUser :: "sess_env \<Rightarrow> client_session \<Rightarrow> ClientComMessage \<Rightarrow> MsgClientDel \<Rightarrow> client_session option" where
  "replyDelUser e s msg del =
     (let i = msg_Id msg; ts = msg_Timestamp msg; tn = s_tenantID s
      in case delete_target e s msg del of
           Inl r \<Rightarrow> Some (sess_queueOut e s r)
         | Inr u \<Rightarrow> do {
             (s, deleted) \<leftarrow> disable_auth e u (se_authNames e) s;
             (if \<not> deleted then Some (sess_queueOut e s (ErrOperationNotAllowed i [] ts))
              else do {
                s \<leftarrow> announce_gone e u
                  (emit (HubUnregUser tn u (del_Hard del)) (emit (CacheRemoveUser (msg_TenantID msg) u) (emit (EvictUser u (cs_sid s)) s)));
                (case se_UsersDelete e tn u (del_Hard del) of
                   NilErr \<Rightarrow>
                     (let s = sess_queueOut e (emit (UsersDelete tn u (del_Hard del)) s) (NoErr i [] ts)
                      in Some (if s_uid s = u \<and> s_multi s = None then stopSession (Some (NoErrEvicted [] [] ts)) s else s))
                 | err \<Rightarrow> reply_error e s err i ts None)
              })
           })"

end
