(* ===== verification/Dispatch.thy ===== *)
theory Dispatch
  imports Accounts
begin

section \<open>Dispatching the requests of a client (server/session.go)\<close>

text \<open>
  The handlers of the ten kinds of requests, in the order of the code, the dispatcher that chooses among
  them, and the end of a session. Deserialisation of a request is a library function and an argument.
\<close>

subsection \<open>Names of topics\<close>

definition expandTopicName :: "ClientComMessage \<Rightarrow> ServerComMessage + string" where
  "expandTopicName msg =
     (let asUid = ParseUserId (msg_AsUser msg); name = msg_Original msg
      in if name = [] then Inl (ErrMalformed (msg_Id msg) [] (msg_Timestamp msg))
         else if name = ''me'' then Inr (msg_AsUser msg)
         else if name = ''fnd'' then Inr (FndName asUid)
         else if name = ''slf'' then Inr (SlfName asUid)
         else if HasPrefix name ''usr'' then
           (let u2 = ParseUserId name
            in if Uid_IsZero u2 then Inl (ErrMalformed (msg_Id msg) name (msg_Timestamp msg))
               else if u2 = asUid then Inl (ErrPermissionDeniedReply msg (msg_Timestamp msg))
               else Inr (P2PName asUid u2))
         else if ChnToGrp name \<noteq> [] then Inr (ChnToGrp name)
         else Inr name)"

text \<open>
  A new topic belongs to the node that creates it: random names are drawn until one is hashed to this
  node. Not finding one is \<open>None\<close>.
\<close>

definition genTopicName :: "sess_env \<Rightarrow> nat \<Rightarrow> string" where
  "genTopicName e n = ''grp'' @ se_uidString e n"

partial_function (option) genLocal_loop :: "sess_env \<Rightarrow> cluster \<Rightarrow> tenant_id \<Rightarrow> nat \<Rightarrow> string option" where
  "genLocal_loop e c tn n =
     (if Ring_Get (cl_ring c) (TopicKey_RoutingKey \<lparr>TopicKey_TenantID = tn, TopicKey_Topic = genTopicName e n\<rparr>) \<noteq> thisNodeName c
      then genLocal_loop e c tn (n + 1) else Some (genTopicName e n))"

definition genLocalTopicName :: "sess_env \<Rightarrow> tenant_id \<Rightarrow> string option" where
  "genLocalTopicName e tn =
     (case se_cluster e of None \<Rightarrow> Some (genTopicName e 0) | Some c \<Rightarrow> genLocal_loop e c tn 0)"

subsection \<open>Handing a request on\<close>

text \<open>A request goes to a channel if it has room, else the client is told to try again.\<close>

definition offer :: "sess_env \<Rightarrow> bool \<Rightarrow> sess_effect \<Rightarrow> ClientComMessage \<Rightarrow> client_session \<Rightarrow> client_session" where
  "offer e room x msg s =
     (if room then emit x s else sess_queueOut e s (ErrServiceUnavailableReply msg (msg_Timestamp msg)))"

definition inflight_Add :: "client_session \<Rightarrow> client_session" where
  "inflight_Add s = s\<lparr>cs_inflight := True\<rparr>"

definition inflight_Done :: "client_session \<Rightarrow> client_session" where
  "inflight_Done s = s\<lparr>cs_inflight := False\<rparr>"

subsection \<open>Joining, leaving and publishing\<close>

definition join_topic :: "sess_env \<Rightarrow> client_session \<Rightarrow> ClientComMessage \<Rightarrow> client_session" where
  "join_topic e s msg =
     (let s = inflight_Add s
      in if sess_subscribed s (msg_RcptTo msg)
         then inflight_Done (sess_queueOut e s (InfoAlreadySubscribed (msg_Id msg) (msg_Original msg) (msg_Timestamp msg)))
         else if se_joinRoom e then emit (HubJoin msg) s
         else inflight_Done (sess_queueOut e s (ErrServiceUnavailableReply msg (msg_Timestamp msg))))"

definition subscribe :: "sess_env \<Rightarrow> client_session \<Rightarrow> ClientComMessage \<Rightarrow> client_session option" where
  "subscribe e s msg =
     (if HasPrefix (msg_Original msg) ''new'' \<or> HasPrefix (msg_Original msg) ''nch''
      then map_option (\<lambda>name. join_topic e s (msg\<lparr>msg_RcptTo := name\<rparr>)) (genLocalTopicName e (msg_TenantID msg))
      else
        (case expandTopicName msg of
           Inl resp \<Rightarrow> Some (sess_queueOut e s resp)
         | Inr name \<Rightarrow> Some (join_topic e s (msg\<lparr>msg_RcptTo := name\<rparr>))))"

definition leave :: "sess_env \<Rightarrow> client_session \<Rightarrow> ClientComMessage \<Rightarrow> client_session option" where
  "leave e s msg =
     (case expandTopicName msg of
        Inl resp \<Rightarrow> Some (sess_queueOut e s resp)
      | Inr name \<Rightarrow> do {
          lv \<leftarrow> cm_Leave msg;
          (let msg = msg\<lparr>msg_RcptTo := name\<rparr>; s = inflight_Add s; ts = msg_Timestamp msg
           in Some (if sess_subscribed s name then
                 (if (msg_Original msg = ''me'' \<or> msg_Original msg = ''fnd'') \<and> leave_Unsub lv
                  then inflight_Done (sess_queueOut e s (ErrPermissionDeniedReply msg ts))
                  else emit (SubDone name msg) s)
               else
                 (let s = inflight_Done s
                  in if \<not> leave_Unsub lv then sess_queueOut e s (InfoNotJoined (msg_Id msg) (msg_Original msg) ts)
                     else sess_queueOut e s (ErrAttachFirst msg ts))))
        })"

text \<open>A message sent on behalf of another user says who sent it; a message of the user does not.\<close>

definition sender_header :: "string \<Rightarrow> string \<Rightarrow> go_map option \<Rightarrow> go_map option" where
  "sender_header asUser me head =
     (if asUser \<noteq> me then Some (mset_key (case head of None \<Rightarrow> [] | Some h \<Rightarrow> h) ''sender'' (AStr me))
      else
        (case head of
           None \<Rightarrow> None
         | Some h \<Rightarrow> let h = mdel_key h ''sender'' in if h = [] then None else Some h))"

definition publish :: "sess_env \<Rightarrow> client_session \<Rightarrow> ClientComMessage \<Rightarrow> client_session option" where
  "publish e s msg =
     (case expandTopicName msg of
        Inl resp \<Rightarrow> Some (sess_queueOut e s resp)
      | Inr name \<Rightarrow> do {
          pub \<leftarrow> cm_Pub msg;
          (let pub = pub\<lparr>pub_Head := sender_header (msg_AsUser msg) (UserId (s_uid s)) (pub_Head pub)\<rparr>;
               msg = msg\<lparr>msg_RcptTo := name, cm_Pub := Some pub\<rparr>
           in Some (if sess_subscribed s name then offer e (se_broadcastRoom e name) (SubBroadcast name msg) msg s
               else if name = ''sys'' then offer e (se_routeRoom e) (HubRouteCli msg) msg s
               else sess_queueOut e s (ErrAttachFirst msg (msg_Timestamp msg))))
        })"

subsection \<open>The greeting\<close>

definition currentVersion :: string where "currentVersion = ''0.25''"
definition minSupportedVersion :: string where "minSupportedVersion = ''0.20''"

text \<open>What the server tells a new client about itself.\<close>

definition hello_params :: "sess_env \<Rightarrow> session_proto \<Rightarrow> tenant \<Rightarrow> go_map" where
  "hello_params e proto tn =
     (let c = se_config e
      in [(''ver'', AStr currentVersion), (''build'', AStr (gc_build c)), (''maxMessageSize'', AInt (gc_maxMessageSize c)),
          (''maxSubscriberCount'', AInt (gc_maxSubscriberCount c)), (''minTagLength'', AInt (int minTagLength)),
          (''maxTagLength'', AInt (int maxTagLength)), (''maxTagCount'', AInt (int (gc_maxTagCount c))),
          (''maxFileUploadSize'', AInt (gc_maxFileUploadSize c)), (''reqCred'', gc_validatorClientConfig c),
          (''msgDelAge'', AFloat (of_int (gc_msgDeleteAge c) / 10 ^ 9)),
          (''tenant'', AMap [(''code'', AStr (tn_Code tn)), (''name'', AStr (tn_Name tn))])] @
         (if gc_iceServers c \<noteq> [] then [(''iceServers'', AArr (gc_iceServers c))] else []) @
         (if gc_callTimeout c > 0 then [(''callTimeout'', AInt (gc_callTimeout c))] else []) @
         (if proto = GRPC
          then [(''servingAt'', AStr (gc_servingAt c)),
                (''clusterSize'', AInt (case se_cluster e of None \<Rightarrow> 1 | Some cl \<Rightarrow> int (length (cl_nodes cl)) + 1))]
          else []))"

text \<open>The first greeting: the version and the tenant of the session, or the reply that refuses it.\<close>

definition hello_tenant :: "sess_env \<Rightarrow> ClientComMessage \<Rightarrow> MsgClientHi \<Rightarrow> (ServerComMessage + tenant) option" where
  "hello_tenant e msg hi =
     (let i = msg_Id msg; ts = msg_Timestamp msg; v = parseVersion (se_un e) (hi_Version hi);
          code = TrimSpace (se_un e) (hi_Tenant hi)
      in if v = 0 then Some (Inl (ErrMalformed i [] ts))
         else if versionCompare v (parseVersion (se_un e) minSupportedVersion) < 0 then Some (Inl (ErrVersionNotSupported i ts))
         else if code = [] \<or> length code > 64 then Some (Inl (ErrMalformed i [] ts))
         else
           (case se_tenants e of
              None \<Rightarrow> Some (Inl (ErrUnknown i [] ts))
            | Some getByCode \<Rightarrow>
                (case getByCode code of
                   Inl err \<Rightarrow> map_option Inl (decodeStoreError err i ts None)
                 | Inr None \<Rightarrow> Some (Inl (ErrUnknown i [] ts))
                 | Inr (Some tn) \<Rightarrow>
                     if TenantID_IsZero (tn_ID tn) then Some (Inl (ErrUnknown i [] ts))
                     else if \<not> Tenant_IsActive (Some tn) then Some (Inl (ErrPermissionDenied i [] ts))
                     else Some (Inr tn))))"

definition hello_first ::
  "sess_env \<Rightarrow> client_session \<Rightarrow> ClientComMessage \<Rightarrow> MsgClientHi \<Rightarrow> (client_session \<times> go_map option) option" where
  "hello_first e s msg hi =
     do {
       r \<leftarrow> hello_tenant e msg hi;
       (case r of
          Inl resp \<Rightarrow> Some (sess_queueOut e s resp, None)
        | Inr tn \<Rightarrow>
            (let s = s\<lparr>cs_ver := parseVersion (se_un e) (hi_Version hi), s_tenantID := tn_ID tn, cs_tenantCode := tn_Code tn,
                   s_userAgent := hi_UserAgent hi,
                   cs_platf := (if hi_Platform hi = [] then platformFromUA (se_un e) (hi_UserAgent hi) else hi_Platform hi)\<rparr>
             in Some (if hi_Background hi then emit BkgTimerReset s else s, Some (hello_params e (s_proto s) tn))))
     }"

text \<open>
  A later greeting may change the device and the language only. The result is whether to go on, and
  whether the device has changed.
\<close>

definition hello_again ::
  "sess_env \<Rightarrow> client_session \<Rightarrow> ClientComMessage \<Rightarrow> MsgClientHi \<Rightarrow> (client_session \<times> bool option) option" where
  "hello_again e s msg hi =
     (let i = msg_Id msg; ts = msg_Timestamp msg; tn = s_tenantID s; u = s_uid s; code = TrimSpace (se_un e) (hi_Tenant hi)
      in if code \<noteq> [] \<and> code \<noteq> cs_tenantCode s then Some (sess_queueOut e s (ErrCommandOutOfSequence i [] ts), None)
         else if Uid_IsZero u then Some (sess_queueOut e s (ErrAuthRequiredReply msg ts), None)
         else if hi_DeviceID hi = nullValue then
           (if cs_deviceID s = [] then Some (s, Some True)
            else
              (case se_DevicesDelete e tn u (cs_deviceID s) of
                 NilErr \<Rightarrow> Some (emit (DevicesDelete tn u (cs_deviceID s)) s, Some True)
               | err \<Rightarrow> map_option (\<lambda>s. (s, None)) (reply_error e s err i ts None)))
         else if hi_DeviceID hi \<noteq> [] \<and> cs_deviceID s \<noteq> hi_DeviceID hi then
           (let dev = \<lparr>dd_TenantID = tn, dd_DeviceId = hi_DeviceID hi, dd_Platform = cs_platf s, dd_LastSeen = ts, dd_Lang = hi_Lang hi\<rparr>;
                req = DeviceChannels tn u (hi_DeviceID hi) True
            in case se_DevicesUpdate e tn u (cs_deviceID s) dev of
                 NilErr \<Rightarrow> Some (emit req (emit (DevicesUpdate tn u (cs_deviceID s) dev) s), Some True)
               | err \<Rightarrow> map_option (\<lambda>s. (s, None)) (reply_error e (emit req s) err i ts None))
         else Some (s, Some False))"

definition hello_reply ::
  "sess_env \<Rightarrow> client_session \<Rightarrow> ClientComMessage \<Rightarrow> MsgClientHi \<Rightarrow> bool \<Rightarrow> go_map \<Rightarrow> client_session" where
  "hello_reply e s msg hi deviceIDUpdate params =
     (let s = s\<lparr>cs_deviceID := (if hi_DeviceID hi = nullValue then [] else hi_DeviceID hi), s_lang := hi_Lang hi\<rparr>;
          country = (case se_region e (s_lang s) of Some c \<Rightarrow> c | None \<Rightarrow> s_countryCode s);
          s = s\<lparr>s_countryCode := (if country = [] then gc_defaultCountryCode (se_config e) else country)\<rparr>;
          (code, txt) = (if s_proto s = LPOLL \<or> deviceIDUpdate then (200, ''ok'') else (201, ''created''))
      in sess_queueOut e s (empty_ServerComMessage
           \<lparr>Ctrl := Some \<lparr>ctrl_Id = msg_Id msg, ctrl_Topic = [], ctrl_Params = (if params = [] then ANil else AMap params),
              ctrl_Code = code, ctrl_Text = txt, ctrl_Timestamp = msg_Timestamp msg\<rparr>\<rparr>))"

definition hello :: "sess_env \<Rightarrow> client_session \<Rightarrow> ClientComMessage \<Rightarrow> client_session option" where
  "hello e s msg =
     do {
       hi \<leftarrow> cm_Hi msg;
       (if cs_ver s = 0 then do {
          (s, r) \<leftarrow> hello_first e s msg hi;
          Some (case r of None \<Rightarrow> s | Some params \<Rightarrow> hello_reply e s msg hi False params)
        }
        else if hi_Version hi = [] \<or> parseVersion (se_un e) (hi_Version hi) = cs_ver s then do {
          (s, r) \<leftarrow> hello_again e s msg hi;
          Some (case r of None \<Rightarrow> s | Some upd \<Rightarrow> hello_reply e s msg hi upd [])
        }
        else Some (sess_queueOut e s (ErrCommandOutOfSequence (msg_Id msg) [] (msg_Timestamp msg))))
     }"

subsection \<open>Accounts and logins\<close>

text \<open>An unknown temporary scheme is answered with an error, and then the missing authenticator is called.\<close>

definition acc_tmp ::
  "sess_env \<Rightarrow> client_session \<Rightarrow> ClientComMessage \<Rightarrow> MsgClientAcc \<Rightarrow> (client_session + auth_rec) option" where
  "acc_tmp e s msg acc =
     (let i = acc_Id acc; ts = msg_Timestamp msg; what = Some [(''what'', AStr ''auth'')]
      in if \<not> Uid_IsZero (s_uid s) then Some (Inl (sess_queueOut e s (ErrAlreadyAuthenticated i [] ts)))
         else
           (case se_auth e (acc_TmpScheme acc) of
              None \<Rightarrow> None
            | Some h \<Rightarrow>
                (case ah_Authenticate h (auth_ctx s) (acc_TmpSecret acc) of
                   Inl err \<Rightarrow> map_option Inl (reply_error e s err i ts what)
                 | Inr (None, _) \<Rightarrow> map_option Inl (reply_error e s (StoreErr types_ErrFailed) i ts what)
                 | Inr (Some rec, _) \<Rightarrow>
                     if rec_TenantID rec \<noteq> s_tenantID s
                     then map_option Inl (reply_error e s (StoreErr types_ErrFailed) i ts what)
                     else Some (Inr rec))))"

definition acc_handler :: "sess_env \<Rightarrow> client_session \<Rightarrow> ClientComMessage \<Rightarrow> client_session option" where
  "acc_handler e s msg =
     do {
       acc \<leftarrow> cm_Acc msg;
       (if HasPrefix (acc_User acc) ''new'' then replyCreateUser e s msg acc None
        else if acc_TmpScheme acc = [] then replyUpdateUser e s msg acc None
        else do {
          r \<leftarrow> acc_tmp e s msg acc;
          (case r of Inl s \<Rightarrow> Some s | Inr rec \<Rightarrow> replyUpdateUser e s msg acc (Some rec))
        })
     }"

definition authSecretReset :: "sess_env \<Rightarrow> client_session \<Rightarrow> string \<Rightarrow> client_session \<times> store_result" where
  "authSecretReset e s params =
     (case Split params (CHR '':'') of
        authScheme # credMethod # credValue # _ \<Rightarrow>
          (case se_auth e authScheme of
             None \<Rightarrow> (s, StoreErr types_ErrUnsupported)
           | Some auther \<Rightarrow>
               if ce_validator (se_creds e) credMethod = None then (s, StoreErr types_ErrUnsupported)
               else
                 (case se_UsersGetByCred e (s_tenantID s) credMethod credValue of
                    Inl err \<Rightarrow> (s, err)
                  | Inr u \<Rightarrow>
                      if Uid_IsZero u then (s, NilErr)
                      else
                        (case ah_GetResetParams auther (s_tenantID s) u of
                           Inl err \<Rightarrow> (s, err)
                         | Inr resetParams \<Rightarrow>
                             (case se_tempAuthScheme e credMethod of
                                Inl err \<Rightarrow> (s, err)
                              | Inr tempScheme \<Rightarrow>
                                  (case se_auth e tempScheme of
                                     None \<Rightarrow> (s, StoreErr types_ErrInternal)
                                   | Some tempAuth \<Rightarrow>
                                       if \<not> ah_IsInitialized tempAuth then (s, StoreErr types_ErrInternal)
                                       else
                                         (let rec = empty_rec\<lparr>rec_TenantID := s_tenantID s, rec_Uid := u, rec_AuthLevel := LevelAuth,
                                                rec_Features := FeatureNoLogin, rec_Credential := cred_tag credMethod credValue\<rparr>
                                          in case ah_GenSecret tempAuth rec of
                                               (_, code, _, err) \<Rightarrow>
                                                 if err \<noteq> NilErr then (s, err)
                                                 else
                                                   (let s = emit (AuthGenSecret tempScheme rec) s;
                                                        err = se_resetSecret e credMethod (s_tenantID s) credValue authScheme (s_lang s) code resetParams
                                                    in (if err = NilErr then emit (ResetSecret credMethod (s_tenantID s) credValue authScheme) s else s,
                                                        err))))))))
      | _ \<Rightarrow> (s, StoreErr types_ErrMalformed))"

definition bytes_string :: "bytes \<Rightarrow> string" where
  "bytes_string bs = map (\<lambda>b. char_of (unat b)) bs"

text \<open>An authenticator that has not checked the state of the user leaves it undefined.\<close>

definition login_state :: "sess_env \<Rightarrow> client_session \<Rightarrow> auth_rec \<Rightarrow> store_result" where
  "login_state e s rec =
     (let (state, err) = (if rec_State rec = StateUndefined then userGetState e (s_tenantID s) (rec_Uid rec) else (rec_State rec, NilErr))
      in if err = NilErr \<and> state \<noteq> StateOK then StoreErr types_ErrPermissionDenied else err)"

text \<open>The credentials the user still has to validate.\<close>

definition login_missing ::
  "sess_env \<Rightarrow> client_session \<Rightarrow> auth_rec \<Rightarrow> MsgCredClient list \<Rightarrow> (store_op list \<times> (store_result + string list)) option" where
  "login_missing e s rec creds =
     (let required = ce_authValidators (se_creds e) (rec_AuthLevel rec)
      in if rec_Features rec AND FeatureValidated = 0 \<and> required \<noteq> [] then
           (case validatedCreds (se_creds e) (s_tenantID s) (rec_Uid rec) (rec_AuthLevel rec) creds False of
              None \<Rightarrow> None
            | Some (out, Inl err) \<Rightarrow> Some (out, Inl err)
            | Some (out, Inr (validated, _)) \<Rightarrow> Some (out, Inr (fst (snd (stringSliceDelta required validated)))))
         else Some ([], Inr []))"

definition login_with ::
  "sess_env \<Rightarrow> client_session \<Rightarrow> ClientComMessage \<Rightarrow> MsgClientLogin \<Rightarrow> auth_rec \<Rightarrow> bytes option \<Rightarrow> client_session option" where
  "login_with e s msg lg rec challenge =
     (let i = msg_Id msg; ts = msg_Timestamp msg
      in if rec_TenantID rec \<noteq> s_tenantID s then reply_error e s (StoreErr types_ErrFailed) i ts None
         else if login_state e s rec \<noteq> NilErr then reply_error e s (login_state e s rec) i ts None
         else
           (case challenge of
              Some c \<Rightarrow> Some (sess_queueOut e s (InfoChallenge i ts c))
            | None \<Rightarrow>
                (case login_missing e s rec (login_Cred lg) of
                   None \<Rightarrow> None
                 | Some (out, Inl err) \<Rightarrow> reply_error e (fold (\<lambda>x. emit (SessStore x)) out s) err i ts None
                 | Some (out, Inr missing) \<Rightarrow>
                     map_option (\<lambda>(s, r, _). sess_queueOut e s r)
                       (onLogin e (fold (\<lambda>x. emit (SessStore x)) out s) i ts rec missing))))"

definition login :: "sess_env \<Rightarrow> client_session \<Rightarrow> ClientComMessage \<Rightarrow> client_session option" where
  "login e s msg =
     do {
       lg \<leftarrow> cm_Login msg;
       (let i = msg_Id msg; ts = msg_Timestamp msg
        in if login_Scheme lg = ''reset'' then
             (case authSecretReset e s (bytes_string (login_Secret lg)) of
                (s, NilErr) \<Rightarrow> Some (sess_queueOut e s (InfoAuthReset i ts))
              | (s, err) \<Rightarrow> reply_error e s err i ts None)
           else if \<not> Uid_IsZero (s_uid s) then Some (sess_queueOut e s (ErrAlreadyAuthenticated i [] ts))
           else
             (case se_auth e (login_Scheme lg) of
                None \<Rightarrow> Some (sess_queueOut e s (ErrAuthUnknownScheme i [] ts))
              | Some h \<Rightarrow>
                  (case ah_Authenticate h (auth_ctx s) (login_Secret lg) of
                     Inl err \<Rightarrow> reply_error e s err i ts None
                   | Inr (None, _) \<Rightarrow> reply_error e s (StoreErr types_ErrFailed) i ts None
                   | Inr (Some rec, challenge) \<Rightarrow> login_with e s msg lg rec challenge)))
     }"

subsection \<open>Metadata requests\<close>

definition get_handler :: "sess_env \<Rightarrow> client_session \<Rightarrow> ClientComMessage \<Rightarrow> client_session option" where
  "get_handler e s msg =
     (case expandTopicName msg of
        Inl resp \<Rightarrow> Some (sess_queueOut e s resp)
      | Inr name \<Rightarrow> do {
          g \<leftarrow> cm_Get msg;
          (let what = parseMsgClientMeta (gq_What (get_Query g)); msg = msg\<lparr>msg_RcptTo := name, msg_MetaWhat := what\<rparr>
           in Some (if what = 0 then sess_queueOut e s (ErrMalformedReply msg (msg_Timestamp msg))
               else if sess_subscribed s name then offer e (se_metaRoom e name) (SubMeta name msg) msg s
               else if what AND (constMsgMetaDesc OR constMsgMetaSub) \<noteq> 0 then offer e (se_hubMetaRoom e) (HubMeta msg) msg s
               else sess_queueOut e s (ErrPermissionDeniedReply msg (msg_Timestamp msg))))
        })"

text \<open>The bits of \<^verbatim>\<open>MetaWhat\<close> of a set request; the first assignment overwrites what was there.\<close>

definition set_what :: "int \<Rightarrow> MsgSetQuery \<Rightarrow> int" where
  "set_what w q =
     (let w = (if sq_Desc q \<noteq> None then constMsgMetaDesc else w);
          w = (if sq_Sub q \<noteq> None then w OR constMsgMetaSub else w);
          w = (if sq_Tags q \<noteq> None then w OR constMsgMetaTags else w);
          w = (if sq_Cred q \<noteq> None then w OR constMsgMetaCred else w)
      in if sq_Aux q \<noteq> None then w OR constMsgMetaAux else w)"

definition set_handler :: "sess_env \<Rightarrow> client_session \<Rightarrow> ClientComMessage \<Rightarrow> client_session option" where
  "set_handler e s msg =
     (case expandTopicName msg of
        Inl resp \<Rightarrow> Some (sess_queueOut e s resp)
      | Inr name \<Rightarrow> do {
          st \<leftarrow> cm_Set msg;
          (let what = set_what (msg_MetaWhat msg) (set_Query st); msg = msg\<lparr>msg_RcptTo := name, msg_MetaWhat := what\<rparr>
           in Some (if what = 0 then sess_queueOut e s (ErrMalformedReply msg (msg_Timestamp msg))
               else if sess_subscribed s name then offer e (se_metaRoom e name) (SubMeta name msg) msg s
               else if what AND (constMsgMetaTags OR constMsgMetaCred OR constMsgMetaAux) \<noteq> 0
               then sess_queueOut e s (ErrPermissionDeniedReply msg (msg_Timestamp msg))
               else offer e (se_hubMetaRoom e) (HubMeta msg) msg s))
        })"

definition del_handler :: "sess_env \<Rightarrow> client_session \<Rightarrow> ClientComMessage \<Rightarrow> client_session option" where
  "del_handler e s msg =
     do {
       d \<leftarrow> cm_Del msg;
       (let what = parseMsgClientDel (del_What d); msg = msg\<lparr>msg_MetaWhat := what\<rparr>
        in if what = constMsgDelUser then replyDelUser e s msg d
           else
             (case expandTopicName msg of
                Inl resp \<Rightarrow> Some (sess_queueOut e s resp)
              | Inr name \<Rightarrow>
                  (let msg = msg\<lparr>msg_RcptTo := name\<rparr>
                   in Some (if what = 0 then sess_queueOut e s (ErrMalformedReply msg (msg_Timestamp msg))
                       else if what = constMsgDelTopic then offer e (se_unregRoom e) (HubUnregTopic (s_tenantID s) name msg) msg s
                       else if sess_subscribed s name then offer e (se_metaRoom e name) (SubMeta name msg) msg s
                       else sess_queueOut e s (ErrAttachFirst msg (msg_Timestamp msg))))))
     }"

subsection \<open>Notes\<close>

definition note_valid :: "string \<Rightarrow> MsgClientNote \<Rightarrow> bool option" where
  "note_valid name nt =
     (let what = note_What nt
      in if what = ''data'' then Some (note_Payload nt \<noteq> [])
         else if what = ''kp'' \<or> what = ''kpa'' \<or> what = ''kpv'' then Some (note_SeqId nt = 0)
         else if what = ''call'' then map_option (\<lambda>cat. cat = TopicCatP2P \<and> note_SeqId nt > 0) (GetTopicCat name)
         else if what = ''read'' \<or> what = ''recv'' then Some (note_SeqId nt > 0)
         else Some False)"

definition note_unattached :: "MsgClientNote \<Rightarrow> bool" where
  "note_unattached nt \<longleftrightarrow>
     note_What nt = ''recv'' \<or>
     (note_What nt = ''call'' \<and> (note_Event nt = ''ringing'' \<or> note_Event nt = ''hang-up'' \<or> note_Event nt = ''accept''))"

definition note_handler :: "sess_env \<Rightarrow> client_session \<Rightarrow> ClientComMessage \<Rightarrow> client_session option" where
  "note_handler e s msg =
     (if cs_ver s = 0 \<or> msg_AsUser msg = [] then Some s
      else
        (case expandTopicName msg of
           Inl _ \<Rightarrow> Some s
         | Inr name \<Rightarrow> do {
             nt \<leftarrow> cm_Note msg;
             ok \<leftarrow> note_valid name nt;
             (let msg = msg\<lparr>msg_RcptTo := name\<rparr>
              in Some (if \<not> ok then s
                  else if sess_subscribed s name then offer e (se_broadcastRoom e name) (SubBroadcast name msg) msg s
                  else if note_unattached nt then offer e (se_routeRoom e) (HubRouteCli msg) msg s
                  else sess_queueOut e s (ErrAttachFirst msg (msg_Timestamp msg))))
           }))"

subsection \<open>The dispatcher\<close>

type_synonym sess_handler = "client_session \<Rightarrow> ClientComMessage \<Rightarrow> client_session option"

definition checkVers :: "sess_env \<Rightarrow> sess_handler \<Rightarrow> sess_handler" where
  "checkVers e h s m =
     (if cs_ver s = 0 then Some (sess_queueOut e s (ErrCommandOutOfSequence (msg_Id m) (msg_Original m) (msg_Timestamp m)))
      else h s m)"

definition checkTenant :: "sess_env \<Rightarrow> sess_handler \<Rightarrow> sess_handler" where
  "checkTenant e h s m =
     (if TenantID_IsZero (s_tenantID s)
      then Some (sess_queueOut e s (ErrCommandOutOfSequence (msg_Id m) (msg_Original m) (msg_Timestamp m)))
      else h s m)"

definition checkUser :: "sess_env \<Rightarrow> sess_handler \<Rightarrow> sess_handler" where
  "checkUser e h s m =
     (if msg_AsUser m = [] then Some (sess_queueOut e s (ErrAuthRequiredReply m (msg_Timestamp m))) else h s m)"

definition guarded :: "sess_env \<Rightarrow> sess_handler \<Rightarrow> sess_handler" where
  "guarded e h = checkVers e (checkTenant e (checkUser e h))"

text \<open>The message with its id and topic, its handler, and whether it shows that the user is active.\<close>

definition select_handler :: "sess_env \<Rightarrow> ClientComMessage \<Rightarrow> (ClientComMessage \<times> sess_handler \<times> bool) option" where
  "select_handler e msg =
     (case cm_Pub msg of Some x \<Rightarrow> Some (msg\<lparr>msg_Id := pub_Id x, msg_Original := pub_Topic x\<rparr>, guarded e (publish e), True) | None \<Rightarrow>
     (case cm_Sub msg of Some x \<Rightarrow> Some (msg\<lparr>msg_Id := sub_Id x, msg_Original := sub_Topic x\<rparr>, guarded e (subscribe e), True) | None \<Rightarrow>
     (case cm_Leave msg of Some x \<Rightarrow> Some (msg\<lparr>msg_Id := leave_Id x, msg_Original := leave_Topic x\<rparr>, guarded e (leave e), False) | None \<Rightarrow>
     (case cm_Hi msg of Some x \<Rightarrow> Some (msg\<lparr>msg_Id := hi_Id x\<rparr>, hello e, False) | None \<Rightarrow>
     (case cm_Login msg of Some x \<Rightarrow> Some (msg\<lparr>msg_Id := login_Id x\<rparr>, checkVers e (checkTenant e (login e)), False) | None \<Rightarrow>
     (case cm_Get msg of Some x \<Rightarrow> Some (msg\<lparr>msg_Id := get_Id x, msg_Original := get_Topic x\<rparr>, guarded e (get_handler e), True) | None \<Rightarrow>
     (case cm_Set msg of Some x \<Rightarrow> Some (msg\<lparr>msg_Id := set_Id x, msg_Original := set_Topic x\<rparr>, guarded e (set_handler e), True) | None \<Rightarrow>
     (case cm_Del msg of Some x \<Rightarrow> Some (msg\<lparr>msg_Id := del_Id x, msg_Original := del_Topic x\<rparr>, guarded e (del_handler e), False) | None \<Rightarrow>
     (case cm_Acc msg of Some x \<Rightarrow> Some (msg\<lparr>msg_Id := acc_Id x\<rparr>, checkVers e (checkTenant e (acc_handler e)), False) | None \<Rightarrow>
     (case cm_Note msg of Some x \<Rightarrow> Some (msg\<lparr>msg_Original := note_Topic x\<rparr>, note_handler e, True) | None \<Rightarrow> None))))))))))"

text \<open>On whose behalf the request is made, or the reply that refuses it.\<close>

definition request_author :: "sess_env \<Rightarrow> client_session \<Rightarrow> ClientComMessage \<Rightarrow> ServerComMessage + (string \<times> level)" where
  "request_author e s msg =
     (let now = se_now e; (asUser, lvl) = (case cm_Extra msg of None \<Rightarrow> ([], LevelNone) | Some x \<Rightarrow> (extra_AsUser x, ParseAuthLevel (extra_AuthLevel x)))
      in if asUser = [] \<and> lvl = LevelNone then Inr (UserId (s_uid s), s_authLvl s)
         else if s_authLvl s \<noteq> LevelRoot then Inl (ErrPermissionDenied [] [] now)
         else if Uid_IsZero (ParseUserId asUser) then Inl (ErrMalformed [] [] now)
         else
           (case userGetState e (s_tenantID s) (ParseUserId asUser) of
              (state, err) \<Rightarrow>
                if err \<noteq> NilErr \<or> state \<noteq> StateOK then Inl (ErrPermissionDenied [] [] now)
                else Inr (asUser, if lvl = LevelNone then LevelAuth else lvl)))"

definition refresh_agent :: "bool \<Rightarrow> string \<Rightarrow> client_session \<Rightarrow> client_session" where
  "refresh_agent uaRefresh asUser s =
     (if uaRefresh \<and> asUser \<noteq> [] \<and> s_userAgent s \<noteq> [] \<and> sess_subscribed s asUser
      then emit (SubAgent asUser (s_userAgent s)) s else s)"

definition dispatch_authored :: "sess_env \<Rightarrow> client_session \<Rightarrow> ClientComMessage \<Rightarrow> client_session option" where
  "dispatch_authored e s msg =
     (case select_handler e msg of
        None \<Rightarrow> Some (sess_queueOut e s (ErrMalformed [] [] (msg_Timestamp msg)))
      | Some (msg, handler, uaRefresh) \<Rightarrow>
          if isPartitioned (se_cluster e) then Some (sess_queueOut e s (ErrClusterUnreachableReply msg (msg_Timestamp msg)))
          else
            (let msg = msg\<lparr>msg_sess := Some (cs_sid s), msg_init := True, msg_TenantID := s_tenantID s\<rparr>
             in map_option (refresh_agent uaRefresh (msg_AsUser msg)) (handler s msg)))"

definition dispatch :: "sess_env \<Rightarrow> client_session \<Rightarrow> ClientComMessage \<Rightarrow> client_session option" where
  "dispatch e s msg =
     (let s = s\<lparr>s_lastAction := se_now e\<rparr>
      in case se_fireHose e msg of
           (_, Some resp) \<Rightarrow> Some (sess_queueOut e s resp)
         | (None, None) \<Rightarrow> Some s
         | (Some msg, None) \<Rightarrow>
             (case request_author e s msg of
                Inl resp \<Rightarrow> Some (sess_queueOut e s resp)
              | Inr (asUser, lvl) \<Rightarrow>
                  dispatch_authored e s (msg\<lparr>msg_AsUser := asUser, msg_AuthLvl := lvl, msg_Timestamp := se_now e\<rparr>)))"

text \<open>The single byte \<^verbatim>\<open>1\<close> is a probe of the network and is answered with \<^verbatim>\<open>0\<close>.\<close>

definition dispatchRaw ::
  "sess_env \<Rightarrow> (bytes \<Rightarrow> ClientComMessage option) \<Rightarrow> client_session \<Rightarrow> bytes \<Rightarrow> client_session option" where
  "dispatchRaw e unmarshal s raw =
     (if s_terminating s then Some (sess_queueOut e s (ErrLocked [] [] (se_now e)))
      else if raw = [0x31] then Some (sess_queueOutBytes e s [0x30])
      else
        (case unmarshal raw of
           None \<Rightarrow> Some (sess_queueOut e s (ErrMalformed [] [] (se_now e)))
         | Some msg \<Rightarrow> dispatch e s msg))"

subsection \<open>The end of a session\<close>

definition unsubAll :: "client_session \<Rightarrow> client_session" where
  "unsubAll s = fold (\<lambda>topic. emit (SubDone topic (empty_ClientComMessage\<lparr>msg_sess := Some (cs_sid s)\<rparr>))) (s_subs s) s"

text \<open>The request in flight is done when \<^verbatim>\<open>Wait\<close> returns.\<close>

definition cleanUp :: "bool \<Rightarrow> client_session \<Rightarrow> client_session" where
  "cleanUp expired s =
     (let s = emit PurgeChannels (s\<lparr>s_terminating := True\<rparr>);
          s = inflight_Done s;
          s = (if expired then s else emit (StoreDelete (cs_sid s)) s);
          s = emit BkgTimerStop (s\<lparr>s_background := False\<rparr>)
      in stopSession None (unsubAll s))"

definition onBackgroundTimer :: "client_session \<Rightarrow> client_session" where
  "onBackgroundTimer s = fold (\<lambda>topic. emit (SubForeground topic)) (s_subs s) s"

end
