(* ===== verification/DispatchInv.thy ===== *)
theory DispatchInv
  imports Dispatch
begin

section \<open>What a request can change and reach\<close>

text \<open>
  A locale of relations between the state of a session before and after a request: reflexive, transitive,
  closed under the elementary changes of a session and under the effects it allows. Its lemmas show that
  every handler and the dispatcher stay in such a relation. The interpretations give the frames of
  dispatching: what it never changes, what is set once, and which requests reach a topic.
\<close>

subsection \<open>Fields\<close>

lemma emit_fields [simp]:
  "s_proto (emit x s) = s_proto s" "s_multi (emit x s) = s_multi s" "s_userAgent (emit x s) = s_userAgent s"
  "s_uid (emit x s) = s_uid s" "s_authLvl (emit x s) = s_authLvl s" "s_lang (emit x s) = s_lang s"
  "s_tenantID (emit x s) = s_tenantID s" "s_terminating (emit x s) = s_terminating s" "s_subs (emit x s) = s_subs s"
  "s_countryCode (emit x s) = s_countryCode s"
  "cs_sid (emit x s) = cs_sid s" "cs_ver (emit x s) = cs_ver s" "cs_deviceID (emit x s) = cs_deviceID s"
  "cs_platf (emit x s) = cs_platf s" "cs_tenantCode (emit x s) = cs_tenantCode s" "cs_remoteAddr (emit x s) = cs_remoteAddr s"
  "cs_inflight (emit x s) = cs_inflight s" "cs_out (emit x s) = cs_out s @ [x]" "cs_tries (emit x s) = cs_tries s"
  by (simp_all add: emit_def)

lemma queueOut_split:
  "sess_queueOut e s m = s \<or> sess_queueOut e s m = s\<lparr>cs_tries := cs_tries s + 1\<rparr> \<or>
   (\<exists>m'. sess_queueOut e s m = emit (Queue m') (s\<lparr>cs_tries := cs_tries s + 1\<rparr>))"
  by (cases "s_terminating s"; cases "stamp_tenant (session.truncate s) m"; cases "se_room e (cs_tries s)")
    (auto simp: sess_queueOut_def)

lemma queueOut_cases:
  obtains (unsent) "sess_queueOut e s m = s"
  | (tried) "sess_queueOut e s m = s\<lparr>cs_tries := cs_tries s + 1\<rparr>"
  | (sent) m' where "sess_queueOut e s m = emit (Queue m') (s\<lparr>cs_tries := cs_tries s + 1\<rparr>)"
  using queueOut_split [of e s m] by blast

lemma queueOut_fields [simp]:
  "s_proto (sess_queueOut e s m) = s_proto s" "s_multi (sess_queueOut e s m) = s_multi s"
  "s_userAgent (sess_queueOut e s m) = s_userAgent s" "s_uid (sess_queueOut e s m) = s_uid s"
  "s_authLvl (sess_queueOut e s m) = s_authLvl s" "s_lang (sess_queueOut e s m) = s_lang s"
  "s_tenantID (sess_queueOut e s m) = s_tenantID s" "s_terminating (sess_queueOut e s m) = s_terminating s"
  "s_subs (sess_queueOut e s m) = s_subs s" "cs_sid (sess_queueOut e s m) = cs_sid s" "cs_ver (sess_queueOut e s m) = cs_ver s"
  "cs_tenantCode (sess_queueOut e s m) = cs_tenantCode s" "cs_inflight (sess_queueOut e s m) = cs_inflight s"
  by (cases rule: queueOut_cases [of e s m]; simp)+

lemma inflight_fields [simp]:
  "s_uid (inflight_Add s) = s_uid s" "s_tenantID (inflight_Add s) = s_tenantID s" "s_subs (inflight_Add s) = s_subs s"
  "s_uid (inflight_Done s) = s_uid s" "s_tenantID (inflight_Done s) = s_tenantID s" "s_subs (inflight_Done s) = s_subs s"
  "cs_out (inflight_Add s) = cs_out s" "cs_out (inflight_Done s) = cs_out s" "cs_inflight (inflight_Add s)"
  "\<not> cs_inflight (inflight_Done s)" "s_terminating (inflight_Add s) = s_terminating s" "s_terminating (inflight_Done s) = s_terminating s"
  by (simp_all add: inflight_Add_def inflight_Done_def)

lemma added_done: "inflight_Done (inflight_Add s) = inflight_Done s"
  by (simp add: inflight_Add_def inflight_Done_def)

lemma answered_done: "inflight_Done (sess_queueOut e (inflight_Add s) m) = sess_queueOut e (inflight_Done s) m"
  by (simp add: sess_queueOut_def inflight_Add_def inflight_Done_def emit_def session.defs Let_def split: option.splits)

lemma fold_emit_fields [simp]:
  "s_uid (fold (\<lambda>x. emit (f x)) xs s) = s_uid s" "s_authLvl (fold (\<lambda>x. emit (f x)) xs s) = s_authLvl s"
  "s_tenantID (fold (\<lambda>x. emit (f x)) xs s) = s_tenantID s" "cs_ver (fold (\<lambda>x. emit (f x)) xs s) = cs_ver s"
  by (induction xs arbitrary: s) simp_all

subsection \<open>Requests that reach a topic\<close>

fun topic_effect :: "sess_effect \<Rightarrow> bool" where
  "topic_effect (HubJoin _) = True"
| "topic_effect (HubRouteCli _) = True"
| "topic_effect (HubMeta _) = True"
| "topic_effect (HubUnregTopic _ _ _) = True"
| "topic_effect (SubBroadcast _ _) = True"
| "topic_effect (SubDone _ _) = True"
| "topic_effect (SubMeta _ _) = True"
| "topic_effect (SubAgent _ _) = True"
| "topic_effect (SubForeground _) = True"
| "topic_effect _ = False"

text \<open>The topic that receives one of these ends the request in flight.\<close>

fun awaited :: "sess_effect \<Rightarrow> bool" where
  "awaited (HubJoin _) = True"
| "awaited (SubDone _ _) = True"
| "awaited _ = False"

text \<open>A message derived from a request: it may have a route, query bits and the header of the sender.\<close>

definition derived :: "client_session \<Rightarrow> ClientComMessage \<Rightarrow> ClientComMessage \<Rightarrow> bool" where
  "derived s r m \<longleftrightarrow>
     (\<exists>name what. m = r\<lparr>msg_RcptTo := name, msg_MetaWhat := what,
        cm_Pub := map_option (\<lambda>p. p\<lparr>pub_Head := sender_header (msg_AsUser r) (UserId (s_uid s)) (pub_Head p)\<rparr>) (cm_Pub r)\<rparr>)"

fun forwarded :: "client_session \<Rightarrow> ClientComMessage \<Rightarrow> sess_effect \<Rightarrow> bool" where
  "forwarded s r (HubJoin m) \<longleftrightarrow> derived s r m"
| "forwarded s r (HubRouteCli m) \<longleftrightarrow> derived s r m"
| "forwarded s r (HubMeta m) \<longleftrightarrow> derived s r m"
| "forwarded s r (HubUnregTopic tn name m) \<longleftrightarrow> derived s r m \<and> tn = s_tenantID s \<and> name = msg_RcptTo m"
| "forwarded s r (SubBroadcast name m) \<longleftrightarrow> derived s r m \<and> name = msg_RcptTo m \<and> name \<in> set (s_subs s)"
| "forwarded s r (SubDone name m) \<longleftrightarrow> derived s r m \<and> name = msg_RcptTo m \<and> name \<in> set (s_subs s)"
| "forwarded s r (SubMeta name m) \<longleftrightarrow> derived s r m \<and> name = msg_RcptTo m \<and> name \<in> set (s_subs s)"
| "forwarded s r (SubAgent name agent) \<longleftrightarrow> name = msg_AsUser r \<and> name \<in> set (s_subs s) \<and> agent = s_userAgent s"
| "forwarded s r _ \<longleftrightarrow> False"

lemma derived_route: "cm_Pub r = None \<Longrightarrow> derived s r (r\<lparr>msg_RcptTo := name\<rparr>)"
  unfolding derived_def by (intro exI [of _ name] exI [of _ "msg_MetaWhat r"]) simp

lemma derived_meta: "cm_Pub r = None \<Longrightarrow> derived s r (r\<lparr>msg_RcptTo := name, msg_MetaWhat := w\<rparr>)"
  unfolding derived_def by (intro exI [of _ name] exI [of _ w]) simp

lemma derived_pub:
  "cm_Pub r = Some p \<Longrightarrow>
     derived s r (r\<lparr>msg_RcptTo := name, cm_Pub := Some (p\<lparr>pub_Head := sender_header (msg_AsUser r) (UserId (s_uid s)) (pub_Head p)\<rparr>)\<rparr>)"
  unfolding derived_def by (intro exI [of _ name] exI [of _ "msg_MetaWhat r"]) simp

subsection \<open>Relations that dispatching respects\<close>

definition leads :: "(client_session \<Rightarrow> client_session \<Rightarrow> bool) \<Rightarrow> client_session \<Rightarrow> client_session option \<Rightarrow> bool" where
  "leads R s r \<longleftrightarrow> (\<forall>s'. r = Some s' \<longrightarrow> R s s')"

lemma leads_None [simp]: "leads R s None"
  by (simp add: leads_def)

lemma leads_Some [simp]: "leads R s (Some s') \<longleftrightarrow> R s s'"
  by (simp add: leads_def)

locale session_steps =
  fixes R :: "client_session \<Rightarrow> client_session \<Rightarrow> bool" and fx :: "sess_effect \<Rightarrow> bool"
  assumes step_refl [simp]: "R s s"
    and step_trans: "R s t \<Longrightarrow> R t u \<Longrightarrow> R s u"
    and step_emit: "fx x \<Longrightarrow> R s (emit x s)"
    and other_fx [simp]: "\<not> topic_effect x \<Longrightarrow> fx x"
    and step_tries: "R s (s\<lparr>cs_tries := n\<rparr>)"
    and step_action: "R s (s\<lparr>s_lastAction := a\<rparr>)"
    and step_done: "R s (inflight_Done s)"
    and step_wait: "fx x \<Longrightarrow> awaited x \<Longrightarrow> R s (emit x (inflight_Add s))"
    and step_device: "R s (s\<lparr>cs_deviceID := d, s_lang := l, s_countryCode := c\<rparr>)"
    and step_greet: "cs_ver s = 0 \<Longrightarrow> v \<noteq> 0 \<Longrightarrow> \<not> TenantID_IsZero tn \<Longrightarrow>
      R s (s\<lparr>cs_ver := v, s_tenantID := tn, cs_tenantCode := code, s_userAgent := agent, cs_platf := p\<rparr>)"
    and step_login: "cs_ver s \<noteq> 0 \<Longrightarrow> Uid_IsZero (s_uid s) \<Longrightarrow> R s (s\<lparr>s_uid := v1, s_authLvl := lvl\<rparr>)"
begin

lemma after_emit: "R s t \<Longrightarrow> fx x \<Longrightarrow> R s (emit x t)"
  by (rule step_trans [OF _ step_emit])

lemma after_queue: "R s t \<Longrightarrow> R s (sess_queueOut e t m)"
proof (cases rule: queueOut_cases [of e t m])
  case (tried)
  assume "R s t" then show ?thesis unfolding tried by (rule step_trans [OF _ step_tries])
next
  case (sent m')
  assume "R s t" then show ?thesis unfolding sent by (intro after_emit step_trans [OF _ step_tries]) simp_all
qed simp

lemma after_fold: "R s t \<Longrightarrow> (\<And>x. x \<in> set xs \<Longrightarrow> fx (f x)) \<Longrightarrow> R s (fold (\<lambda>x. emit (f x)) xs t)"
  by (induction xs arbitrary: t) (simp_all add: after_emit)

lemma after_error: "R s t \<Longrightarrow> leads R s (reply_error e t err i ts p)"
  by (auto simp: leads_def reply_error_def intro: after_queue)

lemma leads_map:
  assumes "leads R s r" "\<And>t. R s t \<Longrightarrow> R s (f t)"
  shows "leads R s (map_option f r)"
  using assms by (auto simp: leads_def)

lemma leads_bind:
  assumes "leads R s r" "\<And>t. R s t \<Longrightarrow> leads R s (f t)"
  shows "leads R s (Option.bind r f)"
  using assms by (cases r) (auto simp: leads_def)

lemma after_undo: "R s t \<Longrightarrow> R s (undo_account e u t)"
  by (simp add: undo_account_def after_emit)

lemma after_login_reply:
  "R s t \<Longrightarrow> login_reply e t m params rec = Some (t', x) \<Longrightarrow> R s t'"
  by (auto simp: login_reply_def Let_def split: option.splits prod.splits intro!: after_emit)

lemma after_onLogin:
  assumes "R s t" "cs_ver t \<noteq> 0" "Uid_IsZero (s_uid t)" "onLogin e t i ts rec missing = Some (t', x)"
  shows "R s t'"
proof -
  have 1: "R s (t\<lparr>s_uid := rec_Uid rec, s_authLvl := rec_AuthLevel rec\<rparr>)"
    by (rule step_trans [OF assms(1) step_login [OF assms(2,3)]])
  show ?thesis
    using assms(4) unfolding onLogin_def Let_def
    by (auto split: if_splits elim!: after_login_reply [rotated] intro!: after_emit intro: 1 assms(1))
qed

lemma leads_if: "(b \<Longrightarrow> leads R s x) \<Longrightarrow> (\<not> b \<Longrightarrow> leads R s y) \<Longrightarrow> leads R s (if b then x else y)"
  by simp

lemma step_if: "(b \<Longrightarrow> R s x) \<Longrightarrow> (\<not> b \<Longrightarrow> R s y) \<Longrightarrow> R s (if b then x else y)"
  by simp

lemma leads_option:
  "(r = None \<Longrightarrow> leads R s x) \<Longrightarrow> (\<And>y. r = Some y \<Longrightarrow> leads R s (f y)) \<Longrightarrow> leads R s (case r of None \<Rightarrow> x | Some y \<Rightarrow> f y)"
  by (cases r) simp_all

lemma leads_sum:
  "(\<And>x. r = Inl x \<Longrightarrow> leads R s (f x)) \<Longrightarrow> (\<And>y. r = Inr y \<Longrightarrow> leads R s (g y)) \<Longrightarrow>
     leads R s (case r of Inl x \<Rightarrow> f x | Inr y \<Rightarrow> g y)"
  by (cases r) simp_all

lemma leads_prod: "(\<And>x y. r = (x, y) \<Longrightarrow> leads R s (f x y)) \<Longrightarrow> leads R s (case r of (x, y) \<Rightarrow> f x y)"
  by (cases r) simp

lemma leads_result:
  "(r = NilErr \<Longrightarrow> leads R s x) \<Longrightarrow> (\<And>y. r = StoreErr y \<Longrightarrow> leads R s (f y)) \<Longrightarrow> (\<And>y. r = OtherErr y \<Longrightarrow> leads R s (g y)) \<Longrightarrow>
     leads R s (case r of NilErr \<Rightarrow> x | StoreErr y \<Rightarrow> f y | OtherErr y \<Rightarrow> g y)"
  by (cases r) simp_all

lemma leads_any: "(\<And>x. r = Some x \<Longrightarrow> leads R s (f x)) \<Longrightarrow> leads R s (Option.bind r f)"
  by (cases r) simp_all

lemma leads_bool: "(b \<Longrightarrow> leads R s x) \<Longrightarrow> (\<not> b \<Longrightarrow> leads R s y) \<Longrightarrow> leads R s (case b of True \<Rightarrow> x | False \<Rightarrow> y)"
  by (cases b) simp_all

lemma leads_step: "R s t \<Longrightarrow> leads R s (Some t)"
  by simp

lemmas leads_rules = leads_if leads_option leads_sum leads_prod leads_result leads_bool leads_step step_if
  after_error after_queue after_emit after_fold after_undo

lemma step_addCreds: "R s t \<Longrightarrow> R s (fold (\<lambda>x. emit (SessStore x)) xs t)"
  by (rule after_fold) simp_all

lemma leads_onLogin:
  assumes "R s t" "cs_ver t \<noteq> 0" "Uid_IsZero (s_uid t)" "\<And>t' r p. R s t' \<Longrightarrow> leads R s (f t' r p)"
  shows "leads R s (Option.bind (onLogin e t i ts rec missing) (\<lambda>(t', r, p). f t' r p))"
  using after_onLogin [OF assms(1-3)] assms(4) by (cases "onLogin e t i ts rec missing") auto

subsection \<open>Accounts\<close>

lemma finish_account_leads:
  assumes "R s t" "cs_ver t \<noteq> 0" "acc_Login acc \<Longrightarrow> Uid_IsZero (s_uid t)"
  shows "leads R s (finish_account e t msg acc h creds usr private)"
proof -
  have *: "leads R s (Option.bind (if acc_Login acc then onLogin e t1 i ts rec missing else Some (t1, r, p)) (\<lambda>(t', r, p). f t' r p))"
    if "R s t1" "s_uid t1 = s_uid t" "cs_ver t1 = cs_ver t" "\<And>t' r p. R s t' \<Longrightarrow> leads R s (f t' r p)" for t1 i ts rec missing r p f
    using that assms(2,3) by (simp add: leads_onLogin)
  show ?thesis
    unfolding finish_account_def Let_def
    by (intro leads_sum leads_map after_undo after_error leads_if leads_option leads_prod * step_if step_addCreds after_emit after_queue
        leads_step assms(1)) simp_all
qed

lemma replyCreateUser_leads: "cs_ver s \<noteq> 0 \<Longrightarrow> leads R s (replyCreateUser e s msg acc rec)"
  unfolding replyCreateUser_def Let_def
  by (intro leads_rules leads_any finish_account_leads) (simp_all add: after_emit)

lemma updateUserAuth_step: "updateUserAuth e s acc usr = (t, r) \<Longrightarrow> R s t"
  unfolding updateUserAuth_def Let_def
  by (auto split: option.splits sum.splits if_splits intro!: after_emit)

lemma changeUserState_step: "changeUserState e s u usr acc = (t, r) \<Longrightarrow> R s t"
  unfolding changeUserState_def Let_def
  by (auto split: prod.splits if_splits intro!: after_emit)

lemma update_creds_step: "update_creds e s u lvl acc = Some (t, p) \<Longrightarrow> R s t"
  unfolding update_creds_def Let_def
  by (auto split: option.splits prod.splits sum.splits if_splits intro!: step_addCreds)

lemma update_reply_leads: "R s t \<Longrightarrow> leads R s (update_reply e t msg usr err p)"
  unfolding update_reply_def by (intro leads_rules) simp_all

lemma replyUpdateUser_leads: "leads R s (replyUpdateUser e s msg acc rec)"
  unfolding replyUpdateUser_def Let_def
  by (intro leads_rules leads_any update_reply_leads)
    (auto dest: updateUserAuth_step changeUserState_step update_creds_step intro!: update_reply_leads leads_rules)

lemma disable_auth_step: "disable_auth e u names t = Some (t', b) \<Longrightarrow> R s t \<Longrightarrow> R s t'"
proof (induction names arbitrary: t)
  case (Cons n names)
  have "R s (emit (AuthDelRecords n (s_tenantID t) u) t)"
    using Cons.prems(2) by (rule after_emit) simp
  with Cons show ?case by (auto split: option.splits store_result.splits if_splits)
qed simp

lemma leads_disable:
  assumes "R s t" "\<And>t' b. R s t' \<Longrightarrow> leads R s (f t' b)"
  shows "leads R s (Option.bind (disable_auth e u names t) (\<lambda>(t', b). f t' b))"
  using disable_auth_step [OF _ assms(1)] assms(2) by (cases "disable_auth e u names t") auto

lemma step_routes: "R s t \<Longrightarrow> R s (fold (\<lambda>m. emit (RoutePres m)) ms t)"
  by (rule after_fold) simp_all

lemma topics_gone_leads: "R s t \<Longrightarrow> leads R s (topics_gone e topics t)"
proof (induction topics arbitrary: t)
  case (Cons topic topics)
  show ?case unfolding topics_gone.simps by (intro leads_sum leads_any Cons.IH step_routes Cons.prems)
qed simp

lemma announce_gone_leads: "R s t \<Longrightarrow> leads R s (announce_gone e u t)"
  unfolding announce_gone_def
  by (intro leads_bind leads_sum leads_any leads_step after_fold topics_gone_leads) simp_all

lemma replyDelUser_leads: "leads R s (replyDelUser e s msg del)"
  unfolding replyDelUser_def Let_def stopSession_def
  by (intro leads_sum leads_disable leads_if leads_bind announce_gone_leads leads_result leads_step step_if after_error after_queue
      after_emit step_refl; simp)

subsection \<open>Handlers\<close>

lemma after_done: "R s t \<Longrightarrow> R s (inflight_Done t)"
  by (rule step_trans [OF _ step_done])

lemma after_wait: "R s t \<Longrightarrow> fx x \<Longrightarrow> awaited x \<Longrightarrow> R s (emit x (inflight_Add t))"
  by (rule step_trans [OF _ step_wait])

lemma after_offer: "R s t \<Longrightarrow> fx x \<Longrightarrow> R s (offer e room x msg t)"
  by (simp add: offer_def after_emit after_queue)

lemma join_topic_step: "R s t \<Longrightarrow> fx (HubJoin msg) \<Longrightarrow> R s (join_topic e t msg)"
  unfolding join_topic_def Let_def answered_done by (intro step_if after_done after_queue after_wait) simp_all

lemma subscribe_leads:
  assumes "\<And>x. forwarded s msg x \<Longrightarrow> fx x" "cm_Pub msg = None"
  shows "leads R s (subscribe e s msg)"
proof -
  have "fx (HubJoin (msg\<lparr>msg_RcptTo := name\<rparr>))" for name
    using assms by (simp add: derived_route)
  then have join: "R s (join_topic e s (msg\<lparr>msg_RcptTo := name\<rparr>))" for name
    by (intro join_topic_step step_refl)
  show ?thesis
    unfolding subscribe_def
    by (intro leads_if leads_sum leads_step after_queue step_refl join) (auto simp: leads_def intro: join)
qed

lemma leave_leads:
  assumes "\<And>x. forwarded s msg x \<Longrightarrow> fx x" "cm_Pub msg = None"
  shows "leads R s (leave e s msg)"
  unfolding leave_def Let_def sess_subscribed_def answered_done added_done
  by (intro leads_sum leads_any leads_step step_if after_done after_queue after_wait step_refl assms(1))
    (simp_all add: derived_route assms(2))

lemma publish_leads:
  assumes "\<And>x. forwarded s msg x \<Longrightarrow> fx x"
  shows "leads R s (publish e s msg)"
  unfolding publish_def Let_def sess_subscribed_def
  by (intro leads_sum leads_any leads_step step_if after_queue after_offer step_refl assms(1))
    (simp_all add: derived_pub)

lemma hello_reply_step: "R s t \<Longrightarrow> R s (hello_reply e t msg hi b params)"
  unfolding hello_reply_def Let_def
  by (auto split: prod.splits intro!: after_queue elim: step_trans [OF _ step_device])

lemma hello_first_step:
  assumes "cs_ver s = 0" "hello_first e s msg hi = Some (t, p)"
  shows "R s t"
proof -
  consider r where "hello_tenant e msg hi = Some (Inl r)" | tn where "hello_tenant e msg hi = Some (Inr tn)"
    using assms(2) by (auto simp: hello_first_def split: bind_splits sum.splits)
  then show ?thesis
  proof cases
    case 1
    with assms show ?thesis by (auto simp: hello_first_def intro: after_queue)
  next
    case 2
    then have "parseVersion (se_un e) (hi_Version hi) \<noteq> 0" "\<not> TenantID_IsZero (tn_ID tn)"
      by (auto simp: hello_tenant_def Let_def split: if_splits option.splits sum.splits)
    note greet = step_greet [OF assms(1) this]
    from 2 assms(2) show ?thesis
      by (auto simp: hello_first_def Let_def intro!: greet after_emit)
  qed
qed

lemma hello_again_step: "hello_again e s msg hi = Some (t, p) \<Longrightarrow> R s t"
proof -
  have *: "reply_error e t' err i ts None = Some t \<Longrightarrow> R s t' \<Longrightarrow> R s t" for t' err i ts t
    using after_error [of s t' e err i ts None] by (simp add: leads_def)
  show "hello_again e s msg hi = Some (t, p) \<Longrightarrow> R s t"
    unfolding hello_again_def Let_def
    by (auto split: if_splits store_result.splits elim!: * intro!: after_queue after_emit)
qed

lemma hello_leads: "leads R s (hello e s msg)"
proof -
  have 1: "leads R s (Option.bind (hello_first e s msg hi) (\<lambda>(t, r). f t r))"
    if "cs_ver s = 0" "\<And>t r. R s t \<Longrightarrow> leads R s (f t r)" for hi f
    using hello_first_step [OF that(1), of e msg hi] that(2) by (cases "hello_first e s msg hi") auto
  have 2: "leads R s (Option.bind (hello_again e s msg hi) (\<lambda>(t, r). f t r))"
    if "\<And>t r. R s t \<Longrightarrow> leads R s (f t r)" for hi f
    using hello_again_step [of e s msg hi] that by (cases "hello_again e s msg hi") auto
  show ?thesis
    unfolding hello_def
    by (rule leads_any; rule leads_if)
      (auto intro!: 1 2 leads_if leads_step after_queue hello_reply_step split: option.splits)
qed

lemma acc_tmp_step: "acc_tmp e s msg acc = Some (Inl t) \<Longrightarrow> R s t"
proof -
  have *: "reply_error e s err i ts p = Some t \<Longrightarrow> R s t" for err i ts p
    using after_error [OF step_refl, of s e err i ts p] by (simp add: leads_def)
  show "acc_tmp e s msg acc = Some (Inl t) \<Longrightarrow> R s t"
    unfolding acc_tmp_def Let_def
    by (auto split: if_splits option.splits sum.splits elim: * intro!: after_queue)
qed

lemma acc_leads: "cs_ver s \<noteq> 0 \<Longrightarrow> leads R s (acc_handler e s msg)"
  unfolding acc_handler_def
  by (intro leads_any leads_if leads_sum leads_step replyCreateUser_leads replyUpdateUser_leads) (auto dest: acc_tmp_step)

lemma authSecretReset_step: "authSecretReset e s params = (t, r) \<Longrightarrow> R s t"
  unfolding authSecretReset_def Let_def
  by (auto split: list.splits option.splits sum.splits prod.splits if_splits intro!: after_emit)

lemma login_with_leads: "cs_ver s \<noteq> 0 \<Longrightarrow> Uid_IsZero (s_uid s) \<Longrightarrow> leads R s (login_with e s msg lg rec challenge)"
  unfolding login_with_def Let_def
  by (intro leads_if leads_option leads_prod leads_sum leads_step after_error after_queue step_refl step_addCreds)
    (auto simp: leads_def intro!: after_queue dest!: after_onLogin [rotated 3] intro: step_addCreds)

lemma login_leads: "cs_ver s \<noteq> 0 \<Longrightarrow> leads R s (login e s msg)"
  unfolding login_def Let_def
  by (intro leads_any leads_if leads_option leads_sum leads_prod leads_result leads_step after_queue after_error step_refl login_with_leads)
    (auto dest: authSecretReset_step)

lemma get_leads:
  assumes "\<And>x. forwarded s msg x \<Longrightarrow> fx x" "cm_Pub msg = None"
  shows "leads R s (get_handler e s msg)"
  unfolding get_handler_def Let_def sess_subscribed_def
  by (intro leads_sum leads_any leads_step step_if after_queue after_offer step_refl assms(1))
    (simp_all add: derived_meta assms(2))

lemma set_leads:
  assumes "\<And>x. forwarded s msg x \<Longrightarrow> fx x" "cm_Pub msg = None"
  shows "leads R s (set_handler e s msg)"
  unfolding set_handler_def Let_def sess_subscribed_def
  by (intro leads_sum leads_any leads_step step_if after_queue after_offer step_refl assms(1))
    (simp_all add: derived_meta assms(2))

lemma del_leads:
  assumes "\<And>x. forwarded s msg x \<Longrightarrow> fx x" "cm_Pub msg = None"
  shows "leads R s (del_handler e s msg)"
proof -
  have "derived s msg (msg\<lparr>msg_MetaWhat := w, msg_RcptTo := name\<rparr>)" for w name
    unfolding derived_def by (intro exI [of _ name] exI [of _ w] ClientComMessage.equality) (simp_all add: assms(2))
  then show ?thesis
    unfolding del_handler_def Let_def sess_subscribed_def
    by (intro leads_sum leads_any leads_step leads_if step_if after_queue after_offer step_refl assms(1) replyDelUser_leads) simp_all
qed

lemma note_leads:
  assumes "\<And>x. forwarded s msg x \<Longrightarrow> cs_ver s \<noteq> 0 \<Longrightarrow> msg_AsUser msg \<noteq> [] \<Longrightarrow> fx x" "cm_Pub msg = None"
  shows "leads R s (note_handler e s msg)"
  unfolding note_handler_def Let_def sess_subscribed_def
  by (intro leads_if leads_sum leads_any leads_step step_if after_queue after_offer step_refl assms(1))
    (simp_all add: derived_route assms(2))

lemma guarded_leads:
  assumes "cs_ver s \<noteq> 0 \<Longrightarrow> msg_AsUser msg \<noteq> [] \<Longrightarrow> leads R s (h s msg)"
  shows "leads R s (guarded e h s msg)"
  using assms by (simp add: guarded_def checkVers_def checkTenant_def checkUser_def after_queue)

lemma checked_leads: "(cs_ver s \<noteq> 0 \<Longrightarrow> leads R s (h s msg)) \<Longrightarrow> leads R s (checkVers e (checkTenant e h) s msg)"
  by (simp add: checkVers_def checkTenant_def after_queue)

end

subsection \<open>What no request changes\<close>

text \<open>The subscriptions are changed by the topics, the name and the transport by nobody.\<close>

definition same_frame :: "client_session \<Rightarrow> client_session \<Rightarrow> bool" where
  "same_frame s s' \<longleftrightarrow> s_subs s' = s_subs s \<and> cs_sid s' = cs_sid s \<and> s_proto s' = s_proto s \<and> s_multi s' = s_multi s \<and>
     s_terminating s' = s_terminating s \<and> s_background s' = s_background s \<and> cs_remoteAddr s' = cs_remoteAddr s \<and>
     (cs_ver s \<noteq> 0 \<longrightarrow> cs_ver s' = cs_ver s \<and> s_userAgent s' = s_userAgent s \<and> cs_platf s' = cs_platf s)"

text \<open>The version and the tenant are set together and once; so are the user and the level.\<close>

definition same_tenant :: "client_session \<Rightarrow> client_session \<Rightarrow> bool" where
  "same_tenant s s' \<longleftrightarrow>
     (if cs_ver s = 0 then s_tenantID s' = s_tenantID s \<and> cs_ver s' = 0 \<or> \<not> TenantID_IsZero (s_tenantID s') \<and> cs_ver s' \<noteq> 0
      else cs_ver s' = cs_ver s \<and> s_tenantID s' = s_tenantID s \<and> cs_tenantCode s' = cs_tenantCode s)"

definition same_user :: "client_session \<Rightarrow> client_session \<Rightarrow> bool" where
  "same_user s s' \<longleftrightarrow> (\<not> Uid_IsZero (s_uid s) \<longrightarrow> s_uid s' = s_uid s \<and> s_authLvl s' = s_authLvl s)"

interpretation frame: session_steps same_frame "\<lambda>_. True"
  by unfold_locales (auto simp: same_frame_def emit_def inflight_Done_def inflight_Add_def)

interpretation tenancy: session_steps same_tenant "\<lambda>_. True"
  by unfold_locales (auto simp: same_tenant_def inflight_Done_def inflight_Add_def split: if_splits)

interpretation identity: session_steps same_user "\<lambda>_. True"
  by unfold_locales (auto simp: same_user_def inflight_Done_def inflight_Add_def)

context session_steps
begin

lemma handler_leads:
  assumes sel: "select_handler e msg = Some (msg', handler, ua)"
    and fx: "\<And>m x. m = msg'\<lparr>msg_sess := a, msg_init := b, msg_TenantID := c\<rparr> \<Longrightarrow> forwarded s m x \<Longrightarrow> cs_ver s \<noteq> 0 \<Longrightarrow> msg_AsUser m \<noteq> [] \<Longrightarrow> fx x"
  shows "leads R s (handler s (msg'\<lparr>msg_sess := a, msg_init := b, msg_TenantID := c\<rparr>))"
  using sel unfolding select_handler_def
  by (auto split: option.splits intro!: guarded_leads checked_leads publish_leads subscribe_leads leave_leads hello_leads login_leads
      get_leads set_leads del_leads acc_leads note_leads fx)

lemma dispatch_authored_leads:
  assumes "cs_ver s = 0 \<Longrightarrow> s_subs s = []"
    and fx: "\<And>r x. cs_ver s \<noteq> 0 \<Longrightarrow> msg_AsUser msg \<noteq> [] \<Longrightarrow> msg_AsUser r = msg_AsUser msg \<Longrightarrow> msg_AuthLvl r = msg_AuthLvl msg \<Longrightarrow>
      msg_TenantID r = s_tenantID s \<Longrightarrow> msg_sess r = Some (cs_sid s) \<Longrightarrow> forwarded s r x \<Longrightarrow> fx x"
  shows "leads R s (dispatch_authored e s msg)"
proof (cases "select_handler e msg")
  case None
  then show ?thesis by (simp add: dispatch_authored_def after_queue)
next
  case (Some z)
  obtain msg' handler ua where z: "z = (msg', handler, ua)" by (cases z)
  let ?r = "msg'\<lparr>msg_sess := Some (cs_sid s), msg_init := True, msg_TenantID := s_tenantID s\<rparr>"
  have sel: "select_handler e msg = Some (msg', handler, ua)" using Some z by simp
  then have r: "msg_AsUser msg' = msg_AsUser msg" "msg_AuthLvl msg' = msg_AuthLvl msg"
    by (auto simp: select_handler_def split: option.splits)
  have fx': "cs_ver s \<noteq> 0 \<Longrightarrow> msg_AsUser msg \<noteq> [] \<Longrightarrow> forwarded s ?r x \<Longrightarrow> fx x" for x
    using fx [of ?r] r by simp
  have "leads R s (handler s ?r)"
    by (rule handler_leads [OF sel]) (use fx' r in simp)
  moreover have "leads same_frame s (handler s ?r)"
    by (rule frame.handler_leads [OF sel]) simp
  ultimately have step: "R s t \<and> same_frame s t" if "handler s ?r = Some t" for t
    using that by (simp add: leads_def)
  have "R s (refresh_agent ua (msg_AsUser msg) t)" if t: "handler s ?r = Some t" for t
  proof (cases "ua \<and> msg_AsUser msg \<noteq> [] \<and> s_userAgent t \<noteq> [] \<and> msg_AsUser msg \<in> set (s_subs t)")
    case True
    with step [OF t] assms(1) have "cs_ver s \<noteq> 0" and f: "forwarded s ?r (SubAgent (msg_AsUser msg) (s_userAgent t))"
      by (auto simp: same_frame_def r)
    with True have "fx (SubAgent (msg_AsUser msg) (s_userAgent t))" using fx' by blast
    with True step [OF t] show ?thesis by (simp add: refresh_agent_def sess_subscribed_def after_emit)
  next
    case False
    with step [OF t] show ?thesis by (auto simp: refresh_agent_def sess_subscribed_def)
  qed
  then show ?thesis
    using sel by (auto simp: dispatch_authored_def leads_def r intro!: after_queue)
qed

lemma dispatch_leads:
  assumes wf: "cs_ver s = 0 \<Longrightarrow> s_subs s = []"
    and fx: "\<And>m asUser lvl r x. se_fireHose e msg = (Some m, None) \<Longrightarrow> request_author e s m = Inr (asUser, lvl) \<Longrightarrow>
      cs_ver s \<noteq> 0 \<Longrightarrow> asUser \<noteq> [] \<Longrightarrow> msg_AsUser r = asUser \<Longrightarrow> msg_AuthLvl r = lvl \<Longrightarrow>
      msg_TenantID r = s_tenantID s \<Longrightarrow> msg_sess r = Some (cs_sid s) \<Longrightarrow> forwarded s r x \<Longrightarrow> fx x"
  shows "leads R s (dispatch e s msg)"
proof -
  let ?s = "s\<lparr>s_lastAction := se_now e\<rparr>"
  have author: "request_author e ?s m = request_author e s m" for m
    by (simp add: request_author_def Let_def split: prod.splits)
  have fwd: "forwarded ?s r x = forwarded s r x" for r x
    by (cases x) (simp_all add: derived_def)
  have "leads R ?s (dispatch e s msg)"
  proof (cases "se_fireHose e msg")
    case (Pair a b)
    show ?thesis
    proof (cases b)
      case None
      have "leads R ?s (dispatch_authored e ?s (m\<lparr>msg_AsUser := asUser, msg_AuthLvl := lvl, msg_Timestamp := se_now e\<rparr>))"
        if "a = Some m" "request_author e s m = Inr (asUser, lvl)" for m asUser lvl
        using wf fx [of m asUser lvl] that Pair None by (intro dispatch_authored_leads) (simp_all add: fwd)
      with Pair None show ?thesis
        by (cases a) (auto simp: dispatch_def Let_def author after_queue split: sum.splits)
    next
      case (Some resp)
      with Pair show ?thesis by (cases a) (simp_all add: dispatch_def after_queue)
    qed
  qed
  then show ?thesis using step_trans [OF step_action] by (auto simp: leads_def)
qed

end

subsection \<open>Effects\<close>

text \<open>What a step has added to the log, all of it allowed.\<close>

definition emits :: "(sess_effect \<Rightarrow> bool) \<Rightarrow> client_session \<Rightarrow> client_session \<Rightarrow> bool" where
  "emits P s s' \<longleftrightarrow> (\<exists>new. cs_out s' = cs_out s @ new \<and> list_all P new)"

locale session_effects =
  fixes P :: "sess_effect \<Rightarrow> bool"
  assumes other_effect: "\<not> topic_effect x \<Longrightarrow> P x"

sublocale session_effects \<subseteq> effects: session_steps "emits P" P
proof unfold_locales
  fix s t u assume "emits P s t" "emits P t u"
  then show "emits P s u" by (auto simp: emits_def)
qed (auto simp: emits_def other_effect)

subsection \<open>Requests in flight\<close>

definition released :: "client_session \<Rightarrow> client_session \<Rightarrow> bool" where
  "released s s' \<longleftrightarrow>
     (\<exists>new. cs_out s' = cs_out s @ new \<and> (cs_inflight s' \<longrightarrow> cs_inflight s \<or> list_ex awaited new))"

interpretation inflight: session_steps released "\<lambda>_. True"
proof unfold_locales
  fix s t u assume "released s t" "released t u"
  then show "released s u" by (auto simp: released_def)
qed (auto simp: released_def)

end
