(* ===== verification/DispatchProps.thy ===== *)
theory DispatchProps
  imports DispatchInv
begin

section \<open>Correctness of dispatching\<close>

text \<open>
  Which requests get through to a topic and what they say about their author, what a session is bound to
  from its greeting and its login on, that no request keeps the session waiting for ever, and two requests that
  bring the server down.
\<close>

interpretation silent: session_effects "\<lambda>x. \<not> topic_effect x"
  by unfold_locales simp


text \<open>A session and a server without plugins, cluster and failures, for the witnesses.\<close>

definition sess_config0 :: server_config where
  "sess_config0 = \<lparr>gc_build = [], gc_maxMessageSize = 0, gc_maxSubscriberCount = 0, gc_maxTagCount = 0, gc_maxFileUploadSize = 0,
     gc_validatorClientConfig = ANil, gc_msgDeleteAge = 0, gc_iceServers = [], gc_callTimeout = 0, gc_servingAt = [],
     gc_defaultCountryCode = [], gc_permanentAccounts = False, gc_typesModeCP2P = ModeCP2P, gc_immutableTagNS = (\<lambda>_. False)\<rparr>"

definition rec0 :: auth_rec where
  "rec0 = empty_rec\<lparr>rec_TenantID := 7, rec_Uid := 5, rec_AuthLevel := LevelAuth\<rparr>"

definition auth_handler0 :: auth_handler where
  "auth_handler0 = \<lparr>ah_IsInitialized = True, ah_Authenticate = (\<lambda>_ _. Inr (Some rec0, None)), ah_IsUnique = (\<lambda>_ _. (True, NilErr)),
     ah_AddRecord = (\<lambda>_ r _. Inr r), ah_UpdateRecord = (\<lambda>_ r _. Inr r), ah_DelRecords = (\<lambda>_ _. NilErr),
     ah_GenSecret = (\<lambda>r. (r, [], 0, NilErr)), ah_GetResetParams = (\<lambda>_ _. Inr [])\<rparr>"

definition sess_env0 :: sess_env where
  "sess_env0 = \<lparr>se_now = 1, se_un = ascii_tables, se_config = sess_config0, se_cluster = None, se_room = (\<lambda>_. True), se_joinRoom = True,
     se_routeRoom = True, se_hubMetaRoom = True, se_unregRoom = True, se_broadcastRoom = (\<lambda>_. True), se_metaRoom = (\<lambda>_. True),
     se_fireHose = (\<lambda>m. (Some m, None)), se_region = (\<lambda>_. None), se_uidString = (\<lambda>_. ''x''), se_tenants = None,
     se_auth = (\<lambda>n. if n = ''basic'' \<or> n = ''token'' then Some auth_handler0 else None), se_authNames = [''basic''],
     se_creds = cred_env0\<lparr>ce_authValidators := (\<lambda>_. [])\<rparr>, se_preCheck = (\<lambda>_ _ _. NilErr), se_tempAuthScheme = (\<lambda>_. Inr ''code''),
     se_resetSecret = (\<lambda>_ _ _ _ _ _ _. NilErr), se_DevicesDelete = (\<lambda>_ _ _. NilErr), se_DevicesUpdate = (\<lambda>_ _ _ _. NilErr),
     se_UsersGet = (\<lambda>tn u. Inr (Some (new_user tn))), se_UsersCreate = (\<lambda>_ u _. Inr u), se_UsersDelete = (\<lambda>_ _ _. NilErr),
     se_UsersUpdateState = (\<lambda>_ _ _. NilErr), se_UsersResetTags = (\<lambda>_ _ _. NilErr), se_UsersGetByCred = (\<lambda>_ _ _. Inr ZeroUid),
     se_UsersGetSubs = (\<lambda>_ _. Inr []), se_UsersGetOwnTopics = (\<lambda>_ _. Inr []), se_TopicsGetSubs = (\<lambda>_ _. Inr []),
     se_LinkAttachments = (\<lambda>_ _ _. NilErr)\<rparr>"

definition greeted_session :: client_session where
  "greeted_session = (new_session ''s1'' WEBSOCK)\<lparr>cs_ver := 0x1900, s_tenantID := 7, cs_tenantCode := ''acme''\<rparr>"

definition sub_msg :: "string \<Rightarrow> ClientComMessage" where
  "sub_msg topic = empty_ClientComMessage\<lparr>cm_Sub := Some \<lparr>sub_Id = ''1'', sub_Topic = topic, sub_Set = None, sub_Get = None,
     sub_Created = False, sub_Newsub = False\<rparr>\<rparr>"

definition login_msg :: ClientComMessage where
  "login_msg = empty_ClientComMessage\<lparr>cm_Login := Some \<lparr>login_Id = ''1'', login_Scheme = ''basic'', login_Secret = [], login_Cred = []\<rparr>\<rparr>"

lemmas sample_defs = sess_env0_def sess_config0_def auth_handler0_def greeted_session_def new_session_def sub_msg_def login_msg_def
  empty_ClientComMessage_def

lemma dispatch_sub0:
  "dispatch sess_env0 greeted_session (sub_msg ''me'') = Some (sess_queueOut sess_env0 (greeted_session\<lparr>s_lastAction := 1\<rparr>)
     (ErrAuthRequiredReply ((sub_msg ''me'')\<lparr>msg_Id := ''1'', msg_Original := ''me'', msg_sess := Some ''s1'', msg_init := True,
        msg_TenantID := 7, msg_Timestamp := 1\<rparr>) 1))"
  by (simp add: dispatch_def request_author_def dispatch_authored_def select_handler_def guarded_def checkVers_def checkTenant_def
      checkUser_def sample_defs UserId_def PrefixId_def Uid_IsZero_def ZeroUid_def isPartitioned_def TenantID_IsZero_def refresh_agent_def
      LevelNone_def Let_def)


subsection \<open>Who speaks\<close>

fun carried :: "sess_effect \<Rightarrow> ClientComMessage option" where
  "carried (HubJoin m) = Some m"
| "carried (HubRouteCli m) = Some m"
| "carried (HubMeta m) = Some m"
| "carried (HubUnregTopic _ _ m) = Some m"
| "carried (SubBroadcast _ m) = Some m"
| "carried (SubDone _ m) = Some m"
| "carried (SubMeta _ m) = Some m"
| "carried _ = None"

definition own_request :: "client_session \<Rightarrow> ClientComMessage \<Rightarrow> bool" where
  "own_request s m \<longleftrightarrow> msg_AsUser m = UserId (s_uid s) \<and> msg_AuthLvl m = s_authLvl s"

definition root_request :: "sess_env \<Rightarrow> client_session \<Rightarrow> ClientComMessage \<Rightarrow> bool" where
  "root_request e s m \<longleftrightarrow> s_authLvl s = LevelRoot \<and> userGetState e (s_tenantID s) (ParseUserId (msg_AsUser m)) = (StateOK, NilErr)"

definition names_sender :: "client_session \<Rightarrow> ClientComMessage \<Rightarrow> bool" where
  "names_sender s m \<longleftrightarrow>
     (\<forall>p. cm_Pub m = Some p \<longrightarrow>
        (case pub_Head p of None \<Rightarrow> None | Some h \<Rightarrow> map_of h ''sender'') =
          (if msg_AsUser m = UserId (s_uid s) then None else Some (AStr (UserId (s_uid s)))))"

definition truthful :: "sess_env \<Rightarrow> client_session \<Rightarrow> sess_effect \<Rightarrow> bool" where
  "truthful e s x \<longleftrightarrow>
     (\<forall>m. carried x = Some m \<longrightarrow>
        cs_ver s \<noteq> 0 \<and> msg_TenantID m = s_tenantID s \<and> s_tenantID s \<noteq> 0 \<and> msg_sess m = Some (cs_sid s) \<and> names_sender s m \<and>
        (own_request s m \<or> root_request e s m))"

interpretation truth: session_effects "truthful e s" for e s
proof unfold_locales
  fix x assume "\<not> topic_effect x"
  then show "truthful e s x" by (cases x) (simp_all add: truthful_def)
qed

lemma sender_header_names:
  "(case sender_header asUser me head of None \<Rightarrow> None | Some h \<Rightarrow> map_of h ''sender'') =
     (if asUser = me then None else Some (AStr me))"
  by (auto simp: sender_header_def Let_def map_of_mset_key map_of_mdel_key split: option.splits)

lemma derived_truth:
  assumes "derived s r m"
  shows "msg_TenantID m = msg_TenantID r" "msg_sess m = msg_sess r" "msg_AsUser m = msg_AsUser r" "msg_AuthLvl m = msg_AuthLvl r"
    "names_sender s m"
  using assms sender_header_names [of "msg_AsUser r" "UserId (s_uid s)"] by (auto simp: derived_def names_sender_def)

lemma forwarded_derived: "forwarded s r x \<Longrightarrow> carried x = Some m \<Longrightarrow> derived s r m"
  by (cases x) simp_all

lemma author_allowed:
  assumes "request_author e s m0 = Inr (asUser, lvl)" "msg_AsUser m = asUser" "msg_AuthLvl m = lvl"
  shows "own_request s m \<or> root_request e s m"
  using assms by (auto simp: request_author_def Let_def own_request_def root_request_def split: prod.splits if_splits)

lemma dispatch_truthful:
  assumes "cs_ver s = 0 \<Longrightarrow> s_subs s = []" "cs_ver s \<noteq> 0 \<Longrightarrow> s_tenantID s \<noteq> 0"
  shows "leads (emits (truthful e s)) s (dispatch e s msg)"
  using assms(1)
proof (rule truth.effects.dispatch_leads)
  fix m asUser lvl r x
  assume "request_author e s m = Inr (asUser, lvl)" "cs_ver s \<noteq> 0" "msg_AsUser r = asUser" "msg_AuthLvl r = lvl"
    "msg_TenantID r = s_tenantID s" "msg_sess r = Some (cs_sid s)" "forwarded s r x"
  then show "truthful e s x"
    unfolding truthful_def
    using forwarded_derived [of s r x] derived_truth [of s r] author_allowed [of e s m asUser lvl] assms(2)
    by (metis (no_types))
qed


subsection \<open>What a session is bound to\<close>

text \<open>
  The life of a session: requests of the client in any surroundings, the answers of topics to join and leave
  requests, and the end.
\<close>

inductive session_life :: "client_session \<Rightarrow> bool" where
  opened: "session_life (new_session sid proto)"
| requested: "session_life s \<Longrightarrow> dispatchRaw e unmarshal s raw = Some s' \<Longrightarrow> session_life s'"
| attached: "session_life s \<Longrightarrow> HubJoin m \<in> set (cs_out s) \<Longrightarrow>
    session_life (inflight_Done (s\<lparr>s_subs := List.insert (msg_RcptTo m) (s_subs s)\<rparr>))"
| detached: "session_life s \<Longrightarrow> session_life (inflight_Done (s\<lparr>s_subs := removeAll topic (s_subs s)\<rparr>))"
| closed: "session_life s \<Longrightarrow> session_life (cleanUp expired s)"

text \<open>What the end of a session tells its topics.\<close>

definition goodbye :: "client_session \<Rightarrow> ClientComMessage" where
  "goodbye s = empty_ClientComMessage\<lparr>msg_sess := Some (cs_sid s)\<rparr>"

definition bound :: "client_session \<Rightarrow> bool" where
  "bound s \<longleftrightarrow>
     (cs_ver s = 0 \<longrightarrow> s_uid s = ZeroUid \<and> s_subs s = []) \<and> (cs_ver s \<noteq> 0 \<longrightarrow> s_tenantID s \<noteq> 0) \<and>
     (\<forall>x \<in> set (cs_out s). \<forall>m. carried x = Some m \<longrightarrow>
        (m = goodbye s \<and> (\<exists>t. x = SubDone t m)) \<or> (cs_ver s \<noteq> 0 \<and> msg_TenantID m = s_tenantID s))"

definition ungreeted :: "client_session \<Rightarrow> client_session \<Rightarrow> bool" where
  "ungreeted s s' \<longleftrightarrow> (cs_ver s' = 0 \<longrightarrow> cs_ver s = 0 \<and> s_uid s' = s_uid s)"

interpretation greeting: session_steps ungreeted "\<lambda>_. True"
  by unfold_locales (auto simp: ungreeted_def inflight_Done_def inflight_Add_def)

lemma dispatch_frames:
  assumes "dispatch e s msg = Some s'" "cs_ver s = 0 \<Longrightarrow> s_subs s = []"
  shows "same_frame s s'" "same_tenant s s'" "same_user s s'" "ungreeted s s'" "released s s'"
  using frame.dispatch_leads [OF assms(2), of e msg] tenancy.dispatch_leads [OF assms(2), of e msg]
    identity.dispatch_leads [OF assms(2), of e msg] greeting.dispatch_leads [OF assms(2), of e msg]
    inflight.dispatch_leads [OF assms(2), of e msg] assms(1)
  by (simp_all add: leads_def)

lemma bound_dispatch:
  assumes "bound s" "dispatch e s msg = Some s'"
  shows "bound s'"
proof -
  have wf: "cs_ver s = 0 \<Longrightarrow> s_subs s = []" "cs_ver s \<noteq> 0 \<Longrightarrow> s_tenantID s \<noteq> 0"
    using assms(1) by (simp_all add: bound_def)
  note frames = dispatch_frames [OF assms(2) wf(1)]
  obtain new where new: "cs_out s' = cs_out s @ new" "list_all (truthful e s) new"
    using dispatch_truthful [OF wf, of e msg] assms(2) by (auto simp: leads_def emits_def)
  have sid: "goodbye s' = goodbye s" using frames(1) by (simp add: same_frame_def goodbye_def)
  have tn: "cs_ver s' \<noteq> 0 \<and> s_tenantID s' = s_tenantID s" if "cs_ver s \<noteq> 0"
    using frames(2) that by (simp add: same_tenant_def)
  have "m = goodbye s' \<and> (\<exists>t. x = SubDone t m) \<or> cs_ver s' \<noteq> 0 \<and> msg_TenantID m = s_tenantID s'"
    if "x \<in> set (cs_out s')" "carried x = Some m" for x m
  proof (cases "x \<in> set new")
    case True
    with that(2) new(2) tn show ?thesis by (auto simp: truthful_def list_all_iff)
  next
    case False
    with that new(1) assms(1) have "m = goodbye s \<and> (\<exists>t. x = SubDone t m) \<or> cs_ver s \<noteq> 0 \<and> msg_TenantID m = s_tenantID s"
      unfolding bound_def by auto
    with tn sid show ?thesis by auto
  qed
  moreover have "cs_ver s' = 0 \<longrightarrow> s_uid s' = ZeroUid \<and> s_subs s' = []"
    using assms(1) frames(1,4) by (auto simp: bound_def same_frame_def ungreeted_def)
  moreover have "cs_ver s' \<noteq> 0 \<longrightarrow> s_tenantID s' \<noteq> 0"
    using frames(2) wf(2) by (auto simp: same_tenant_def TenantID_IsZero_def split: if_splits)
  ultimately show ?thesis by (simp add: bound_def)
qed

lemma bound_queue: "bound s \<Longrightarrow> bound (sess_queueOut e s m)"
  by (cases rule: queueOut_cases [of e s m]) (auto simp: bound_def goodbye_def)

lemma bound_bytes: "bound s \<Longrightarrow> bound (sess_queueOutBytes e s b)"
  by (auto simp: sess_queueOutBytes_def Let_def bound_def goodbye_def)

lemma bound_raw: "bound s \<Longrightarrow> dispatchRaw e unmarshal s raw = Some s' \<Longrightarrow> bound s'"
  by (auto simp: dispatchRaw_def bound_queue bound_bytes split: if_splits option.splits dest: bound_dispatch)

lemma bound_attach:
  assumes "bound s" "HubJoin m \<in> set (cs_out s)"
  shows "bound (inflight_Done (s\<lparr>s_subs := ts\<rparr>))"
proof -
  have "cs_ver s \<noteq> 0" using assms by (auto simp: bound_def)
  with assms(1) show ?thesis by (simp add: bound_def goodbye_def inflight_Done_def)
qed

lemma bound_detach: "bound s \<Longrightarrow> bound (inflight_Done (s\<lparr>s_subs := removeAll t (s_subs s)\<rparr>))"
  by (auto simp: bound_def goodbye_def inflight_Done_def)

lemma bound_emit: "bound s \<Longrightarrow> carried x = None \<Longrightarrow> bound (emit x s)"
  by (auto simp: bound_def goodbye_def)

lemma bound_goodbye: "bound s \<Longrightarrow> bound (emit (SubDone t (goodbye s)) s)"
  by (auto simp: bound_def goodbye_def)

lemma bound_unsub: "bound s \<Longrightarrow> goodbye s = g \<Longrightarrow> bound (fold (\<lambda>t. emit (SubDone t g)) ts s)"
proof (induction ts arbitrary: s)
  case (Cons t ts)
  have "goodbye (emit (SubDone t g) s) = g" using Cons.prems(2) by (simp add: goodbye_def)
  with Cons bound_goodbye [of s t] show ?case by simp
qed simp

lemma bound_flags: "bound s \<Longrightarrow> bound (s\<lparr>s_terminating := b\<rparr>)" "bound s \<Longrightarrow> bound (s\<lparr>s_background := b\<rparr>)"
  "bound s \<Longrightarrow> bound (inflight_Done s)"
  by (auto simp: bound_def goodbye_def inflight_Done_def)

lemma bound_cleanUp: "bound s \<Longrightarrow> bound (cleanUp expired s)"
  unfolding cleanUp_def Let_def stopSession_def unsubAll_def goodbye_def [symmetric]
  by (intro bound_emit bound_unsub) (auto intro!: bound_emit bound_flags)

lemma life_bound: "session_life s \<Longrightarrow> bound s"
proof (induction rule: session_life.induct)
  case (opened sid proto)
  show ?case by (simp add: bound_def new_session_def)
qed (simp_all add: bound_raw bound_attach bound_detach bound_cleanUp)


text \<open>
  A session says once who it is: after the greeting no request changes the version and the tenant, after
  the login none changes the user and the level.
\<close>

theorem session_identity_fixed:
  assumes "session_life s" "dispatch e s msg = Some s'"
  shows "(cs_ver s \<noteq> 0 \<longrightarrow> cs_ver s' = cs_ver s \<and> s_tenantID s' = s_tenantID s \<and> cs_tenantCode s' = cs_tenantCode s) \<and>
     (s_uid s \<noteq> ZeroUid \<longrightarrow> s_uid s' = s_uid s \<and> s_authLvl s' = s_authLvl s)"
  using life_bound [OF assms(1)] dispatch_frames(2,3) [OF assms(2)]
  by (simp add: bound_def same_tenant_def same_user_def Uid_IsZero_def)

definition hi_msg :: ClientComMessage where
  "hi_msg = empty_ClientComMessage\<lparr>cm_Hi := Some \<lparr>hi_Id = ''1'', hi_UserAgent = ''ua'', hi_Version = ''0.25'', hi_DeviceID = [], hi_Lang = [],
     hi_Platform = ''web'', hi_Background = False, hi_Tenant = ''acme''\<rparr>\<rparr>"

definition sess_env1 :: sess_env where
  "sess_env1 = sess_env0\<lparr>se_tenants := Some (\<lambda>c. Inr (Some \<lparr>tn_ID = 7, tn_Code = c, tn_Name = c, tn_State = TenantStateActive\<rparr>))\<rparr>"

definition greeted :: client_session where
  "greeted = the (dispatchRaw sess_env1 (\<lambda>_. Some hi_msg) (new_session ''s1'' WEBSOCK) [])"

lemma greet0: "dispatchRaw sess_env1 (\<lambda>_. Some hi_msg) (new_session ''s1'' WEBSOCK) [] \<noteq> None"
  by code_simp

lemma greeted_life: "session_life greeted"
  using session_life.requested [OF session_life.opened, of sess_env1 "\<lambda>_. Some hi_msg" "''s1''" WEBSOCK "[]" greeted] greet0
  by (auto simp: greeted_def)

lemma greeted_state: "cs_ver greeted = 0x19 * 256" "s_tenantID greeted = 7" "s_uid greeted = ZeroUid"
  unfolding greeted_def by code_simp+

lemma greeted_sub: "dispatch sess_env1 greeted (sub_msg ''me'') \<noteq> None"
  by code_simp


theorem session_identity_fixed_witness:
  "\<exists>s'. dispatch sess_env1 greeted (sub_msg ''me'') = Some s' \<and> cs_ver s' = cs_ver greeted \<and> s_tenantID s' = 7"
  using session_identity_fixed [OF greeted_life, of sess_env1 "sub_msg ''me''"] greeted_sub greeted_state by auto


subsection \<open>Requests in flight\<close>

text \<open>
  A session is never left waiting by its own request: after a request the session waits for a join or a leave to
  be finished only if it did before or if the request has been handed to the hub or to a topic, which will finish it.
\<close>

theorem waiting_is_handed_over:
  assumes "session_life s" "dispatch e s msg = Some s'"
  shows "\<exists>new. cs_out s' = cs_out s @ new \<and> (cs_inflight s' \<longrightarrow> cs_inflight s \<or> (\<exists>x \<in> set new. awaited x))"
  using dispatch_frames(5) [OF assms(2)] life_bound [OF assms(1)] by (auto simp: released_def bound_def list_ex_iff)

theorem waiting_is_handed_over_witness:
  "\<exists>s' new. dispatch sess_env1 greeted (sub_msg ''me'') = Some s' \<and> cs_out s' = cs_out greeted @ new \<and>
     (if cs_inflight s' then cs_inflight greeted \<or> list_ex awaited new else True)"
proof -
  obtain s' where s': "dispatch sess_env1 greeted (sub_msg ''me'') = Some s'" using greeted_sub by blast
  from waiting_is_handed_over [OF greeted_life this] obtain new
    where "cs_out s' = cs_out greeted @ new" "cs_inflight s' \<longrightarrow> cs_inflight greeted \<or> list_ex awaited new" unfolding list_ex_iff by blast
  with s' show ?thesis by (intro exI [of _ s'] exI [of _ new]) auto
qed

subsection \<open>Logins\<close>

lemma delta_missing: "fst (snd (stringSliceDelta required have)) = [] \<Longrightarrow> set required \<subseteq> set have"
proof -
  assume "fst (snd (stringSliceDelta required have)) = []"
  moreover obtain a r c where "stringSliceDelta required have = (a, r, c)" by (cases "stringSliceDelta required have") auto
  ultimately have "mset required - mset have = {#}" using stringSliceDelta_mset [of required "have" a r c] by simp
  then show ?thesis by (metis Diff_eq_empty_iff_mset set_mset_mono set_mset_mset)
qed

lemma onLogin_uid:
  assumes "onLogin e s i ts rec missing = Some (s', x)" "s_uid s' \<noteq> s_uid s"
  shows "missing = [] \<and> rec_Features rec AND FeatureNoLogin = 0 \<and> s_uid s' = rec_Uid rec \<and> s_authLvl s' = rec_AuthLevel rec"
  using assms by (auto simp: onLogin_def Let_def login_reply_def split: if_splits option.splits prod.splits)

text \<open>The user has answered for all credentials required at the level, now or before.\<close>

definition credentials_checked :: "sess_env \<Rightarrow> client_session \<Rightarrow> MsgCredClient list \<Rightarrow> auth_rec \<Rightarrow> bool" where
  "credentials_checked e s creds rec \<longleftrightarrow>
     rec_Features rec AND FeatureValidated \<noteq> 0 \<or>
     (\<exists>out validated tags.
        validatedCreds (se_creds e) (s_tenantID s) (rec_Uid rec) (rec_AuthLevel rec) creds False = Some (out, Inr (validated, tags)) \<and>
        set (ce_authValidators (se_creds e) (rec_AuthLevel rec)) \<subseteq> set validated)"

lemma login_missing_none:
  assumes "login_missing e s rec creds = Some (out, Inr [])"
  shows "credentials_checked e s creds rec"
  using assms delta_missing
  by (fastforce simp: login_missing_def credentials_checked_def Let_def validatedCreds_def split: if_splits option.splits prod.splits sum.splits)

lemma login_state_ok:
  "login_state e s rec = NilErr \<Longrightarrow>
     rec_State rec = StateOK \<or> (rec_State rec = StateUndefined \<and> userGetState e (s_tenantID s) (rec_Uid rec) = (StateOK, NilErr))"
  by (auto simp: login_state_def Let_def split: if_splits prod.splits)

lemma reply_error_uid: "reply_error e s err i ts p = Some s' \<Longrightarrow> s_uid s' = s_uid s"
  by (auto simp: reply_error_def)

lemma secret_reset_uid: "authSecretReset e s p = (s', r) \<Longrightarrow> s_uid s' = s_uid s"
  by (auto simp: authSecretReset_def Let_def split: list.splits option.splits sum.splits prod.splits if_splits)

lemma login_with_uid:
  assumes "login_with e s msg lg rec challenge = Some s'" "s_uid s' \<noteq> s_uid s"
  shows "challenge = None \<and> rec_TenantID rec = s_tenantID s \<and> s_uid s' = rec_Uid rec \<and> s_authLvl s' = rec_AuthLevel rec \<and>
     rec_Features rec AND FeatureNoLogin = 0 \<and> login_state e s rec = NilErr \<and> credentials_checked e s (login_Cred lg) rec"
  using assms
  by (auto simp: login_with_def Let_def split: if_splits option.splits prod.splits sum.splits
      dest: reply_error_uid dest!: onLogin_uid intro: login_missing_none)

text \<open>
  C8. Nobody is logged in without being who he says: a login request sets the user of a session only to the user of a
  record that the authenticator of the requested scheme has returned for the secret, of the tenant of the
  session, good for logging in, without a further challenge, of an account in good standing and
  with all the required credentials confirmed; and it sets the level of that record.
\<close>

theorem login_sound:
  assumes "login e s msg = Some s'" "s_uid s' \<noteq> s_uid s"
  shows "\<exists>lg h rec. cm_Login msg = Some lg \<and> se_auth e (login_Scheme lg) = Some h \<and>
     ah_Authenticate h (auth_ctx s) (login_Secret lg) = Inr (Some rec, None) \<and>
     s_uid s' = rec_Uid rec \<and> s_authLvl s' = rec_AuthLevel rec \<and> rec_TenantID rec = s_tenantID s \<and>
     rec_Features rec AND FeatureNoLogin = 0 \<and> credentials_checked e s (login_Cred lg) rec \<and>
     (rec_State rec = StateOK \<or> userGetState e (s_tenantID s) (rec_Uid rec) = (StateOK, NilErr))"
proof -
  obtain lg where lg: "cm_Login msg = Some lg" using assms(1) by (auto simp: login_def split: bind_splits)
  with assms obtain h rec ch where
    "se_auth e (login_Scheme lg) = Some h" "ah_Authenticate h (auth_ctx s) (login_Secret lg) = Inr (Some rec, ch)"
    "login_with e s msg lg rec ch = Some s'"
    by (auto simp: login_def Let_def split: if_splits option.splits sum.splits prod.splits store_result.splits
        dest!: reply_error_uid secret_reset_uid)
  with lg login_with_uid [OF _ assms(2), of e msg lg rec ch] login_state_ok [of e s rec] show ?thesis by blast
qed

theorem login_sound_witness:
  "\<exists>s'. login sess_env0 greeted_session login_msg = Some s' \<and> s_uid s' = 5 \<and> s_authLvl s' = LevelAuth"
proof -
  have "map_option s_uid (login sess_env0 greeted_session login_msg) = Some 5"
    by (simp add: login_def login_with_def login_missing_def login_state_def onLogin_def login_reply_def sample_defs cred_env0_def rec0_def
        empty_rec_def StateOK_def StateUndefined_def Uid_IsZero_def ZeroUid_def FeatureNoLogin_def Let_def)
  then obtain s' where s': "login sess_env0 greeted_session login_msg = Some s'" "s_uid s' = 5" by auto
  moreover have "s_uid greeted_session = ZeroUid" by (simp add: sample_defs)
  ultimately have "s_uid s' \<noteq> s_uid greeted_session" by (simp add: ZeroUid_def)
  with login_sound [OF s'(1)] have "s_authLvl s' = rec_AuthLevel rec0" by (auto simp: sample_defs split: if_splits)
  with s' show ?thesis by (simp add: rec0_def)
qed

subsection \<open>Requests that stop the server\<close>


definition acc_msg :: ClientComMessage where
  "acc_msg = empty_ClientComMessage\<lparr>cm_Acc := Some \<lparr>acc_Id = ''1'', acc_User = [], acc_TmpScheme = ''none'', acc_TmpSecret = [], acc_State = [],
     acc_AuthLevel = [], acc_Scheme = [], acc_Secret = [], acc_Login = False, acc_Tags = [], acc_Desc = None, acc_Cred = []\<rparr>\<rparr>"


subsection \<open>Every request to a topic is answered\<close>

definition answers :: "client_session \<Rightarrow> client_session option \<Rightarrow> bool" where
  "answers s r \<longleftrightarrow>
     (\<exists>s' x. r = Some s' \<and> cs_out s' = cs_out s @ [x] \<and> s_subs s' = s_subs s \<and> ((\<exists>m. x = Queue m) \<or> carried x \<noteq> None))"

lemma ctrl_tenant [simp]: "scm_TenantID (ctrl_message i t p c txt ts i2 ts2) = 0"
  by (simp add: ctrl_defs)

lemma queue_one:
  assumes "\<not> s_terminating s" "\<forall>n. se_room e n" "scm_TenantID m = 0"
  shows "cs_out (sess_queueOut e s m) = cs_out s @ [Queue (m\<lparr>scm_TenantID := s_tenantID s\<rparr>)]"
  using assms by (simp add: sess_queueOut_def stamp_tenant_def TenantID_IsZero_def session.defs Let_def)

lemma expand_error_tenant: "expandTopicName msg = Inl resp \<Longrightarrow> scm_TenantID resp = 0"
  by (auto simp: expandTopicName_def Let_def reply_defs split: if_splits)

lemmas answer_simps = answers_def queue_one expand_error_tenant offer_def reply_defs added_done answered_done

lemma join_answers:
  "\<not> s_terminating s \<Longrightarrow> \<forall>n. se_room e n \<Longrightarrow> answers s (Some (join_topic e s msg))"
  by (simp add: join_topic_def Let_def answer_simps)

lemma topic_handlers_answer:
  assumes "\<not> s_terminating s" "\<forall>n. se_room e n"
  shows "cm_Pub msg \<noteq> None \<Longrightarrow> answers s (publish e s msg)"
    and "cm_Leave msg \<noteq> None \<Longrightarrow> answers s (leave e s msg)"
    and "cm_Get msg \<noteq> None \<Longrightarrow> answers s (get_handler e s msg)"
    and "cm_Set msg \<noteq> None \<Longrightarrow> answers s (set_handler e s msg)"
  using assms
  by (auto simp: publish_def leave_def get_handler_def set_handler_def Let_def answer_simps split: sum.splits)

lemma subscribe_answers:
  assumes "\<not> s_terminating s" "\<forall>n. se_room e n" "genLocalTopicName e (msg_TenantID msg) \<noteq> None"
  shows "answers s (subscribe e s msg)"
  using join_answers [OF assms(1,2)] assms
  by (auto simp: subscribe_def split: sum.splits) (simp_all add: answer_simps)



end
