(* ===== verification/AccountProps.thy ===== *)
theory AccountProps
  imports DispatchProps
begin

section \<open>Correctness of account requests\<close>

text \<open>
  Who may change the state of an account or delete one, that an account is deleted only after its
  logins, and that an update of credentials is confirmed even if it failed.
\<close>

subsection \<open>Deleting an account\<close>

lemma fold_emit_out [simp]: "cs_out (fold (\<lambda>x. emit (f x)) xs s) = cs_out s @ map f xs"
  by (induction xs arbitrary: s) simp_all

lemma fold_emit_more [simp]:
  "cs_sid (fold (\<lambda>x. emit (f x)) xs s) = cs_sid s" "s_multi (fold (\<lambda>x. emit (f x)) xs s) = s_multi s"
  "s_terminating (fold (\<lambda>x. emit (f x)) xs s) = s_terminating s"
  by (induction xs arbitrary: s) simp_all

text \<open>All logins of the user are gone, but for those an authenticator failed to delete.\<close>

definition logins_removed :: "sess_env \<Rightarrow> tenant_id \<Rightarrow> uid \<Rightarrow> string list \<Rightarrow> sess_effect list \<Rightarrow> bool" where
  "logins_removed e tn u names out \<longleftrightarrow>
     (\<forall>n \<in> set names. \<forall>h. se_auth e n = Some h \<longrightarrow> ah_IsInitialized h \<longrightarrow>
        AuthDelRecords n tn u \<in> set out \<or> ah_DelRecords h tn u \<notin> {NilErr, StoreErr types_ErrUnsupported})"

lemma disable_auth_log:
  assumes "disable_auth e u names s = Some (s', ok)"
  shows "s_uid s' = s_uid s \<and> s_tenantID s' = s_tenantID s \<and> cs_sid s' = cs_sid s \<and>
     (\<exists>gone. cs_out s' = cs_out s @ map (\<lambda>n. AuthDelRecords n (s_tenantID s) u) gone \<and>
        (ok \<longrightarrow> logins_removed e (s_tenantID s) u names (map (\<lambda>n. AuthDelRecords n (s_tenantID s) u) gone)))"
  using assms
proof (induction names arbitrary: s)
  case Nil
  then show ?case by (auto simp: logins_removed_def intro: exI [of _ "[]"])
next
  case (Cons n names)
  from Cons.prems obtain h where h: "se_auth e n = Some h" by (auto split: option.splits)
  let ?tn = "s_tenantID s"
  consider (deleted) "ah_IsInitialized h" "ah_DelRecords h ?tn u = NilErr"
    "disable_auth e u names (emit (AuthDelRecords n ?tn u) s) = Some (s', ok)"
  | (refused) "ah_IsInitialized h" "ah_DelRecords h ?tn u = StoreErr types_ErrUnsupported" "s' = s" "\<not> ok"
  | (skipped) "ah_IsInitialized h \<longrightarrow> ah_DelRecords h ?tn u \<notin> {NilErr, StoreErr types_ErrUnsupported}"
    "disable_auth e u names s = Some (s', ok)"
    using Cons.prems h by (auto split: if_splits store_result.splits)
  then show ?case
  proof cases
    case deleted
    from Cons.IH [OF this(3)] obtain gone where g: "cs_out s' = cs_out s @ AuthDelRecords n ?tn u # map (\<lambda>n. AuthDelRecords n ?tn u) gone"
      "ok \<longrightarrow> logins_removed e ?tn u names (map (\<lambda>n. AuthDelRecords n ?tn u) gone)" by auto
    with Cons.IH [OF deleted(3)] show ?thesis
      by (intro conjI exI [of _ "n # gone"]) (auto simp: logins_removed_def)
  next
    case refused
    then show ?thesis by (auto intro: exI [of _ "[]"])
  next
    case skipped
    from Cons.IH [OF this(2)] h this(1) show ?thesis by (auto simp: logins_removed_def)
  qed
qed

lemma topics_gone_log:
  assumes "topics_gone e topics s = Some s'"
  shows "s_uid s' = s_uid s \<and> s_tenantID s' = s_tenantID s \<and> (\<exists>ms. cs_out s' = cs_out s @ map RoutePres ms)"
  using assms
proof (induction topics arbitrary: s)
  case (Cons t topics)
  then consider "topics_gone e topics s = Some s'"
    | ms where "topics_gone e topics (fold (\<lambda>m. emit (RoutePres m)) ms s) = Some s'"
    by (auto split: sum.splits bind_splits)
  then show ?case
  proof cases
    case 2
    from Cons.IH [OF this] show ?thesis by (auto simp flip: map_append)
  qed (rule Cons.IH)
qed simp

lemma announce_gone_log:
  assumes "announce_gone e u s = Some s'"
  shows "s_uid s' = s_uid s \<and> s_tenantID s' = s_tenantID s \<and> (\<exists>ms. cs_out s' = cs_out s @ map RoutePres ms)"
proof -
  obtain ms s1 where "s1 = fold (\<lambda>m. emit (RoutePres m)) ms s" "s' = s1 \<or> (\<exists>topics. topics_gone e topics s1 = Some s')"
    using assms by (auto simp: announce_gone_def split: sum.splits bind_splits) (metis fold_simps(1))+
  then show ?thesis using topics_gone_log [of e _ s1 s'] by (auto simp flip: map_append)
qed

lemma delete_target_allowed:
  "delete_target e s msg del = Inr u \<Longrightarrow>
     u = s_uid s \<or> (s_authLvl s = LevelRoot \<and> snd (userGetState e (s_tenantID s) u) = NilErr \<and> fst (userGetState e (s_tenantID s) u) \<noteq> StateDeleted)"
  by (auto simp: delete_target_def Let_def split: if_splits prod.splits)

lemma queue_log: "\<exists>ms. cs_out (sess_queueOut e s m) = cs_out s @ map Queue ms"
  by (cases rule: queueOut_cases [of e s m]) (auto intro: exI [of _ "[]"] exI [of _ "[x]" for x])

lemma reply_error_log: "reply_error e s err i ts p = Some s' \<Longrightarrow> \<exists>ms. cs_out s' = cs_out s @ map Queue ms"
  using queue_log [of e s] by (auto simp: reply_error_def)

lemma logins_removed_append: "logins_removed e tn u names out \<Longrightarrow> logins_removed e tn u names (out @ out1)"
  by (auto simp: logins_removed_def)

definition after_disabling :: "client_session \<Rightarrow> client_session \<Rightarrow> ClientComMessage \<Rightarrow> uid \<Rightarrow> bool \<Rightarrow> client_session" where
  "after_disabling s s1 msg v hard =
     emit (HubUnregUser (s_tenantID s) v hard) (emit (CacheRemoveUser (msg_TenantID msg) v) (emit (EvictUser v (cs_sid s)) s1))"

lemma replyDelUser_stages:
  assumes "replyDelUser e s msg del = Some s'"
  obtains (refused) ms where "cs_out s' = cs_out s @ map Queue ms"
  | (kept) v s1 ms where "disable_auth e v (se_authNames e) s = Some (s1, False)" "cs_out s' = cs_out s1 @ map Queue ms"
  | (failed) v s1 s3 ms where "disable_auth e v (se_authNames e) s = Some (s1, True)"
      "announce_gone e v (after_disabling s s1 msg v (del_Hard del)) = Some s3" "cs_out s' = cs_out s3 @ map Queue ms"
  | (deleted) v s1 s3 post where "delete_target e s msg del = Inr v" "disable_auth e v (se_authNames e) s = Some (s1, True)"
      "announce_gone e v (after_disabling s s1 msg v (del_Hard del)) = Some s3"
      "cs_out s' = cs_out s3 @ UsersDelete (s_tenantID s) v (del_Hard del) # post" "\<forall>tn u hard. UsersDelete tn u hard \<notin> set post"
proof (cases "delete_target e s msg del")
  case (Inl r)
  with assms queue_log [of e s r] show thesis by (auto simp: replyDelUser_def intro: refused)
next
  case (Inr v)
  with assms obtain s1 ok where d: "disable_auth e v (se_authNames e) s = Some (s1, ok)"
    by (auto simp: replyDelUser_def Let_def split: bind_splits)
  show thesis
  proof (cases ok)
    case False
    with assms Inr d have "s' = sess_queueOut e s1 (ErrOperationNotAllowed (msg_Id msg) [] (msg_Timestamp msg))"
      by (simp add: replyDelUser_def Let_def)
    with d False queue_log [of e s1] show thesis by (metis kept)
  next
    case True
    then have d: "disable_auth e v (se_authNames e) s = Some (s1, True)" using d by simp
    have sid: "cs_sid s1 = cs_sid s" using disable_auth_log [OF d] by simp
    obtain s3 where a: "announce_gone e v (after_disabling s s1 msg v (del_Hard del)) = Some s3"
      using assms Inr d sid by (auto simp: replyDelUser_def Let_def after_disabling_def split: bind_splits)
    show thesis
    proof (cases "se_UsersDelete e (s_tenantID s) v (del_Hard del) = NilErr")
      case True
      let ?s4 = "sess_queueOut e (emit (UsersDelete (s_tenantID s) v (del_Hard del)) s3) (NoErr (msg_Id msg) [] (msg_Timestamp msg))"
      have "s' = ?s4 \<or> s' = emit (StopWith (Some (NoErrEvicted [] [] (msg_Timestamp msg)))) ?s4"
        using assms Inr d sid a True by (simp add: replyDelUser_def Let_def after_disabling_def stopSession_def split: if_splits)
      moreover obtain qs where "cs_out ?s4 = cs_out s3 @ UsersDelete (s_tenantID s) v (del_Hard del) # map Queue qs"
        using queue_log [of e "emit (UsersDelete (s_tenantID s) v (del_Hard del)) s3"] by auto
      ultimately obtain post where "cs_out s' = cs_out s3 @ UsersDelete (s_tenantID s) v (del_Hard del) # post"
        "\<forall>tn u hard. UsersDelete tn u hard \<notin> set post" by (auto simp: image_iff)
      then show thesis using deleted [OF Inr d a] by blast
    next
      case False
      with assms Inr d sid a have "reply_error e s3 (se_UsersDelete e (s_tenantID s) v (del_Hard del)) (msg_Id msg) (msg_Timestamp msg) None = Some s'"
        by (simp add: replyDelUser_def Let_def after_disabling_def split: store_result.splits)
      then show thesis using failed [OF d a] reply_error_log by blast
    qed
  qed
qed

text \<open>What was logged before the record of the user is deleted.\<close>

lemma gone_log:
  assumes "disable_auth e v (se_authNames e) s = Some (s1, ok)" "announce_gone e v (after_disabling s s1 msg v hard) = Some s3"
  shows "\<exists>before. cs_out s3 = cs_out s @ before \<and> EvictUser v (cs_sid s) \<in> set before \<and> HubUnregUser (s_tenantID s) v hard \<in> set before \<and>
     (\<forall>tn u hard. UsersDelete tn u hard \<notin> set before) \<and> (ok \<longrightarrow> logins_removed e (s_tenantID s) v (se_authNames e) before)"
  using disable_auth_log [OF assms(1)] announce_gone_log [OF assms(2)]
  by (auto simp: after_disabling_def intro!: logins_removed_append)

text \<open>
  C10. An account is deleted only by its user, or by root if it is an account of the same tenant that is not deleted yet;
  and before the record goes, all sessions of the user but the one that asked are ended, the topics of the user are
  stopped, and every authenticator that is in use has deleted its records of the user or failed to, but none has refused.
\<close>

theorem account_deletion:
  assumes "replyDelUser e s msg del = Some s'" "cs_out s' = cs_out s @ new" "UsersDelete tn u hard \<in> set new"
  shows "tn = s_tenantID s \<and> hard = del_Hard del \<and>
     (u = s_uid s \<or> (s_authLvl s = LevelRoot \<and> snd (userGetState e tn u) = NilErr \<and> fst (userGetState e tn u) \<noteq> StateDeleted)) \<and>
     (\<exists>before after. new = before @ UsersDelete tn u hard # after \<and> EvictUser u (cs_sid s) \<in> set before \<and>
        HubUnregUser tn u hard \<in> set before \<and> logins_removed e tn u (se_authNames e) before)"
  using assms(1)
proof (cases rule: replyDelUser_stages)
  case (deleted v s1 s3 post)
  from gone_log [OF deleted(2,3)] obtain before where b: "cs_out s3 = cs_out s @ before" "EvictUser v (cs_sid s) \<in> set before"
    "HubUnregUser (s_tenantID s) v (del_Hard del) \<in> set before" "\<forall>tn u hard. UsersDelete tn u hard \<notin> set before"
    "logins_removed e (s_tenantID s) v (se_authNames e) before" by blast
  with deleted(4) assms(2) have new: "new = before @ UsersDelete (s_tenantID s) v (del_Hard del) # post" by simp
  with b(4) deleted(5) assms(3) have "tn = s_tenantID s" "u = v" "hard = del_Hard del" by auto
  with b new delete_target_allowed [OF deleted(1)] show ?thesis by blast
next
  case (kept v s1 ms)
  with disable_auth_log [OF kept(1)] assms(2,3) show ?thesis by auto
next
  case (failed v s1 s3 ms)
  with gone_log [OF failed(1,2)] assms(2,3) show ?thesis by auto
qed (use assms(2,3) in auto)

definition del_user_msg :: MsgClientDel where
  "del_user_msg = \<lparr>del_Id = ''1'', del_Topic = [], del_What = ''user'', del_DelSeq = [], del_User = [], del_Cred = None, del_Hard = True\<rparr>"

lemma deletion0:
  "replyDelUser sess_env0 (greeted_session\<lparr>s_uid := 5\<rparr>) empty_ClientComMessage del_user_msg = Some s' \<Longrightarrow>
     UsersDelete 7 5 True \<in> set (cs_out s')"
  by (auto simp: replyDelUser_def del_user_msg_def delete_target_def announce_gone_def sess_queueOut_def stamp_tenant_def session.defs
      TenantID_IsZero_def reply_defs ctrl_defs stopSession_def sample_defs Let_def split: if_splits)

theorem account_deletion_witness:
  "\<exists>s' before after. replyDelUser sess_env0 (greeted_session\<lparr>s_uid := 5\<rparr>) empty_ClientComMessage del_user_msg = Some s' \<and>
     cs_out s' = before @ UsersDelete 7 5 True # after \<and> logins_removed sess_env0 7 5 [''basic''] before"
proof -
  let ?s = "greeted_session\<lparr>s_uid := 5\<rparr>"
  obtain s' where s': "replyDelUser sess_env0 ?s empty_ClientComMessage del_user_msg = Some s'"
    by (auto simp: replyDelUser_def del_user_msg_def delete_target_def announce_gone_def sample_defs Let_def)
  have "cs_out ?s = []" "se_authNames sess_env0 = [''basic'']" by (simp_all add: sample_defs)
  with account_deletion [OF s', of "cs_out s'" 7 5 True] deletion0 [OF s'] s' show ?thesis by auto
qed

subsection \<open>Changing an account\<close>

text \<open>Everything but a change of the state of an account.\<close>

fun plain :: "sess_effect \<Rightarrow> bool" where
  "plain (UsersUpdateState _ _ _) = False"
| "plain _ = True"

lemma emits_plain_queue: "emits plain s t \<Longrightarrow> emits plain s (sess_queueOut e t m)"
  using queue_log [of e t m] by (auto simp: emits_def list_all_iff)

lemma emits_plain_emit: "emits plain s t \<Longrightarrow> plain x \<Longrightarrow> emits plain s (emit x t)"
  by (auto simp: emits_def)

lemma emits_plain_error: "emits plain s t \<Longrightarrow> reply_error e t err i ts p = Some t' \<Longrightarrow> emits plain s t'"
  by (auto simp: reply_error_def emits_plain_queue)

lemma emits_plain_update_reply: "emits plain s t \<Longrightarrow> update_reply e t msg usr err p = Some t' \<Longrightarrow> emits plain s t'"
  by (auto simp: update_reply_def  split: if_splits intro!: emits_plain_emit emits_plain_queue elim: emits_plain_error)

lemma emits_plain_auth: "updateUserAuth e s acc usr = (t, err) \<Longrightarrow> emits plain s t"
  by (auto simp: updateUserAuth_def Let_def emits_def split: option.splits sum.splits if_splits)

lemma emits_plain_creds: "update_creds e s u lvl acc = Some (t, p) \<Longrightarrow> emits plain s t"
  by (auto simp: update_creds_def Let_def emits_def  list_all_iff split: option.splits sum.splits prod.splits)

lemma emits_refl [simp]: "emits P s s"
  by (simp add: emits_def)

lemma replyUpdateUser_state:
  assumes "replyUpdateUser e s msg acc rec = Some s'" "\<not> emits plain s s'"
  obtains u lvl usr t usr' err where "account_target s msg acc rec = Inr (u, lvl)" "acc_State acc \<noteq> []"
    "se_UsersGet e (s_tenantID s) u = Inr (Some usr)" "User_TenantID usr = s_tenantID s"
    "changeUserState e s u usr acc = (t, usr', True, err)" "emits plain t s'"
proof -
  obtain u lvl where tg: "account_target s msg acc rec = Inr (u, lvl)"
    using assms by (auto simp: replyUpdateUser_def Let_def emits_plain_queue split: sum.splits prod.splits)
  obtain usr where usr: "se_UsersGet e (s_tenantID s) u = Inr (Some usr)" "User_TenantID usr = s_tenantID s"
    using assms tg by (auto simp: replyUpdateUser_def Let_def split: sum.splits option.splits if_splits dest: emits_plain_error [OF emits_refl])
  obtain t usr' changed err where ch: "changeUserState e s u usr acc = (t, usr', changed, err)" "acc_State acc \<noteq> []"
    "if \<not> changed \<and> err = NilErr then s' = sess_queueOut e t (InfoNotModified (msg_Id msg) [] (msg_Timestamp msg)) else update_reply e t msg usr' err ANil = Some s'"
    using assms tg usr
    by (cases "changeUserState e s u usr acc")
      (auto simp: replyUpdateUser_def Let_def emits_plain_queue split: if_splits prod.splits bind_splits
        dest: emits_plain_auth emits_plain_creds emits_plain_update_reply [OF emits_refl] emits_plain_update_reply emits_plain_queue)
  show thesis
  proof (cases changed)
    case True
    with ch that [OF tg _ usr] show thesis by (auto dest: emits_plain_update_reply [OF emits_refl])
  next
    case False
    then have "emits plain s t" using ch(1) by (auto simp: changeUserState_def Let_def emits_def split: prod.splits if_splits)
    with ch(3) False assms(2) show thesis by (auto split: if_splits dest: emits_plain_update_reply emits_plain_queue)
  qed
qed


definition suspend_msg :: MsgClientAcc where
  "suspend_msg = (the (cm_Acc acc_msg))\<lparr>acc_TmpScheme := [], acc_State := ''susp''\<rparr>"

definition root_session :: client_session where
  "root_session = greeted_session\<lparr>s_uid := 5, s_authLvl := LevelRoot\<rparr>"

definition root_msg :: ClientComMessage where
  "root_msg = empty_ClientComMessage\<lparr>msg_AsUser := UserId 5, msg_AuthLvl := LevelRoot\<rparr>"

lemma uid5: "ParseUserId (UserId 5) = 5" "UserId 5 \<noteq> []"
  by (rule ParseUserId_UserId) (simp add: UserId_def PrefixId_def Uid_IsZero_def ZeroUid_def)

lemma target5: "account_target root_session root_msg acc None = Inr (5, LevelRoot)" if "acc_User acc = []" for acc
  using that uid5 by (simp add: account_target_def root_session_def root_msg_def Uid_IsZero_def ZeroUid_def)

lemma suspension0:
  "replyUpdateUser sess_env0 root_session root_msg suspend_msg None = Some (emit (PluginAccount ((new_user 7)\<lparr>User_State := StateSuspended\<rparr>) ''upd'')
     (sess_queueOut sess_env0 (emit (HubUserStatus 7 5 StateSuspended) (emit (UsersUpdateState 7 5 StateSuspended) (emit (EvictUser 5 []) root_session)))
       (NoErrParams [] [] 0 ANil)))"
proof -
  have st: "NewObjState (un_lower (se_un sess_env0)) ''susp'' = (StateSuspended, None)" by code_simp
  have f: "acc_User suspend_msg = []" "acc_Scheme suspend_msg = []" "acc_Cred suspend_msg = []" "acc_State suspend_msg = ''susp''"
    "se_UsersGet sess_env0 = (\<lambda>tn u. Inr (Some (new_user tn)))" "se_UsersUpdateState sess_env0 = (\<lambda>_ _ _. NilErr)" "s_tenantID root_session = 7"
    by (simp_all add: suspend_msg_def acc_msg_def sess_env0_def root_session_def greeted_session_def)
  show ?thesis
    unfolding replyUpdateUser_def target5 [OF f(1)]
    by (simp add: f changeUserState_def st new_user_def update_reply_def root_msg_def empty_ClientComMessage_def StateSuspended_def StateOK_def
        StateUndefined_def Let_def)
qed


text \<open>
  An update of credentials is confirmed even if it failed: when a validator refuses a credential, the client of an
  existing user still gets the reply for success.
\<close>

theorem credential_error_hidden:
  assumes "account_target s msg acc rec = Inr (u, lvl)" "lvl \<noteq> LevelNone" "se_UsersGet e (s_tenantID s) u = Inr (Some usr)"
    "User_TenantID usr = s_tenantID s" "acc_Scheme acc = []" "acc_Cred acc \<noteq> []" "se_auth e ''token'' \<noteq> None"
    "addCreds (se_creds e) (s_tenantID s) u (acc_Cred acc) [] (s_lang s) (fst (snd (ah_GenSecret (the (se_auth e ''token''))
       (empty_rec\<lparr>rec_TenantID := s_tenantID s, rec_Uid := u, rec_AuthLevel := LevelNone, rec_Lifetime := day, rec_Features := FeatureNoLogin\<rparr>)))) = (out, Inl err)"
  shows "replyUpdateUser e s msg acc rec = Some (emit (PluginAccount usr ''upd'')
     (sess_queueOut e (fold (\<lambda>x. emit (SessStore x)) out s) (NoErrParams (msg_Id msg) [] (msg_Timestamp msg) ANil)))"
  using assms
  by (auto simp: replyUpdateUser_def update_creds_def update_reply_def Let_def split: prod.splits)

definition failing_env :: sess_env where
  "failing_env = sess_env0\<lparr>se_creds := cred_env0\<lparr>ce_validator := (\<lambda>_. Some \<lparr>v_IsInitialized = True,
     v_Request = (\<lambda>_ _ _ _ _ _. Inl (StoreErr types_ErrDuplicate)), v_Check = (\<lambda>_ _ _. Inr []), v_Remove = (\<lambda>_ _ _. NilErr)\<rparr>)\<rparr>\<rparr>"

definition cred_msg :: MsgClientAcc where
  "cred_msg = (the (cm_Acc acc_msg))\<lparr>acc_TmpScheme := [], acc_Cred := [\<lparr>cred_Method = ''email'', cred_Value = ''a@b.c'', cred_Response = [], cred_Params = []\<rparr>]\<rparr>"

theorem credential_error_hidden_witness:
  "replyUpdateUser failing_env root_session root_msg cred_msg None = Some (emit (PluginAccount (new_user 7) ''upd'')
     (sess_queueOut failing_env root_session (NoErrParams [] [] 0 ANil)))"
proof -
  have 1: "acc_User cred_msg = []" "acc_Scheme cred_msg = []" "acc_Cred cred_msg \<noteq> []" "se_auth failing_env ''token'' = Some auth_handler0"
    "se_UsersGet failing_env (s_tenantID root_session) 5 = Inr (Some (new_user 7))" "User_TenantID (new_user 7) = s_tenantID root_session"
    by (simp_all add: cred_msg_def acc_msg_def failing_env_def sess_env0_def root_session_def greeted_session_def new_user_def)
  have 2: "addCreds (se_creds failing_env) tn u (acc_Cred cred_msg) [] lang token = ([], Inl (StoreErr types_ErrDuplicate))" for tn u lang token
    by (simp add: addCreds_def cred_msg_def failing_env_def cred_env0_def)
  show ?thesis
    using credential_error_hidden [OF target5 [OF 1(1)] _ 1(5,6,2,3) _ 2] 1(4)
    by (simp add: level_defs root_msg_def empty_ClientComMessage_def)
qed

end
