(* ===== verification/SessionStore.thy ===== *)
theory SessionStore
  imports Dispatch
begin

section \<open>The store of live sessions (server/sessionstore.go)\<close>

text \<open>
  All sessions by id, and the long polling sessions in a list with the last used one in front, so that abandoned
  ones are found from the back. A Go map is an association list with each key once. A session that leaves the
  store is returned by the operation, with what it was told. The fatal error on a repeated session id and the
  panic on an unknown connection are \<open>None\<close>. The time is that of the monotonic clock.
\<close>

datatype connection = WebsockConn | HttpWriter | ClusterNode string int | GrpcStream | UnknownConn

record session_store =
  ss_lru :: "string list"
  ss_lifeTime :: int
  ss_sessCache :: "(string \<times> client_session) list"

definition NewSessionStore :: "int \<Rightarrow> session_store" where
  "NewSessionStore lifetime = \<lparr>ss_lru = [], ss_lifeTime = lifetime, ss_sessCache = []\<rparr>"

definition conn_proto :: "connection \<Rightarrow> session_proto option" where
  "conn_proto c =
     (case c of WebsockConn \<Rightarrow> Some WEBSOCK | HttpWriter \<Rightarrow> Some LPOLL | ClusterNode _ _ \<Rightarrow> Some MULTIPLEX | GrpcStream \<Rightarrow> Some GRPC
      | UnknownConn \<Rightarrow> None)"

definition conn_node :: "connection \<Rightarrow> (string \<times> int) option" where
  "conn_node c = (case c of ClusterNode name fp \<Rightarrow> Some (name, fp) | _ \<Rightarrow> None)"

text \<open>The loop from the back of the list: stale sessions go, the first fresh one ends it.\<close>

function expire_loop :: "time \<Rightarrow> session_store \<Rightarrow> client_session list \<Rightarrow> (session_store \<times> client_session list) option" where
  "expire_loop expire ss expired =
     (if ss_lru ss = [] then Some (ss, expired)
      else
        (case map_of (ss_sessCache ss) (last (ss_lru ss)) of
           None \<Rightarrow> None
         | Some sess \<Rightarrow>
             if cs_lastTouched sess < expire then
               expire_loop expire
                 (ss\<lparr>ss_lru := butlast (ss_lru ss), ss_sessCache := AList.delete (cs_sid sess) (ss_sessCache ss)\<rparr>)
                 (expired @ [sess])
             else Some (ss, expired)))"
  by pat_completeness auto
termination
  by (relation "measure (\<lambda>(_, ss, _). length (ss_lru ss))") auto

declare expire_loop.simps [simp del]

definition add_session :: "session_store \<Rightarrow> client_session \<Rightarrow> session_store" where
  "add_session ss s =
     ss\<lparr>ss_lru := (if s_proto s = LPOLL then cs_sid s # ss_lru ss else ss_lru ss),
        ss_sessCache := AList.update (cs_sid s) s (ss_sessCache ss)\<rparr>"

text \<open>\<open>gen\<close> is the id that is generated if the caller has none. The expired sessions are cleaned up after the list is done.\<close>

definition NewSession ::
  "session_store \<Rightarrow> connection \<Rightarrow> string \<Rightarrow> string \<Rightarrow> time \<Rightarrow> (session_store \<times> client_session \<times> nat \<times> client_session list) option" where
  "NewSession ss conn sid gen now =
     (let sid = (if sid = [] then gen else sid)
      in if map_of (ss_sessCache ss) sid \<noteq> None then None
         else do {
           proto \<leftarrow> conn_proto conn;
           (let s = (new_session sid proto)\<lparr>cs_lastTouched := now, cs_clnode := conn_node conn\<rparr>
            in do {
              (ss, expired) \<leftarrow> expire_loop (now - ss_lifeTime ss) (add_session ss s) [];
              Some (ss, s, length (ss_sessCache ss), map (cleanUp True) expired)
            })
         })"

definition move_to_front :: "string \<Rightarrow> string list \<Rightarrow> string list" where
  "move_to_front sid lru = (if sid \<in> set lru then sid # remove1 sid lru else lru)"

definition store_Get :: "session_store \<Rightarrow> string \<Rightarrow> time \<Rightarrow> session_store \<times> client_session option" where
  "store_Get ss sid now =
     (case map_of (ss_sessCache ss) sid of
        None \<Rightarrow> (ss, None)
      | Some s \<Rightarrow>
          if s_proto s = LPOLL then
            (let s = s\<lparr>cs_lastTouched := now\<rparr>
             in (ss\<lparr>ss_lru := move_to_front (cs_sid s) (ss_lru ss), ss_sessCache := AList.update sid s (ss_sessCache ss)\<rparr>, Some s))
          else (ss, Some s))"

definition store_Delete :: "session_store \<Rightarrow> client_session \<Rightarrow> session_store" where
  "store_Delete ss s =
     ss\<lparr>ss_sessCache := AList.delete (cs_sid s) (ss_sessCache ss),
        ss_lru := (if s_proto s = LPOLL then remove1 (cs_sid s) (ss_lru ss) else ss_lru ss)\<rparr>"

fun store_Range :: "('a \<Rightarrow> string \<Rightarrow> client_session \<Rightarrow> 'a \<times> bool) \<Rightarrow> 'a \<Rightarrow> (string \<times> client_session) list \<Rightarrow> 'a" where
  "store_Range f a [] = a"
| "store_Range f a ((sid, s) # rest) = (case f a sid s of (a, more_) \<Rightarrow> if more_ then store_Range f a rest else a)"

definition store_Shutdown :: "session_store \<Rightarrow> time \<Rightarrow> session_store" where
  "store_Shutdown ss now =
     ss\<lparr>ss_sessCache := map (\<lambda>(sid, s).
        (sid, if s_proto s = MULTIPLEX then s else stopSession (Some (NoErrShutdown now)) s)) (ss_sessCache ss)\<rparr>"

text \<open>Stop the sessions of the store that \<open>P\<close> selects and take them out.\<close>

definition stop_matching ::
  "(client_session \<Rightarrow> bool) \<Rightarrow> ServerComMessage option \<Rightarrow> session_store \<Rightarrow> session_store \<times> client_session list" where
  "stop_matching P m ss =
     (let gone = filter (\<lambda>(sid, s). P s) (ss_sessCache ss)
      in (ss\<lparr>ss_sessCache := filter (\<lambda>(sid, s). \<not> P s) (ss_sessCache ss),
             ss_lru := filter (\<lambda>sid. \<not> (\<exists>s \<in> snd ` set gone. s_proto s = LPOLL \<and> cs_sid s = sid)) (ss_lru ss)\<rparr>,
          map (\<lambda>(sid, s). stopSession m s) gone))"

definition store_EvictUser :: "session_store \<Rightarrow> uid \<Rightarrow> string \<Rightarrow> time \<Rightarrow> session_store \<times> client_session list" where
  "store_EvictUser ss u skipSid now =
     stop_matching (\<lambda>s. s_uid s = u \<and> s_proto s \<noteq> MULTIPLEX \<and> cs_sid s \<noteq> skipSid)
       (Some ((NoErrEvicted [] [] now)\<lparr>scm_AsUser := UserId u\<rparr>)) ss"

text \<open>A multiplexing session has the node it belongs to.\<close>

definition NodeRestarted :: "session_store \<Rightarrow> string \<Rightarrow> int \<Rightarrow> session_store \<times> client_session list" where
  "NodeRestarted ss nodeName fingerprint =
     stop_matching (\<lambda>s. s_proto s = MULTIPLEX \<and>
        (case cs_clnode s of None \<Rightarrow> False | Some (name, fp) \<Rightarrow> name = nodeName \<and> fp \<noteq> fingerprint)) None ss"

subsection \<open>The list and the map agree\<close>

definition touched :: "session_store \<Rightarrow> string \<Rightarrow> time" where
  "touched ss sid = (case map_of (ss_sessCache ss) sid of None \<Rightarrow> 0 | Some s \<Rightarrow> cs_lastTouched s)"

text \<open>
  Every session is stored under its own id, the list has exactly the long polling sessions, each once, from the last
  used one to the one that was used longest ago.
\<close>

definition store_ok :: "session_store \<Rightarrow> bool" where
  "store_ok ss \<longleftrightarrow>
     distinct (map fst (ss_sessCache ss)) \<and> (\<forall>(sid, s) \<in> set (ss_sessCache ss). cs_sid s = sid) \<and>
     distinct (ss_lru ss) \<and> set (ss_lru ss) = {sid. \<exists>s. (sid, s) \<in> set (ss_sessCache ss) \<and> s_proto s = LPOLL} \<and>
     sorted_wrt (\<lambda>a b. touched ss a \<ge> touched ss b) (ss_lru ss)"

definition not_after :: "time \<Rightarrow> session_store \<Rightarrow> bool" where
  "not_after now ss \<longleftrightarrow> (\<forall>(sid, s) \<in> set (ss_sessCache ss). cs_lastTouched s \<le> now)"

lemma store_ok_new: "store_ok (NewSessionStore lifetime)"
  by (simp add: store_ok_def NewSessionStore_def)

lemma store_ok_lookup: "store_ok ss \<Longrightarrow> map_of (ss_sessCache ss) sid = Some s \<longleftrightarrow> (sid, s) \<in> set (ss_sessCache ss)"
  by (simp add: store_ok_def)

lemma touched_eq: "store_ok ss \<Longrightarrow> (sid, s) \<in> set (ss_sessCache ss) \<Longrightarrow> touched ss sid = cs_lastTouched s"
  by (simp add: touched_def store_ok_def)

subsection \<open>Taking sessions out\<close>

text \<open>The store with the sessions that \<open>Q\<close> keeps: the reference for every operation that takes sessions out.\<close>

definition keep :: "(client_session \<Rightarrow> bool) \<Rightarrow> session_store \<Rightarrow> session_store" where
  "keep Q ss = ss\<lparr>ss_sessCache := filter (\<lambda>(sid, s). Q s) (ss_sessCache ss),
     ss_lru := filter (\<lambda>sid. \<exists>s. (sid, s) \<in> set (ss_sessCache ss) \<and> Q s) (ss_lru ss)\<rparr>"

lemma keep_simps [simp]:
  "(sid, s) \<in> set (ss_sessCache (keep Q ss)) \<longleftrightarrow> (sid, s) \<in> set (ss_sessCache ss) \<and> Q s"
  "ss_lifeTime (keep Q ss) = ss_lifeTime ss"
  by (auto simp: keep_def)

lemma keep_all: "(\<And>sid s. (sid, s) \<in> set (ss_sessCache ss) \<Longrightarrow> Q s) \<Longrightarrow> store_ok ss \<Longrightarrow> keep Q ss = ss"
  unfolding keep_def store_ok_def by (cases ss) (auto intro!: filter_True, blast)

lemma keep_cong: "(\<And>sid s. (sid, s) \<in> set (ss_sessCache ss) \<Longrightarrow> Q s = R s) \<Longrightarrow> keep Q ss = keep R ss"
  unfolding keep_def by (auto intro!: arg_cong2 [where f = "\<lambda>a b. ss\<lparr>ss_sessCache := a, ss_lru := b\<rparr>"] filter_cong)

lemma keep_keep: "store_ok ss \<Longrightarrow> keep Q (keep R ss) = keep (\<lambda>s. R s \<and> Q s) ss"
  unfolding keep_def by (cases ss) (auto intro!: filter_cong simp: case_prod_beta)

lemma store_ok_cacheD:
  assumes "store_ok ss"
  shows "distinct (map fst (ss_sessCache ss))" and "distinct (ss_lru ss)"
    and "(sid, s) \<in> set (ss_sessCache ss) \<Longrightarrow> cs_sid s = sid"
    and "(sid, s) \<in> set (ss_sessCache ss) \<Longrightarrow> (sid, s') \<in> set (ss_sessCache ss) \<Longrightarrow> s = s'"
    and "sid \<in> set (ss_lru ss) \<longleftrightarrow> (\<exists>s. (sid, s) \<in> set (ss_sessCache ss) \<and> s_proto s = LPOLL)"
    and "sorted_wrt (\<lambda>a b. touched ss a \<ge> touched ss b) (ss_lru ss)"
  using assms by (auto simp: store_ok_def dest: eq_key_imp_eq_value)

lemma store_okI:
  assumes "distinct (map fst (ss_sessCache ss))" and "distinct (ss_lru ss)"
    and "\<And>sid s. (sid, s) \<in> set (ss_sessCache ss) \<Longrightarrow> cs_sid s = sid"
    and "\<And>sid. sid \<in> set (ss_lru ss) \<longleftrightarrow> (\<exists>s. (sid, s) \<in> set (ss_sessCache ss) \<and> s_proto s = LPOLL)"
    and "sorted_wrt (\<lambda>a b. touched ss a \<ge> touched ss b) (ss_lru ss)"
  shows "store_ok ss"
  using assms by (auto simp: store_ok_def)

lemma touched_distinct:
  "distinct (map fst (ss_sessCache ss)) \<Longrightarrow> (sid, s) \<in> set (ss_sessCache ss) \<Longrightarrow> touched ss sid = cs_lastTouched s"
  by (simp add: touched_def)

lemma sorted_wrt_touched:
  assumes "sorted_wrt (\<lambda>a b. touched ss a \<ge> touched ss b) xs" and "\<And>x. x \<in> set xs \<Longrightarrow> touched ss' x = touched ss x"
  shows "sorted_wrt (\<lambda>a b. touched ss' a \<ge> touched ss' b) xs"
  using assms by (auto intro: sorted_wrt_mono_rel [of xs "\<lambda>a b. touched ss a \<ge> touched ss b"])

lemma store_ok_keep:
  assumes "store_ok ss"
  shows "store_ok (keep Q ss)"
proof (rule store_okI)
  note ok = store_ok_cacheD [OF assms]
  show d: "distinct (map fst (ss_sessCache (keep Q ss)))"
    using ok(1) by (simp add: keep_def distinct_map_filter)
  show "distinct (ss_lru (keep Q ss))" using ok(2) by (simp add: keep_def)
  show "cs_sid s = sid" if "(sid, s) \<in> set (ss_sessCache (keep Q ss))" for sid s using that ok(3) by simp
  show "sid \<in> set (ss_lru (keep Q ss)) \<longleftrightarrow> (\<exists>s. (sid, s) \<in> set (ss_sessCache (keep Q ss)) \<and> s_proto s = LPOLL)" for sid
    using ok(4) by (auto simp: keep_def ok(5))
  show "sorted_wrt (\<lambda>a b. touched (keep Q ss) a \<ge> touched (keep Q ss) b) (ss_lru (keep Q ss))"
  proof (rule sorted_wrt_touched)
    show "sorted_wrt (\<lambda>a b. touched ss a \<ge> touched ss b) (ss_lru (keep Q ss))"
      using ok(6) by (simp add: keep_def sorted_wrt_filter)
    show "touched (keep Q ss) x = touched ss x" if "x \<in> set (ss_lru (keep Q ss))" for x
    proof -
      from that obtain s where "(x, s) \<in> set (ss_sessCache ss)" "Q s" by (auto simp: keep_def)
      then show ?thesis using touched_distinct [OF d, of x s] touched_distinct [OF ok(1), of x s] by simp
    qed
  qed
qed

lemma stop_matching_keep:
  assumes "store_ok ss"
  shows "fst (stop_matching P m ss) = keep (\<lambda>s. \<not> P s) ss"
proof -
  note ok = store_ok_cacheD [OF assms]
  have "filter (\<lambda>sid. \<not> (\<exists>s \<in> snd ` set (filter (\<lambda>(sid, s). P s) (ss_sessCache ss)). s_proto s = LPOLL \<and> cs_sid s = sid)) (ss_lru ss)
    = filter (\<lambda>sid. \<exists>s. (sid, s) \<in> set (ss_sessCache ss) \<and> \<not> P s) (ss_lru ss)"
    using ok(3,4) by (intro filter_cong refl) (auto simp: ok(5), (metis ok(3,4))+)
  then show ?thesis unfolding stop_matching_def keep_def Let_def fst_conv by (simp only:)
qed

lemma delete_is_filter: "AList.delete k xs = filter (\<lambda>(x, _). x \<noteq> k) xs"
  by (auto simp: AList.delete_eq intro!: filter_cong)

lemma store_Delete_keep:
  assumes "store_ok ss" and "\<And>x. (cs_sid s, x) \<in> set (ss_sessCache ss) \<Longrightarrow> s_proto x = s_proto s"
  shows "store_Delete ss s = keep (\<lambda>x. cs_sid x \<noteq> cs_sid s) ss"
proof -
  note ok = store_ok_cacheD [OF assms(1)]
  have "filter (\<lambda>(sid, _). sid \<noteq> cs_sid s) (ss_sessCache ss) = filter (\<lambda>(sid, x). cs_sid x \<noteq> cs_sid s) (ss_sessCache ss)"
    using ok(3) by (intro filter_cong refl) auto
  moreover have "(if s_proto s = LPOLL then remove1 (cs_sid s) (ss_lru ss) else ss_lru ss)
    = filter (\<lambda>sid. \<exists>x. (sid, x) \<in> set (ss_sessCache ss) \<and> cs_sid x \<noteq> cs_sid s) (ss_lru ss)"
    unfolding distinct_remove1_removeAll [OF ok(2)] removeAll_filter_not_eq
    using ok(3) assms(2) by (auto intro!: filter_cong filter_True [symmetric] simp: ok(5)) (metis ok(3))+
  ultimately show ?thesis by (simp add: store_Delete_def keep_def delete_is_filter)
qed


subsection \<open>Sessions come in and are used\<close>

lemma in_set_update:
  assumes "distinct (map fst al)"
  shows "(a, b) \<in> set (AList.update k v al) \<longleftrightarrow> (if a = k then b = v else (a, b) \<in> set al)"
proof -
  have "(a, b) \<in> set (AList.update k v al) \<longleftrightarrow> map_of (AList.update k v al) a = Some b"
    by (rule map_of_eq_Some_iff [symmetric]) (simp add: AList.distinct_update assms)
  then show ?thesis using assms by (auto simp: AList.update_conv')
qed

lemma store_ok_add_session:
  assumes "store_ok ss" and new: "map_of (ss_sessCache ss) (cs_sid s) = None" and "not_after (cs_lastTouched s) ss"
  shows "store_ok (add_session ss s)"
proof (rule store_okI)
  note ok = store_ok_cacheD [OF assms(1)]
  have fresh: "(cs_sid s, x) \<notin> set (ss_sessCache ss)" for x using new by (auto simp: map_of_eq_None_iff rev_image_eqI)
  then have cache: "(sid, x) \<in> set (ss_sessCache (add_session ss s)) \<longleftrightarrow> (sid, x) = (cs_sid s, s) \<or> (sid, x) \<in> set (ss_sessCache ss)" for sid x
    by (auto simp: add_session_def in_set_update [OF ok(1)])
  show d: "distinct (map fst (ss_sessCache (add_session ss s)))"
    using ok(1) by (simp add: add_session_def AList.distinct_update)
  from fresh have "cs_sid s \<notin> set (ss_lru ss)" by (simp add: ok(5))
  then show "distinct (ss_lru (add_session ss s))" using ok(2) by (simp add: add_session_def)
  show "cs_sid x = sid" if "(sid, x) \<in> set (ss_sessCache (add_session ss s))" for sid x using that ok(3) by (auto simp: cache)
  show "sid \<in> set (ss_lru (add_session ss s)) \<longleftrightarrow> (\<exists>x. (sid, x) \<in> set (ss_sessCache (add_session ss s)) \<and> s_proto x = LPOLL)" for sid
    using fresh unfolding cache by (auto simp: add_session_def ok(5))
  have same: "touched (add_session ss s) x = touched ss x" if "x \<in> set (ss_lru ss)" for x
    using that fresh by (auto simp: ok(5) touched_distinct [OF ok(1)] touched_distinct [OF d] cache)
  have "touched ss x \<le> cs_lastTouched s" if "x \<in> set (ss_lru ss)" for x
    using that assms(3) by (auto simp: ok(5) touched_distinct [OF ok(1)] not_after_def)
  moreover have "touched (add_session ss s) (cs_sid s) = cs_lastTouched s" by (rule touched_distinct [OF d]) (simp add: cache)
  moreover have "ss_lru (add_session ss s) = (if s_proto s = LPOLL then cs_sid s # ss_lru ss else ss_lru ss)"
    by (simp add: add_session_def)
  ultimately show "sorted_wrt (\<lambda>a b. touched (add_session ss s) a \<ge> touched (add_session ss s) b) (ss_lru (add_session ss s))"
    using sorted_wrt_touched [OF ok(6) same] same by simp
qed


lemma sorted_wrt_remove1: "sorted_wrt P xs \<Longrightarrow> sorted_wrt P (remove1 x xs)"
  by (induction xs) (auto dest: notin_set_remove1 in_set_remove1 set_remove1_subset [THEN subsetD])

lemma store_ok_Get:
  assumes "store_ok ss" and "not_after now ss"
  shows "store_ok (fst (store_Get ss sid now))"
proof (cases "\<exists>s. map_of (ss_sessCache ss) sid = Some s \<and> s_proto s = LPOLL")
  case True
  then obtain s where s: "map_of (ss_sessCache ss) sid = Some s" "s_proto s = LPOLL" by blast
  note ok = store_ok_cacheD [OF assms(1)]
  let ?s = "s\<lparr>cs_lastTouched := now\<rparr>"
  define ss' where "ss' = ss\<lparr>ss_lru := sid # remove1 sid (ss_lru ss), ss_sessCache := AList.update sid ?s (ss_sessCache ss)\<rparr>"
  have mem: "(sid, s) \<in> set (ss_sessCache ss)" using s(1) by (rule map_of_SomeD)
  have in_lru: "sid \<in> set (ss_lru ss)" and sid: "cs_sid s = sid" using mem s(2) ok(3) by (auto simp: ok(5))
  have "store_ok ss'"
  proof (rule store_okI)
    show d: "distinct (map fst (ss_sessCache ss'))" using ok(1) by (simp add: ss'_def AList.distinct_update)
    show "distinct (ss_lru ss')" using ok(2) by (simp add: ss'_def)
    have cache: "(i, x) \<in> set (ss_sessCache ss') \<longleftrightarrow> (if i = sid then x = ?s else (i, x) \<in> set (ss_sessCache ss))" for i x
      by (simp add: ss'_def in_set_update [OF ok(1)])
    show "cs_sid x = i" if "(i, x) \<in> set (ss_sessCache ss')" for i x
      using that ok(3) sid unfolding cache by (auto split: if_splits)
    show "i \<in> set (ss_lru ss') \<longleftrightarrow> (\<exists>x. (i, x) \<in> set (ss_sessCache ss') \<and> s_proto x = LPOLL)" for i
      using ok(2) s(2) unfolding cache by (cases "i = sid") (auto simp: ss'_def ok(5))
    have same: "touched ss' x = touched ss x" if "x \<in> set (remove1 sid (ss_lru ss))" for x
      using that ok(2) by (auto simp: touched_def ss'_def AList.update_conv')
    have now: "touched ss' sid = now" by (simp add: touched_def ss'_def AList.update_conv')
    have le: "touched ss x \<le> now" if "x \<in> set (ss_lru ss)" for x
      using that assms(2) by (auto simp: ok(5) touched_distinct [OF ok(1)] not_after_def)
    have lru: "ss_lru ss' = sid # remove1 sid (ss_lru ss)" by (simp add: ss'_def)
    show "sorted_wrt (\<lambda>a b. touched ss' a \<ge> touched ss' b) (ss_lru ss')"
      using sorted_wrt_touched [OF sorted_wrt_remove1 [OF ok(6), of sid], where ss' = ss'] same now le
        set_remove1_subset [of sid "ss_lru ss"] unfolding lru by (simp add: subset_iff)
  qed
  then show ?thesis using s in_lru sid by (simp add: ss'_def store_Get_def move_to_front_def Let_def)
qed (use assms in \<open>auto simp: store_Get_def split: option.splits\<close>)

subsection \<open>The loop that stops early\<close>

text \<open>Because the list is in the order of use, the first fresh session from the back shows that all others are fresh.\<close>

definition stale :: "time \<Rightarrow> client_session \<Rightarrow> bool" where
  "stale expire s \<longleftrightarrow> s_proto s = LPOLL \<and> cs_lastTouched s < expire"

lemma expire_step:
  assumes ok: "store_ok ss" and ne: "ss_lru ss \<noteq> []" and s: "map_of (ss_sessCache ss) (last (ss_lru ss)) = Some s"
  shows "ss\<lparr>ss_lru := butlast (ss_lru ss), ss_sessCache := AList.delete (cs_sid s) (ss_sessCache ss)\<rparr> =
     keep (\<lambda>x. cs_sid x \<noteq> cs_sid s) ss" and "cs_sid s = last (ss_lru ss)" and "s_proto s = LPOLL"
    and "cs_lastTouched s = touched ss (last (ss_lru ss))"
proof -
  note cache = store_ok_cacheD [OF ok]
  have mem: "(last (ss_lru ss), s) \<in> set (ss_sessCache ss)" using s by (rule map_of_SomeD)
  then show sid: "cs_sid s = last (ss_lru ss)" by (rule cache(3))
  from ne have "last (ss_lru ss) \<in> set (ss_lru ss)" by simp
  then show lp: "s_proto s = LPOLL" using cache(4) [OF mem] by (auto simp: cache(5))
  show "cs_lastTouched s = touched ss (last (ss_lru ss))" using s by (simp add: touched_def)
  have "butlast (ss_lru ss) = remove1 (cs_sid s) (ss_lru ss)"
    using cache(2) ne sid by (metis append_butlast_last_id distinct_butlast not_distinct_conv_prefix remove1_append append_Nil2 remove1.simps(2))
  then show "ss\<lparr>ss_lru := butlast (ss_lru ss), ss_sessCache := AList.delete (cs_sid s) (ss_sessCache ss)\<rparr> = keep (\<lambda>x. cs_sid x \<noteq> cs_sid s) ss"
    using store_Delete_keep [OF ok, of s] cache(4) [OF mem] lp sid by (cases ss) (auto simp: store_Delete_def)
qed


lemma sorted_wrt_last: "sorted_wrt P xs \<Longrightarrow> x \<in> set xs \<Longrightarrow> x = last xs \<or> P x (last xs)"
  by (cases xs rule: rev_cases) (auto simp: sorted_wrt_append)

lemma expire_loop_keep:
  assumes "store_ok ss"
  shows "\<exists>gone. expire_loop expire ss acc = Some (keep (\<lambda>s. \<not> stale expire s) ss, acc @ gone) \<and>
    set gone = {s. \<exists>sid. (sid, s) \<in> set (ss_sessCache ss) \<and> stale expire s} \<and> distinct (map cs_sid gone)"
  using assms
proof (induction expire ss acc rule: expire_loop.induct)
  case (1 expire ss acc)
  note ok = store_ok_cacheD [OF 1(2)]
  show ?case
  proof (cases "ss_lru ss = []")
    case True
    then have "\<not> stale expire s" if "(sid, s) \<in> set (ss_sessCache ss)" for sid s
      using that ok(5) [of sid] by (auto simp: stale_def)
    then show ?thesis using True keep_all [OF _ 1(2), of "\<lambda>s. \<not> stale expire s"] by (subst expire_loop.simps) auto
  next
    case False
    then have "last (ss_lru ss) \<in> set (ss_lru ss)" by simp
    then obtain s where s: "map_of (ss_sessCache ss) (last (ss_lru ss)) = Some s"
      using ok(1) by (auto simp: ok(5))
    note step = expire_step [OF 1(2) False s]
    show ?thesis
    proof (cases "cs_lastTouched s < expire")
      case True
      let ?ss = "keep (\<lambda>x. cs_sid x \<noteq> cs_sid s) ss"
      have ok': "store_ok ?ss" by (rule store_ok_keep [OF 1(2)])
      obtain gone where gone: "expire_loop expire ?ss (acc @ [s]) = Some (keep (\<lambda>s. \<not> stale expire s) ?ss, (acc @ [s]) @ gone)"
          "set gone = {s. \<exists>sid. (sid, s) \<in> set (ss_sessCache ?ss) \<and> stale expire s}" "distinct (map cs_sid gone)"
        using 1(1) [OF False s True] ok' unfolding step(1) by blast
      have "keep (\<lambda>s. \<not> stale expire s) ?ss = keep (\<lambda>s. \<not> stale expire s) ss"
        unfolding keep_keep [OF 1(2)] using True step(2,3) ok(3) ok(4) [OF map_of_SomeD [OF s]] by (intro keep_cong) (auto simp: stale_def)
      moreover have "expire_loop expire ss acc = expire_loop expire ?ss (acc @ [s])"
        using False s True by (subst expire_loop.simps) (simp add: step(1))
      moreover have "(last (ss_lru ss), s) \<in> set (ss_sessCache ss)" using s by (rule map_of_SomeD)
      moreover have "set (s # gone) = {s. \<exists>sid. (sid, s) \<in> set (ss_sessCache ss) \<and> stale expire s}"
      proof (rule set_eqI)
        fix x
        have "x = s" if "(sid, x) \<in> set (ss_sessCache ss)" "cs_sid x = cs_sid s" for sid
          using that ok(3) [OF that(1)] ok(4) [OF map_of_SomeD [OF s]] step(2) by simp
        then show "x \<in> set (s # gone) \<longleftrightarrow> x \<in> {s. \<exists>sid. (sid, s) \<in> set (ss_sessCache ss) \<and> stale expire s}"
          using map_of_SomeD [OF s] True step(3) unfolding list.set gone(2) by (auto simp: stale_def)
      qed
      moreover have "cs_sid s \<notin> cs_sid ` set gone" unfolding gone(2) by auto
      ultimately show ?thesis using gone(1,3) by (intro exI [of _ "s # gone"]) simp
    next
      case fresh: False
      have "\<not> stale expire x" if x: "(sid, x) \<in> set (ss_sessCache ss)" for sid x
      proof
        assume st: "stale expire x"
        then have "sid \<in> set (ss_lru ss)" using x by (auto simp: ok(5) stale_def)
        then have "touched ss sid \<ge> touched ss (last (ss_lru ss))"
          using sorted_wrt_last [OF ok(6)] by auto
        then show False using touched_distinct [OF ok(1) x] st fresh step(4) by (simp add: stale_def)
      qed
      then show ?thesis using False s fresh keep_all [OF _ 1(2), of "\<lambda>s. \<not> stale expire s"] by (subst expire_loop.simps) auto
    qed
  qed
qed

subsection \<open>The life of the store\<close>

text \<open>
  The operations on the store one after the other under its lock, while the clock does not go back. Between
  two operations a session may change in every way but its id, its protocol and the time it was used.
  A session that is deleted is the stored one, or one that has left the store before.
\<close>

inductive store_life :: "time \<Rightarrow> session_store \<Rightarrow> bool" where
  opened: "store_life now (NewSessionStore lifetime)"
| later: "store_life now ss \<Longrightarrow> now \<le> t \<Longrightarrow> store_life t ss"
| added: "store_life now ss \<Longrightarrow> NewSession ss conn sid gen now = Some (ss', s, n, gone) \<Longrightarrow> store_life now ss'"
| fetched: "store_life now ss \<Longrightarrow> store_life now (fst (store_Get ss sid now))"
| deleted: "store_life now ss \<Longrightarrow> (\<And>x. map_of (ss_sessCache ss) (cs_sid s) = Some x \<Longrightarrow> s_proto x = s_proto s) \<Longrightarrow>
    store_life now (store_Delete ss s)"
| changed: "store_life now ss \<Longrightarrow> map_of (ss_sessCache ss) sid = Some s \<Longrightarrow> cs_sid s' = cs_sid s \<Longrightarrow> s_proto s' = s_proto s \<Longrightarrow>
    cs_lastTouched s' = cs_lastTouched s \<Longrightarrow> store_life now (ss\<lparr>ss_sessCache := AList.update sid s' (ss_sessCache ss)\<rparr>)"
| evicted: "store_life now ss \<Longrightarrow> store_life now (fst (store_EvictUser ss u skipSid now))"
| restarted: "store_life now ss \<Longrightarrow> store_life now (fst (NodeRestarted ss nodeName fingerprint))"

lemma not_after_keep: "not_after now ss \<Longrightarrow> not_after now (keep Q ss)"
  by (auto simp: not_after_def)

lemma store_ok_change:
  assumes "store_ok ss" and s: "map_of (ss_sessCache ss) sid = Some s"
    and same: "cs_sid s' = cs_sid s" "s_proto s' = s_proto s" "cs_lastTouched s' = cs_lastTouched s"
  shows "store_ok (ss\<lparr>ss_sessCache := AList.update sid s' (ss_sessCache ss)\<rparr>)" (is "store_ok ?ss")
proof (rule store_okI)
  note ok = store_ok_cacheD [OF assms(1)]
  have mem: "(sid, s) \<in> set (ss_sessCache ss)" using s by (rule map_of_SomeD)
  have cache: "(i, x) \<in> set (ss_sessCache ?ss) \<longleftrightarrow> (if i = sid then x = s' else (i, x) \<in> set (ss_sessCache ss))" for i x
    by (simp add: in_set_update [OF ok(1)])
  show "distinct (map fst (ss_sessCache ?ss))" using ok(1) by (simp add: AList.distinct_update)
  show "distinct (ss_lru ?ss)" using ok(2) by simp
  show "cs_sid x = i" if "(i, x) \<in> set (ss_sessCache ?ss)" for i x
    using that ok(3) mem same(1) unfolding cache by (auto split: if_splits)
  show "i \<in> set (ss_lru ?ss) \<longleftrightarrow> (\<exists>x. (i, x) \<in> set (ss_sessCache ?ss) \<and> s_proto x = LPOLL)" for i
  proof -
    have "(\<exists>x. (sid, x) \<in> set (ss_sessCache ss) \<and> s_proto x = LPOLL) \<longleftrightarrow> s_proto s = LPOLL"
      using mem ok(4) [OF mem] by blast
    then show ?thesis unfolding cache using same(2) by (cases "i = sid") (simp_all add: ok(5))
  qed
  have "touched ?ss x = touched ss x" for x using s same(3) by (simp add: touched_def AList.update_conv')
  then show "sorted_wrt (\<lambda>a b. touched ?ss a \<ge> touched ?ss b) (ss_lru ?ss)" using ok(6) by simp
qed

lemma NewSession_run:
  assumes ok: "store_ok ss" "not_after now ss" and "map_of (ss_sessCache ss) (if sid = [] then gen else sid) = None" "conn_proto conn = Some proto"
  obtains s gone where "NewSession ss conn sid gen now =
      Some (keep (\<lambda>x. \<not> stale (now - ss_lifeTime ss) x) (add_session ss s), s,
        length (ss_sessCache (keep (\<lambda>x. \<not> stale (now - ss_lifeTime ss) x) (add_session ss s))), map (cleanUp True) gone)"
    and "s = (new_session (if sid = [] then gen else sid) proto)\<lparr>cs_lastTouched := now, cs_clnode := conn_node conn\<rparr>"
    and "store_ok (add_session ss s)"
    and "set gone = {x. \<exists>i. (i, x) \<in> set (ss_sessCache (add_session ss s)) \<and> stale (now - ss_lifeTime ss) x}"
    and "distinct (map cs_sid gone)"
proof -
  define s where "s = (new_session (if sid = [] then gen else sid) proto)\<lparr>cs_lastTouched := now, cs_clnode := conn_node conn\<rparr>"
  have ok': "store_ok (add_session ss s)"
    by (rule store_ok_add_session) (use assms in \<open>simp_all add: s_def new_session_def\<close>)
  from expire_loop_keep [OF ok', of "now - ss_lifeTime ss" "[]"] show ?thesis
    by (auto intro!: that [of s] s_def ok' simp: NewSession_def assms(3,4) Let_def s_def [symmetric])
qed

lemma NewSession_ok:
  assumes "store_ok ss" "not_after now ss" "NewSession ss conn sid gen now = Some (ss', s, n, gone)"
  shows "store_ok ss' \<and> not_after now ss'"
proof -
  let ?sid = "if sid = [] then gen else sid"
  obtain proto where new: "map_of (ss_sessCache ss) ?sid = None" "conn_proto conn = Some proto"
    using assms(3) by (auto simp: NewSession_def Let_def split: if_splits bind_splits)
  show ?thesis
  proof (rule NewSession_run [OF assms(1,2) new])
    fix s' gone'
    assume r: "NewSession ss conn sid gen now = Some (keep (\<lambda>x. \<not> stale (now - ss_lifeTime ss) x) (add_session ss s'), s',
        length (ss_sessCache (keep (\<lambda>x. \<not> stale (now - ss_lifeTime ss) x) (add_session ss s'))), map (cleanUp True) gone')"
      and s': "s' = (new_session ?sid proto)\<lparr>cs_lastTouched := now, cs_clnode := conn_node conn\<rparr>" and ok: "store_ok (add_session ss s')"
    have "not_after now (add_session ss s')"
      using assms(2) store_ok_cacheD(1) [OF assms(1)] by (auto simp: not_after_def add_session_def in_set_update s' split: if_splits)
    with r ok assms(3) show ?thesis by (auto simp: store_ok_keep not_after_keep)
  qed
qed

lemma store_life_ok: "store_life now ss \<Longrightarrow> store_ok ss \<and> not_after now ss"
proof (induction rule: store_life.induct)
  case (opened now lifetime)
  show ?case using store_ok_new by (simp add: not_after_def) (simp add: NewSessionStore_def)
next
  case (later now ss t)
  then show ?case by (auto simp: not_after_def)
next
  case (added now ss conn sid gen ss' s n gone)
  then show ?case using NewSession_ok by blast
next
  case (fetched now ss sid)
  then have "not_after now (fst (store_Get ss sid now))"
    using store_ok_cacheD(1) by (auto simp: not_after_def store_Get_def in_set_update Let_def split: option.splits if_splits)
  with fetched show ?case by (simp add: store_ok_Get)
next
  case (deleted now ss s)
  then have "store_Delete ss s = keep (\<lambda>x. cs_sid x \<noteq> cs_sid s) ss"
    by (intro store_Delete_keep) (auto simp: store_ok_lookup)
  with deleted show ?case by (simp add: store_ok_keep not_after_keep)
next
  case (changed now ss sid s s')
  then have "not_after now (ss\<lparr>ss_sessCache := AList.update sid s' (ss_sessCache ss)\<rparr>)"
    using store_ok_cacheD(1) [of ss] map_of_SomeD [OF changed(2)] by (auto simp: not_after_def in_set_update split: if_splits)
  with changed show ?case using store_ok_change by blast
qed (simp_all add: store_EvictUser_def NodeRestarted_def stop_matching_keep store_ok_keep not_after_keep)

subsection \<open>What the store promises\<close>


text \<open>
  C27. Looking for abandoned sessions from the back of the list and stopping at the first fresh one finds all of them: a new
  session is stored beside exactly the sessions that are not long polling sessions unused for the lifetime, and
  the others are cleaned up, each once. A fresh id and a known kind of connection are enough for this to succeed.
\<close>

theorem stale_sessions_expire:
  assumes "store_life now ss" and "conn_proto conn = Some proto"
    and "map_of (ss_sessCache ss) (if sid = [] then gen else sid) = None"
  shows "\<exists>ss' s gone. NewSession ss conn sid gen now = Some (ss', s, length (ss_sessCache ss'), map (cleanUp True) gone) \<and>
     cs_sid s = (if sid = [] then gen else sid) \<and> s_proto s = proto \<and>
     ss_sessCache ss' = filter (\<lambda>(_, x). \<not> (s_proto x = LPOLL \<and> cs_lastTouched x < now - ss_lifeTime ss)) (AList.update (cs_sid s) s (ss_sessCache ss)) \<and>
     set gone = {x. \<exists>i. (i, x) \<in> set (AList.update (cs_sid s) s (ss_sessCache ss)) \<and> s_proto x = LPOLL \<and> cs_lastTouched x < now - ss_lifeTime ss} \<and>
     distinct (map cs_sid gone)"
proof -
  from store_life_ok [OF assms(1)] have ok: "store_ok ss" "not_after now ss" by auto
  show ?thesis
  proof (rule NewSession_run [OF ok assms(3,2)])
    fix s gone
    assume r: "NewSession ss conn sid gen now =
        Some (keep (\<lambda>x. \<not> stale (now - ss_lifeTime ss) x) (add_session ss s), s,
          length (ss_sessCache (keep (\<lambda>x. \<not> stale (now - ss_lifeTime ss) x) (add_session ss s))), map (cleanUp True) gone)"
      and s: "s = (new_session (if sid = [] then gen else sid) proto)\<lparr>cs_lastTouched := now, cs_clnode := conn_node conn\<rparr>"
      and gone: "set gone = {x. \<exists>i. (i, x) \<in> set (ss_sessCache (add_session ss s)) \<and> stale (now - ss_lifeTime ss) x}" "distinct (map cs_sid gone)"
    have "cs_sid s = (if sid = [] then gen else sid)" "s_proto s = proto" by (simp_all add: s new_session_def)
    moreover have "ss_sessCache (add_session ss s) = AList.update (cs_sid s) s (ss_sessCache ss)" by (simp add: add_session_def)
    ultimately show ?thesis using r gone unfolding stale_def
      by (intro exI [of _ "keep (\<lambda>x. \<not> (s_proto x = LPOLL \<and> cs_lastTouched x < now - ss_lifeTime ss)) (add_session ss s)"] exI [of _ s] exI [of _ gone] conjI)
        (simp_all add: keep_def)
  qed
qed

text \<open>
  Evicting a user stops exactly the sessions of the user on this node, other than the one to be skipped: each of
  them is told so, cannot be found in the store any more and is not in the list; all others are as before.
\<close>

theorem evicted_user_has_no_sessions:
  assumes "store_life now ss" and "store_EvictUser ss u skipSid now = (ss', told)"
  shows "(\<forall>sid s. map_of (ss_sessCache ss') sid = Some s \<longleftrightarrow>
       map_of (ss_sessCache ss) sid = Some s \<and> \<not> (s_uid s = u \<and> s_proto s \<noteq> MULTIPLEX \<and> sid \<noteq> skipSid)) \<and>
     (\<forall>sid \<in> set (ss_lru ss'). \<exists>s. map_of (ss_sessCache ss') sid = Some s \<and> (s_uid s = u \<longrightarrow> sid = skipSid)) \<and>
     (\<forall>sid s. map_of (ss_sessCache ss) sid = Some s \<and> s_uid s = u \<and> s_proto s \<noteq> MULTIPLEX \<and> sid \<noteq> skipSid \<longrightarrow>
       stopSession (Some ((NoErrEvicted [] [] now)\<lparr>scm_AsUser := UserId u\<rparr>)) s \<in> set told)"
proof -
  from store_life_ok [OF assms(1)] have ok: "store_ok ss" by simp
  define Q where "Q = (\<lambda>s :: client_session. \<not> (s_uid s = u \<and> s_proto s \<noteq> MULTIPLEX \<and> cs_sid s \<noteq> skipSid))"
  have ss': "ss' = keep Q ss"
    using arg_cong [OF assms(2), of fst] unfolding store_EvictUser_def stop_matching_keep [OF ok] Q_def by simp
  have told: "told = map (\<lambda>(sid, s). stopSession (Some ((NoErrEvicted [] [] now)\<lparr>scm_AsUser := UserId u\<rparr>)) s)
      (filter (\<lambda>(sid, s). s_uid s = u \<and> s_proto s \<noteq> MULTIPLEX \<and> cs_sid s \<noteq> skipSid) (ss_sessCache ss))"
    using assms(2) by (simp add: store_EvictUser_def stop_matching_def Let_def)
  have ok': "store_ok ss'" unfolding ss' by (rule store_ok_keep [OF ok])
  note sid = store_ok_cacheD(3) [OF ok]
  have "map_of (ss_sessCache ss') i = Some s \<longleftrightarrow>
       map_of (ss_sessCache ss) i = Some s \<and> \<not> (s_uid s = u \<and> s_proto s \<noteq> MULTIPLEX \<and> i \<noteq> skipSid)" for i s
    unfolding store_ok_lookup [OF ok'] store_ok_lookup [OF ok] unfolding ss' using sid by (auto simp: Q_def)
  moreover have "\<exists>s. map_of (ss_sessCache ss') i = Some s \<and> (s_uid s = u \<longrightarrow> i = skipSid)" if "i \<in> set (ss_lru ss')" for i
    using that sid unfolding store_ok_cacheD(5) [OF ok'] store_ok_lookup [OF ok'] unfolding ss' by (auto simp: Q_def)
  moreover have "stopSession (Some ((NoErrEvicted [] [] now)\<lparr>scm_AsUser := UserId u\<rparr>)) s \<in> set told"
    if "map_of (ss_sessCache ss) i = Some s" "s_uid s = u" "s_proto s \<noteq> MULTIPLEX" "i \<noteq> skipSid" for i s
    using that sid unfolding store_ok_lookup [OF ok] told by force
  ultimately show ?thesis by blast
qed

text \<open>A store with a long polling session that was used last at 10 and a web socket session.\<close>

definition store0 :: session_store where
  "store0 = \<lparr>ss_lru = [''lp''], ss_lifeTime = 55,
     ss_sessCache = [(''lp'', (new_session ''lp'' LPOLL)\<lparr>cs_lastTouched := 10\<rparr>), (''ws'', (new_session ''ws'' WEBSOCK)\<lparr>cs_lastTouched := 10\<rparr>)]\<rparr>"

lemma store0_life: "store_life 10 store0"
proof -
  define ss where "ss = \<lparr>ss_lru = [''lp''], ss_lifeTime = 55, ss_sessCache = [(''lp'', (new_session ''lp'' LPOLL)\<lparr>cs_lastTouched := 10\<rparr>)]\<rparr>"
  note defs = ss_def NewSession_def NewSessionStore_def conn_proto_def conn_node_def add_session_def new_session_def expire_loop.simps Let_def
  have 1: "\<exists>s n gone. NewSession (NewSessionStore 55) HttpWriter ''lp'' [] 10 = Some (ss, s, n, gone)" by (simp add: defs)
  have 2: "\<exists>s n gone. NewSession ss WebsockConn ''ws'' [] 10 = Some (store0, s, n, gone)" by (simp add: defs store0_def)
  show ?thesis using 1 2 added [OF added [OF opened]] by blast
qed


theorem stale_sessions_expire_witness:
  "\<exists>ss' s gone. NewSession store0 GrpcStream ''g'' [] 100 = Some (ss', s, length (ss_sessCache ss'), map (cleanUp True) gone) \<and>
     map fst (ss_sessCache ss') = [''ws'', ''g''] \<and> cs_sid ` set gone = {''lp''}"
proof -
  have life: "store_life 100 store0" by (rule later [OF store0_life]) simp
  have new: "map_of (ss_sessCache store0) (if ''g'' = [] then [] else ''g'') = None" by (simp add: store0_def)
  have conn: "conn_proto GrpcStream = Some GRPC" by (simp add: conn_proto_def)
  from stale_sessions_expire [OF life conn new] obtain ss' s gone
    where r: "NewSession store0 GrpcStream ''g'' [] 100 = Some (ss', s, length (ss_sessCache ss'), map (cleanUp True) gone)"
    and s: "cs_sid s = ''g''" "s_proto s = GRPC"
    and ss': "ss_sessCache ss' = filter (\<lambda>(_, x). \<not> (s_proto x = LPOLL \<and> cs_lastTouched x < 100 - ss_lifeTime store0)) (AList.update (cs_sid s) s (ss_sessCache store0))"
    and gone: "set gone = {x. \<exists>i. (i, x) \<in> set (AList.update (cs_sid s) s (ss_sessCache store0)) \<and> s_proto x = LPOLL \<and> cs_lastTouched x < 100 - ss_lifeTime store0}"
    by (auto simp del: AList.update.simps)
  have 1: "map fst (ss_sessCache ss') = [''ws'', ''g'']" unfolding ss' using s by (simp add: store0_def new_session_def)
  have "set gone = {(new_session ''lp'' LPOLL)\<lparr>cs_lastTouched := 10\<rparr>}" unfolding gone using s by (auto simp: store0_def) (simp_all add: new_session_def)
  then have 2: "cs_sid ` set gone = {''lp''}" by (simp add: new_session_def)
  show ?thesis by (intro exI conjI) (rule r 1 2)+
qed

theorem evicted_user_has_no_sessions_witness:
  "map_of (ss_sessCache (fst (store_EvictUser store0 ZeroUid ''ws'' 10))) ''lp'' = None \<and>
   map_of (ss_sessCache (fst (store_EvictUser store0 ZeroUid ''ws'' 10))) ''ws'' \<noteq> None"
proof -
  obtain ss' told where r: "store_EvictUser store0 ZeroUid ''ws'' 10 = (ss', told)" by fastforce
  note e = evicted_user_has_no_sessions [OF store0_life r, THEN conjunct1, rule_format]
  have "map_of (ss_sessCache ss') ''lp'' = None"
  proof (cases "map_of (ss_sessCache ss') ''lp''")
    case (Some s)
    then have "s_uid s = ZeroUid \<and> s_proto s = LPOLL \<and> \<not> (s_uid s = ZeroUid \<and> s_proto s \<noteq> MULTIPLEX)"
      unfolding e by (auto simp: store0_def new_session_def)
    then show ?thesis by (elim conjE notE) simp
  qed
  moreover have "map_of (ss_sessCache ss') ''ws'' = Some ((new_session ''ws'' WEBSOCK)\<lparr>cs_lastTouched := 10\<rparr>)"
    unfolding e by (simp add: store0_def)
  ultimately show ?thesis using r by simp
qed

end
