(* ===== verification/InitTopic.thy ===== *)
theory InitTopic
  imports Accounts TopicMeta
begin

section \<open>Loading and creating topics (server/init\_topic.go)\<close>

text \<open>
  A topic is made ready from the answers of the store and from the request that asked for it. A routine gives
  the calls that change something elsewhere, in order, and the error or the topic with the request, which
  is told whether the topic and the subscription are new. A request always has its session. A panic is
  \<open>None\<close>. Channels of the topic are made by the hub.
\<close>

datatype init_effect =
    LogOutSession string
  | CreateTopic tenant_id stored_topic uid go_any
  | CreateP2P tenant_id subscription subscription
  | CreateSub tenant_id subscription
  | LinkAvatar tenant_id string "string list"

record init_env =
  ie_now :: time
  ie_un :: unicode_tables
  ie_config :: server_config
  ie_sess :: "string \<Rightarrow> session"
  ie_UsersGet :: "tenant_id \<Rightarrow> uid \<Rightarrow> store_result + user option"
  ie_UsersGetAll :: "tenant_id \<Rightarrow> uid \<Rightarrow> uid \<Rightarrow> store_result + user list"
  ie_TopicsGet :: "tenant_id \<Rightarrow> string \<Rightarrow> store_result + stored_topic option"
  ie_TopicsGetSubs :: "tenant_id \<Rightarrow> string \<Rightarrow> store_result + subscription list"
  ie_TopicsGetUsers :: "tenant_id \<Rightarrow> string \<Rightarrow> store_result + subscription list"
  ie_TopicsCreate :: "tenant_id \<Rightarrow> stored_topic \<Rightarrow> uid \<Rightarrow> go_any \<Rightarrow> store_result"
  ie_TopicsCreateP2P :: "tenant_id \<Rightarrow> subscription \<Rightarrow> subscription \<Rightarrow> store_result + (subscription \<times> subscription)"
  ie_SubsCreate :: "tenant_id \<Rightarrow> subscription \<Rightarrow> store_result"

type_synonym init_result = "(init_effect list \<times> (store_result + (topic \<times> ClientComMessage))) option"

abbreviation ie_modeP2P :: "init_env \<Rightarrow> access_mode" where
  "ie_modeP2P e \<equiv> gc_typesModeCP2P (ie_config e)"

subsection \<open>Subscribers\<close>

definition loaded_user :: "subscription \<Rightarrow> topic_user" where
  "loaded_user sub = user0\<lparr>u_delID := Sub_DelId sub, u_readID := ReadSeqId sub, u_recvID := RecvSeqId sub, u_private := Sub_Private sub,
     u_modeWant := ModeWant sub, u_modeGiven := ModeGiven sub\<rparr>"

definition load_subscriber :: "subscription \<Rightarrow> topic \<Rightarrow> topic" where
  "load_subscriber sub t =
     (let u = ParseUid (Sub_User sub); t = t\<lparr>t_perUser := AList.update u (loaded_user sub) (t_perUser t)\<rparr>
      in if IsOwner (ModeGiven sub AND ModeWant sub) then t\<lparr>t_owner := u\<rparr> else t)"

definition loadSubscribers :: "init_env \<Rightarrow> topic \<Rightarrow> store_result + topic" where
  "loadSubscribers e t =
     (case ie_TopicsGetSubs e (t_tenantID t) (t_name t) of
        Inl err \<Rightarrow> Inl err
      | Inr subs \<Rightarrow> Inr (fold load_subscriber subs t))"

text \<open>The times and counters of a stored topic.\<close>

definition stored_times :: "stored_topic \<Rightarrow> topic \<Rightarrow> topic" where
  "stored_times st t =
     t\<lparr>t_created := CreatedAt st, t_updated := UpdatedAt st,
       t_touched := (if time_IsZero (ST_TouchedAt st) then t_touched t else ST_TouchedAt st)\<rparr>"

subsection \<open>The topics of a user\<close>

definition initTopicMe :: "init_env \<Rightarrow> string \<Rightarrow> topic \<Rightarrow> ClientComMessage \<Rightarrow> init_result" where
  "initTopicMe e sid t m =
     (case ie_UsersGet e (t_tenantID t) (ParseUserId (t_name t)) of
        Inl err \<Rightarrow> Some ([LogOutSession sid], Inl err)
      | Inr None \<Rightarrow> Some ([LogOutSession sid], Inl (StoreErr types_ErrUserNotFound))
      | Inr (Some usr) \<Rightarrow>
          (case loadSubscribers e (t\<lparr>t_cat := TopicCatMe, t_accessAuth := Auth (User_Access usr), t_accessAnon := Anon (User_Access usr),
               t_tags := User_Tags usr\<rparr>) of
             Inl err \<Rightarrow> Some ([], Inl err)
           | Inr t \<Rightarrow>
               Some ([], Inr (t\<lparr>t_public := User_Public usr, t_trusted := User_Trusted usr, t_created := CreatedAt usr,
                 t_updated := UpdatedAt usr, t_userAgent := s_userAgent (ie_sess e sid),
                 t_perSubs := (if t_isProxy t then t_perSubs t else [])\<rparr>, m))))"

definition initTopicFnd :: "init_env \<Rightarrow> string \<Rightarrow> topic \<Rightarrow> ClientComMessage \<Rightarrow> init_result" where
  "initTopicFnd e sid t m =
     (let u = ParseUserId (msg_AsUser m)
      in if Uid_IsZero u then Some ([], Inl (StoreErr types_ErrNotFound))
         else
           (case ie_UsersGet e (t_tenantID t) u of
              Inl err \<Rightarrow> Some ([], Inl err)
            | Inr None \<Rightarrow> Some (if isMultiplex (ie_sess e sid) then [] else [LogOutSession sid], Inl (StoreErr types_ErrNotFound))
            | Inr (Some usr) \<Rightarrow> do {
                auth \<leftarrow> getDefaultAccess (ie_modeP2P e) TopicCatFnd True False;
                anon \<leftarrow> getDefaultAccess (ie_modeP2P e) TopicCatFnd False False;
                (case loadSubscribers e (t\<lparr>t_cat := TopicCatFnd, t_accessAuth := auth, t_accessAnon := anon\<rparr>) of
                   Inl err \<Rightarrow> Some ([], Inl err)
                 | Inr t \<Rightarrow> Some ([], Inr (t\<lparr>t_created := CreatedAt usr, t_updated := UpdatedAt usr\<rparr>, m)))
              }))"

subsection \<open>Peer-to-peer topics\<close>

text \<open>Case 4: both subscriptions exist. Each user sees the public data of the other, which the store has swapped.\<close>

definition p2p_user :: "subscription \<Rightarrow> subscription \<Rightarrow> topic_user" where
  "p2p_user sub other =
     (loaded_user sub)\<lparr>u_public := sub_public sub, u_lastSeen := GetLastSeen sub, u_lastUA := GetUserAgent sub,
       u_topicName := UserId (ParseUid (Sub_User other))\<rparr>"

definition p2p_load :: "subscription \<Rightarrow> subscription \<Rightarrow> topic \<Rightarrow> topic" where
  "p2p_load sub1 sub2 t =
     t\<lparr>t_perUser := AList.update (ParseUid (Sub_User sub2)) (p2p_user sub2 sub1)
        (AList.update (ParseUid (Sub_User sub1)) (p2p_user sub1 sub2) (t_perUser t))\<rparr>"

text \<open>The subscription of the other user, made from what the requester offers.\<close>

definition p2p_offer :: "init_env \<Rightarrow> topic \<Rightarrow> MsgClientSub \<Rightarrow> uid \<Rightarrow> user \<Rightarrow> subscription" where
  "p2p_offer e t pkt u2 usr1 =
     (let acs = do { q \<leftarrow> sub_Set pkt; d \<leftarrow> sq_Desc q; sd_DefaultAcs d };
          given = (case acs of
             Some acs \<Rightarrow> result_or (Auth (User_Access usr1)) (AccessMode_UnmarshalText (Auth (User_Access usr1)) (da_Auth acs))
           | None \<Rightarrow> Auth (User_Access usr1))
      in sub0\<lparr>Sub_TenantID := t_tenantID t, Sub_User := Uid_String u2, Sub_Topic := t_name t,
           ModeGiven := (given AND ie_modeP2P e) OR ModeApprove, sub_public := User_Public usr1, sub_trusted := User_Trusted usr1\<rparr>)"

text \<open>What the requester wants: as much as he gives, unless the request says otherwise.\<close>

definition p2p_want :: "init_env \<Rightarrow> MsgClientSub \<Rightarrow> uid \<Rightarrow> access_mode \<Rightarrow> access_mode" where
  "p2p_want e pkt u1 dflt =
     (case sub_Set pkt of
        None \<Rightarrow> dflt
      | Some set_ \<Rightarrow>
          (case sq_Sub set_ of
             None \<Rightarrow> dflt
           | Some ss \<Rightarrow>
               (if ss_User ss \<noteq> [] \<and> ParseUserId (ss_User ss) \<noteq> u1 then dflt
                else (result_or dflt (AccessMode_UnmarshalText dflt (ss_Mode ss)) AND ie_modeP2P e) OR ModeApprove) OR ModeJoin))"

definition p2p_private :: "MsgClientSub \<Rightarrow> go_any" where
  "p2p_private pkt =
     (case sub_Set pkt of
        None \<Rightarrow> ANil
      | Some set_ \<Rightarrow> (case sq_Desc set_ of None \<Rightarrow> ANil | Some d \<Rightarrow> not_null (sd_Private d)))"

definition p2p_request :: "init_env \<Rightarrow> topic \<Rightarrow> MsgClientSub \<Rightarrow> level \<Rightarrow> uid \<Rightarrow> user \<Rightarrow> access_mode \<Rightarrow> subscription" where
  "p2p_request e t pkt lvl u1 usr2 offered =
     sub0\<lparr>Sub_TenantID := t_tenantID t, Sub_User := Uid_String u1, Sub_Topic := t_name t, ModeWant := p2p_want e pkt u1 offered,
       ModeGiven := selectAccessMode lvl (Anon (User_Access usr2)) (Auth (User_Access usr2)) (ie_modeP2P e),
       Sub_Private := p2p_private pkt, sub_public := User_Public usr2, sub_trusted := User_Trusted usr2\<rparr>"

text \<open>
  Cases 1 and 2: subscriptions are missing. The result is the subscription of the requester, that of the
  other user, whether only the first is made, the private data of the requester in the topic, and the request with
  its marks.
\<close>

definition p2p_subs ::
  "init_env \<Rightarrow> topic \<Rightarrow> MsgClientSub \<Rightarrow> level \<Rightarrow> uid \<Rightarrow> uid \<Rightarrow> user \<Rightarrow> user \<Rightarrow> subscription list \<Rightarrow>
    subscription \<times> subscription \<times> bool \<times> go_any \<times> MsgClientSub" where
  "p2p_subs e t pkt lvl u1 u2 usr1 usr2 subs =
     (let have1 = (case subs of [s] \<Rightarrow> if Sub_User s = Uid_String u1 then Some s else None | _ \<Rightarrow> None);
          have2 = (case subs of [s] \<Rightarrow> if Sub_User s = Uid_String u1 then None else Some s | _ \<Rightarrow> None);
          sub2 = (case have2 of Some s \<Rightarrow> s | None \<Rightarrow> p2p_offer e t pkt u2 usr1);
          pkt1 = (if have2 = None then pkt\<lparr>sub_Created := True\<rparr> else pkt);
          sub1 = (case have1 of Some s \<Rightarrow> s | None \<Rightarrow> p2p_request e t pkt lvl u1 usr2 (ModeGiven sub2));
          pkt2 = (if have1 = None then pkt1\<lparr>sub_Newsub := True\<rparr> else pkt1);
          user1only = (have2 \<noteq> None);
          want2 = (selectAccessMode lvl (Anon (User_Access usr2)) (Auth (User_Access usr2)) (ie_modeP2P e) AND ie_modeP2P e) OR ModeApprove
      in (sub1, if user1only then sub2 else sub2\<lparr>ModeWant := want2\<rparr>, user1only,
          if have1 = None then p2p_private pkt else ANil, pkt2))"

text \<open>The two users of the topic. Private data that is stored is not taken over.\<close>

definition p2p_made :: "uid \<Rightarrow> uid \<Rightarrow> subscription \<Rightarrow> subscription \<Rightarrow> go_any \<Rightarrow> topic \<Rightarrow> topic" where
  "p2p_made u1 u2 sub1 sub2 priv t =
     t\<lparr>t_perUser := AList.update u2
          ((loaded_user sub2)\<lparr>u_private := ANil, u_public := sub_public sub2, u_trusted := sub_trusted sub2, u_topicName := UserId u1\<rparr>)
        (AList.update u1
          ((loaded_user sub1)\<lparr>u_private := priv, u_public := sub_public sub1, u_trusted := sub_trusted sub1, u_topicName := UserId u2\<rparr>)
          (t_perUser t))\<rparr>"

definition p2p_create ::
  "init_env \<Rightarrow> topic \<Rightarrow> ClientComMessage \<Rightarrow> bool \<Rightarrow> subscription list \<Rightarrow> init_result" where
  "p2p_create e t m exists subs =
     (let u1 = ParseUserId (msg_AsUser m); u2 = ParseUserId (t_xoriginal t); tn = t_tenantID t
      in case ie_UsersGetAll e tn u1 u2 of
           Inl err \<Rightarrow> Some ([], Inl err)
         | Inr [a, b] \<Rightarrow> do {
             pkt \<leftarrow> cm_Sub m;
             (let (usr1, usr2) = (if user_uid a = u1 then (a, b) else (b, a));
                  (sub1, sub2, user1only, priv, pkt') = p2p_subs e t pkt (msg_AuthLvl m) u1 u2 usr1 usr2 subs;
                  m' = m\<lparr>cm_Sub := Some pkt'\<rparr>;
                  fin = (\<lambda>s1 s2 t. (p2p_made u1 u2 s1 s2 priv t)\<lparr>t_xoriginal := []\<rparr>)
              in if \<not> exists then
                   (case ie_TopicsCreateP2P e tn sub1 sub2 of
                      Inl err \<Rightarrow> Some ([], Inl err)
                    | Inr (s1, s2) \<Rightarrow>
                        Some ([CreateP2P tn s1 s2],
                          Inr (fin s1 s2 (t\<lparr>t_created := CreatedAt s1, t_updated := UpdatedAt s1, t_touched := UpdatedAt s1\<rparr>), m')))
                 else
                   (let made = (if user1only then sub1 else sub2)
                    in case ie_SubsCreate e tn made of
                         NilErr \<Rightarrow> Some ([CreateSub tn made], Inr (fin sub1 sub2 t, m'))
                       | err \<Rightarrow> Some ([], Inl err)))
           }
         | Inr _ \<Rightarrow> Some ([], Inl (StoreErr types_ErrUserNotFound)))"

definition initTopicP2P :: "init_env \<Rightarrow> topic \<Rightarrow> ClientComMessage \<Rightarrow> init_result" where
  "initTopicP2P e t m =
     (let t = t\<lparr>t_cat := TopicCatP2P\<rparr>; tn = t_tenantID t
      in case ie_TopicsGet e tn (t_name t) of
           Inl err \<Rightarrow> Some ([], Inl err)
         | Inr None \<Rightarrow> p2p_create e t m False []
         | Inr (Some st) \<Rightarrow>
             (case ie_TopicsGetUsers e tn (t_name t) of
                Inl err \<Rightarrow> Some ([], Inl err)
              | Inr [] \<Rightarrow> Some ([], Inl (StoreErr types_ErrInternal))
              | Inr subs \<Rightarrow>
                  (let t = (stored_times st t)\<lparr>t_aux := ST_Aux st, t_lastID := ST_SeqId st, t_delID := ST_DelId st\<rparr>
                   in case subs of
                        [sub1, sub2] \<Rightarrow> Some ([], Inr ((p2p_load sub1 sub2 t)\<lparr>t_xoriginal := []\<rparr>, m))
                      | _ \<Rightarrow> p2p_create e t m True subs)))"

subsection \<open>Groups and channels\<close>

definition grp_access :: "MsgSetDesc \<Rightarrow> topic \<Rightarrow> topic" where
  "grp_access d t =
     (case sd_DefaultAcs d of
        None \<Rightarrow> t
      | Some acs \<Rightarrow>
          (case parseTopicAccess acs (t_accessAuth t) (t_accessAnon t) of
             (auth, anon, Some _) \<Rightarrow>
               t\<lparr>t_accessAuth := (if IsInvalid auth then ModeNone else auth), t_accessAnon := (if IsInvalid anon then ModeNone else anon)\<rparr>
           | (auth, anon, None) \<Rightarrow>
               (if IsOwner auth \<or> IsOwner anon
                then t\<lparr>t_accessAuth := auth AND NOT ModeOwner, t_accessAnon := anon AND NOT ModeOwner\<rparr>
                else t\<lparr>t_accessAuth := auth, t_accessAnon := anon\<rparr>)))"

definition grp_tags :: "init_env \<Rightarrow> MsgSetQuery \<Rightarrow> topic \<Rightarrow> topic option" where
  "grp_tags e q t =
     (case normalizeTags (ie_un e) (sq_Tags q) (gc_maxTagCount (ie_config e)) of
        None \<Rightarrow> Some t
      | Some [] \<Rightarrow> Some t
      | Some tags \<Rightarrow> if restrictedTagsEqual (ie_un e) tags [] (gc_immutableTagNS (ie_config e)) then Some (t\<lparr>t_tags := tags\<rparr>) else None)"

text \<open>The parameters of a new group: the topic and the record of its owner, or a denial.\<close>

definition grp_params :: "init_env \<Rightarrow> level \<Rightarrow> MsgSetQuery option \<Rightarrow> topic \<Rightarrow> topic_user \<Rightarrow> (topic \<times> topic_user) option" where
  "grp_params e lvl q t ud =
     (case q of
        None \<Rightarrow> Some (t, ud)
      | Some q \<Rightarrow> do {
          (t, ud) \<leftarrow> (case sq_Desc q of
               None \<Rightarrow> Some (t, ud)
             | Some d \<Rightarrow>
                 if sd_Trusted d \<noteq> ANil \<and> lvl \<noteq> LevelRoot then None
                 else Some (grp_access d (t\<lparr>t_public := not_null (sd_Public d), t_trusted := not_null (sd_Trusted d)\<rparr>),
                        ud\<lparr>u_private := not_null (sd_Private d)\<rparr>));
          (let ud = (case sq_Sub q of
               None \<Rightarrow> ud
             | Some ss \<Rightarrow>
                 if ss_Mode ss = [] then ud
                 else ud\<lparr>u_modeWant := result_or ModeCFull (AccessMode_UnmarshalText ModeCFull (ss_Mode ss)) OR ModeJoin OR ModeOwner\<rparr>)
           in map_option (\<lambda>t. (t, ud)) (grp_tags e q t))
        })"

definition stored_topic0 :: stored_topic where
  "stored_topic0 = \<lparr>Id = [], header_id = ZeroUid, CreatedAt = 0, UpdatedAt = 0, ST_TenantID = 0, ST_State = StateOK, ST_StateAt = None,
     ST_TouchedAt = 0, ST_UseBt = False, ST_Owner = [], ST_Access = \<lparr>Auth = 0, Anon = 0\<rparr>, ST_SeqId = 0, ST_DelId = 0, ST_SubCnt = 0,
     ST_Public = ANil, ST_Trusted = ANil, ST_Tags = [], ST_Aux = [], ST_perUser = Map.empty\<rparr>"

definition topic_record :: "topic \<Rightarrow> string \<Rightarrow> time \<Rightarrow> topic_user \<Rightarrow> stored_topic" where
  "topic_record t rcptTo now ud =
     GiveAccess (stored_topic0\<lparr>Id := rcptTo, CreatedAt := now, ST_TenantID := t_tenantID t,
       ST_Access := \<lparr>Auth = t_accessAuth t, Anon = t_accessAnon t\<rparr>, ST_Tags := t_tags t\<rparr>) (t_owner t) (u_modeWant ud) (u_modeGiven ud)"

definition initTopicNewGrp :: "init_env \<Rightarrow> topic \<Rightarrow> ClientComMessage \<Rightarrow> bool \<Rightarrow> init_result" where
  "initTopicNewGrp e t m isChan =
     do {
       pkt \<leftarrow> cm_Sub m;
       auth \<leftarrow> getDefaultAccess (ie_modeP2P e) TopicCatGrp True isChan;
       anon \<leftarrow> getDefaultAccess (ie_modeP2P e) TopicCatGrp False isChan;
       (let owner = ParseUserId (msg_AsUser m); now = ie_now e; tn = t_tenantID t;
            t = t\<lparr>t_cat := TopicCatGrp, t_isChan := isChan, t_owner := owner, t_accessAuth := auth, t_accessAnon := anon\<rparr>
        in case grp_params e (msg_AuthLvl m) (sub_Set pkt) t (user0\<lparr>u_modeGiven := ModeCFull, u_modeWant := ModeCFull\<rparr>) of
             None \<Rightarrow> Some ([], Inl (StoreErr types_ErrPermissionDenied))
           | Some (t, ud) \<Rightarrow>
               (let t = t\<lparr>t_perUser := AList.update owner ud (t_perUser t), t_created := now, t_updated := now, t_touched := now\<rparr>;
                    st = (topic_record t (msg_RcptTo m) now ud)\<lparr>ST_UseBt := isChan, ST_Public := t_public t, ST_Trusted := t_trusted t\<rparr>
                in case ie_TopicsCreate e tn st owner (u_private ud) of
                     NilErr \<Rightarrow>
                       Some (CreateTopic tn st owner (u_private ud) #
                           (case cm_Extra m of
                              Some x \<Rightarrow> if extra_Attachments x = [] then [] else [LinkAvatar tn (t_name t) (extra_Attachments x)]
                            | None \<Rightarrow> []),
                         Inr (t\<lparr>t_xoriginal := t_name t, t_subCnt := 1\<rparr>, m\<lparr>cm_Sub := Some (pkt\<lparr>sub_Created := True, sub_Newsub := True\<rparr>)\<rparr>))
                   | err \<Rightarrow> Some ([], Inl err)))
     }"

definition initTopicGrp :: "init_env \<Rightarrow> topic \<Rightarrow> store_result + topic" where
  "initTopicGrp e t =
     (case ie_TopicsGet e (t_tenantID t) (t_name t) of
        Inl err \<Rightarrow> Inl err
      | Inr None \<Rightarrow> Inl (StoreErr types_ErrTopicNotFound)
      | Inr (Some st) \<Rightarrow>
          (case loadSubscribers e (t\<lparr>t_cat := TopicCatGrp\<rparr>) of
             Inl err \<Rightarrow> Inl err
           | Inr t \<Rightarrow>
               Inr ((stored_times st t)\<lparr>t_isChan := ST_UseBt st, t_accessAuth := Auth (ST_Access st), t_accessAnon := Anon (ST_Access st),
                 t_tags := ST_Tags st, t_aux := ST_Aux st, t_public := ST_Public st, t_trusted := ST_Trusted st,
                 t_lastID := ST_SeqId st, t_delID := ST_DelId st, t_subCnt := ST_SubCnt st, t_xoriginal := t_name t\<rparr>)))"

definition initTopicSys :: "init_env \<Rightarrow> topic \<Rightarrow> store_result + topic" where
  "initTopicSys e t =
     (case ie_TopicsGet e (t_tenantID t) (t_name t) of
        Inl err \<Rightarrow> Inl err
      | Inr None \<Rightarrow> Inl (StoreErr types_ErrTopicNotFound)
      | Inr (Some st) \<Rightarrow>
          (case loadSubscribers e (t\<lparr>t_cat := TopicCatSys\<rparr>) of
             Inl err \<Rightarrow> Inl err
           | Inr t \<Rightarrow>
               Inr ((stored_times st t)\<lparr>t_accessAuth := ModeWrite, t_accessAnon := ModeWrite, t_public := ST_Public st,
                 t_trusted := ST_Trusted st, t_lastID := ST_SeqId st\<rparr>)))"

subsection \<open>Notes to oneself\<close>

definition slf_create :: "init_env \<Rightarrow> topic \<Rightarrow> ClientComMessage \<Rightarrow> init_result" where
  "slf_create e t m =
     (let u = ParseUserId (msg_AsUser m); tn = t_tenantID t; now = ie_now e
      in case ie_UsersGet e tn u of
           Inl err \<Rightarrow> Some ([], Inl err)
         | Inr None \<Rightarrow> Some ([], Inl (StoreErr types_ErrUserNotFound))
         | Inr (Some _) \<Rightarrow> do {
             auth \<leftarrow> getDefaultAccess (ie_modeP2P e) TopicCatSlf True False;
             anon \<leftarrow> getDefaultAccess (ie_modeP2P e) TopicCatSlf False False;
             pkt \<leftarrow> cm_Sub m;
             (let t = t\<lparr>t_owner := u, t_accessAuth := auth, t_accessAnon := anon\<rparr>;
                  ud = user0\<lparr>u_modeGiven := auth, u_modeWant := auth, u_private := p2p_private pkt\<rparr>
              in case (case sub_Set pkt of None \<Rightarrow> Some t | Some q \<Rightarrow> grp_tags e q t) of
                   None \<Rightarrow> Some ([], Inl (StoreErr types_ErrPermissionDenied))
                 | Some t \<Rightarrow>
                     (let t = t\<lparr>t_perUser := AList.update u ud (t_perUser t), t_created := now, t_updated := now, t_touched := now\<rparr>;
                          st = topic_record t (msg_RcptTo m) now ud
                      in case ie_TopicsCreate e tn st u (u_private ud) of
                           NilErr \<Rightarrow> Some ([CreateTopic tn st u (u_private ud)],
                             Inr (t, m\<lparr>cm_Sub := Some (pkt\<lparr>sub_Created := True, sub_Newsub := True\<rparr>)\<rparr>))
                         | err \<Rightarrow> Some ([], Inl err)))
           })"

definition initTopicSlf :: "init_env \<Rightarrow> topic \<Rightarrow> ClientComMessage \<Rightarrow> init_result" where
  "initTopicSlf e t m =
     (let t = t\<lparr>t_cat := TopicCatSlf\<rparr>
      in case ie_TopicsGet e (t_tenantID t) (t_name t) of
           Inl err \<Rightarrow> Some ([], Inl err)
         | Inr None \<Rightarrow> slf_create e t m
         | Inr (Some st) \<Rightarrow>
             (case loadSubscribers e t of
                Inl err \<Rightarrow> Some ([], Inl err)
              | Inr t \<Rightarrow>
                  if t_perUser t = [] then Some ([], Inl (StoreErr types_ErrInternal))
                  else Some ([], Inr ((stored_times st t)\<lparr>t_aux := ST_Aux st, t_lastID := ST_SeqId st, t_delID := ST_DelId st\<rparr>, m))))"

subsection \<open>Which routine\<close>

definition init_topic :: "init_env \<Rightarrow> string \<Rightarrow> topic \<Rightarrow> ClientComMessage \<Rightarrow> init_result" where
  "init_topic e sid t m =
     (let x = t_xoriginal t; plain = (\<lambda>r. Some ([], map_sum id (\<lambda>t. (t, m)) r))
      in if x = ''me'' then initTopicMe e sid t m
         else if x = ''fnd'' then initTopicFnd e sid t m
         else if HasPrefix x ''usr'' \<or> HasPrefix x ''p2p'' then initTopicP2P e t m
         else if HasPrefix x ''new'' then initTopicNewGrp e t m False
         else if HasPrefix x ''nch'' then initTopicNewGrp e t m True
         else if HasPrefix x ''grp'' \<or> HasPrefix x ''chn'' then plain (initTopicGrp e t)
         else if x = ''sys'' then plain (initTopicSys e t)
         else if x = ''slf'' then initTopicSlf e t m
         else Some ([], Inl (StoreErr types_ErrTopicNotFound)))"

end
