(* ===== verification/Hub.thy ===== *)
theory Hub
  imports InitTopic Cluster
begin

section \<open>The hub (server/hub.go)\<close>

text \<open>
  The hub holds the topics that run on this node and hands requests to them. A topic has its queues; a send
  that may fail does so when the queue is at its capacity, a blocking send is done when there is room. What
  the hub and the routines it starts call elsewhere is recorded in order. The routines that answer for topics that are
  not loaded, that stop or suspend the topics of a user, and that make a topic ready run to their end
  when they are started or, for a topic, as a step of their own. A panic is \<open>None\<close>.
\<close>

record hub_topic = topic +
  q_reg :: "ClientComMessage list"
  q_clientMsg :: "ClientComMessage list"
  q_serverMsg :: "ServerComMessage list"
  q_unreg :: "ClientComMessage list"
  q_meta :: "ClientComMessage list"
  q_exit :: "(stop_reason \<times> bool) list"

datatype hub_effect =
    ToSession string ServerComMessage
  | RequestDone string
  | StartTopic topic_key ClientComMessage
  | RunTopic topic_key
  | Rejoin ClientComMessage
  | InitEffect init_effect
  | RegisterTopic topic_key
  | ToCluster string ServerComMessage
  | ToHub ServerComMessage
  | TopicsDelete tenant_id string bool bool
  | HubSubsDelete tenant_id string uid
  | HubSubsUpdate tenant_id string uid "sub_update list"
  | SendPush push_receipt
  | TopicGonePlugin tenant_id string
  | SubGonePlugin subscription
  | UserTopicsStopped
  | HubStopped

text \<open>A topic that is taken out of the map is among the leaving ones until it has read the request to exit.\<close>

record hub =
  h_topics :: "(topic_key \<times> hub_topic) list"
  h_leaving :: "(topic_key \<times> hub_topic) list"
  h_numTopics :: int
  h_out :: "hub_effect list"

record hub_env =
  he_now :: time
  he_cluster :: "cluster option"
  he_sess :: "string \<Rightarrow> session"
  he_inflight :: "string \<Rightarrow> bool"
  he_typesModeCP2P :: access_mode
  he_TopicsGet :: "tenant_id \<Rightarrow> string \<Rightarrow> store_result + stored_topic option"
  he_TopicsGetSubs :: "tenant_id \<Rightarrow> string \<Rightarrow> uid option \<Rightarrow> store_result + subscription list"
  he_TopicsDelete :: "tenant_id \<Rightarrow> string \<Rightarrow> bool \<Rightarrow> bool \<Rightarrow> store_result"
  he_SubsGet :: "tenant_id \<Rightarrow> string \<Rightarrow> uid \<Rightarrow> bool \<Rightarrow> store_result + subscription option"
  he_SubsDelete :: "tenant_id \<Rightarrow> string \<Rightarrow> uid \<Rightarrow> store_result"
  he_SubsUpdate :: "tenant_id \<Rightarrow> string \<Rightarrow> uid \<Rightarrow> sub_update list \<Rightarrow> store_result"
  he_UsersGet :: "tenant_id \<Rightarrow> uid \<Rightarrow> store_result + user option"

definition hub_put :: "hub_effect \<Rightarrow> hub \<Rightarrow> hub" where
  "hub_put x h = h\<lparr>h_out := h_out h @ [x]\<rparr>"

text \<open>\<^verbatim>\<open>queueOut\<close> of no session does nothing.\<close>

definition hub_reply :: "string option \<Rightarrow> ServerComMessage \<Rightarrow> hub \<Rightarrow> hub" where
  "hub_reply sess m h = (case sess of None \<Rightarrow> h | Some sid \<Rightarrow> hub_put (ToSession sid m) h)"

definition request_done :: "hub_env \<Rightarrow> string \<Rightarrow> hub \<Rightarrow> hub" where
  "request_done e sid h = (if he_inflight e sid then hub_put (RequestDone sid) h else h)"

definition change_topic :: "topic_key \<Rightarrow> (hub_topic \<Rightarrow> hub_topic) \<Rightarrow> hub \<Rightarrow> hub" where
  "change_topic key f h = h\<lparr>h_topics := AList.map_entry key f (h_topics h)\<rparr>"

subsection \<open>The map of topics\<close>

definition newHub :: hub where
  "newHub = \<lparr>h_topics = [], h_leaving = [], h_numTopics = 0, h_out = []\<rparr>"

definition topicGet :: "hub \<Rightarrow> topic_key \<Rightarrow> hub_topic option" where
  "topicGet h key = (if TopicKey_IsValid key then map_of (h_topics h) key else None)"

definition topicPut :: "hub \<Rightarrow> topic_key \<Rightarrow> hub_topic \<Rightarrow> hub option" where
  "topicPut h key t =
     (if \<not> TopicKey_IsValid key \<or> t_tenantID t \<noteq> TopicKey_TenantID key \<or> t_name t \<noteq> TopicKey_Topic key then None
      else Some (h\<lparr>h_numTopics := h_numTopics h + 1, h_topics := AList.update key t (h_topics h)\<rparr>))"

definition topicDel :: "hub \<Rightarrow> topic_key \<Rightarrow> hub" where
  "topicDel h key =
     (if TopicKey_IsValid key then h\<lparr>h_numTopics := h_numTopics h - 1, h_topics := AList.delete key (h_topics h)\<rparr> else h)"

definition new_topic :: "hub_env \<Rightarrow> ClientComMessage \<Rightarrow> topic_key \<Rightarrow> hub_topic" where
  "new_topic e jn key =
     \<lparr>t_tenantID = msg_TenantID jn, t_name = msg_RcptTo jn, t_xoriginal = msg_Original jn, t_cat = TopicCatMe, t_created = 0,
      t_updated = 0, t_touched = 0, t_lastID = 0, t_delID = 0, t_subCnt = 0, t_userAgent = [], t_owner = ZeroUid, t_accessAuth = 0,
      t_accessAnon = 0, t_tags = [], t_aux = [], t_public = ANil, t_trusted = ANil, t_perUser = [], t_modeWantUnion = 0,
      t_modeGivenUnion = 0, t_perSubs = [], t_sessions = [], t_currentCall = None, t_status = 0, t_isChan = False,
      t_isProxy = isRemoteTopic (he_cluster e) key, q_reg = [], q_clientMsg = [], q_serverMsg = [], q_unreg = [], q_meta = [], q_exit = []\<rparr>"

subsection \<open>Requests to join and messages to route\<close>

definition msg_key :: "ClientComMessage \<Rightarrow> topic_key" where
  "msg_key m = \<lparr>TopicKey_TenantID = msg_TenantID m, TopicKey_Topic = msg_RcptTo m\<rparr>"

definition hub_join :: "hub_env \<Rightarrow> ClientComMessage \<Rightarrow> hub \<Rightarrow> hub option" where
  "hub_join e jn h =
     (if \<not> TenantID_IsValid (msg_TenantID jn) then Some (hub_reply (msg_sess jn) (ErrMalformedReply jn (msg_Timestamp jn)) h)
      else
        (let key = msg_key jn
         in case topicGet h key of
              None \<Rightarrow> do {
                h \<leftarrow> topicPut h key (markPaused (new_topic e jn key) True);
                Some (hub_put (StartTopic key jn) h)
              }
            | Some t \<Rightarrow> do {
                sid \<leftarrow> msg_sess jn;
                Some (if isInactive t then hub_put (ToSession sid (ErrLockedReply jn (msg_Timestamp jn))) (request_done e sid h)
                  else if length (q_reg t) < 256 then change_topic key (\<lambda>t. t\<lparr>q_reg := q_reg t @ [jn]\<rparr>) h
                  else hub_put (ToSession sid (ErrServiceUnavailableReply jn (msg_Timestamp jn))) (request_done e sid h))
              }))"

definition hub_routeCli :: "hub_env \<Rightarrow> ClientComMessage \<Rightarrow> hub \<Rightarrow> hub" where
  "hub_routeCli e m h =
     (case topicGet h (msg_key m) of
        Some t \<Rightarrow> if length (q_clientMsg t) < 192 then change_topic (msg_key m) (\<lambda>t. t\<lparr>q_clientMsg := q_clientMsg t @ [m]\<rparr>) h else h
      | None \<Rightarrow>
          if cm_Note m = None then hub_reply (msg_sess m) (NoErrAcceptedExplicitTs (msg_Id m) (msg_RcptTo m) (he_now e) (msg_Timestamp m)) h
          else h)"

definition hub_routeSrv :: "hub_env \<Rightarrow> ServerComMessage \<Rightarrow> hub \<Rightarrow> hub" where
  "hub_routeSrv e m h =
     (let key = \<lparr>TopicKey_TenantID = scm_TenantID m, TopicKey_Topic = scm_RcptTo m\<rparr>
      in case topicGet h key of
           Some t \<Rightarrow> if length (q_serverMsg t) < 64 then change_topic key (\<lambda>t. t\<lparr>q_serverMsg := q_serverMsg t @ [m]\<rparr>) h else h
         | None \<Rightarrow>
             if (HasPrefix (scm_RcptTo m) ''usr'' \<or> HasPrefix (scm_RcptTo m) ''grp'') \<and> isRemoteTopic (he_cluster e) key
             then hub_put (ToCluster (scm_RcptTo m) m) h else h)"

subsection \<open>Topics that are not loaded\<close>

definition offline_message :: "ClientComMessage \<Rightarrow> time \<Rightarrow> ServerComMessage" where
  "offline_message m now = meta_message \<lparr>meta_Id = msg_Id m, meta_Topic = msg_Original m, meta_Timestamp = Some now, meta_Desc = None, meta_Sub = [],
     meta_Del = None, meta_Tags = [], meta_Cred = [], meta_Aux = []\<rparr>"

definition hub_error :: "hub_env \<Rightarrow> store_result \<Rightarrow> ClientComMessage \<Rightarrow> hub \<Rightarrow> hub option" where
  "hub_error e err m h =
     do {
       r \<leftarrow> decodeStoreErrorExplicitTs err (msg_Id m) (msg_Original m) (he_now e) (msg_Timestamp m) None;
       Some (hub_reply (msg_sess m) r h)
     }"

definition level_acs :: "level \<Rightarrow> default_access \<Rightarrow> MsgAccessMode" where
  "level_acs lvl acs =
     (if lvl = LevelAuth \<or> lvl = LevelRoot then acs0\<lparr>am_Mode := AccessMode_String (Auth acs)\<rparr>
      else if lvl = LevelAnon then acs0\<lparr>am_Mode := AccessMode_String (Anon acs)\<rparr>
      else acs0)"

text \<open>The description of a group as stored.\<close>

definition group_desc :: "level \<Rightarrow> string \<Rightarrow> stored_topic \<Rightarrow> MsgTopicDesc" where
  "group_desc lvl asUser st =
     desc0\<lparr>td_CreatedAt := Some (CreatedAt st), td_UpdatedAt := Some (UpdatedAt st), td_Public := ST_Public st, td_Trusted := ST_Trusted st,
       td_IsChan := ST_UseBt st, td_SubCnt := ST_SubCnt st,
       td_DefaultAcs := (if ST_Owner st = asUser
          then Some \<lparr>da_Auth = AccessMode_String (Auth (ST_Access st)), da_Anon = AccessMode_String (Anon (ST_Access st))\<rparr> else None),
       td_Acs := Some (level_acs lvl (ST_Access st))\<rparr>"

definition user_desc :: "level \<Rightarrow> user \<Rightarrow> MsgTopicDesc" where
  "user_desc lvl usr =
     desc0\<lparr>td_CreatedAt := Some (CreatedAt usr), td_UpdatedAt := Some (UpdatedAt usr), td_Public := User_Public usr,
       td_Trusted := User_Trusted usr, td_State := (if lvl = LevelRoot then ObjState_String (User_State usr) else []),
       td_Acs := Some (level_acs lvl (User_Access usr))\<rparr>"

text \<open>The other user of a peer-to-peer topic and its name, as the request gives them.\<close>

definition offline_peer :: "uid \<Rightarrow> string \<Rightarrow> uid \<times> string" where
  "offline_peer asUid topic =
     (if HasPrefix topic ''usr'' then (let u = ParseUserId topic in (u, P2PName asUid u))
      else if HasPrefix topic ''p2p'' then
        (case ParseP2P topic of
           Inr (u1, u2) \<Rightarrow> (if u1 = asUid then u2 else if u2 = asUid then u1 else ZeroUid, topic)
         | Inl _ \<Rightarrow> (ZeroUid, topic))
      else (ZeroUid, topic))"

definition offline_own :: "hub_env \<Rightarrow> ClientComMessage \<Rightarrow> string \<Rightarrow> MsgTopicDesc \<Rightarrow> hub \<Rightarrow> hub option" where
  "offline_own e m topic desc h =
     (case he_SubsGet e (msg_TenantID m) topic (ParseUserId (msg_AsUser m)) False of
        Inl err \<Rightarrow> hub_error e err m h
      | Inr sub \<Rightarrow>
          (let desc = (case sub of None \<Rightarrow> desc
               | Some s \<Rightarrow> desc\<lparr>td_Private := Sub_Private s, td_Acs := Some (mode_strings (ModeWant s) (ModeGiven s))\<rparr>);
               r = offline_message m (he_now e)
           in Some (hub_reply (msg_sess m) (r\<lparr>Meta := map_option (\<lambda>x. x\<lparr>meta_Desc := Some desc\<rparr>) (Meta r)\<rparr>) h)))"

definition replyOfflineTopicGetDesc :: "hub_env \<Rightarrow> string \<Rightarrow> ClientComMessage \<Rightarrow> hub \<Rightarrow> hub option" where
  "replyOfflineTopicGetDesc e sid m h =
     (let tn = msg_TenantID m; topic = msg_RcptTo m; now = he_now e; lvl = s_authLvl (he_sess e sid); asUid = ParseUserId (msg_AsUser m)
      in if HasPrefix topic ''grp'' \<or> topic = ''sys'' then
           (case he_TopicsGet e tn topic of
              Inl err \<Rightarrow> hub_error e err m h
            | Inr None \<Rightarrow> Some (hub_put (ToSession sid (ErrTopicNotFoundReply m now)) h)
            | Inr (Some st) \<Rightarrow> offline_own e m topic (group_desc lvl (msg_AsUser m) st) h)
         else
           (case offline_peer asUid topic of
              (u, topic) \<Rightarrow>
                if Uid_IsZero u then Some (hub_put (ToSession sid (ErrMalformedReply m now)) h)
                else
                  (case he_UsersGet e tn u of
                     Inl err \<Rightarrow> hub_error e err m h
                   | Inr None \<Rightarrow> Some (hub_put (ToSession sid (ErrUserNotFoundReply m now)) h)
                   | Inr (Some usr) \<Rightarrow> offline_own e m topic (user_desc lvl usr) h)))"

definition own_sub :: "topic_cat \<Rightarrow> subscription \<Rightarrow> MsgTopicSub" where
  "own_sub cat s =
     (case Sub_DeletedAt s of
        Some d \<Rightarrow> mts0\<lparr>ts_DeletedAt := Some d\<rparr>
      | None \<Rightarrow>
          (let mode = ModeGiven s AND ModeWant s;
               r = mts0\<lparr>ts_UpdatedAt := Some (UpdatedAt s), ts_Acs := mode_strings (ModeWant s) (ModeGiven s),
                 ts_Private := (if cat = TopicCatFnd then ANil else Sub_Private s), ts_User := UserId (ParseUid (Sub_User s))\<rparr>
           in if IsReader mode \<and> IsJoiner mode
              then r\<lparr>ts_DelId := Sub_DelId s, ts_ReadSeqId := ReadSeqId s, ts_RecvSeqId := RecvSeqId s\<rparr> else r))"

definition offline_name :: "ClientComMessage \<Rightarrow> string" where
  "offline_name m = (if IsChannel (msg_Original m) then msg_Original m else msg_RcptTo m)"

definition replyOfflineTopicGetSub :: "hub_env \<Rightarrow> string \<Rightarrow> ClientComMessage \<Rightarrow> MsgGetQuery \<Rightarrow> hub \<Rightarrow> hub option" where
  "replyOfflineTopicGetSub e sid m q h =
     (let now = he_now e; other = (case gq_Sub q of None \<Rightarrow> False | Some o1 \<Rightarrow> go_User o1 \<noteq> [] \<and> go_User o1 \<noteq> msg_AsUser m)
      in if other then Some (hub_put (ToSession sid (ErrPermissionDeniedReply m now)) h)
         else
           (case he_SubsGet e (msg_TenantID m) (offline_name m) (ParseUserId (msg_AsUser m)) True of
              Inl err \<Rightarrow> hub_error e err m h
            | Inr None \<Rightarrow> Some (hub_put (ToSession sid (ErrNotFoundExplicitTs (msg_Id m) (msg_Original m) now (msg_Timestamp m))) h)
            | Inr (Some s) \<Rightarrow> do {
                cat \<leftarrow> (if Sub_DeletedAt s = None then GetTopicCat (msg_RcptTo m) else Some TopicCatMe);
                (let r = offline_message m now
                 in Some (hub_put (ToSession sid (r\<lparr>Meta := map_option (\<lambda>x. x\<lparr>meta_Sub := [own_sub cat s]\<rparr>) (Meta r)\<rparr>)) h))
              }))"

text \<open>The new private data, if the request changes it.\<close>

definition offline_private :: "MsgSetQuery \<Rightarrow> subscription \<Rightarrow> sub_update list" where
  "offline_private q s =
     (case sq_Desc q of
        None \<Rightarrow> []
      | Some d \<Rightarrow>
          (case sd_Private d of
             ANil \<Rightarrow> []
           | AMap _ \<Rightarrow> (let (v, changed) = mergeInterfaces (Sub_Private s) (sd_Private d) in if changed then [UpdPrivate v] else [])
           | v \<Rightarrow> [UpdPrivate v]))"

definition offline_mode :: "hub_env \<Rightarrow> ClientComMessage \<Rightarrow> MsgSetQuery \<Rightarrow> subscription \<Rightarrow> (ServerComMessage + sub_update list) option" where
  "offline_mode e m q s =
     (let txt = (case sq_Sub q of None \<Rightarrow> [] | Some ss \<Rightarrow> ss_Mode ss); now = he_now e
      in if txt = [] then Some (Inr [])
         else
           (case AccessMode_UnmarshalText 0 txt of
              Inl err \<Rightarrow> map_option Inl (decodeStoreErrorExplicitTs (OtherErr err) (msg_Id m) (msg_Original m) now (msg_Timestamp m) None)
            | Inr want \<Rightarrow>
                if IsOwner want \<noteq> IsOwner (ModeWant s) then Some (Inl (ErrPermissionDeniedReply m now))
                else do {
                  cat \<leftarrow> GetTopicCat (msg_RcptTo m);
                  (let want = (if cat = TopicCatP2P then (want AND he_typesModeCP2P e) OR ModeApprove else want)
                   in Some (Inr (if want \<noteq> ModeWant s then [UpdModeWant want] else [])))
                }))"

definition replyOfflineTopicSetSub :: "hub_env \<Rightarrow> string \<Rightarrow> ClientComMessage \<Rightarrow> MsgSetQuery \<Rightarrow> hub \<Rightarrow> hub option" where
  "replyOfflineTopicSetSub e sid m q h =
     (let now = he_now e; tn = msg_TenantID m; asUid = ParseUserId (msg_AsUser m);
          noPriv = (case sq_Desc q of None \<Rightarrow> True | Some d \<Rightarrow> sd_Private d = ANil);
          noMode = (case sq_Sub q of None \<Rightarrow> True | Some ss \<Rightarrow> ss_Mode ss = []);
          other = (case sq_Sub q of None \<Rightarrow> False | Some ss \<Rightarrow> ss_User ss \<noteq> [] \<and> ss_User ss \<noteq> msg_AsUser m);
          answer = (\<lambda>r. Some (hub_put (ToSession sid r) h))
      in if noPriv \<and> noMode then answer (InfoNotModifiedReply m now)
         else if other then answer (ErrPermissionDeniedReply m now)
         else
           (case he_SubsGet e tn (offline_name m) asUid False of
              Inl err \<Rightarrow> hub_error e err m h
            | Inr None \<Rightarrow> answer (ErrNotFoundExplicitTs (msg_Id m) (msg_Original m) now (msg_Timestamp m))
            | Inr (Some s) \<Rightarrow> do {
                r \<leftarrow> offline_mode e m q s;
                (case r of
                   Inl refusal \<Rightarrow> answer refusal
                 | Inr mode \<Rightarrow>
                     (let upd = offline_private q s @ mode
                      in if upd = [] then answer (InfoNotModifiedReply m now)
                         else
                           (case he_SubsUpdate e tn (offline_name m) asUid upd of
                              NilErr \<Rightarrow>
                                (let want = (case mode of [UpdModeWant w] \<Rightarrow> w | _ \<Rightarrow> ModeWant s);
                                     params = (if mode = [] then ANil else AMap [(''acs'', acs_value (mode_strings want (ModeGiven s)))])
                                 in Some (hub_put (ToSession sid (NoErrParamsReply m now params))
                                      (hub_put (HubSubsUpdate tn (offline_name m) asUid upd) h)))
                            | err \<Rightarrow> hub_error e err m h)))
              }))"

definition hub_meta :: "hub_env \<Rightarrow> ClientComMessage \<Rightarrow> hub \<Rightarrow> hub option" where
  "hub_meta e m h =
     do {
       sid \<leftarrow> msg_sess m;
       (case cm_Get m of
          Some g \<Rightarrow>
            if msg_MetaWhat m = constMsgMetaDesc then replyOfflineTopicGetDesc e sid m h
            else replyOfflineTopicGetSub e sid m (get_Query g) h
        | None \<Rightarrow> (case cm_Set m of Some s \<Rightarrow> replyOfflineTopicSetSub e sid m (set_Query s) h | None \<Rightarrow> Some h))
     }"

subsection \<open>Stopping and deleting topics\<close>

definition stopped :: "stop_reason \<Rightarrow> bool \<Rightarrow> hub_topic \<Rightarrow> hub_topic" where
  "stopped reason waited t = (markDeleted t)\<lparr>q_exit := q_exit t @ [(reason, waited)]\<rparr>"

definition add_leaving :: "topic_key \<Rightarrow> hub_topic \<Rightarrow> hub \<Rightarrow> hub" where
  "add_leaving key t h = h\<lparr>h_leaving := h_leaving h @ [(key, t)]\<rparr>"

text \<open>Case 1.1.1: the requester is the owner, or the topic is a peer-to-peer topic with at most one user left.\<close>

definition unreg_owned ::
  "hub_env \<Rightarrow> topic_key \<Rightarrow> hub_topic \<Rightarrow> string option \<Rightarrow> ClientComMessage option \<Rightarrow> hub \<Rightarrow> (hub \<times> store_result) option" where
  "unreg_owned e key t sess msg h =
     (let tn = TopicKey_TenantID key; topic = TopicKey_Topic key; now = he_now e;
          hard = (case msg of None \<Rightarrow> True | Some m \<Rightarrow> (case cm_Del m of None \<Rightarrow> True | Some d \<Rightarrow> del_Hard d \<or> t_cat t = TopicCatP2P));
          err = he_TopicsDelete e tn topic (t_isChan t) hard
      in if err \<noteq> NilErr then
           (let h = change_topic key (\<lambda>t. markPaused t False) h
            in case sess of None \<Rightarrow> Some (h, err)
               | Some sid \<Rightarrow> do { m \<leftarrow> msg; Some (hub_put (ToSession sid (ErrUnknownReply m now)) h, err) })
         else
           (let h = hub_put (TopicsDelete tn topic (t_isChan t) hard) h
            in do {
              h \<leftarrow> (case sess of None \<Rightarrow> Some h | Some sid \<Rightarrow> do { m \<leftarrow> msg; Some (hub_put (ToSession sid (NoErrReply m now)) h) });
              (let h = (if t_isChan t then hub_put (SendPush (pushForChanDelete (t_tenantID t) (t_name t) now)) h else h)
               in Some (add_leaving key (stopped StopDeleted False (markPaused t True)) (topicDel h key), NilErr))
            }))"

text \<open>Case 1.2.2: a subscriber who is not the owner of a topic that is not loaded.\<close>

definition unreg_subscriber ::
  "hub_env \<Rightarrow> tenant_id \<Rightarrow> string \<Rightarrow> topic_cat \<Rightarrow> subscription list \<Rightarrow> subscription \<Rightarrow> string option \<Rightarrow> ClientComMessage \<Rightarrow> hub \<Rightarrow>
    (hub \<times> store_result) option" where
  "unreg_subscriber e tn topic cat subs sub sess m h =
     (let now = he_now e; asUid = ParseUserId (msg_AsUser m); lastP2P = (cat = TopicCatP2P \<and> length subs < 2)
      in do {
        del \<leftarrow> (if lastP2P then map_option del_Hard (cm_Del m) else Some False);
        (let err = (if lastP2P then he_TopicsDelete e tn topic False del else he_SubsDelete e tn topic asUid)
         in if err \<noteq> NilErr then
              Some (if \<not> lastP2P \<and> err = StoreErr types_ErrNotFound then (hub_reply sess (InfoNoActionReply m now) h, NilErr)
                    else (hub_reply sess (ErrUnknownReply m now) h, err))
            else do {
              sid \<leftarrow> sess;
              (let h = (if lastP2P then hub_put (TopicGonePlugin tn topic) (hub_put (TopicsDelete tn topic False del) h)
                        else hub_put (HubSubsDelete tn topic asUid) h);
                   h = hub_put (ToHub (pres_to_me tn (UserId asUid) ''gone'' (msg_Original m) nilPresParams sid)) h;
                   u2 = ParseUserId (msg_Original m);
                   h = (if cat = TopicCatP2P \<and> length subs = 2
                        then hub_put (ToHub (pres_to_me tn (UserId u2) ''off'' (UserId asUid) nilPresParams []))
                          (hub_put (ToHub (pres_to_me tn (UserId asUid) ''?none+rem'' (UserId u2) nilPresParams [])) h)
                        else h)
               in Some (hub_put (ToSession sid (NoErrReply m now)) (hub_put (SubGonePlugin (sub\<lparr>Sub_TenantID := tn\<rparr>)) h), NilErr))
            })
      })"

text \<open>Case 1.2.1: the owner of a topic that is not loaded.\<close>

definition unreg_owner ::
  "hub_env \<Rightarrow> tenant_id \<Rightarrow> string \<Rightarrow> topic_cat \<Rightarrow> subscription list \<Rightarrow> string option \<Rightarrow> ClientComMessage \<Rightarrow> hub \<Rightarrow> (hub \<times> store_result) option" where
  "unreg_owner e tn topic cat subs sess m h =
     do {
       d \<leftarrow> cm_Del m;
       (let now = he_now e; err = he_TopicsDelete e tn topic True (del_Hard d)
        in if err \<noteq> NilErr then Some (hub_reply sess (ErrUnknownReply m now) h, err)
           else do {
             sid \<leftarrow> sess;
             msgs \<leftarrow> presSubsOfflineOffline tn topic cat subs ''gone'' nilPresParams sid;
             (let h = fold (\<lambda>x. hub_put (ToHub x)) msgs (hub_put (TopicsDelete tn topic True (del_Hard d)) h);
                  h = hub_put (TopicGonePlugin tn topic) (hub_put (SendPush (pushForChanDelete tn topic now)) h)
              in Some (hub_put (ToSession sid (NoErrReply m now)) h, NilErr))
           })
     }"

text \<open>Case 1.2: the topic is not loaded.\<close>

definition unreg_offline ::
  "hub_env \<Rightarrow> tenant_id \<Rightarrow> string option \<Rightarrow> string \<Rightarrow> ClientComMessage \<Rightarrow> hub \<Rightarrow> (hub \<times> store_result) option" where
  "unreg_offline e tn sess topic m h =
     (let now = he_now e; asUid = ParseUserId (msg_AsUser m); chan = IsChannel (msg_Original m);
          topic = (if chan then msg_Original m else topic)
      in case he_TopicsGetSubs e tn topic (if chan then Some asUid else None) of
           Inl err \<Rightarrow> Some (hub_reply sess (ErrUnknownReply m now) h, err)
         | Inr subs \<Rightarrow> do {
             cat \<leftarrow> GetTopicCat topic;
             (if subs = [] then
                (let h = (if cat = TopicCatP2P \<and> he_TopicsDelete e tn topic False True = NilErr
                          then hub_put (TopicsDelete tn topic False True) h else h)
                 in Some (hub_reply sess (InfoNoActionReply m now) h, NilErr))
              else
                (case find (\<lambda>s. Sub_User s = Uid_String asUid) subs of
                   None \<Rightarrow> Some (hub_reply sess (InfoNoActionReply m now) h, NilErr)
                 | Some sub \<Rightarrow>
                     if IsOwner (ModeGiven sub AND ModeWant sub) then unreg_owner e tn topic cat subs sess m h
                     else unreg_subscriber e tn topic cat subs sub sess m h))
           })"

definition topicUnreg ::
  "hub_env \<Rightarrow> tenant_id \<Rightarrow> string option \<Rightarrow> string \<Rightarrow> ClientComMessage option \<Rightarrow> stop_reason \<Rightarrow> hub \<Rightarrow> (hub \<times> store_result) option" where
  "topicUnreg e tn sess topic msg reason h =
     (let key = \<lparr>TopicKey_TenantID = tn, TopicKey_Topic = topic\<rparr>;
          asUid = (case msg of None \<Rightarrow> ZeroUid | Some m \<Rightarrow> ParseUserId (msg_AsUser m))
      in if reason = StopDeleted then
           (case topicGet h key of
              Some t \<Rightarrow>
                if (\<not> Uid_IsZero asUid \<and> t_owner t = asUid) \<or> (t_cat t = TopicCatP2P \<and> subsCount t < 2)
                then unreg_owned e key t sess msg h
                else do {
                  m \<leftarrow> msg;
                  Some (change_topic key (\<lambda>t. t\<lparr>q_meta := q_meta t @ [m\<lparr>msg_MetaWhat := constMsgDelTopic, msg_sess := sess\<rparr>]\<rparr>) h, NilErr)
                }
            | None \<Rightarrow> do { m \<leftarrow> msg; unreg_offline e tn sess topic m h })
         else
           (let h = (case topicGet h key of None \<Rightarrow> h | Some t \<Rightarrow> add_leaving key (stopped reason False t) (topicDel h key))
            in Some (case (sess, msg) of (Some sid, Some m) \<Rightarrow> hub_put (ToSession sid (NoErrReply m (he_now e))) h | _ \<Rightarrow> h, NilErr)))"

subsection \<open>The topics of a user\<close>

definition topicsStateForUser :: "tenant_id \<Rightarrow> uid \<Rightarrow> bool \<Rightarrow> hub \<Rightarrow> hub" where
  "topicsStateForUser tn u suspended h =
     h\<lparr>h_topics := map (\<lambda>(key, t).
        (key, if t_tenantID t = tn \<and> t_cat t \<noteq> TopicCatMe \<and> t_cat t \<noteq> TopicCatFnd \<and>
                 ((t_cat t = TopicCatP2P \<and> map_of (t_perUser t) u \<noteq> None) \<or> t_owner t = u)
              then markReadOnly t suspended else t)) (h_topics h)\<rparr>"

definition of_user :: "tenant_id \<Rightarrow> uid \<Rightarrow> hub_topic \<Rightarrow> bool" where
  "of_user tn u t \<longleftrightarrow> t_tenantID t = tn \<and> ((t_cat t \<noteq> TopicCatGrp \<and> map_of (t_perUser t) u \<noteq> None) \<or> t_owner t = u)"

fun stop_topics :: "tenant_id \<Rightarrow> uid \<Rightarrow> stop_reason \<Rightarrow> bool \<Rightarrow> (topic_key \<times> hub_topic) list \<Rightarrow> hub \<Rightarrow> hub option" where
  "stop_topics tn u reason waited [] h = Some h"
| "stop_topics tn u reason waited ((key, t) # rest) h =
     (if \<not> of_user tn u t then stop_topics tn u reason waited rest h
      else
        (let h = add_leaving key (stopped reason waited t) (h\<lparr>h_topics := AList.delete key (h_topics h)\<rparr>)
         in do {
           h \<leftarrow> (if t_cat t = TopicCatP2P \<and> length (t_perUser t) = 2 then do {
                u2 \<leftarrow> p2pOtherUser t u;
                Some (hub_put (ToHub (pres_to_me tn (UserId u2) ''gone'' (UserId u) nilPresParams [])) h)
              } else Some h);
           stop_topics tn u reason waited rest h
         }))"

text \<open>The routine waits for the topics only if somebody waits for it.\<close>

definition stopTopicsForUser :: "tenant_id \<Rightarrow> uid \<Rightarrow> stop_reason \<Rightarrow> bool \<Rightarrow> hub \<Rightarrow> hub option" where
  "stopTopicsForUser tn u reason alldone h =
     do {
       h \<leftarrow> stop_topics tn u reason alldone (h_topics h) h;
       Some (if alldone then hub_put UserTopicsStopped h else h)
     }"

subsection \<open>The loop\<close>

record topic_unreg =
  un_tenantID :: tenant_id
  un_pkt :: "ClientComMessage option"
  un_sess :: "string option"
  un_rcptTo :: string
  un_forUser :: uid
  un_del :: bool
  un_done :: bool

datatype hub_event =
    Join ClientComMessage
  | RouteCliMsg ClientComMessage
  | RouteSrvMsg ServerComMessage
  | MetaMsg ClientComMessage
  | UserStatus tenant_id uid obj_state
  | Unreg topic_unreg
  | Rehash

definition hub_unreg :: "hub_env \<Rightarrow> topic_unreg \<Rightarrow> hub \<Rightarrow> hub option" where
  "hub_unreg e r h =
     (let reason = (if un_del r then StopDeleted else StopNone)
      in if Uid_IsZero (un_forUser r) then map_option fst (topicUnreg e (un_tenantID r) (un_sess r) (un_rcptTo r) (un_pkt r) reason h)
         else stopTopicsForUser (un_tenantID r) (un_forUser r) reason (un_done r) h)"

fun hub_rehash :: "hub_env \<Rightarrow> (topic_key \<times> hub_topic) list \<Rightarrow> hub \<Rightarrow> hub option" where
  "hub_rehash e [] h = Some h"
| "hub_rehash e ((_, t) # rest) h =
     (if t_isProxy t \<noteq> isRemoteTopic (he_cluster e) \<lparr>TopicKey_TenantID = t_tenantID t, TopicKey_Topic = t_name t\<rparr>
      then do {
        (h, _) \<leftarrow> topicUnreg e (t_tenantID t) None (t_name t) None StopRehashing h;
        hub_rehash e rest h
      }
      else hub_rehash e rest h)"

definition hub_step :: "hub_env \<Rightarrow> hub_event \<Rightarrow> hub \<Rightarrow> hub option" where
  "hub_step e ev h =
     (case ev of
        Join m \<Rightarrow> hub_join e m h
      | RouteCliMsg m \<Rightarrow> Some (hub_routeCli e m h)
      | RouteSrvMsg m \<Rightarrow> Some (hub_routeSrv e m h)
      | MetaMsg m \<Rightarrow> hub_meta e m h
      | UserStatus tn u state \<Rightarrow> Some (topicsStateForUser tn u (state = StateSuspended) h)
      | Unreg r \<Rightarrow> hub_unreg e r h
      | Rehash \<Rightarrow> hub_rehash e (h_topics h) h)"

text \<open>On shutdown every topic is told to exit, and the hub waits for all of them.\<close>

definition hub_shutdown :: "hub \<Rightarrow> hub" where
  "hub_shutdown h =
     hub_put HubStopped (h\<lparr>h_topics := map (\<lambda>(key, t). (key, t\<lparr>q_exit := q_exit t @ [(StopNone, True)]\<rparr>)) (h_topics h)\<rparr>)"

subsection \<open>When a topic is ready or has failed (server/init\_topic.go)\<close>

text \<open>
  The routine that makes a topic ready has the topic itself, also when the hub has taken it out of the map
  in between; no other topic has got its name then.
\<close>

definition starting :: "hub_env \<Rightarrow> topic_key \<Rightarrow> ClientComMessage \<Rightarrow> hub \<Rightarrow> hub_topic" where
  "starting e key jn h =
     (case map_of (h_topics h) key of
        Some t \<Rightarrow> t
      | None \<Rightarrow> (case map_of (rev (h_leaving h)) key of Some t \<Rightarrow> t | None \<Rightarrow> markDeleted (new_topic e jn key)))"

definition deferred_done :: "hub_env \<Rightarrow> string \<Rightarrow> ClientComMessage \<Rightarrow> hub \<Rightarrow> hub" where
  "deferred_done e sid jn h = (if cm_Sub jn \<noteq> None then request_done e sid h else h)"

text \<open>The requests that wait at a topic that could not be loaded.\<close>

definition reject_clientMsg :: "hub_env \<Rightarrow> string \<Rightarrow> time \<Rightarrow> ClientComMessage \<Rightarrow> hub \<Rightarrow> hub" where
  "reject_clientMsg e xoriginal its m h =
     (if msg_init m then hub_reply (msg_sess m) (ErrLockedExplicitTs (msg_Id m) xoriginal (he_now e) its) h else h)"

definition reject_meta :: "hub_env \<Rightarrow> ClientComMessage \<Rightarrow> hub \<Rightarrow> hub" where
  "reject_meta e m h = (if msg_init m then hub_reply (msg_sess m) (ErrLockedReply m (he_now e)) h else h)"

definition reject_unreg :: "hub_env \<Rightarrow> ClientComMessage \<Rightarrow> hub \<Rightarrow> hub" where
  "reject_unreg e m h = reject_meta e m (case msg_sess m of None \<Rightarrow> h | Some sid \<Rightarrow> request_done e sid h)"

text \<open>
  A topic that failed. The request to exit is answered on its channel; if it has none, the routine waits for ever
  and never releases the session.
\<close>

definition init_failed :: "hub_env \<Rightarrow> string \<Rightarrow> topic_key \<Rightarrow> ClientComMessage \<Rightarrow> hub_topic \<Rightarrow> store_result \<Rightarrow> hub \<Rightarrow> hub option" where
  "init_failed e sid key jn t err h =
     do {
       r \<leftarrow> decodeStoreErrorExplicitTs err (msg_Id jn) (t_xoriginal t) (he_now e) (msg_Timestamp jn) None;
       (let h = hub_put (ToSession sid r) (topicDel h key);
            h = fold (\<lambda>m. hub_put (Rejoin m)) (q_reg t) h;
            h = fold (reject_clientMsg e (t_xoriginal t) (msg_Timestamp jn)) (q_clientMsg t) h;
            h = fold (reject_unreg e) (q_unreg t) h;
            h = fold (reject_meta e) (q_meta t) h
        in Some (case q_exit t of (_, False) # _ \<Rightarrow> h | _ \<Rightarrow> deferred_done e sid jn h))
     }"

definition init_ready :: "hub_env \<Rightarrow> string \<Rightarrow> topic_key \<Rightarrow> ClientComMessage \<Rightarrow> hub_topic \<Rightarrow> bool \<Rightarrow> hub \<Rightarrow> hub" where
  "init_ready e sid key jn t shuttingDown h =
     (if shuttingDown then deferred_done e sid jn (topicDel h key)
      else if isDeleted t then deferred_done e sid jn h
      else
        (let t = (if cm_Sub jn \<noteq> None then t\<lparr>q_reg := q_reg t @ [jn]\<rparr> else t);
             t = markPaused t False;
             t = (if t_cat t = TopicCatFnd \<or> t_cat t = TopicCatSys then markLoaded t else t)
         in hub_put (RunTopic key) (change_topic key (\<lambda>_. t) (hub_put (RegisterTopic key) h))))"

definition topicInit :: "hub_env \<Rightarrow> init_env \<Rightarrow> bool \<Rightarrow> topic_key \<Rightarrow> ClientComMessage \<Rightarrow> hub \<Rightarrow> hub option" where
  "topicInit e ie shuttingDown key jn h =
     (let t = starting e key jn h
      in do {
        sid \<leftarrow> msg_sess jn;
        (out, r) \<leftarrow> init_topic ie sid (topic.truncate t) jn;
        (let h = fold (\<lambda>x. hub_put (InitEffect x)) out h
         in case r of
              Inl err \<Rightarrow> init_failed e sid key jn t err h
            | Inr (t', jn) \<Rightarrow> Some (init_ready e sid key jn (topic.extend (computePerUserAcsUnion t') (topic.more t)) shuttingDown h))
      })"

end
