(* ===== verification/HubProps.thy ===== *)
theory HubProps
  imports Hub DispatchProps
begin

section \<open>What the hub promises\<close>

text \<open>
  The states the hub reaches, with the routines that make topics ready and the topics that read their queues as
  steps of their own: tenants stay apart, no request to join is lost, a topic is deleted only for those who may
  delete it, and requests to topics that are not loaded touch nothing but the subscription of the requester.
\<close>

subsection \<open>Keys and queues\<close>

definition topic_ok :: "topic_key \<Rightarrow> hub_topic \<Rightarrow> bool" where
  "topic_ok key t \<longleftrightarrow>
     TopicKey_IsValid key \<and> t_tenantID t = TopicKey_TenantID key \<and> t_name t = TopicKey_Topic key \<and>
     (\<forall>m \<in> set (q_reg t). msg_key m = key) \<and> (\<forall>m \<in> set (q_clientMsg t). msg_key m = key) \<and>
     (\<forall>m \<in> set (q_serverMsg t). scm_TenantID m = TopicKey_TenantID key \<and> scm_RcptTo m = TopicKey_Topic key) \<and>
     length (q_clientMsg t) \<le> 192 \<and> length (q_serverMsg t) \<le> 64"

definition hub_ok :: "hub \<Rightarrow> bool" where
  "hub_ok h \<longleftrightarrow> distinct (map fst (h_topics h)) \<and> (\<forall>(key, t) \<in> set (h_topics h). topic_ok key t) \<and>
     (\<forall>(key, t) \<in> set (h_leaving h). topic_ok key t \<and> isDeleted t) \<and> (\<forall>key jn. StartTopic key jn \<in> set (h_out h) \<longrightarrow> msg_key jn = key \<and> TopicKey_IsValid key)"

text \<open>What the loop of a topic may do to it: read from the queues and change everything but its name.\<close>

definition moves :: "hub_topic \<Rightarrow> hub_topic \<Rightarrow> bool" where
  "moves t t' \<longleftrightarrow> t_tenantID t' = t_tenantID t \<and> t_name t' = t_name t \<and> t_isProxy t' = t_isProxy t \<and>
     (\<exists>n. q_reg t' = drop n (q_reg t)) \<and> (\<exists>n. q_clientMsg t' = drop n (q_clientMsg t)) \<and> (\<exists>n. q_serverMsg t' = drop n (q_serverMsg t))"

inductive hub_run :: "hub \<Rightarrow> bool" where
  start: "hub_run newHub"
| event: "hub_run h \<Longrightarrow> hub_step e ev h = Some h' \<Longrightarrow> hub_run h'"
| init: "hub_run h \<Longrightarrow> StartTopic key jn \<in> set (h_out h) \<Longrightarrow> topicInit e ie shuttingDown key jn h = Some h' \<Longrightarrow> hub_run h'"
| topic: "hub_run h \<Longrightarrow> map_of (h_topics h) key = Some t \<Longrightarrow> moves t t' \<Longrightarrow> hub_run (change_topic key (\<lambda>_. t') h)"

subsection \<open>Logs\<close>

definition no_start :: "hub_effect \<Rightarrow> bool" where
  "no_start x \<longleftrightarrow> (\<forall>key jn. x \<noteq> StartTopic key jn)"

lemma hub_ok_put [intro]: "hub_ok h \<Longrightarrow> no_start x \<Longrightarrow> hub_ok (hub_put x h)"
  by (auto simp: hub_ok_def hub_put_def no_start_def)

lemma no_start_simps [simp]:
  "no_start (ToSession sid m)" "no_start (RequestDone sid)" "no_start (RunTopic k)" "no_start (Rejoin jm)" "no_start (InitEffect x)"
  "no_start (RegisterTopic k)" "no_start (ToCluster s m)" "no_start (ToHub m)" "no_start (TopicsDelete tn s b c)" "no_start (HubSubsDelete tn s u)"
  "no_start (HubSubsUpdate tn s u us)" "no_start (SendPush r)" "no_start (TopicGonePlugin tn s)" "no_start (SubGonePlugin sub)"
  "no_start UserTopicsStopped" "no_start HubStopped"
  by (simp_all add: no_start_def)

lemma hub_ok_reply [intro]: "hub_ok h \<Longrightarrow> hub_ok (hub_reply sess m h)"
  by (auto simp: hub_reply_def split: option.splits)

lemma hub_ok_done [intro]: "hub_ok h \<Longrightarrow> hub_ok (request_done e sid h)"
  by (auto simp: request_done_def)

lemma hub_ok_error: "hub_ok h \<Longrightarrow> hub_error e err m h = Some h' \<Longrightarrow> hub_ok h'"
  by (auto simp: hub_error_def bind_eq_Some_conv)

lemma set_map_entry:
  assumes "distinct (map fst xs)"
  shows "(k, v) \<in> set (AList.map_entry key f xs) \<longleftrightarrow> (if k = key then \<exists>w. (k, w) \<in> set xs \<and> v = f w else (k, v) \<in> set xs)"
proof -
  have "(k, v) \<in> set (AList.map_entry key f xs) \<longleftrightarrow> map_of (AList.map_entry key f xs) k = Some v"
    by (rule map_of_eq_Some_iff [symmetric]) (simp add: assms AList.distinct_map_entry)
  then show ?thesis using assms by (auto simp: AList.map_of_map_entry split: option.splits dest: eq_key_imp_eq_value)
qed

lemma hub_ok_change:
  assumes "hub_ok h" and "\<And>t. map_of (h_topics h) key = Some t \<Longrightarrow> topic_ok key t \<Longrightarrow> topic_ok key (f t)"
  shows "hub_ok (change_topic key f h)"
proof -
  from assms(1) have d: "distinct (map fst (h_topics h))" by (simp add: hub_ok_def)
  have "topic_ok k v" if "(k, v) \<in> set (AList.map_entry key f (h_topics h))" for k v
    using that assms d unfolding set_map_entry [OF d] by (auto simp: hub_ok_def split: if_splits)
  with assms(1) d show ?thesis by (auto simp: hub_ok_def change_topic_def AList.distinct_map_entry)
qed

lemma hub_ok_put_topic:
  assumes "hub_ok h" "topicPut h key t = Some h'" "topic_ok key t"
  shows "hub_ok h'"
proof -
  from assms(1) have d: "distinct (map fst (h_topics h))" by (simp add: hub_ok_def)
  have "topic_ok k v" if "(k, v) \<in> set (AList.update key t (h_topics h))" for k v
    using that assms(1,3) map_of_eq_Some_iff [OF d] map_of_eq_Some_iff [of "AList.update key t (h_topics h)" k v] d
    by (auto simp: hub_ok_def AList.update_conv' AList.distinct_update split: if_splits)
  with assms d show ?thesis by (auto simp: hub_ok_def topicPut_def AList.distinct_update split: if_splits)
qed

lemma hub_ok_del [intro]: "hub_ok h \<Longrightarrow> hub_ok (topicDel h key)"
  by (auto simp: hub_ok_def topicDel_def AList.delete_eq distinct_map_filter)

lemma isDeleted_stopped [simp]: "isDeleted (stopped reason waited t)" "isDeleted (markDeleted t)"
proof -
  have "bit ((s OR 0x10) AND 0x10 :: 32 word) 4" for s by (simp add: bit_simps)
  then have "(s OR 0x10) AND 0x10 \<noteq> (0 :: 32 word)" for s by (metis bit_0_eq bot_apply bot_bool_def)
  then show "isDeleted (stopped reason waited t)" "isDeleted (markDeleted t)"
    by (simp_all add: isDeleted_def stopped_def markDeleted_def statusChangeBits_def topicStatusMarkedDeleted_def)
qed

lemma hub_ok_leaving [intro]: "hub_ok h \<Longrightarrow> topic_ok key t \<Longrightarrow> isDeleted t \<Longrightarrow> hub_ok (add_leaving key t h)"
  by (auto simp: hub_ok_def add_leaving_def)

lemma topicGet_ok: "hub_ok h \<Longrightarrow> topicGet h key = Some t \<Longrightarrow> topic_ok key t"
  by (auto simp: topicGet_def hub_ok_def dest!: map_of_SomeD split: if_splits)

lemma status_ok [simp]:
  "topic_ok key (markPaused t b) = topic_ok key t" "topic_ok key (markDeleted t) = topic_ok key t" "topic_ok key (markLoaded t) = topic_ok key t"
  "topic_ok key (markReadOnly t b) = topic_ok key t" "topic_ok key (stopped reason waited t) = topic_ok key t"
  by (simp_all add: topic_ok_def markPaused_def markDeleted_def markLoaded_def markReadOnly_def statusChangeBits_def stopped_def)

lemma new_topic_ok: "TopicKey_IsValid (msg_key jn) \<Longrightarrow> topic_ok (msg_key jn) (new_topic e jn (msg_key jn))"
  by (simp add: topic_ok_def new_topic_def msg_key_def)


subsection \<open>Every step keeps the keys\<close>

lemma init_frames:
  "loadSubscribers ie t = Inr t' \<Longrightarrow> t_tenantID t' = t_tenantID t \<and> t_name t' = t_name t \<and> t_status t' = t_status t"
  "t_tenantID (stored_times st t) = t_tenantID t \<and> t_name (stored_times st t) = t_name t \<and> t_status (stored_times st t) = t_status t"
  "t_tenantID (grp_access d t) = t_tenantID t \<and> t_name (grp_access d t) = t_name t \<and> t_status (grp_access d t) = t_status t"
  "grp_tags ie q t = Some t' \<Longrightarrow> t_tenantID t' = t_tenantID t \<and> t_name t' = t_name t \<and> t_status t' = t_status t"
  "t_tenantID (p2p_made u1 u2 s1 s2 pr t) = t_tenantID t \<and> t_name (p2p_made u1 u2 s1 s2 pr t) = t_name t \<and> t_status (p2p_made u1 u2 s1 s2 pr t) = t_status t"
  "t_tenantID (p2p_load s1 s2 t) = t_tenantID t \<and> t_name (p2p_load s1 s2 t) = t_name t \<and> t_status (p2p_load s1 s2 t) = t_status t"
proof -
  have "t_tenantID (fold load_subscriber subs t) = t_tenantID t \<and> t_name (fold load_subscriber subs t) = t_name t \<and> t_status (fold load_subscriber subs t) = t_status t" for subs
    by (induction subs arbitrary: t) (simp_all add: load_subscriber_def Let_def)
  then show "loadSubscribers ie t = Inr t' \<Longrightarrow> t_tenantID t' = t_tenantID t \<and> t_name t' = t_name t \<and> t_status t' = t_status t"
    by (auto simp: loadSubscribers_def split: sum.splits)
qed (auto simp: stored_times_def grp_access_def grp_tags_def p2p_made_def p2p_load_def split: option.splits list.splits if_splits prod.splits)

lemma grp_params_frame: "grp_params ie lvl q t ud = Some (t', ud') \<Longrightarrow>
    t_tenantID t' = t_tenantID t \<and> t_name t' = t_name t \<and> t_status t' = t_status t"
proof (cases q)
  case (Some p)
  assume a: "grp_params ie lvl q t ud = Some (t', ud')"
  then obtain t1 ud1 where 1: "(case sq_Desc p of None \<Rightarrow> Some (t, ud) | Some d \<Rightarrow>
        if sd_Trusted d \<noteq> ANil \<and> lvl \<noteq> LevelRoot then None
        else Some (grp_access d (t\<lparr>t_public := not_null (sd_Public d), t_trusted := not_null (sd_Trusted d)\<rparr>), ud\<lparr>u_private := not_null (sd_Private d)\<rparr>))
      = Some (t1, ud1)" and 2: "grp_tags ie p t1 = Some t'"
    unfolding grp_params_def Some by (auto simp: bind_eq_Some_conv Let_def)
  from 1 have "t_tenantID t1 = t_tenantID t \<and> t_name t1 = t_name t \<and> t_status t1 = t_status t"
    using init_frames(3) by (auto split: option.splits if_splits)
  then show ?thesis using init_frames(4) [OF 2] by simp
qed (simp add: grp_params_def)

definition init_keeps :: "topic \<Rightarrow> ClientComMessage \<Rightarrow> init_result \<Rightarrow> bool" where
  "init_keeps t m r \<longleftrightarrow> (\<forall>out t' m'. r = Some (out, Inr (t', m')) \<longrightarrow>
     t_tenantID t' = t_tenantID t \<and> t_name t' = t_name t \<and> t_status t' = t_status t \<and> msg_key m' = msg_key m \<and> msg_sess m' = msg_sess m \<and>
     (cm_Sub m' = None \<longleftrightarrow> cm_Sub m = None))"

lemma init_keeps_intros:
  "init_keeps t m None" "init_keeps t m (Some (out, Inl err))"
  "t_tenantID t' = t_tenantID t \<and> t_name t' = t_name t \<and> t_status t' = t_status t \<Longrightarrow> msg_key m' = msg_key m \<Longrightarrow> msg_sess m' = msg_sess m \<Longrightarrow> (cm_Sub m' = None \<longleftrightarrow> cm_Sub m = None) \<Longrightarrow>
    init_keeps t m (Some (out, Inr (t', m')))"
  "(\<And>x. r = Some x \<Longrightarrow> init_keeps t m (f x)) \<Longrightarrow> init_keeps t m (Option.bind r f)"
  by (auto simp: init_keeps_def bind_eq_Some_conv)

lemma init_keeps_Me: "init_keeps t m (initTopicMe ie sid t m)"
  unfolding initTopicMe_def by (auto intro!: init_keeps_intros dest!: init_frames(1) split: sum.split option.split)

lemma init_keeps_Fnd: "init_keeps t m (initTopicFnd ie sid t m)"
  unfolding initTopicFnd_def Let_def by (auto intro!: init_keeps_intros dest!: init_frames(1) split: sum.split option.split)

lemma init_keeps_NewGrp: "init_keeps t m (initTopicNewGrp ie t m isChan)"
  unfolding initTopicNewGrp_def Let_def
  by (auto intro!: init_keeps_intros dest!: grp_params_frame simp: msg_key_def split: option.split store_result.split)

lemma init_keeps_slf_create: "init_keeps t m (slf_create ie t m)"
  unfolding slf_create_def Let_def
  by (auto intro!: init_keeps_intros dest!: init_frames(4) simp: msg_key_def split: sum.split option.split store_result.split)

lemma init_keeps_p2p_create: "init_keeps t m (p2p_create ie t m b subs)"
  unfolding p2p_create_def Let_def
  by (auto intro!: init_keeps_intros simp: msg_key_def init_frames(5) split: sum.split option.split store_result.split list.split prod.split)


lemma init_keeps_cong: "t_tenantID t' = t_tenantID t \<Longrightarrow> t_name t' = t_name t \<Longrightarrow> t_status t' = t_status t \<Longrightarrow> init_keeps t' m r \<Longrightarrow> init_keeps t m r"
  unfolding init_keeps_def by metis

lemma init_keeps_P2P: "init_keeps t m (initTopicP2P ie t m)"
proof -
  note create = init_keeps_cong [OF _ _ _ init_keeps_p2p_create]
  show ?thesis
  proof (cases "ie_TopicsGet ie (t_tenantID t) (t_name t)")
    case (Inr st)
    show ?thesis
    proof (cases st)
      case None
      with Inr show ?thesis unfolding initTopicP2P_def Let_def by (simp add: create)
    next
      case (Some x)
      let ?t = "(stored_times x (t\<lparr>t_cat := TopicCatP2P\<rparr>))\<lparr>t_aux := ST_Aux x, t_lastID := ST_SeqId x, t_delID := ST_DelId x\<rparr>"
      have c: "init_keeps t m (p2p_create ie ?t m True subs)" for subs by (rule create) (simp_all add: init_frames(2))
      show ?thesis
      proof (cases "ie_TopicsGetUsers ie (t_tenantID t) (t_name t)")
        case (Inl err)
        with Inr Some show ?thesis unfolding initTopicP2P_def Let_def by (simp add: init_keeps_intros)
      next
        case subs: (Inr subs)
        with Inr Some c show ?thesis unfolding initTopicP2P_def Let_def
          by (simp add: init_keeps_intros init_frames(2,6) split: list.split)
      qed
    qed
  qed (simp add: initTopicP2P_def init_keeps_intros)
qed

lemma init_keeps_Slf: "init_keeps t m (initTopicSlf ie t m)"
  unfolding initTopicSlf_def Let_def
  by (auto intro!: init_keeps_intros init_keeps_cong [OF _ _ _ init_keeps_slf_create] simp: init_frames(2) dest!: init_frames(1) split: sum.split option.split)

lemma init_keeps_plain:
  "init_keeps t m (Some ([], map_sum id (\<lambda>t. (t, m)) (initTopicGrp ie t)))" "init_keeps t m (Some ([], map_sum id (\<lambda>t. (t, m)) (initTopicSys ie t)))"
  unfolding initTopicGrp_def initTopicSys_def
  by (auto simp: init_keeps_def init_frames(2) dest!: init_frames(1) split: sum.splits option.splits)

lemmas init_keeps_rules = init_keeps_intros init_keeps_Me init_keeps_Fnd init_keeps_NewGrp init_keeps_P2P init_keeps_Slf init_keeps_plain

lemma init_topic_keeps:
  assumes "init_topic ie sid t m = Some (out, Inr (t', m'))"
  shows "t_tenantID t' = t_tenantID t \<and> t_name t' = t_name t \<and> t_status t' = t_status t \<and> msg_key m' = msg_key m \<and> msg_sess m' = msg_sess m \<and>
    (cm_Sub m' = None \<longleftrightarrow> cm_Sub m = None)"
proof -
  have "init_keeps t m (init_topic ie sid t m)"
    unfolding init_topic_def Let_def by (intro if_split [where P = "init_keeps t m", THEN iffD2] conjI impI init_keeps_rules)
  with assms show ?thesis by (simp add: init_keeps_def)
qed

lemma hub_ok_fold: "(\<And>x h. x \<in> set xs \<Longrightarrow> hub_ok h \<Longrightarrow> hub_ok (f x h)) \<Longrightarrow> hub_ok h \<Longrightarrow> hub_ok (fold f xs h)"
  by (induction xs arbitrary: h) auto

lemma starting_ok: "hub_ok h \<Longrightarrow> msg_key jn = key \<Longrightarrow> TopicKey_IsValid key \<Longrightarrow> topic_ok key (starting e key jn h)"
  using new_topic_ok [of jn e] by (auto simp: starting_def hub_ok_def dest!: map_of_SomeD split: option.splits)

lemma hub_ok_rejects:
  "hub_ok h \<Longrightarrow> hub_ok (reject_clientMsg e x its m h)" "hub_ok h \<Longrightarrow> hub_ok (reject_meta e m h)" "hub_ok h \<Longrightarrow> hub_ok (reject_unreg e m h)"
  "hub_ok h \<Longrightarrow> hub_ok (deferred_done e sid jn h)"
  by (auto simp: reject_clientMsg_def reject_meta_def reject_unreg_def deferred_done_def split: option.split)

text \<open>The state after a failure, before the session is released.\<close>

definition after_failure :: "hub_env \<Rightarrow> string \<Rightarrow> topic_key \<Rightarrow> ClientComMessage \<Rightarrow> hub_topic \<Rightarrow> ServerComMessage \<Rightarrow> hub \<Rightarrow> hub" where
  "after_failure e sid key jn t r h =
     fold (reject_meta e) (q_meta t) (fold (reject_unreg e) (q_unreg t) (fold (reject_clientMsg e (t_xoriginal t) (msg_Timestamp jn)) (q_clientMsg t)
       (fold (\<lambda>m. hub_put (Rejoin m)) (q_reg t) (hub_put (ToSession sid r) (topicDel h key)))))"

lemma init_failedE:
  assumes "init_failed e sid key jn t err h = Some h'"
  obtains r where "h' = after_failure e sid key jn t r h" "\<exists>r rest. q_exit t = (r, False) # rest"
  | r where "h' = deferred_done e sid jn (after_failure e sid key jn t r h)" "\<not> (\<exists>r rest. q_exit t = (r, False) # rest)"
proof -
  from assms obtain r where "h' = (case q_exit t of (_, False) # _ \<Rightarrow> after_failure e sid key jn t r h | _ \<Rightarrow> deferred_done e sid jn (after_failure e sid key jn t r h))"
    unfolding init_failed_def after_failure_def Let_def by (auto simp: bind_eq_Some_conv)
  then show ?thesis using that by (auto split: list.splits prod.splits bool.splits)
qed

lemma hub_ok_failed:
  assumes "hub_ok h" "init_failed e sid key jn t err h = Some h'"
  shows "hub_ok h'"
proof -
  have "hub_ok (after_failure e sid key jn t r h)" for r
    unfolding after_failure_def by (intro hub_ok_fold hub_ok_rejects hub_ok_put hub_ok_del assms(1)) simp_all
  then show ?thesis using hub_ok_rejects(4) by (rule_tac init_failedE [OF assms(2)]) auto
qed

lemma hub_ok_ready:
  assumes "hub_ok h" "topic_ok key t" "msg_key jn = key"
  shows "hub_ok (init_ready e sid key jn t sd h)"
proof -
  have "topic_ok key (t\<lparr>q_reg := q_reg t @ [jn]\<rparr>)" using assms(2,3) by (auto simp: topic_ok_def)
  with assms show ?thesis
    by (auto simp: init_ready_def deferred_done_def Let_def intro!: hub_ok_put hub_ok_change)
qed

lemma topic_ok_extend:
  assumes "topic_ok key t" "t_tenantID t' = t_tenantID t" "t_name t' = t_name t"
  shows "topic_ok key (topic.extend t' (topic.more t))"
proof -
  have "q_reg (topic.extend t' (topic.more t)) = q_reg t" "q_clientMsg (topic.extend t' (topic.more t)) = q_clientMsg t"
    "q_serverMsg (topic.extend t' (topic.more t)) = q_serverMsg t" "t_tenantID (topic.extend t' (topic.more t)) = t_tenantID t'"
    "t_name (topic.extend t' (topic.more t)) = t_name t'"
    by (cases t; simp add: topic.defs)+
  with assms show ?thesis by (simp add: topic_ok_def)
qed

lemma hub_ok_init:
  assumes "hub_ok h" "StartTopic key jn \<in> set (h_out h)" "topicInit e ie sd key jn h = Some h'"
  shows "hub_ok h'"
proof -
  from assms(1,2) have key: "msg_key jn = key" "TopicKey_IsValid key" by (auto simp: hub_ok_def)
  let ?t = "starting e key jn h"
  note ok = starting_ok [OF assms(1) key, of e]
  obtain sid where sid: "msg_sess jn = Some sid" using assms(3) by (cases "msg_sess jn") (simp_all add: topicInit_def Let_def)
  obtain out r where r: "init_topic ie sid (topic.truncate ?t) jn = Some (out, r)"
    using assms(3) sid by (cases "init_topic ie sid (topic.truncate ?t) jn") (auto simp: topicInit_def Let_def)
  note h' = assms(3) [unfolded topicInit_def Let_def sid r bind.bind_lunit prod.case]
  have okf: "hub_ok (fold (\<lambda>x. hub_put (InitEffect x)) out h)" by (rule hub_ok_fold [OF _ assms(1)]) auto
  show ?thesis
  proof (cases r)
    case (Inl err)
    then show ?thesis using h' hub_ok_failed [OF okf] by simp
  next
    case (Inr p)
    then obtain t' jn' where p: "r = Inr (t', jn')" by (cases p) auto
    from init_topic_keeps [OF r [unfolded p]] have "t_tenantID t' = t_tenantID ?t" "t_name t' = t_name ?t" "msg_key jn' = key"
      using key by (auto simp: topic.defs)
    moreover have "t_tenantID (computePerUserAcsUnion t') = t_tenantID t'" "t_name (computePerUserAcsUnion t') = t_name t'"
      by (simp_all add: computePerUserAcsUnion_def Let_def)
    moreover have "h' = init_ready e sid key jn' (topic.extend (computePerUserAcsUnion t') (topic.more ?t)) sd (fold (\<lambda>x. hub_put (InitEffect x)) out h)"
      using h' p by simp
    ultimately show ?thesis using hub_ok_ready [OF okf topic_ok_extend [OF ok]] by (simp only:)
  qed
qed

lemma hub_ok_join:
  assumes "hub_ok h" "hub_join e jn h = Some h'"
  shows "hub_ok h'"
proof (cases "TenantID_IsValid (msg_TenantID jn)")
  case valid: True
  show ?thesis
  proof (cases "topicGet h (msg_key jn)")
    case None
    with assms(2) valid obtain h1 where h1: "topicPut h (msg_key jn) (markPaused (new_topic e jn (msg_key jn)) True) = Some h1"
      and h': "h' = hub_put (StartTopic (msg_key jn) jn) h1"
      by (auto simp: hub_join_def Let_def bind_eq_Some_conv)
    from h1 have "TopicKey_IsValid (msg_key jn)" by (simp add: topicPut_def split: if_splits)
    then have "hub_ok h1" using hub_ok_put_topic [OF assms(1) h1] new_topic_ok by simp
    with h' \<open>TopicKey_IsValid (msg_key jn)\<close> show ?thesis by (auto simp: hub_ok_def hub_put_def)
  next
    case (Some t)
    then show ?thesis using assms valid
      by (auto simp: hub_join_def Let_def bind_eq_Some_conv topic_ok_def intro!: hub_ok_put hub_ok_done hub_ok_change split: if_splits)
  qed
qed (use assms in \<open>auto simp: hub_join_def\<close>)

lemma hub_ok_routes: "hub_ok h \<Longrightarrow> hub_ok (hub_routeCli e m h)" "hub_ok h \<Longrightarrow> hub_ok (hub_routeSrv e sm h)"
  by (auto simp: hub_routeCli_def hub_routeSrv_def Let_def topic_ok_def topicGet_def intro!: hub_ok_put hub_ok_change split: option.splits if_splits)

text \<open>A request to change the own subscription: an answer, perhaps after a change.\<close>

lemma set_sub_log:
  assumes "replyOfflineTopicSetSub e sid m q h = Some h'"
  obtains r where "h' = hub_put (ToSession sid r) h"
  | err where "hub_error e err m h = Some h'"
  | r s mode where "he_SubsGet e (msg_TenantID m) (offline_name m) (ParseUserId (msg_AsUser m)) False = Inr (Some s)"
      "offline_mode e m q s = Some (Inr mode)"
      "h' = hub_put (ToSession sid r) (hub_put (HubSubsUpdate (msg_TenantID m) (offline_name m) (ParseUserId (msg_AsUser m)) (offline_private q s @ mode)) h)"
proof -
  note def = assms [unfolded replyOfflineTopicSetSub_def Let_def]
  show ?thesis
  proof (cases "he_SubsGet e (msg_TenantID m) (offline_name m) (ParseUserId (msg_AsUser m)) False")
    case (Inl err)
    with def that show ?thesis by (simp split: if_splits) blast+
  next
    case (Inr sub)
    show ?thesis
    proof (cases sub)
      case None
      with Inr def that(1) show ?thesis by (simp split: if_splits) blast+
    next
      case sub: (Some s)
      show ?thesis
      proof (cases "offline_mode e m q s")
        case (Some r)
        show ?thesis
        proof (cases r)
          case mode: (Inr mode)
          let ?upd = "offline_private q s @ mode"
          have "(\<exists>r. h' = hub_put (ToSession sid r) h) \<or> (\<exists>err. hub_error e err m h = Some h') \<or>
              (\<exists>r. h' = hub_put (ToSession sid r) (hub_put (HubSubsUpdate (msg_TenantID m) (offline_name m) (ParseUserId (msg_AsUser m)) ?upd) h))"
          proof (cases "he_SubsUpdate e (msg_TenantID m) (offline_name m) (ParseUserId (msg_AsUser m)) ?upd")
            case NilErr
            with def sub Inr Some mode show ?thesis by (simp split: if_splits) blast+
          qed (use def sub Inr Some mode in \<open>simp split: if_splits, blast+\<close>)+
          then show ?thesis using that Inr sub Some mode by blast
        qed (use def that(1) sub Inr Some in \<open>simp split: if_splits, blast+\<close>)
      qed (use def that(1) sub Inr in \<open>simp split: if_splits, blast+\<close>)
    qed
  qed
qed

lemma hub_ok_offline:
  "hub_ok h \<Longrightarrow> offline_own e m topic desc h = Some h' \<Longrightarrow> hub_ok h'"
  "hub_ok h \<Longrightarrow> replyOfflineTopicGetDesc e sid m h = Some h' \<Longrightarrow> hub_ok h'"
  "hub_ok h \<Longrightarrow> replyOfflineTopicGetSub e sid m gq h = Some h' \<Longrightarrow> hub_ok h'"
  "hub_ok h \<Longrightarrow> replyOfflineTopicSetSub e sid m sq h = Some h' \<Longrightarrow> hub_ok h'"
proof -
  show own: "hub_ok h \<Longrightarrow> offline_own e m topic desc h = Some h' \<Longrightarrow> hub_ok h'" for topic desc
    by (auto simp: offline_own_def Let_def dest: hub_ok_error split: sum.splits)
  show "hub_ok h \<Longrightarrow> replyOfflineTopicGetDesc e sid m h = Some h' \<Longrightarrow> hub_ok h'"
    by (auto simp: replyOfflineTopicGetDesc_def Let_def dest: hub_ok_error own split: sum.splits option.splits if_splits prod.splits)
  show "hub_ok h \<Longrightarrow> replyOfflineTopicGetSub e sid m gq h = Some h' \<Longrightarrow> hub_ok h'"
    by (auto simp: replyOfflineTopicGetSub_def Let_def bind_eq_Some_conv dest: hub_ok_error split: sum.splits option.splits if_splits)
  show "hub_ok h \<Longrightarrow> replyOfflineTopicSetSub e sid m sq h = Some h' \<Longrightarrow> hub_ok h'"
    by (erule set_sub_log) (auto simp: hub_ok_put dest: hub_ok_error)
qed

lemma hub_ok_meta: "hub_ok h \<Longrightarrow> hub_meta e m h = Some h' \<Longrightarrow> hub_ok h'"
  by (auto simp: hub_meta_def bind_eq_Some_conv dest: hub_ok_offline(2-4) split: option.splits if_splits)

lemma hub_ok_unreg_parts:
  "hub_ok h \<Longrightarrow> topic_ok key t \<Longrightarrow> unreg_owned e key t sess msg h = Some (h', r) \<Longrightarrow> hub_ok h'"
  "hub_ok h \<Longrightarrow> unreg_subscriber e tn topic cat subs sub sess m h = Some (h', r) \<Longrightarrow> hub_ok h'"
  "hub_ok h \<Longrightarrow> unreg_owner e tn topic cat subs sess m h = Some (h', r) \<Longrightarrow> hub_ok h'"
proof -
  show "hub_ok h \<Longrightarrow> topic_ok key t \<Longrightarrow> unreg_owned e key t sess msg h = Some (h', r) \<Longrightarrow> hub_ok h'"
    by (auto simp: unreg_owned_def Let_def bind_eq_Some_conv intro!: hub_ok_put hub_ok_change hub_ok_leaving hub_ok_del split: option.splits if_splits)
  show "hub_ok h \<Longrightarrow> unreg_subscriber e tn topic cat subs sub sess m h = Some (h', r) \<Longrightarrow> hub_ok h'"
    by (auto simp: unreg_subscriber_def Let_def bind_eq_Some_conv intro!: hub_ok_put split: if_splits)
  show "hub_ok h \<Longrightarrow> unreg_owner e tn topic cat subs sess m h = Some (h', r) \<Longrightarrow> hub_ok h'"
    by (auto simp: unreg_owner_def Let_def bind_eq_Some_conv intro!: hub_ok_put hub_ok_fold [where f = "\<lambda>x. hub_put (ToHub x)"] split: if_splits)
qed

lemma hub_ok_offline_unreg: "hub_ok h \<Longrightarrow> unreg_offline e tn sess topic m h = Some (h', r) \<Longrightarrow> hub_ok h'"
  by (auto simp: unreg_offline_def Let_def bind_eq_Some_conv dest: hub_ok_unreg_parts(2,3) intro!: hub_ok_put hub_ok_reply split: sum.splits option.splits if_splits)

lemma hub_ok_unreg:
  assumes "hub_ok h" "topicUnreg e tn sess topic msg reason h = Some (h', r)"
  shows "hub_ok h'"
proof -
  let ?key = "\<lparr>TopicKey_TenantID = tn, TopicKey_Topic = topic\<rparr>"
  show ?thesis
  proof (cases "topicGet h ?key")
    case None
    with assms show ?thesis
      by (auto simp: topicUnreg_def Let_def bind_eq_Some_conv dest: hub_ok_offline_unreg intro!: hub_ok_put split: if_splits option.splits prod.splits)
  next
    case (Some t)
    from topicGet_ok [OF assms(1) Some] have t: "topic_ok ?key t" .
    show ?thesis
    proof (cases "reason = StopDeleted")
      case True
      have "hub_ok (change_topic ?key (\<lambda>t. t\<lparr>q_meta := q_meta t @ [m]\<rparr>) h)" for m
        by (rule hub_ok_change [OF assms(1)]) (simp add: topic_ok_def)
      with True Some t assms show ?thesis
        by (auto simp: topicUnreg_def Let_def bind_eq_Some_conv dest: hub_ok_unreg_parts(1) split: if_splits)
    next
      case False
      with Some t assms have "h' = add_leaving ?key (stopped reason False t) (topicDel h ?key) \<or>
          (\<exists>x. no_start x \<and> h' = hub_put x (add_leaving ?key (stopped reason False t) (topicDel h ?key)))"
        by (auto simp: topicUnreg_def Let_def intro: no_start_simps split: option.splits)
      with assms(1) t show ?thesis by (elim disjE exE conjE) (simp_all add: hub_ok_put hub_ok_leaving hub_ok_del)
    qed
  qed
qed

lemma hub_ok_stop_topics:
  "hub_ok h \<Longrightarrow> (\<And>key t. (key, t) \<in> set ts \<Longrightarrow> topic_ok key t) \<Longrightarrow> stop_topics tn u reason waited ts h = Some h' \<Longrightarrow> hub_ok h'"
proof (induction tn u reason waited ts h rule: stop_topics.induct)
  case (2 tn u reason waited key t rest h)
  let ?h = "add_leaving key (stopped reason waited t) (h\<lparr>h_topics := AList.delete key (h_topics h)\<rparr>)"
  have "hub_ok (h\<lparr>h_topics := AList.delete key (h_topics h)\<rparr>)"
    using 2(3) by (auto simp: hub_ok_def AList.delete_eq distinct_map_filter)
  then have h: "hub_ok ?h" using 2(4) by auto
  show ?case
  proof (cases "of_user tn u t")
    case True
    with 2(5) obtain h1 where h1: "hub_ok h1" "stop_topics tn u reason waited rest h1 = Some h'"
      "(if t_cat t = TopicCatP2P \<and> length (t_perUser t) = 2 then do {
                u2 \<leftarrow> p2pOtherUser t u;
                Some (hub_put (ToHub (pres_to_me tn (UserId u2) ''gone'' (UserId u) nilPresParams [])) ?h)
              } else Some ?h) = Some h1"
      using h by (auto simp: Let_def bind_eq_Some_conv intro: hub_ok_put split: if_splits) (metis hub_ok_put no_start_simps(8))
    show ?thesis by (rule 2(2) [OF _ refl h1(3) h1(1) _ h1(2)]) (use 2(4) True in auto)
  next
    case False
    with 2 show ?thesis by simp
  qed
qed simp

lemma hub_ok_rehash: "hub_ok h \<Longrightarrow> hub_rehash e ts h = Some h' \<Longrightarrow> hub_ok h'"
proof (induction e ts h rule: hub_rehash.induct)
  case (2 e k t rest h)
  show ?case
  proof (cases "t_isProxy t \<noteq> isRemoteTopic (he_cluster e) \<lparr>TopicKey_TenantID = t_tenantID t, TopicKey_Topic = t_name t\<rparr>")
    case True
    with 2(4) obtain h1 r where h1: "topicUnreg e (t_tenantID t) None (t_name t) None StopRehashing h = Some (h1, r)" "hub_rehash e rest h1 = Some h'"
      by (auto simp: bind_eq_Some_conv)
    show ?thesis by (rule 2(1) [OF True h1(1) refl hub_ok_unreg [OF 2(3) h1(1)] h1(2)])
  next
    case False
    with 2 show ?thesis by simp
  qed
qed simp

lemma hub_ok_status: "hub_ok h \<Longrightarrow> hub_ok (topicsStateForUser tn u b h)"
  by (auto simp: hub_ok_def topicsStateForUser_def comp_def case_prod_beta)

lemma hub_ok_step:
  assumes "hub_ok h" "hub_step e ev h = Some h'"
  shows "hub_ok h'"
proof (cases ev)
  case (Unreg r)
  have "hub_ok h1" if "stop_topics tn u reason b (h_topics h) h = Some h1" for tn u reason b h1
    by (rule hub_ok_stop_topics [OF assms(1) _ that]) (use assms(1) in \<open>auto simp: hub_ok_def\<close>)
  with Unreg assms show ?thesis
    by (auto simp: hub_step_def hub_unreg_def stopTopicsForUser_def Let_def bind_eq_Some_conv dest: hub_ok_unreg split: if_splits)
qed (use assms in \<open>auto simp: hub_step_def hub_ok_routes hub_ok_status dest: hub_ok_join hub_ok_meta hub_ok_rehash\<close>)

lemma hub_run_ok: "hub_run h \<Longrightarrow> hub_ok h"
proof (induction rule: hub_run.induct)
  case start
  show ?case by (simp add: hub_ok_def newHub_def)
next
  case (topic h key t t')
  then show ?case
    by (intro hub_ok_change) (auto simp: moves_def topic_ok_def dest!: in_set_dropD)
qed (auto dest: hub_ok_step hub_ok_init)

subsection \<open>Tenants\<close>


subsection \<open>Requests to join\<close>

lemma starting_deleted: "hub_ok h \<Longrightarrow> map_of (h_topics h) key = None \<Longrightarrow> isDeleted (starting e key jn h)"
  by (auto simp: starting_def hub_ok_def dest!: map_of_SomeD split: option.splits)

lemma fold_put_out: "h_out (fold (\<lambda>x. hub_put (f x)) xs h) = h_out h @ map f xs" "h_topics (fold (\<lambda>x. hub_put (f x)) xs h) = h_topics h"
  by (induction xs arbitrary: h) (simp_all add: hub_put_def)

definition longer :: "hub \<Rightarrow> hub \<Rightarrow> bool" where
  "longer h h' \<longleftrightarrow> (\<exists>new. h_out h' = h_out h @ new)"

lemma longer_rules [simp, intro]:
  "longer h h" "longer h h1 \<Longrightarrow> longer h (hub_put x h1)" "longer h h1 \<Longrightarrow> longer h (hub_reply s m h1)" "longer h h1 \<Longrightarrow> longer h (request_done e sid h1)"
  "longer h h1 \<Longrightarrow> longer h (topicDel h1 key)" "longer h h1 \<Longrightarrow> longer h (change_topic key f h1)" "longer h h1 \<Longrightarrow> longer h (add_leaving key t h1)"
  by (auto simp: longer_def hub_put_def hub_reply_def request_done_def topicDel_def change_topic_def add_leaving_def split: option.split)

lemma longer_fold: "(\<And>x h1. longer h h1 \<Longrightarrow> longer h (f x h1)) \<Longrightarrow> longer h h1 \<Longrightarrow> longer h (fold f xs h1)"
  by (induction xs arbitrary: h1) auto

lemma longer_rejects:
  "longer h h1 \<Longrightarrow> longer h (reject_clientMsg e x its m h1)" "longer h h1 \<Longrightarrow> longer h (reject_meta e m h1)" "longer h h1 \<Longrightarrow> longer h (reject_unreg e m h1)"
  by (auto simp: reject_clientMsg_def reject_meta_def reject_unreg_def split: option.split)

lemma failed_done:
  assumes "init_failed e sid key jn t err h = Some h'" "cm_Sub jn \<noteq> None" "he_inflight e sid" "\<not> (\<exists>r rest. q_exit t = (r, False) # rest)"
  shows "\<exists>new. h_out h' = h_out h @ new @ [RequestDone sid]"
proof -
  have longer: "longer h (after_failure e sid key jn t r h)" for r
    unfolding after_failure_def by (intro longer_fold longer_rejects longer_rules)
  from assms(1) show ?thesis
  proof (cases rule: init_failedE)
    case (2 r)
    with longer [of r] assms(2,3) show ?thesis by (auto simp: longer_def deferred_done_def request_done_def hub_put_def)
  qed (use assms(4) in blast)
qed

text \<open>
  C12. A request to join is never lost. With a valid tenant and a name it either waits at the topic, or a routine is started
  that makes the topic ready, or the session is released and answered. That routine ends with the request waiting at the
  topic or with the session released, unless the topic was told to exit by someone who left no channel
  for the answer.
\<close>

theorem join_never_lost:
  assumes "hub_run h" "msg_sess jn = Some sid" "he_inflight e sid" "TopicKey_IsValid (msg_key jn)"
  shows "(\<exists>h'. hub_join e jn h = Some h' \<and>
      ((\<exists>t. map_of (h_topics h') (msg_key jn) = Some t \<and> jn \<in> set (q_reg t)) \<or> StartTopic (msg_key jn) jn \<in> set (h_out h') \<or>
       (\<exists>r. h_out h' = h_out h @ [RequestDone sid, ToSession sid r]))) \<and>
    (\<forall>ie shuttingDown h'. cm_Sub jn \<noteq> None \<and> topicInit e ie shuttingDown (msg_key jn) jn h = Some h' \<longrightarrow>
      (\<exists>t jn'. map_of (h_topics h') (msg_key jn) = Some t \<and> jn' \<in> set (q_reg t) \<and> msg_sess jn' = Some sid) \<or>
      (\<exists>new. h_out h' = h_out h @ new @ [RequestDone sid]) \<or>
      (\<exists>r rest. q_exit (starting e (msg_key jn) jn h) = (r, False) # rest))"
proof (intro conjI allI impI; (elim conjE)?)
  let ?key = "msg_key jn"
  from assms(4) have tn: "TenantID_IsValid (msg_TenantID jn)" by (simp add: TopicKey_IsValid_def msg_key_def)
  show "\<exists>h'. hub_join e jn h = Some h' \<and>
      ((\<exists>t. map_of (h_topics h') ?key = Some t \<and> jn \<in> set (q_reg t)) \<or> StartTopic ?key jn \<in> set (h_out h') \<or>
       (\<exists>r. h_out h' = h_out h @ [RequestDone sid, ToSession sid r]))"
  proof (cases "topicGet h ?key")
    case None
    then have "topicPut h ?key (markPaused (new_topic e jn ?key) True) \<noteq> None"
      using assms(4) by (simp add: topicPut_def new_topic_def markPaused_def statusChangeBits_def msg_key_def)
    with None tn show ?thesis by (auto simp: hub_join_def Let_def hub_put_def)
  next
    case (Some t)
    then have "map_of (h_topics h) ?key = Some t" by (simp add: topicGet_def split: if_splits)
    with Some tn assms(2,3) show ?thesis
      by (auto simp: hub_join_def Let_def request_done_def hub_put_def change_topic_def AList.map_of_map_entry)
  qed
next
  fix ie shuttingDown h'
  let ?key = "msg_key jn"
  have ok: "hub_ok h" by (rule hub_run_ok [OF assms(1)])
  assume sub: "cm_Sub jn \<noteq> None" and run: "topicInit e ie shuttingDown ?key jn h = Some h'"
  let ?t = "starting e ?key jn h"
  obtain out r where r: "init_topic ie sid (topic.truncate ?t) jn = Some (out, r)"
    using run assms(2) by (cases "init_topic ie sid (topic.truncate ?t) jn") (auto simp: topicInit_def Let_def)
  note h' = run [unfolded topicInit_def Let_def assms(2) r bind.bind_lunit prod.case]
  let ?h = "fold (\<lambda>x. hub_put (InitEffect x)) out h"
  show "(\<exists>t jn'. map_of (h_topics h') ?key = Some t \<and> jn' \<in> set (q_reg t) \<and> msg_sess jn' = Some sid) \<or>
      (\<exists>new. h_out h' = h_out h @ new @ [RequestDone sid]) \<or> (\<exists>r rest. q_exit ?t = (r, False) # rest)"
  proof (cases r)
    case (Inl err)
    then show ?thesis using h' failed_done [of e sid ?key jn ?t err ?h h'] sub assms(3) by (auto simp: fold_put_out)
  next
    case (Inr p)
    then obtain t' jn' where p: "r = Inr (t', jn')" by (cases p) auto
    note keeps = init_topic_keeps [OF r [unfolded p]]
    have status: "t_status (topic.extend (computePerUserAcsUnion t') (topic.more ?t)) = t_status ?t"
      using keeps by (simp add: topic.defs computePerUserAcsUnion_def Let_def)
    have h1: "h' = init_ready e sid ?key jn' (topic.extend (computePerUserAcsUnion t') (topic.more ?t)) shuttingDown ?h"
      using h' p by simp
    have sub': "cm_Sub jn' \<noteq> None" "msg_sess jn' = Some sid" using keeps sub assms(2) by auto
    show ?thesis
    proof (cases "shuttingDown \<or> isDeleted ?t")
      case True
      then have "\<exists>new. h_out h' = h_out h @ new @ [RequestDone sid]"
        using h1 sub' assms(3) status
        by (auto simp: init_ready_def deferred_done_def request_done_def hub_put_def topicDel_def fold_put_out isDeleted_def)
      then show ?thesis by blast
    next
      case False
      then obtain t0 where "map_of (h_topics h) ?key = Some t0"
        using starting_deleted [OF ok, of ?key e jn] by (cases "map_of (h_topics h) ?key") auto
      then show ?thesis using False h1 sub' status
        by (auto simp: init_ready_def isDeleted_def Let_def hub_put_def change_topic_def AList.map_of_map_entry fold_put_out
            markPaused_def markLoaded_def statusChangeBits_def)
    qed
  qed
qed


subsection \<open>Deleting topics\<close>

definition emitted :: "hub \<Rightarrow> hub \<Rightarrow> hub_effect \<Rightarrow> bool" where
  "emitted h h' x \<longleftrightarrow> (\<exists>new. h_out h' = h_out h @ new \<and> x \<in> set new)"

lemma emitted_put: "longer h h1 \<Longrightarrow> emitted h (hub_put y h1) x \<longleftrightarrow> x = y \<or> emitted h h1 x"
  by (auto simp: emitted_def hub_put_def longer_def)

lemma emitted_same: "h_out h1 = h_out h \<Longrightarrow> \<not> emitted h h1 x"
  by (simp add: emitted_def)

lemma emitted_simps:
  "emitted h (topicDel h1 key) x = emitted h h1 x" "emitted h (add_leaving key t h1) x = emitted h h1 x"
  "emitted h (change_topic key f h1) x = emitted h h1 x" "\<not> emitted h h x"
  by (auto simp: emitted_def topicDel_def add_leaving_def change_topic_def)

lemma emitted_reply: "longer h h1 \<Longrightarrow> emitted h (hub_reply s m h1) (TopicsDelete tn n c d) \<longleftrightarrow> emitted h h1 (TopicsDelete tn n c d)"
  by (auto simp: hub_reply_def emitted_put split: option.split)

lemma emitted_fold_hub: "longer h h1 \<Longrightarrow> emitted h (fold (\<lambda>x. hub_put (ToHub x)) xs h1) (TopicsDelete tn n c d) \<longleftrightarrow> emitted h h1 (TopicsDelete tn n c d)"
  by (induction xs arbitrary: h1) (auto simp: emitted_put)

lemmas emitted_rules = emitted_put emitted_simps emitted_reply emitted_fold_hub longer_fold

lemma owned_deletes:
  "unreg_owned e key t sess msg h = Some (h', r) \<Longrightarrow> emitted h h' (TopicsDelete tn n c d) \<Longrightarrow> tn = TopicKey_TenantID key \<and> n = TopicKey_Topic key"
  by (auto simp: unreg_owned_def Let_def bind_eq_Some_conv emitted_rules split: option.splits if_splits)

lemma subscriber_deletes:
  "unreg_subscriber e tn topic cat subs sub sess m h = Some (h', r) \<Longrightarrow> emitted h h' (TopicsDelete tn' n c d) \<Longrightarrow>
    tn' = tn \<and> n = topic \<and> cat = TopicCatP2P \<and> length subs < 2"
  by (auto simp: unreg_subscriber_def Let_def bind_eq_Some_conv emitted_rules split: if_splits)

lemma owner_deletes:
  "unreg_owner e tn topic cat subs sess m h = Some (h', r) \<Longrightarrow> emitted h h' (TopicsDelete tn' n c d) \<Longrightarrow> tn' = tn \<and> n = topic"
  by (auto simp: unreg_owner_def Let_def bind_eq_Some_conv emitted_rules split: if_splits)

text \<open>The topic a request for a topic that is not loaded is about, and its subscriptions.\<close>

definition offline_subs :: "hub_env \<Rightarrow> tenant_id \<Rightarrow> string \<Rightarrow> ClientComMessage \<Rightarrow> string \<times> subscription list" where
  "offline_subs e tn topic m =
     (let name = (if IsChannel (msg_Original m) then msg_Original m else topic)
      in (name, case he_TopicsGetSubs e tn name (if IsChannel (msg_Original m) then Some (ParseUserId (msg_AsUser m)) else None) of
           Inl _ \<Rightarrow> [] | Inr subs \<Rightarrow> subs))"

lemma offline_deletes:
  assumes "unreg_offline e tn sess topic m h = Some (h', r)" "emitted h h' (TopicsDelete tn' n c d)"
  shows "tn' = tn \<and> n = fst (offline_subs e tn topic m) \<and>
    ((\<exists>sub \<in> set (snd (offline_subs e tn topic m)). Sub_User sub = Uid_String (ParseUserId (msg_AsUser m)) \<and> IsOwner (ModeGiven sub AND ModeWant sub)) \<or>
     (GetTopicCat n = Some TopicCatP2P \<and> length (snd (offline_subs e tn topic m)) < 2))"
proof -
  define name where "name = (if IsChannel (msg_Original m) then msg_Original m else topic)"
  let ?uid = "ParseUserId (msg_AsUser m)"
  note def = assms(1) [unfolded unreg_offline_def Let_def, folded name_def]
  show ?thesis
  proof (cases "he_TopicsGetSubs e tn name (if IsChannel (msg_Original m) then Some ?uid else None)")
    case (Inl err)
    with def assms(2) show ?thesis by (auto simp: emitted_rules)
  next
    case (Inr subs)
    then have subs: "offline_subs e tn topic m = (name, subs)" by (simp add: offline_subs_def name_def [symmetric] Let_def)
    from def Inr obtain cat where cat: "GetTopicCat name = Some cat" by (auto simp: bind_eq_Some_conv)
    show ?thesis
    proof (cases "subs = []")
      case True
      with def Inr cat assms(2) show ?thesis by (auto simp: subs emitted_rules split: if_splits)
    next
      case False
      show ?thesis
      proof (cases "find (\<lambda>s. Sub_User s = Uid_String ?uid) subs")
        case None
        with False def Inr cat assms(2) show ?thesis by (auto simp: emitted_rules)
      next
        case (Some sub)
        then have sub: "sub \<in> set subs" "Sub_User sub = Uid_String ?uid" by (auto simp: find_Some_iff)
        show ?thesis
        proof (cases "IsOwner (ModeGiven sub AND ModeWant sub)")
          case True
          with False def Inr cat Some have "unreg_owner e tn name cat subs sess m h = Some (h', r)" by simp
          from owner_deletes [OF this assms(2)] True sub show ?thesis by (auto simp: subs)
        next
          case owner: False
          with False def Inr cat Some have "unreg_subscriber e tn name cat subs sub sess m h = Some (h', r)" by simp
          from subscriber_deletes [OF this assms(2)] cat show ?thesis by (simp add: subs)
        qed
      qed
    qed
  qed
qed

text \<open>
  C13. A topic is deleted from the store only if it is the one the request names, in the tenant of the request, and the
  requester is its owner, or it is a peer-to-peer topic with fewer than two users left.
\<close>

theorem topic_deletion_allowed:
  assumes "topicUnreg e tn sess topic msg reason h = Some (h', r)" "emitted h h' (TopicsDelete tn' n chan hard)"
  shows "tn' = tn \<and>
    (case topicGet h \<lparr>TopicKey_TenantID = tn, TopicKey_Topic = topic\<rparr> of
       Some t \<Rightarrow> n = topic \<and> ((\<exists>m. msg = Some m \<and> ParseUserId (msg_AsUser m) \<noteq> ZeroUid \<and> t_owner t = ParseUserId (msg_AsUser m)) \<or>
         (t_cat t = TopicCatP2P \<and> subsCount t < 2))
     | None \<Rightarrow> \<exists>m. msg = Some m \<and> n = fst (offline_subs e tn topic m) \<and>
         ((\<exists>sub \<in> set (snd (offline_subs e tn topic m)).
             Sub_User sub = Uid_String (ParseUserId (msg_AsUser m)) \<and> IsOwner (ModeGiven sub AND ModeWant sub)) \<or>
          (GetTopicCat n = Some TopicCatP2P \<and> length (snd (offline_subs e tn topic m)) < 2)))"
proof -
  let ?key = "\<lparr>TopicKey_TenantID = tn, TopicKey_Topic = topic\<rparr>"
  show ?thesis
  proof (cases "reason = StopDeleted")
    case True
    show ?thesis
    proof (cases "topicGet h ?key")
      case None
      with True assms show ?thesis
        by (auto simp: topicUnreg_def Let_def bind_eq_Some_conv dest: offline_deletes)
    next
      case (Some t)
      with True assms show ?thesis
        by (auto simp: topicUnreg_def Let_def bind_eq_Some_conv emitted_simps Uid_IsZero_def dest: owned_deletes split: if_splits option.splits)
    qed
  next
    case False
    with assms show ?thesis
      by (auto simp: topicUnreg_def Let_def emitted_rules split: option.splits)
  qed
qed

subsection \<open>Topics that are not loaded\<close>

lemma emitted_update:
  "longer h h1 \<Longrightarrow> emitted h (hub_reply s r h1) (HubSubsUpdate tn n u us) \<longleftrightarrow> emitted h h1 (HubSubsUpdate tn n u us)"
  by (auto simp: hub_reply_def emitted_put split: option.split)

lemma reply_updates:
  "hub_error e err m h = Some h' \<Longrightarrow> \<not> emitted h h' (HubSubsUpdate tn n u us)"
  "offline_own e m topic desc h = Some h' \<Longrightarrow> \<not> emitted h h' (HubSubsUpdate tn n u us)"
  "replyOfflineTopicGetDesc e sid m h = Some h' \<Longrightarrow> \<not> emitted h h' (HubSubsUpdate tn n u us)"
  "replyOfflineTopicGetSub e sid m gq h = Some h' \<Longrightarrow> \<not> emitted h h' (HubSubsUpdate tn n u us)"
proof -
  show err: "hub_error e err m h = Some h' \<Longrightarrow> \<not> emitted h h' (HubSubsUpdate tn n u us)" for err h'
    by (auto simp: hub_error_def bind_eq_Some_conv emitted_update emitted_simps)
  show own: "offline_own e m topic desc h = Some h' \<Longrightarrow> \<not> emitted h h' (HubSubsUpdate tn n u us)" for topic desc
    by (auto simp: offline_own_def Let_def emitted_update emitted_simps dest: err split: sum.splits)
  show "replyOfflineTopicGetDesc e sid m h = Some h' \<Longrightarrow> \<not> emitted h h' (HubSubsUpdate tn n u us)"
    by (auto simp: replyOfflineTopicGetDesc_def Let_def emitted_put emitted_simps dest: err own split: sum.splits option.splits if_splits prod.splits)
  show "replyOfflineTopicGetSub e sid m gq h = Some h' \<Longrightarrow> \<not> emitted h h' (HubSubsUpdate tn n u us)"
    by (auto simp: replyOfflineTopicGetSub_def Let_def bind_eq_Some_conv emitted_put emitted_simps dest: err split: sum.splits option.splits if_splits)
qed

text \<open>A change of the own subscription: private data, and a mode that neither claims nor gives up ownership.\<close>

fun own_change :: "hub_env \<Rightarrow> topic_cat option \<Rightarrow> subscription \<Rightarrow> sub_update \<Rightarrow> bool" where
  "own_change e cat s (UpdPrivate _) = True"
| "own_change e cat s (UpdModeWant w) = (if cat = Some TopicCatP2P then w = (w AND he_typesModeCP2P e) OR ModeApprove else IsOwner w = IsOwner (ModeWant s))"
| "own_change e cat s _ = False"

lemma offline_parts:
  "list_all (own_change e cat s) (offline_private q s)"
  "offline_mode e m q s = Some (Inr mode) \<Longrightarrow> list_all (own_change e (GetTopicCat (msg_RcptTo m)) s) mode"
proof -
  show "list_all (own_change e cat s) (offline_private q s)"
    by (auto simp: offline_private_def Let_def split: option.split go_any.split prod.split)
  have p2p: "(((w AND c) OR a) AND c) OR a = (w AND c) OR a" for w c a :: access_mode
    by (rule bit_word_eqI) (auto simp: bit_simps)
  show "offline_mode e m q s = Some (Inr mode) \<Longrightarrow> list_all (own_change e (GetTopicCat (msg_RcptTo m)) s) mode"
    by (auto simp: offline_mode_def Let_def bind_eq_Some_conv p2p split: option.splits sum.splits if_splits)
qed


text \<open>
  The description of a group that is not loaded compares the stored owner, an id, with the name of the
  requesting user, which has a prefix: even the owner is not shown the default access.
\<close>

lemma offline_owner_acs_hidden:
  assumes "ST_Owner st = Uid_String v" "u \<noteq> ZeroUid"
  shows "td_DefaultAcs (group_desc lvl (UserId u) st) = None"
proof -
  have "length (Uid_String v) = 0 \<or> length (Uid_String v) = 11"
    using length_Uid_MarshalText [of v] by (cases "v = ZeroUid") (auto simp: Uid_String_def Uid_MarshalText_def)
  moreover have "length (UserId u) = 14"
    using assms(2) length_Uid_MarshalText [of u] by (simp add: UserId_def PrefixId_def Uid_IsZero_def Uid_String_def)
  ultimately show ?thesis using assms(1) by (auto simp: group_desc_def desc0_def)
qed

subsection \<open>Examples\<close>

definition hub_env0 :: hub_env where
  "hub_env0 = \<lparr>he_now = 1, he_cluster = None, he_sess = (\<lambda>_. session0), he_inflight = (\<lambda>_. True), he_typesModeCP2P = ModeCP2P,
     he_TopicsGet = (\<lambda>_ _. Inr None), he_TopicsGetSubs = (\<lambda>_ _ _. Inr []), he_TopicsDelete = (\<lambda>_ _ _ _. NilErr),
     he_SubsGet = (\<lambda>_ _ _ _. Inr (Some (sub0\<lparr>ModeWant := ModeCPublic, ModeGiven := ModeCPublic\<rparr>))), he_SubsDelete = (\<lambda>_ _ _. NilErr),
     he_SubsUpdate = (\<lambda>_ _ _ _. NilErr), he_UsersGet = (\<lambda>_ _. Inr None)\<rparr>"

definition new_grp_msg :: ClientComMessage where
  "new_grp_msg = (sub_msg ''new1'')\<lparr>msg_TenantID := 7, msg_RcptTo := ''grp1'', msg_Original := ''new1'', msg_AsUser := UserId 5,
     msg_AuthLvl := LevelAuth, msg_sess := Some ''s1''\<rparr>"

abbreviation key0 :: topic_key where
  "key0 \<equiv> \<lparr>TopicKey_TenantID = 7, TopicKey_Topic = ''grp1''\<rparr>"

definition hub0 :: hub where
  "hub0 = hub_put (StartTopic key0 new_grp_msg)
     (newHub\<lparr>h_numTopics := 1, h_topics := [(key0, markPaused (new_topic hub_env0 new_grp_msg key0) True)]\<rparr>)"

lemma new_grp_key: "msg_key new_grp_msg = key0" "msg_sess new_grp_msg = Some ''s1''" "TopicKey_IsValid key0" "msg_TenantID new_grp_msg = 7"
  "TenantID_IsValid 7"
  by (simp_all add: msg_key_def new_grp_msg_def TopicKey_IsValid_def TenantID_IsValid_def)

lemma hub0_join: "hub_join hub_env0 new_grp_msg newHub = Some hub0"
proof -
  have "t_tenantID (markPaused (new_topic hub_env0 new_grp_msg key0) True) = 7" "t_name (markPaused (new_topic hub_env0 new_grp_msg key0) True) = ''grp1''"
    by (simp_all add: markPaused_def statusChangeBits_def new_topic_def new_grp_msg_def)
  then show ?thesis by (simp add: hub_join_def new_grp_key topicGet_def topicPut_def newHub_def hub0_def Let_def)
qed

lemma hub0_run: "hub_run hub0"
  using hub_run.event [OF hub_run.start, of hub_env0 "Join new_grp_msg" hub0] by (simp add: hub_step_def hub0_join)


theorem join_never_lost_witness:
  "\<exists>h'. hub_join hub_env0 new_grp_msg newHub = Some h' \<and>
      (list_ex (\<lambda>(k, t). list_ex ((=) new_grp_msg) (q_reg t)) (h_topics h') \<or> StartTopic key0 new_grp_msg \<in> set (h_out h') \<or>
       (\<exists>r. h_out h' = [RequestDone ''s1'', ToSession ''s1'' r]))"
proof -
  have "he_inflight hub_env0 ''s1''" by (simp add: hub_env0_def)
  from join_never_lost [OF hub_run.start new_grp_key(2) this] show ?thesis
    by (auto simp: new_grp_key newHub_def list_ex_iff) (metis (no_types, lifting) case_prodI map_of_SomeD)+
qed

definition del_grp_msg :: ClientComMessage where
  "del_grp_msg = empty_ClientComMessage\<lparr>cm_Del := Some \<lparr>del_Id = ''1'', del_Topic = ''grp1'', del_What = ''topic'', del_DelSeq = [], del_User = [],
     del_Cred = None, del_Hard = True\<rparr>, msg_TenantID := 7, msg_RcptTo := ''grp1'', msg_AsUser := UserId 5\<rparr>"

definition owned_hub :: hub where
  "owned_hub = newHub\<lparr>h_topics := [(key0, (new_topic hub_env0 new_grp_msg key0)\<lparr>t_owner := 5, t_cat := TopicCatGrp\<rparr>)]\<rparr>"

theorem topic_deletion_allowed_witness:
  "\<exists>h' r. topicUnreg hub_env0 7 (Some ''s1'') ''grp1'' (Some del_grp_msg) StopDeleted owned_hub = Some (h', r) \<and>
     emitted owned_hub h' (TopicsDelete 7 ''grp1'' False True) \<and> (\<exists>t. topicGet owned_hub key0 = Some t \<and> t_owner t = 5)"
proof -
  have g: "topicGet owned_hub key0 = Some ((new_topic hub_env0 new_grp_msg key0)\<lparr>t_owner := 5, t_cat := TopicCatGrp\<rparr>)"
    by (simp add: owned_hub_def topicGet_def new_grp_key)
  have "\<exists>h' r. topicUnreg hub_env0 7 (Some ''s1'') ''grp1'' (Some del_grp_msg) StopDeleted owned_hub = Some (h', r) \<and>
     emitted owned_hub h' (TopicsDelete 7 ''grp1'' False True)"
    by (simp add: topicUnreg_def g del_grp_msg_def  Uid_IsZero_def ZeroUid_def unreg_owned_def hub_env0_def new_topic_def Let_def
        emitted_rules)
  then show ?thesis using topic_deletion_allowed [of hub_env0 7 "Some ''s1''" "''grp1''" "Some del_grp_msg" StopDeleted owned_hub _ _ 7 "''grp1''" False True] g
    by (fastforce simp: del_grp_msg_def)
qed

definition set_mode_msg :: ClientComMessage where
  "set_mode_msg = empty_ClientComMessage\<lparr>cm_Set := Some \<lparr>set_Id = ''1'', set_Topic = ''grp1'', set_Query = \<lparr>sq_Desc = None,
     sq_Sub = Some \<lparr>ss_User = [], ss_Mode = ''JR''\<rparr>, sq_Tags = None, sq_Cred = None, sq_Aux = None\<rparr>\<rparr>, msg_TenantID := 7, msg_RcptTo := ''grp1'',
     msg_AsUser := UserId 5, msg_sess := Some ''s1''\<rparr>"


end
