(* ===== verification/GroupLife.thy ===== *)
theory GroupLife
  imports HubProps TopicRun
begin

section \<open>The life of a group\<close>

text \<open>
  A group from the request that creates or loads it, through the hub and the routine that makes it ready, to
  every state its loop reaches afterwards.
\<close>

text \<open>The loop starts with the topic as the routine left it.\<close>

definition running :: "(string \<Rightarrow> session) \<Rightarrow> hub_topic \<Rightarrow> world" where
  "running ses t = topic.extend (topic.truncate t) \<lparr>w_sess = ses, w_out = [], w_tries = 0\<rparr>"

text \<open>A topic as the routine may leave it: a group with counters in order whose owner, if any, owns it.\<close>

definition fresh :: "'a topic_scheme \<Rightarrow> bool" where
  "fresh t \<longleftrightarrow> t_cat t = TopicCatGrp \<and> \<not> t_isChan t \<and> 0 \<le> t_lastID t \<and> 0 \<le> t_delID t \<and>
     list_all (\<lambda>(u, p). user_ok (t_lastID t) (t_delID t) p \<and> \<not> u_isChan p) (t_perUser t) \<and>
     (t_owner t = ZeroUid \<or> (\<exists>p. map_of (t_perUser t) (t_owner t) = Some p \<and> owns p))"

lemma fresh_running:
  assumes "fresh t"
  shows "plain_group (running ses t) \<and> owner_ok (running ses t) \<and> ids_ok (running ses t) \<and> saves (running ses t) = [] \<and>
    t_lastID (running ses t) = t_lastID t"
proof -
  have f: "t_cat (running ses t) = t_cat t" "t_isChan (running ses t) = t_isChan t" "t_lastID (running ses t) = t_lastID t"
    "t_delID (running ses t) = t_delID t" "t_perUser (running ses t) = t_perUser t" "t_owner (running ses t) = t_owner t"
    "w_out (running ses t) = []"
    by (simp_all add: running_def topic.defs)
  have "user_ok (t_lastID t) (t_delID t) (user_of (running ses t) u) \<and> \<not> u_isChan (user_of (running ses t) u)" for u
    using assms by (auto simp: user_of_def f fresh_def list_all_iff user_ok_def user0_def dest!: map_of_SomeD split: option.split)
  moreover have "t_owner t = ZeroUid \<or> owns (user_of (running ses t) (t_owner t))"
    using assms by (auto simp: user_of_def f fresh_def)
  ultimately show ?thesis using assms by (simp add: plain_group_def owner_ok_def ids_ok_def saves_def f fresh_def)
qed

lemma fresh_frame:
  "fresh (computePerUserAcsUnion t) = fresh t" "fresh (markPaused (t1 :: hub_topic) b) = fresh t1" "fresh (t1\<lparr>q_reg := r\<rparr>) = fresh t1"
  "fresh (topic.extend t mo) = fresh (t :: topic)"
  by (simp_all add: fresh_def computePerUserAcsUnion_def Let_def markPaused_def statusChangeBits_def topic.defs)

lemma full_owns: "IsOwner ModeOwner" "IsOwner ModeCFull"
  by code_simp+

subsection \<open>A new group\<close>

lemma grp_params_fresh:
  assumes "grp_params ie lvl q t ud = Some (t', ud')" "owns ud" "user_ok 0 0 ud"
  shows "t_cat t' = t_cat t \<and> t_isChan t' = t_isChan t \<and> t_lastID t' = t_lastID t \<and> t_delID t' = t_delID t \<and> t_perUser t' = t_perUser t \<and>
    t_owner t' = t_owner t \<and> owns ud' \<and> user_ok 0 0 ud'"
proof -
  have acs: "t_cat (grp_access d t) = t_cat t \<and> t_isChan (grp_access d t) = t_isChan t \<and> t_lastID (grp_access d t) = t_lastID t \<and>
      t_delID (grp_access d t) = t_delID t \<and> t_perUser (grp_access d t) = t_perUser t \<and> t_owner (grp_access d t) = t_owner t" for d t
    by (auto simp: grp_access_def split: option.splits prod.splits)
  have tags: "grp_tags ie p t = Some t1 \<Longrightarrow> t_cat t1 = t_cat t \<and> t_isChan t1 = t_isChan t \<and> t_lastID t1 = t_lastID t \<and>
      t_delID t1 = t_delID t \<and> t_perUser t1 = t_perUser t \<and> t_owner t1 = t_owner t" for p t1 and t :: topic
    by (auto simp: grp_tags_def split: option.splits list.splits if_splits)
  show ?thesis
  proof (cases q)
    case None
    with assms show ?thesis by (simp add: grp_params_def)
  next
    case (Some p)
    from assms(1) obtain t1 ud1 where 1: "(case sq_Desc p of None \<Rightarrow> Some (t, ud) | Some d \<Rightarrow>
          if sd_Trusted d \<noteq> ANil \<and> lvl \<noteq> LevelRoot then None
          else Some (grp_access d (t\<lparr>t_public := not_null (sd_Public d), t_trusted := not_null (sd_Trusted d)\<rparr>), ud\<lparr>u_private := not_null (sd_Private d)\<rparr>))
        = Some (t1, ud1)" and 2: "grp_tags ie p t1 = Some t'"
      and 3: "ud' = (case sq_Sub p of None \<Rightarrow> ud1 | Some ss \<Rightarrow> if ss_Mode ss = [] then ud1
          else ud1\<lparr>u_modeWant := result_or ModeCFull (AccessMode_UnmarshalText ModeCFull (ss_Mode ss)) OR ModeJoin OR ModeOwner\<rparr>)"
      unfolding grp_params_def Some by (auto simp: bind_eq_Some_conv Let_def)
    from 1 assms(2,3) have "t_cat t1 = t_cat t \<and> t_isChan t1 = t_isChan t \<and> t_lastID t1 = t_lastID t \<and> t_delID t1 = t_delID t \<and>
        t_perUser t1 = t_perUser t \<and> t_owner t1 = t_owner t \<and> owns ud1 \<and> user_ok 0 0 ud1"
      by (cases "sq_Desc p") (auto simp: acs owns_def user_ok_def split: if_splits)
    with tags [OF 2] 3 show ?thesis by (cases "sq_Sub p") (auto simp: owns_def user_ok_def full_owns)
  qed
qed

lemma new_group_fresh:
  assumes "initTopicNewGrp ie t m False = Some (out, Inr (t', m'))" "t_perUser t = []" "t_lastID t = 0" "t_delID t = 0"
  shows "fresh t' \<and> t_lastID t' = 0 \<and> t_owner t' = ParseUserId (msg_AsUser m)"
proof -
  let ?ud = "user0\<lparr>u_modeGiven := ModeCFull, u_modeWant := ModeCFull\<rparr>"
  have ud: "owns ?ud" "user_ok 0 0 ?ud" by (simp_all add: owns_def user_ok_def user0_def full_owns)
  obtain pkt auth anon where pkt: "cm_Sub m = Some pkt" "getDefaultAccess (ie_modeP2P ie) TopicCatGrp True False = Some auth"
    "getDefaultAccess (ie_modeP2P ie) TopicCatGrp False False = Some anon"
    using assms(1) by (auto simp: initTopicNewGrp_def bind_eq_Some_conv)
  let ?t = "t\<lparr>t_cat := TopicCatGrp, t_isChan := False, t_owner := ParseUserId (msg_AsUser m), t_accessAuth := auth, t_accessAnon := anon\<rparr>"
  obtain t1 ud1 where p: "grp_params ie (msg_AuthLvl m) (sub_Set pkt) ?t ?ud = Some (t1, ud1)"
    using assms(1) pkt by (cases "grp_params ie (msg_AuthLvl m) (sub_Set pkt) ?t ?ud") (auto simp: initTopicNewGrp_def Let_def)
  from assms(1) pkt p have "t' = t1\<lparr>t_perUser := AList.update (ParseUserId (msg_AsUser m)) ud1 (t_perUser t1), t_created := ie_now ie,
      t_updated := ie_now ie, t_touched := ie_now ie, t_xoriginal := t_name t1, t_subCnt := 1\<rparr>"
    by (simp add: initTopicNewGrp_def Let_def split: store_result.splits)
  with grp_params_fresh [OF p ud] assms(2-4) show ?thesis by (simp add: fresh_def owns_def)
qed

subsection \<open>A group that is loaded\<close>

text \<open>The stored subscriptions of a group as they should be: one per user, with counters in order.\<close>

definition subs_ok :: "int \<Rightarrow> int \<Rightarrow> subscription list \<Rightarrow> bool" where
  "subs_ok lastID delID subs \<longleftrightarrow> distinct (map (\<lambda>s. ParseUid (Sub_User s)) subs) \<and> list_all (\<lambda>s. user_ok lastID delID (loaded_user s)) subs"

lemma loaded_fresh:
  assumes "t_perUser t = []" "t_owner t = ZeroUid" "subs_ok l d subs"
  shows "(\<forall>u p. map_of (t_perUser (fold load_subscriber subs t)) u = Some p \<longrightarrow> (\<exists>s \<in> set subs. u = ParseUid (Sub_User s) \<and> p = loaded_user s)) \<and>
    (let owner = t_owner (fold load_subscriber subs t)
     in owner = ZeroUid \<or> (\<exists>p. map_of (t_perUser (fold load_subscriber subs t)) owner = Some p \<and> owns p))"
  using assms(3)
proof (induction subs rule: rev_induct)
  case Nil
  show ?case by (simp add: assms)
next
  case (snoc s subs)
  let ?t = "fold load_subscriber subs t"
  from snoc have new: "ParseUid (Sub_User s) \<notin> set (map (\<lambda>s. ParseUid (Sub_User s)) subs)" and IH: "subs_ok l d subs"
    by (auto simp: subs_ok_def)
  have owns: "owns (loaded_user s)" if "IsOwner (ModeGiven s AND ModeWant s)"
    using that by (simp add: owns_def loaded_user_def user0_def mode_bits bit_simps)
  define t1 where "t1 = fold load_subscriber subs t"
  have "map_of (t_perUser t1) (ParseUid (Sub_User s)) = None"
    using new snoc.IH [OF IH] unfolding t1_def [symmetric] by (cases "map_of (t_perUser t1) (ParseUid (Sub_User s))") auto
  with owns snoc.IH [OF IH] show ?case
    unfolding fold_append comp_def fold_Cons fold_Nil id_apply t1_def [symmetric]
    by (auto simp: load_subscriber_def Let_def AList.update_conv' split: if_splits)
qed

lemma loaded_group_fresh:
  assumes "initTopicGrp ie t = Inr t'" "t_perUser t = []" "t_owner t = ZeroUid"
    and st: "ie_TopicsGet ie (t_tenantID t) (t_name t) = Inr (Some st)" "\<not> ST_UseBt st" "0 \<le> ST_SeqId st" "0 \<le> ST_DelId st"
    and subs: "ie_TopicsGetSubs ie (t_tenantID t) (t_name t) = Inr subs" "subs_ok (ST_SeqId st) (ST_DelId st) subs"
  shows "fresh t' \<and> t_lastID t' = ST_SeqId st"
proof -
  let ?t = "t\<lparr>t_cat := TopicCatGrp\<rparr>"
  let ?f = "fold load_subscriber subs ?t"
  from assms(1) st(1) subs(1) have t': "t' = (stored_times st ?f)\<lparr>t_isChan := ST_UseBt st, t_accessAuth := Auth (ST_Access st),
      t_accessAnon := Anon (ST_Access st), t_tags := ST_Tags st, t_aux := ST_Aux st, t_public := ST_Public st, t_trusted := ST_Trusted st,
      t_lastID := ST_SeqId st, t_delID := ST_DelId st, t_subCnt := ST_SubCnt st, t_xoriginal := t_name ?f\<rparr>"
    by (simp add: initTopicGrp_def loadSubscribers_def)
  have "t_cat (fold load_subscriber subs t1) = t_cat t1" for t1
    by (induction subs arbitrary: t1) (simp_all add: load_subscriber_def Let_def)
  then have cat: "t_cat ?f = TopicCatGrp" by simp
  have d: "distinct (map fst (t_perUser (fold load_subscriber subs t1)))" if "distinct (map fst (t_perUser t1))" for t1
    using that by (induction subs arbitrary: t1) (simp_all add: load_subscriber_def Let_def AList.distinct_update)
  note l = loaded_fresh [of ?t, OF _ _ subs(2)]
  have "user_ok (ST_SeqId st) (ST_DelId st) p \<and> \<not> u_isChan p" if "(u, p) \<in> set (t_perUser ?f)" for u p
  proof -
    have "map_of (t_perUser ?f) u = Some p" using that d [of ?t] assms(2) by (simp add: map_of_eq_Some_iff)
    then obtain s where "s \<in> set subs" "p = loaded_user s" using l assms(2,3) by auto
    with subs(2) show ?thesis by (auto simp: subs_ok_def list_all_iff loaded_user_def user0_def)
  qed
  with l assms(2,3) st cat show ?thesis
    unfolding t' by (auto simp: fresh_def stored_times_def Let_def list_all_iff)
qed

subsection \<open>Through the hub\<close>

lemma topics_fold: "(\<And>x h. h_topics (f x h) = h_topics h) \<Longrightarrow> h_topics (fold f xs h) = h_topics h"
  by (induction xs arbitrary: h) auto

lemma topics_same:
  "h_topics (hub_put x h) = h_topics h" "h_topics (hub_reply se r h) = h_topics h" "h_topics (request_done e sid h) = h_topics h"
  "h_topics (reject_clientMsg e o1 its m h) = h_topics h" "h_topics (reject_meta e m h) = h_topics h" "h_topics (reject_unreg e m h) = h_topics h"
  "h_topics (deferred_done e sid m h) = h_topics h"
  by (simp_all add: hub_put_def hub_reply_def request_done_def reject_clientMsg_def reject_meta_def reject_unreg_def deferred_done_def split: option.split)

lemma failed_gone:
  assumes "TopicKey_IsValid key" "init_failed e sid key jn t err h = Some h'"
  shows "map_of (h_topics h') key = None"
proof -
  have "h_topics (after_failure e sid key jn t r h) = h_topics (topicDel h key)" for r
    by (simp add: after_failure_def topics_same topics_fold)
  with assms(2) have "h_topics h' = h_topics (topicDel h key)" by (auto simp: topics_same elim: init_failedE)
  with assms(1) show ?thesis by (simp add: topicDel_def AList.delete_conv')
qed

lemma ready_topic:
  assumes "topicInit e ie False key jn h = Some h'" "TopicKey_IsValid key" "map_of (h_topics h) key = Some t0" "map_of (h_topics h') key = Some t"
    "\<not> isDeleted t0"
  obtains sid out t1 jn1 where "init_topic ie sid (topic.truncate t0) jn = Some (out, Inr (t1, jn1))"
    "fresh t = fresh t1" "t_lastID t = t_lastID t1"
proof -
  have t0: "starting e key jn h = t0" using assms(3) by (simp add: starting_def)
  from assms(1) obtain sid where sid: "msg_sess jn = Some sid" by (cases "msg_sess jn") (simp_all add: topicInit_def Let_def)
  obtain out r where r: "init_topic ie sid (topic.truncate t0) jn = Some (out, r)"
    using assms(1) sid t0 by (cases "init_topic ie sid (topic.truncate t0) jn") (auto simp: topicInit_def Let_def)
  note h' = assms(1) [unfolded topicInit_def Let_def sid t0 r bind.bind_lunit prod.case]
  show ?thesis
  proof (cases r)
    case (Inl err)
    then show ?thesis using h' failed_gone [OF assms(2)] assms(4) by fastforce
  next
    case (Inr p)
    then obtain t1 jn1 where p: "r = Inr (t1, jn1)" by (cases p) auto
    let ?t = "topic.extend (computePerUserAcsUnion t1) (topic.more t0)"
    from init_topic_keeps [OF r [unfolded p]] assms(5) have d: "\<not> isDeleted ?t"
      by (simp add: isDeleted_def topic.defs computePerUserAcsUnion_def Let_def)
    from h' p have "h' = init_ready e sid key jn1 ?t False (fold (\<lambda>x. hub_put (InitEffect x)) out h)" by simp
    with d assms(3,4) have "fresh t = fresh ?t \<and> t_lastID t = t_lastID ?t"
      by (auto simp: init_ready_def Let_def change_topic_def topics_same topics_fold AList.map_of_map_entry fresh_def markPaused_def markLoaded_def
          statusChangeBits_def split: if_splits)
    then show ?thesis using that [of sid out t1 jn1] r p by (simp add: fresh_frame(1,4)) (simp add: topic.defs computePerUserAcsUnion_def Let_def)
  qed
qed

text \<open>
  What a group is made from: a request for a new group, or a stored one that is no channel and whose
  subscriptions are in order.
\<close>

definition group_source :: "init_env \<Rightarrow> tenant_id \<Rightarrow> string \<Rightarrow> string \<Rightarrow> int \<Rightarrow> bool" where
  "group_source ie tn name orig lastID \<longleftrightarrow>
     (HasPrefix orig ''new'' \<and> lastID = 0) \<or>
     (HasPrefix orig ''grp'' \<and>
      (case (ie_TopicsGet ie tn name, ie_TopicsGetSubs ie tn name) of
         (Inr (Some st), Inr subs) \<Rightarrow>
           \<not> ST_UseBt st \<and> lastID = ST_SeqId st \<and> 0 \<le> ST_SeqId st \<and> 0 \<le> ST_DelId st \<and> subs_ok (ST_SeqId st) (ST_DelId st) subs
       | _ \<Rightarrow> False))"

lemma prefix_distinct: "HasPrefix x [a, b, c] \<Longrightarrow> HasPrefix x [a', b', c'] \<longleftrightarrow> a = a' \<and> b = b' \<and> c = c'"
  by (auto simp: HasPrefix_def take_Cons' split: if_splits)

lemma plain_names:
  assumes "HasPrefix x [a, b, c]"
  shows "x \<noteq> ''me''" "[a, b, c] \<noteq> ''fnd'' \<Longrightarrow> x \<noteq> ''fnd''" "[a, b, c] \<noteq> ''sys'' \<Longrightarrow> x \<noteq> ''sys''" "[a, b, c] \<noteq> ''slf'' \<Longrightarrow> x \<noteq> ''slf''"
  using assms by (auto simp: HasPrefix_def)

lemma source_fresh:
  assumes "init_topic ie sid t jn = Some (out, Inr (t', jn'))" "group_source ie (t_tenantID t) (t_name t) (t_xoriginal t) lastID"
    "t_perUser t = []" "t_lastID t = 0" "t_delID t = 0" "t_owner t = ZeroUid"
  shows "fresh t' \<and> t_lastID t' = lastID"
proof (cases "HasPrefix (t_xoriginal t) ''new''")
  case True
  then have "initTopicNewGrp ie t jn False = Some (out, Inr (t', jn'))" "lastID = 0"
    using assms(1,2) by (simp_all add: init_topic_def Let_def prefix_distinct [OF True] plain_names [OF True] group_source_def)
  then show ?thesis using new_group_fresh assms(3-5) by auto
next
  case False
  with assms(2) obtain st subs where st: "HasPrefix (t_xoriginal t) ''grp''" "ie_TopicsGet ie (t_tenantID t) (t_name t) = Inr (Some st)"
    "ie_TopicsGetSubs ie (t_tenantID t) (t_name t) = Inr subs" "\<not> ST_UseBt st" "lastID = ST_SeqId st" "0 \<le> ST_SeqId st" "0 \<le> ST_DelId st"
    "subs_ok (ST_SeqId st) (ST_DelId st) subs"
    by (cases "ie_TopicsGet ie (t_tenantID t) (t_name t)"; cases "ie_TopicsGetSubs ie (t_tenantID t) (t_name t)")
      (auto simp: group_source_def split: option.splits)
  then have "initTopicGrp ie t = Inr t'"
    using assms(1)
    by (cases "initTopicGrp ie t") (simp_all add: init_topic_def Let_def prefix_distinct [OF st(1)] plain_names [OF st(1)])
  from loaded_group_fresh [OF this assms(3,6) st(2,4,6,7,3,8)] st(5) show ?thesis by simp
qed

text \<open>
  C14. A group is in order from its first moment on. If a request makes the hub create a new group, or load a stored group
  that is no channel and whose subscriptions are in order, then in every state the loop of the topic reaches
  its messages are numbered without a gap from the last stored number, no user's marks are ahead of them, and the owner, if
  there is one, holds the owner permission and is subscribed.
\<close>

theorem group_life:
  assumes made: "map_of (h_topics h) key = Some t0" "topic.truncate t0 = topic.truncate (markPaused (new_topic e jn key) True)"
    "TopicKey_IsValid key" "msg_key jn = key"
    and init: "topicInit e ie False key jn h = Some h'" "map_of (h_topics h') key = Some t"
    and source: "group_source ie (msg_TenantID jn) (msg_RcptTo jn) (msg_Original jn) lastID"
    and run: "topic_step\<^sup>*\<^sup>* (Running (running ses t) ua) s" "w = loop_world s"
  shows "saves w = [lastID + 1..t_lastID w] \<and>
    0 \<le> u_readID (user_of w u) \<and> u_readID (user_of w u) \<le> u_recvID (user_of w u) \<and> u_recvID (user_of w u) \<le> t_lastID w \<and>
    (t_owner w = ZeroUid \<or> (IsOwner (u_modeGiven (user_of w (t_owner w))) \<and> IsOwner (u_modeWant (user_of w (t_owner w))) \<and>
       \<not> u_deleted (user_of w (t_owner w))))"
proof -
  have "t_tenantID t0 = msg_TenantID jn \<and> t_name t0 = msg_RcptTo jn \<and> t_xoriginal t0 = msg_Original jn \<and> t_perUser t0 = [] \<and> t_lastID t0 = 0 \<and>
      t_delID t0 = 0 \<and> t_owner t0 = ZeroUid \<and> t_status t0 = t_status (markPaused (new_topic e jn key) True)"
    using made(2) by (simp add: topic.defs markPaused_def statusChangeBits_def new_topic_def)
  moreover have "\<not> isDeleted (markPaused (new_topic e jn key) True)"
    by (simp add: isDeleted_def markPaused_def statusChangeBits_def new_topic_def topicStatusMarkedDeleted_def topicStatusPaused_def)
  ultimately have t0: "t_tenantID (topic.truncate t0) = msg_TenantID jn" "t_name (topic.truncate t0) = msg_RcptTo jn"
    "t_xoriginal (topic.truncate t0) = msg_Original jn" "t_perUser (topic.truncate t0) = []" "t_lastID (topic.truncate t0) = 0"
    "t_delID (topic.truncate t0) = 0" "t_owner (topic.truncate t0) = ZeroUid" "\<not> isDeleted t0"
    by (simp_all add: topic.defs isDeleted_def)
  obtain sid out t1 jn1 where i: "init_topic ie sid (topic.truncate t0) jn = Some (out, Inr (t1, jn1))" "fresh t = fresh t1" "t_lastID t = t_lastID t1"
    by (rule ready_topic [OF init(1) made(3,1) init(2) t0(8)])
  have "fresh t1 \<and> t_lastID t1 = lastID"
    by (rule source_fresh [OF i(1)]) (use t0 source in simp_all)
  with i fresh_running [of t ses] have "kept (running ses t) w" "plain_group (running ses t)" "owner_ok (running ses t)" "ids_ok (running ses t)"
    "saves (running ses t) = []" "t_lastID (running ses t) = lastID"
    using reachable_kept [OF run(1)] run(2) by simp_all
  then show ?thesis by (auto simp: kept_def good_def advances_def ids_ok_def user_ok_def owner_ok_def owns_def)
qed

definition init_env0 :: init_env where
  "init_env0 = \<lparr>ie_now = 1, ie_un = ascii_tables, ie_config = sess_config0, ie_sess = (\<lambda>_. session0), ie_UsersGet = (\<lambda>_ _. Inr None),
     ie_UsersGetAll = (\<lambda>_ _ _. Inr []), ie_TopicsGet = (\<lambda>_ _. Inr None), ie_TopicsGetSubs = (\<lambda>_ _. Inr []), ie_TopicsGetUsers = (\<lambda>_ _. Inr []),
     ie_TopicsCreate = (\<lambda>_ _ _ _. NilErr), ie_TopicsCreateP2P = (\<lambda>_ s1 s2. Inr (s1, s2)), ie_SubsCreate = (\<lambda>_ _. NilErr)\<rparr>"

lemma ready_owner:
  "\<not> isDeleted t \<Longrightarrow> map_of (h_topics h) key \<noteq> None \<Longrightarrow>
    \<exists>t'. map_of (h_topics (init_ready e sid key jn t False h)) key = Some t' \<and> t_owner t' = t_owner t"
  by (auto simp: init_ready_def Let_def change_topic_def hub_put_def AList.map_of_map_entry markPaused_def markLoaded_def statusChangeBits_def)

text \<open>The group of the example, ready: user 5 owns it.\<close>

lemma group_ready:
  "\<exists>h' t. topicInit hub_env0 init_env0 False key0 new_grp_msg hub0 = Some h' \<and> map_of (h_topics h') key0 = Some t \<and> t_owner t = 5"
proof -
  let ?t0 = "topic.truncate (markPaused (new_topic hub_env0 new_grp_msg key0) True)"
  have t0: "t_xoriginal ?t0 = ''new1''" "t_perUser ?t0 = []" "t_lastID ?t0 = 0" "t_delID ?t0 = 0"
    "\<not> isDeleted (markPaused (new_topic hub_env0 new_grp_msg key0) True)"
    by (simp_all add: topic.defs markPaused_def statusChangeBits_def new_topic_def new_grp_msg_def isDeleted_def topicStatusMarkedDeleted_def topicStatusPaused_def)
  have st: "starting hub_env0 key0 new_grp_msg hub0 = markPaused (new_topic hub_env0 new_grp_msg key0) True"
    by (simp add: starting_def hub0_def hub_put_def)
  have "\<exists>out t1 jn1. initTopicNewGrp init_env0 ?t0 new_grp_msg False = Some (out, Inr (t1, jn1))"
    by (simp add: initTopicNewGrp_def new_grp_msg_def sub_msg_def empty_ClientComMessage_def getDefaultAccess_def grp_params_def init_env0_def Let_def)
  then obtain out t1 jn1 where n: "initTopicNewGrp init_env0 ?t0 new_grp_msg False = Some (out, Inr (t1, jn1))" by blast
  have owner: "t_owner t1 = 5" using new_group_fresh [OF n t0(2-4)] by (simp add: new_grp_msg_def)
  have i: "init_topic init_env0 ''s1'' ?t0 new_grp_msg = Some (out, Inr (t1, jn1))"
    by (simp add: init_topic_def t0 HasPrefix_def n Let_def)
  let ?t = "topic.extend (computePerUserAcsUnion t1) (topic.more (markPaused (new_topic hub_env0 new_grp_msg key0) True))"
  have d: "\<not> isDeleted ?t" "t_owner ?t = 5"
    using init_topic_keeps [OF i] t0(5) owner by (simp_all add: isDeleted_def topic.defs computePerUserAcsUnion_def Let_def)
  have "topicInit hub_env0 init_env0 False key0 new_grp_msg hub0 =
      Some (init_ready hub_env0 ''s1'' key0 jn1 ?t False (fold (\<lambda>x. hub_put (InitEffect x)) out hub0))"
    by (simp add: topicInit_def st i new_grp_key Let_def)
  moreover have "map_of (h_topics (fold (\<lambda>x. hub_put (InitEffect x)) out hub0)) key0 \<noteq> None"
    by (simp add: topics_same topics_fold) (simp add: hub0_def hub_put_def)
  ultimately show ?thesis using ready_owner [OF d(1)] d(2) by fastforce
qed

theorem group_life_witness:
  "\<exists>h' t. topicInit hub_env0 init_env0 False key0 new_grp_msg hub0 = Some h' \<and> map_of (h_topics h') key0 = Some t \<and> t_owner t = 5 \<and>
     (let w = running (\<lambda>_. session0) t in saves w = [0 + 1..t_lastID w] \<and> IsOwner (u_modeGiven (user_of w 5)))"
proof -
  from group_ready obtain h' t where h': "topicInit hub_env0 init_env0 False key0 new_grp_msg hub0 = Some h'" "map_of (h_topics h') key0 = Some t" "t_owner t = 5"
    by blast
  let ?w = "running (\<lambda>_. session0) t"
  have "map_of (h_topics hub0) key0 = Some (markPaused (new_topic hub_env0 new_grp_msg key0) True)" by (simp add: hub0_def hub_put_def)
  moreover have "group_source init_env0 (msg_TenantID new_grp_msg) (msg_RcptTo new_grp_msg) (msg_Original new_grp_msg) 0"
    by (simp add: group_source_def new_grp_msg_def HasPrefix_def)
  moreover have "t_owner ?w = 5" using h'(3) by (simp add: running_def topic.defs)
  ultimately show ?thesis
    using group_life [OF _ refl new_grp_key(3,1) h'(1,2) _ rtranclp.rtrancl_refl refl, of 0 "\<lambda>_. session0" "[]" 5] h'
    by (auto simp: ZeroUid_def)
qed

end
