(* ===== verification/GoHeap.thy ===== *)
theory GoHeap
  imports Main
begin

section \<open>Binary heaps (container/heap)\<close>

text \<open>
  The operations of Go's \<^verbatim>\<open>container/heap\<close> that the server uses, over the interface of a heap: its length, the
  comparison of two positions, and the exchange of two positions. The locale has what the interface
  promises and what the operations then do.
\<close>

subsection \<open>Operations\<close>

function heap_up :: "('h \<Rightarrow> nat \<Rightarrow> nat \<Rightarrow> bool) \<Rightarrow> (nat \<Rightarrow> nat \<Rightarrow> 'h \<Rightarrow> 'h) \<Rightarrow> nat \<Rightarrow> 'h \<Rightarrow> 'h" where
  "heap_up lss swap j h =
     (let i = (j - 1) div 2
      in if i = j \<or> \<not> lss h j i then h else heap_up lss swap i (swap i j h))"
  by pat_completeness auto
termination by (relation "measure (\<lambda>(lss, swap, j, h). j)") auto

text \<open>The position where the element ends tells whether it has moved.\<close>

function heap_down :: "('h \<Rightarrow> nat \<Rightarrow> nat \<Rightarrow> bool) \<Rightarrow> (nat \<Rightarrow> nat \<Rightarrow> 'h \<Rightarrow> 'h) \<Rightarrow> nat \<Rightarrow> nat \<Rightarrow> 'h \<Rightarrow> nat \<times> 'h" where
  "heap_down lss swap n i h =
     (let j1 = 2 * i + 1
      in if n \<le> j1 then (i, h)
         else
           (let j = (if j1 + 1 < n \<and> lss h (j1 + 1) j1 then j1 + 1 else j1)
            in if \<not> lss h j i then (i, h) else heap_down lss swap n j (swap i j h)))"
  by pat_completeness auto
termination by (relation "measure (\<lambda>(lss, swap, n, i, h). n - i)") (auto split: if_splits)

declare heap_up.simps [simp del] heap_down.simps [simp del]

definition heap_Push ::
  "('h \<Rightarrow> nat \<Rightarrow> nat \<Rightarrow> bool) \<Rightarrow> (nat \<Rightarrow> nat \<Rightarrow> 'h \<Rightarrow> 'h) \<Rightarrow> ('h \<Rightarrow> nat) \<Rightarrow> ('x \<Rightarrow> 'h \<Rightarrow> 'h) \<Rightarrow> 'x \<Rightarrow> 'h \<Rightarrow> 'h" where
  "heap_Push lss swap len push x h = (let h = push x h in heap_up lss swap (len h - 1) h)"

definition heap_Pop ::
  "('h \<Rightarrow> nat \<Rightarrow> nat \<Rightarrow> bool) \<Rightarrow> (nat \<Rightarrow> nat \<Rightarrow> 'h \<Rightarrow> 'h) \<Rightarrow> ('h \<Rightarrow> nat) \<Rightarrow> ('h \<Rightarrow> 'x \<times> 'h) \<Rightarrow> 'h \<Rightarrow> 'x \<times> 'h" where
  "heap_Pop lss swap len pop h = (let n = len h - 1 in pop (snd (heap_down lss swap n 0 (swap 0 n h))))"

definition heap_Fix ::
  "('h \<Rightarrow> nat \<Rightarrow> nat \<Rightarrow> bool) \<Rightarrow> (nat \<Rightarrow> nat \<Rightarrow> 'h \<Rightarrow> 'h) \<Rightarrow> ('h \<Rightarrow> nat) \<Rightarrow> nat \<Rightarrow> 'h \<Rightarrow> 'h" where
  "heap_Fix lss swap len i h =
     (case heap_down lss swap (len h) i h of (i', h') \<Rightarrow> if i < i' then h' else heap_up lss swap i h')"

text \<open>What no exchange changes, no operation changes.\<close>

lemma heap_up_frame: "(\<And>i j h. f (swap i j h) = f h) \<Longrightarrow> f (heap_up lss swap j h) = f h"
  by (induction lss swap j h rule: heap_up.induct) (subst heap_up.simps, auto simp: Let_def)

lemma heap_down_frame: "(\<And>i j h. f (swap i j h) = f h) \<Longrightarrow> f (snd (heap_down lss swap n i h)) = f h"
  by (induction lss swap n i h rule: heap_down.induct) (subst heap_down.simps, simp add: Let_def)

lemma heap_Fix_frame: "(\<And>i j h. f (swap i j h) = f h) \<Longrightarrow> f (heap_Fix lss swap len i h) = f h"
  using heap_down_frame [of f swap lss "len h" i h] heap_up_frame [of f swap lss i]
  by (cases "heap_down lss swap (len h) i h") (simp add: heap_Fix_def)

subsection \<open>The interface and the order\<close>

locale heap_interface =
  fixes len :: "'h \<Rightarrow> nat" and lss :: "'h \<Rightarrow> nat \<Rightarrow> nat \<Rightarrow> bool" and swap :: "nat \<Rightarrow> nat \<Rightarrow> 'h \<Rightarrow> 'h" and key :: "'h \<Rightarrow> nat \<Rightarrow> 'k :: linorder"
  assumes lss_key: "i < len h \<Longrightarrow> j < len h \<Longrightarrow> lss h i j \<longleftrightarrow> key h i < key h j"
    and len_swap: "i < len h \<Longrightarrow> j < len h \<Longrightarrow> len (swap i j h) = len h"
    and key_swap: "i < len h \<Longrightarrow> j < len h \<Longrightarrow> k < len h \<Longrightarrow>
      key (swap i j h) k = key h (if k = i then j else if k = j then i else k)"
begin

text \<open>No element is below its parent, except perhaps those at the positions that are left out.\<close>

definition ordered_but :: "nat set \<Rightarrow> nat \<Rightarrow> 'h \<Rightarrow> bool" where
  "ordered_but S n h \<longleftrightarrow> (\<forall>k < n. 0 < k \<longrightarrow> k \<notin> S \<longrightarrow> key h ((k - 1) div 2) \<le> key h k)"

abbreviation ordered :: "nat \<Rightarrow> 'h \<Rightarrow> bool" where
  "ordered \<equiv> ordered_but {}"

text \<open>The children of a position are not below its parent.\<close>

definition bridged :: "nat \<Rightarrow> nat \<Rightarrow> 'h \<Rightarrow> bool" where
  "bridged i n h \<longleftrightarrow> (\<forall>k < n. 0 < k \<longrightarrow> (k - 1) div 2 = i \<longrightarrow> 0 < i \<longrightarrow> key h ((i - 1) div 2) \<le> key h k)"

definition children :: "nat \<Rightarrow> nat set" where
  "children i = {k. 0 < k \<and> (k - 1) div 2 = i}"

lemma children_eq: "children i = {2 * i + 1, 2 * i + 2}"
  by (auto simp: children_def)

lemma up_keeps:
  assumes "\<And>i j h. I h \<Longrightarrow> i < len h \<Longrightarrow> j < len h \<Longrightarrow> I (swap i j h)"
  shows "I h \<Longrightarrow> j < len h \<Longrightarrow> I (heap_up lss swap j h) \<and> len (heap_up lss swap j h) = len h"
proof (induction j arbitrary: h rule: nat_less_induct)
  case (1 j)
  let ?i = "(j - 1) div 2"
  show ?case
  proof (cases "?i = j \<or> \<not> lss h j ?i")
    case True
    with 1(2) show ?thesis by (subst (1 2) heap_up.simps) (simp add: Let_def)
  next
    case False
    then have i: "?i < j" by linarith
    with 1(3) have "?i < len h" by linarith
    with i False 1 assms len_swap show ?thesis by (subst (1 2) heap_up.simps) (simp add: Let_def)
  qed
qed

definition child :: "nat \<Rightarrow> nat \<Rightarrow> 'h \<Rightarrow> nat" where
  "child n i h = (if 2 * i + 2 < n \<and> lss h (2 * i + 2) (2 * i + 1) then 2 * i + 2 else 2 * i + 1)"

lemma down_stop: "n \<le> 2 * i + 1 \<or> \<not> lss h (child n i h) i \<Longrightarrow> heap_down lss swap n i h = (i, h)"
  by (subst heap_down.simps) (auto simp: Let_def child_def)

lemma down_step: "\<not> n \<le> 2 * i + 1 \<Longrightarrow> lss h (child n i h) i \<Longrightarrow> heap_down lss swap n i h = heap_down lss swap n (child n i h) (swap i (child n i h) h)"
  by (subst heap_down.simps) (auto simp: Let_def child_def split: if_splits)

lemma child_bounds: "\<not> n \<le> 2 * i + 1 \<Longrightarrow> i < child n i h \<and> child n i h < n \<and> (child n i h - 1) div 2 = i"
  by (auto simp: child_def)

lemma down_induct [case_names stop step]:
  assumes "\<And>i h. n \<le> 2 * i + 1 \<or> \<not> lss h (child n i h) i \<Longrightarrow> P i h"
    and "\<And>i h. \<not> n \<le> 2 * i + 1 \<Longrightarrow> lss h (child n i h) i \<Longrightarrow> P (child n i h) (swap i (child n i h) h) \<Longrightarrow> P i h"
  shows "P i h"
proof (induction "n - i" arbitrary: i h rule: less_induct)
  case (less i h)
  show ?case
  proof (cases "n \<le> 2 * i + 1 \<or> \<not> lss h (child n i h) i")
    case False
    with child_bounds [of n i h] have "n - child n i h < n - i" by auto
    from less [OF this] have "P (child n i h) (swap i (child n i h) h)" .
    then show ?thesis using False by (intro assms(2) [of i h]) auto
  qed (rule assms(1))
qed

lemma down_keeps:
  assumes "\<And>i j h. I h \<Longrightarrow> i < n \<Longrightarrow> j < n \<Longrightarrow> n \<le> len h \<Longrightarrow> I (swap i j h)"
  shows "I h \<Longrightarrow> n \<le> len h \<Longrightarrow> I (snd (heap_down lss swap n i h)) \<and> len (snd (heap_down lss swap n i h)) = len h"
proof (induction i h rule: down_induct [of n])
  case (step i h)
  with child_bounds [of n i h] have "i < n" "child n i h < n" "i < len h" "child n i h < len h" by auto
  with step assms show ?case by (simp add: down_step len_swap)
qed (simp add: down_stop)

lemma fix_keeps:
  assumes "\<And>i j h. I h \<Longrightarrow> i < len h \<Longrightarrow> j < len h \<Longrightarrow> I (swap i j h)" "I h" "i < len h"
  shows "I (heap_Fix lss swap len i h) \<and> len (heap_Fix lss swap len i h) = len h"
proof -
  obtain i' h' where d: "heap_down lss swap (len h) i h = (i', h')" by fastforce
  have "I h' \<and> len h' = len h" using down_keeps [of I "len h" h i] assms d by simp
  with up_keeps [of I h' i] assms d show ?thesis by (simp add: heap_Fix_def)
qed

text \<open>Moving up.\<close>

lemma up_ordered:
  "j < n \<Longrightarrow> n \<le> len h \<Longrightarrow> ordered_but {j} n h \<Longrightarrow> bridged j n h \<Longrightarrow> ordered n (heap_up lss swap j h)"
proof (induction j arbitrary: h rule: nat_less_induct)
  case (1 j)
  define i where "i = (j - 1) div 2"
  show ?case
  proof (cases "i = j \<or> \<not> lss h j i")
    case True
    then have "0 < j \<longrightarrow> key h i \<le> key h j" using lss_key [of j h i] 1(2,3) by (auto simp: i_def)
    with 1(4) have "ordered n h" by (auto simp: ordered_but_def i_def)
    with True show ?thesis by (subst heap_up.simps) (simp add: Let_def i_def)
  next
    case False
    then have i: "i < j" "i < len h" "j < len h" "i < n" using 1(2,3) by (auto simp: i_def)
    with False have lt: "key h j < key h i" using lss_key [of j h i] by simp
    let ?h = "swap i j h"
    have k: "key ?h k = key h (if k = i then j else if k = j then i else k)" if "k < n" for k
      using key_swap [OF i(2,3)] that 1(3) by simp
    note o = 1(4) [unfolded ordered_but_def, rule_format]
    note b = 1(5) [unfolded bridged_def, rule_format]
    have "key ?h ((k - 1) div 2) \<le> key ?h k" if kn: "k < n" "0 < k" "k \<noteq> i" for k
    proof -
      have p: "(k - 1) div 2 < n" using kn by linarith
      consider "k = j" | "k \<noteq> j" "(k - 1) div 2 = i" | "k \<noteq> j" "(k - 1) div 2 = j" | "k \<noteq> j" "(k - 1) div 2 \<noteq> i" "(k - 1) div 2 \<noteq> j" by blast
      then show ?thesis
      proof cases
        case 2
        with o [of k] kn lt i(4) show ?thesis by (simp add: k)
      next
        case 3
        with b [of k, folded i_def] kn i(1) 1(2) show ?thesis by (simp add: k)
      next
        case 4
        with o [of k] kn show ?thesis by (simp add: k p)
      qed (use kn lt i(1,4) in \<open>simp add: k i_def [symmetric, simplified]\<close>)
    qed
    then have ord: "ordered_but {i} n ?h" by (auto simp: ordered_but_def)
    have "key ?h ((i - 1) div 2) \<le> key ?h k" if kn: "k < n" "0 < k" "(k - 1) div 2 = i" "0 < i" for k
    proof -
      have p: "(i - 1) div 2 < n" "(i - 1) div 2 \<noteq> i" "(i - 1) div 2 \<noteq> j" "k \<noteq> i" using kn i(1) 1(2) by linarith+
      have pi: "key h ((i - 1) div 2) \<le> key h i" using o [of i] kn i(1) 1(2) by simp
      show ?thesis
      proof (cases "k = j")
        case False
        with o [of k] kn pi p show ?thesis by (simp add: k)
      qed (use pi kn p in \<open>simp add: k\<close>)
    qed
    then have "bridged i n ?h" by (auto simp: bridged_def)
    with 1 i ord have "ordered n (heap_up lss swap i ?h)" by (simp add: len_swap)
    with False show ?thesis by (subst heap_up.simps) (simp add: Let_def i_def)
  qed
qed

text \<open>Moving down.\<close>

lemma child_least:
  assumes "\<not> n \<le> 2 * i + 1" "n \<le> len h" "k < n" "0 < k" "(k - 1) div 2 = i"
  shows "key h (child n i h) \<le> key h k"
proof -
  from assms(4,5) have "k = 2 * i + 1 \<or> k = 2 * i + 2" by linarith
  then show ?thesis using assms(1-3) lss_key [of "2 * i + 2" h "2 * i + 1"] by (auto simp: child_def)
qed

lemma down_ordered:
  "n \<le> len h \<Longrightarrow> ordered_but (children i) n h \<Longrightarrow> bridged i n h \<Longrightarrow> ordered n (snd (heap_down lss swap n i h))"
proof (induction i h rule: down_induct [of n])
  case (stop i h)
  have "key h i \<le> key h k" if kn: "k < n" "0 < k" "(k - 1) div 2 = i" for k
  proof (cases "n \<le> 2 * i + 1")
    case True
    with kn show ?thesis by linarith
  next
    case False
    with child_bounds [of n i h] stop(1,2) have "key h i \<le> key h (child n i h)" using lss_key [of "child n i h" h i] by auto
    also have "\<dots> \<le> key h k" by (rule child_least [OF False stop(2) kn])
    finally show ?thesis .
  qed
  with stop(3) have "ordered n h" by (auto simp: ordered_but_def children_def)
  with stop(1) show ?case by (simp add: down_stop)
next
  case (step i h)
  define c where "c = child n i h"
  note c = child_bounds [OF step(1), of h, folded c_def]
  have lens: "i < len h" "c < len h" "i < n" using c step(4) by auto
  have lt: "key h c < key h i" using step(2) lens lss_key [of c h i] by (simp add: c_def)
  have k: "key (swap i c h) k = key h (if k = i then c else if k = c then i else k)" if "k < n" for k
    using key_swap [OF lens(1,2)] that step(4) by simp
  have o: "key h ((k - 1) div 2) \<le> key h k" if "k < n" "0 < k" "(k - 1) div 2 \<noteq> i" for k
    using step(5) that by (auto simp: ordered_but_def children_def)
  have b: "key h ((i - 1) div 2) \<le> key h k" if "k < n" "0 < k" "(k - 1) div 2 = i" "0 < i" for k
    using step(6) that by (auto simp: bridged_def)
  have "key (swap i c h) ((k - 1) div 2) \<le> key (swap i c h) k" if kn: "k < n" "0 < k" "(k - 1) div 2 \<noteq> c" for k
  proof -
    have p: "(k - 1) div 2 < n" "(k - 1) div 2 < k" using kn by linarith+
    consider "k = c" | "k \<noteq> c" "(k - 1) div 2 = i" | "k = i" | "k \<noteq> c" "(k - 1) div 2 \<noteq> i" "k \<noteq> i" by blast
    then show ?thesis
    proof cases
      case 1
      with c lt lens kn show ?thesis by (simp add: k)
    next
      case 2
      with child_least [OF step(1,4) kn(1,2), folded c_def] lens kn p show ?thesis by (simp add: k)
    next
      case 3
      with b [of c] c lens kn p show ?thesis by (simp add: k)
    next
      case 4
      with o [OF kn(1,2)] kn p show ?thesis by (simp add: k)
    qed
  qed
  then have "ordered_but (children c) n (swap i c h)" by (auto simp: ordered_but_def children_def)
  moreover have "key (swap i c h) ((c - 1) div 2) \<le> key (swap i c h) k" if kn: "k < n" "0 < k" "(k - 1) div 2 = c" for k
  proof -
    have "k \<noteq> i" "k \<noteq> c" using kn c by linarith+
    with o [OF kn(1,2)] kn c lens show ?thesis by (simp add: k)
  qed
  then have "bridged c n (swap i c h)" by (auto simp: bridged_def)
  ultimately show ?case using step(1-4) lens by (simp add: down_step c_def len_swap)
qed

subsection \<open>What the operations do\<close>

text \<open>The first element is the least.\<close>

lemma ordered_least: "ordered n h \<Longrightarrow> k < n \<Longrightarrow> key h 0 \<le> key h k"
proof (induction k rule: nat_less_induct)
  case (1 k)
  show ?case
  proof (cases "k = 0")
    case False
    then have "(k - 1) div 2 < k" by linarith
    with 1 have "key h 0 \<le> key h ((k - 1) div 2)" by simp
    also have "\<dots> \<le> key h k" using 1(2,3) False by (auto simp: ordered_but_def)
    finally show ?thesis .
  qed simp
qed

lemma last_ordered: "0 < len h \<Longrightarrow> ordered (len h - 1) h \<Longrightarrow> ordered (len h) (heap_up lss swap (len h - 1) h)"
  by (rule up_ordered) (auto simp: ordered_but_def bridged_def)

lemma first_ordered:
  assumes "len h = Suc n" "ordered (len h) h"
  shows "ordered n (snd (heap_down lss swap n 0 (swap 0 n h)))"
proof (rule down_ordered)
  have k: "key (swap 0 n h) k = key h (if k = 0 then n else if k = n then 0 else k)" if "k < len h" for k
    using key_swap [of 0 h n k] that assms(1) by simp
  show "n \<le> len (swap 0 n h)" using assms(1) len_swap [of 0 h n] by simp
  show "ordered_but (children 0) n (swap 0 n h)"
    unfolding ordered_but_def
  proof (intro allI impI)
    fix j
    assume j: "j < n" "0 < j" "j \<notin> children 0"
    then have "(j - 1) div 2 \<noteq> 0" "(j - 1) div 2 < n" by (auto simp: children_def)
    with j assms show "key (swap 0 n h) ((j - 1) div 2) \<le> key (swap 0 n h) j"
      by (simp add: k ordered_but_def)
  qed
qed (simp add: bridged_def)

text \<open>One element has got another key.\<close>

lemma fix_ordered:
  assumes "i < len h" "ordered_but ({i} \<union> children i) (len h) h" "bridged i (len h) h"
  shows "ordered (len h) (heap_Fix lss swap len i h)"
proof (cases "len h \<le> 2 * i + 1 \<or> \<not> lss h (child (len h) i h) i")
  case True
  have "key h i \<le> key h k" if kn: "k < len h" "0 < k" "(k - 1) div 2 = i" for k
  proof (cases "len h \<le> 2 * i + 1")
    case False
    with True child_bounds [of "len h" i h] assms(1) have "key h i \<le> key h (child (len h) i h)"
      using lss_key [of "child (len h) i h" h i] by auto
    also have "\<dots> \<le> key h k" by (rule child_least [OF False order_refl kn])
    finally show ?thesis .
  qed (use kn in linarith)
  with assms(2) have "ordered_but {i} (len h) h" by (auto simp: ordered_but_def children_def)
  from up_ordered [OF assms(1) order_refl this assms(3)] True show ?thesis
    by (simp add: heap_Fix_def down_stop)
next
  case False
  let ?c = "child (len h) i h"
  from False have c: "i < ?c \<and> ?c < len h \<and> (?c - 1) div 2 = i" "key h ?c < key h i"
    using child_bounds [of "len h" i h] lss_key [of ?c h i] assms(1) by auto
  have "key h ((i - 1) div 2) \<le> key h i" if "0 < i"
  proof -
    have "key h ((i - 1) div 2) \<le> key h ?c" using assms(3) c that by (auto simp: bridged_def)
    with c show ?thesis by simp
  qed
  with assms(2) have "ordered_but (children i) (len h) h" by (auto simp: ordered_but_def)
  from down_ordered [OF order_refl this assms(3)] have ord: "ordered (len h) (snd (heap_down lss swap (len h) i h))" .
  have "i' \<le> fst (heap_down lss swap n i' h')" for n i' h'
  proof (induction i' h' rule: down_induct [of n])
    case (step i h)
    with child_bounds [of n i h] show ?case by (simp add: down_step)
  qed (simp add: down_stop)
  from this [of ?c "len h" "swap i ?c h"] have "i < fst (heap_down lss swap (len h) i h)"
    using False c(1) by (simp add: down_step)
  with ord show ?thesis by (cases "heap_down lss swap (len h) i h") (simp add: heap_Fix_def)
qed

end

end
