(* ===== verification/UsersCache.thy ===== *)
theory UsersCache
  imports Cluster Presence GoHeap
begin

section \<open>The cache of users (server/user.go)\<close>

text \<open>
  The cache counts for every user of a running topic the topics and, once it has been read from the store, the unread
  messages. A push notification waits until the counters of its recipients are known. Requests come from
  topics of this node and from other nodes; the counters are read by routines that answer later, so the loop is a function of one event
  at a time. Receipts that wait are shared by several queues: they are objects in a store of receipts, and the queues hold
  their addresses.
\<close>

subsection \<open>Requests\<close>

record cache_req =
  cr_TenantID :: tenant_id
  cr_Node :: string
  cr_UserId :: uid
  cr_UserIdList :: "uid list"
  cr_Unread :: int
  cr_Inc :: bool
  cr_Gone :: bool
  cr_PushRcpt :: "push_receipt option"

definition cache_req0 :: "tenant_id \<Rightarrow> cache_req" where
  "cache_req0 tn = \<lparr>cr_TenantID = tn, cr_Node = [], cr_UserId = ZeroUid, cr_UserIdList = [], cr_Unread = 0, cr_Inc = False, cr_Gone = False,
     cr_PushRcpt = None\<rparr>"

text \<open>
  Where requests go: into the queue of the cache of this node, if it has room, or to the node of the user. The answer of a node is an
  error and whether the node has rejected the request.
\<close>

datatype cache_msg = ToCache cache_req | ToNode string cache_req

record cache_env =
  ue_usersUpdate :: bool
  ue_room :: bool
  ue_cluster :: "cluster option"
  ue_call :: "string \<Rightarrow> cache_req \<Rightarrow> string option \<times> bool"

definition user_topic :: "tenant_id \<Rightarrow> uid \<Rightarrow> topic_key" where
  "user_topic tn u = \<lparr>TopicKey_TenantID = tn, TopicKey_Topic = UserId u\<rparr>"

definition to_cache :: "cache_env \<Rightarrow> cache_req \<Rightarrow> cache_msg list" where
  "to_cache e r = (if ue_room e then [ToCache r] else [])"

subsection \<open>Requests to other nodes (server/cluster.go)\<close>

definition empty_receipt :: "push_receipt \<Rightarrow> push_receipt" where
  "empty_receipt r = \<lparr>pr_TenantID = pr_TenantID r, pr_To = [], pr_Channel = [], pr_Payload = pr_Payload r\<rparr>"

definition add_recipient :: "uid \<Rightarrow> push_recipient \<Rightarrow> cache_req \<Rightarrow> cache_req" where
  "add_recipient u rc r = r\<lparr>cr_PushRcpt := map_option (\<lambda>p. p\<lparr>pr_To := AList.update u rc (pr_To p)\<rparr>) (cr_PushRcpt r)\<rparr>"

text \<open>One request per node. The receipt for a node has no channel.\<close>

fun split_push :: "cluster \<Rightarrow> cache_req \<Rightarrow> push_receipt \<Rightarrow> (uid \<times> push_recipient) list \<Rightarrow> (string \<times> cache_req) list \<Rightarrow> (string \<times> cache_req) list option" where
  "split_push c req p [] byNode = Some byNode"
| "split_push c req p ((u, rc) # rest) byNode =
     (case nodeForTopic c (user_topic (cr_TenantID req) u) of
        None \<Rightarrow> None
      | Some n \<Rightarrow>
          (let r = (case map_of byNode n of
               Some r \<Rightarrow> r
             | None \<Rightarrow> (cache_req0 (cr_TenantID req))\<lparr>cr_PushRcpt := Some ((empty_receipt p)\<lparr>pr_TenantID := cr_TenantID req\<rparr>),
                 cr_Node := thisNodeName c\<rparr>)
           in split_push c req p rest (AList.update n (add_recipient u rc r) byNode)))"

fun split_users :: "cluster \<Rightarrow> cache_req \<Rightarrow> uid list \<Rightarrow> (string \<times> cache_req) list \<Rightarrow> (string \<times> cache_req) list option" where
  "split_users c req [] byNode = Some byNode"
| "split_users c req (u # rest) byNode =
     (case nodeForTopic c (user_topic (cr_TenantID req) u) of
        None \<Rightarrow> None
      | Some n \<Rightarrow>
          (let r = (case map_of byNode n of
               Some r \<Rightarrow> r
             | None \<Rightarrow> (cache_req0 (cr_TenantID req))\<lparr>cr_Node := thisNodeName c, cr_Inc := cr_Inc req\<rparr>)
           in split_users c req rest (AList.update n (r\<lparr>cr_UserIdList := cr_UserIdList r @ [u]\<rparr>) byNode)))"

definition reqs_by_node :: "cluster \<Rightarrow> cache_req \<Rightarrow> (string \<times> cache_req) list option" where
  "reqs_by_node c req =
     (case cr_PushRcpt req of
        Some p \<Rightarrow> split_push c req p (pr_To p) []
      | None \<Rightarrow>
          if cr_UserIdList req \<noteq> [] then split_users c req (cr_UserIdList req) []
          else if cr_Gone req then
            Some (map (\<lambda>n. (n, (cache_req0 (cr_TenantID req))\<lparr>cr_Node := thisNodeName c, cr_UserIdList := cr_UserIdList req, cr_Gone := True\<rparr>)) (cl_nodes c))
          else Some [])"

text \<open>The calls are made one after the other until one fails.\<close>

fun call_nodes :: "cache_env \<Rightarrow> (string \<times> cache_req) list \<Rightarrow> cache_msg list" where
  "call_nodes e [] = []"
| "call_nodes e ((n, r) # rest) =
     ToNode n r # (case ue_call e n r of (None, False) \<Rightarrow> call_nodes e rest | _ \<Rightarrow> [])"

definition routeUserReq :: "cache_env \<Rightarrow> cluster \<Rightarrow> cache_req \<Rightarrow> cache_msg list" where
  "routeUserReq e c req =
     (case reqs_by_node c req of
        None \<Rightarrow> []
      | Some byNode \<Rightarrow>
          if byNode \<noteq> [] then call_nodes e byNode
          else
            (case nodeForTopic c (user_topic (cr_TenantID req) (cr_UserId req)) of
               None \<Rightarrow> []
             | Some n \<Rightarrow> [ToNode n (req\<lparr>cr_Node := thisNodeName c\<rparr>)]))"

definition route_remote :: "cache_env \<Rightarrow> cache_req \<Rightarrow> cache_msg list" where
  "route_remote e r = (case ue_cluster e of None \<Rightarrow> [] | Some c \<Rightarrow> routeUserReq e c r)"

subsection \<open>Requests to the cache\<close>

definition usersUpdateUnread :: "cache_env \<Rightarrow> tenant_id \<Rightarrow> uid \<Rightarrow> int \<Rightarrow> bool \<Rightarrow> cache_msg list" where
  "usersUpdateUnread e tn u val inc =
     (if \<not> ue_usersUpdate e \<or> (val = 0 \<and> inc) then []
      else
        (let upd = (cache_req0 tn)\<lparr>cr_UserId := u, cr_Unread := val, cr_Inc := inc\<rparr>
         in if isRemoteTopic (ue_cluster e) (user_topic tn u) then route_remote e upd else to_cache e upd))"

definition usersRegisterUser :: "cache_env \<Rightarrow> tenant_id \<Rightarrow> uid \<Rightarrow> bool \<Rightarrow> cache_msg list" where
  "usersRegisterUser e tn u add =
     (if \<not> ue_usersUpdate e then []
      else
        (let upd = (cache_req0 tn)\<lparr>cr_UserIdList := [u], cr_Inc := add\<rparr>
         in if isRemoteTopic (ue_cluster e) (user_topic tn u) then route_remote e upd else to_cache e upd))"

definition usersRemoveUser :: "cache_env \<Rightarrow> tenant_id \<Rightarrow> uid \<Rightarrow> cache_msg list" where
  "usersRemoveUser e tn u =
     (if \<not> ue_usersUpdate e then []
      else
        (let upd = (cache_req0 tn)\<lparr>cr_UserId := u, cr_Gone := True\<rparr>
         in (if isRemoteTopic (ue_cluster e) (user_topic tn u) then [] else to_cache e upd) @ route_remote e upd))"

definition register_topic :: "cache_env \<Rightarrow> 'a topic_scheme \<Rightarrow> bool \<Rightarrow> cache_msg list" where
  "register_topic e t add =
     (if \<not> ue_usersUpdate e \<or> t_cat t = TopicCatFnd \<or> t_cat t = TopicCatMe then []
      else
        (let tn = t_tenantID t; us = map fst (filter (\<lambda>(u, pud). \<not> u_isChan pud) (t_perUser t));
             remote = filter (\<lambda>u. isRemoteTopic (ue_cluster e) (user_topic tn u)) us;
             here = filter (\<lambda>u. \<not> isRemoteTopic (ue_cluster e) (user_topic tn u)) us
         in (if remote \<noteq> [] then route_remote e ((cache_req0 tn)\<lparr>cr_Inc := add, cr_UserIdList := remote\<rparr>) else []) @
            (if here \<noteq> [] then to_cache e ((cache_req0 tn)\<lparr>cr_Inc := add, cr_UserIdList := here\<rparr>) else [])))"

definition usersRequestFromCluster :: "cache_env \<Rightarrow> cache_req \<Rightarrow> cache_msg list" where
  "usersRequestFromCluster e req = (if \<not> ue_usersUpdate e then [] else to_cache e req)"

text \<open>A receipt is split into the part of this node and that of the others (\<^verbatim>\<open>sendPush\<close> of \<^verbatim>\<open>server/push.go\<close>).\<close>

definition send_receipt :: "cache_env \<Rightarrow> push_receipt option \<Rightarrow> cache_msg list" where
  "send_receipt e rcpt =
     (case rcpt of
        None \<Rightarrow> []
      | Some p \<Rightarrow>
          if \<not> ue_usersUpdate e then []
          else
            (let tn = pr_TenantID p;
                 remote = filter (\<lambda>(u, _). isRemoteTopic (ue_cluster e) (user_topic tn u)) (pr_To p);
                 here = filter (\<lambda>(u, _). \<not> isRemoteTopic (ue_cluster e) (user_topic tn u)) (pr_To p);
                 req = (\<lambda>to. (cache_req0 tn)\<lparr>cr_PushRcpt := Some (p\<lparr>pr_To := to\<rparr>)\<rparr>)
             in (if ue_cluster e \<noteq> None \<and> (remote \<noteq> [] \<or> pr_Channel p \<noteq> []) then route_remote e (req remote) else []) @
                (if here \<noteq> [] \<or> pr_Channel p \<noteq> [] then to_cache e (req here) else [])))"

subsection \<open>Receipts that wait\<close>

record pending_receipt =
  pnd_pendingIOs :: int
  pnd_index :: int
  pnd_rcpt :: push_receipt

record cache_entry =
  uce_unread :: int
  uce_topics :: int

record buffered_update =
  bu_val :: int
  bu_inc :: bool

datatype cache_effect = PushOut push_receipt | ReadUnread tenant_id "uid list"

record users_cache =
  uc_cache :: "(user_key \<times> cache_entry) list"
  uc_buffers :: "(user_key \<times> buffered_update list) list"
  uc_pending :: "(user_key \<times> nat list) list"
  uc_receipts :: "pending_receipt list"
  uc_queue :: "nat list"
  uc_running :: bool
  uc_out :: "cache_effect list"

definition usersInit :: users_cache where
  "usersInit = \<lparr>uc_cache = [], uc_buffers = [], uc_pending = [], uc_receipts = [], uc_queue = [], uc_running = True, uc_out = []\<rparr>"

definition cache_put :: "cache_effect \<Rightarrow> users_cache \<Rightarrow> users_cache" where
  "cache_put x s = s\<lparr>uc_out := uc_out s @ [x]\<rparr>"

definition pq_Len :: "users_cache \<Rightarrow> nat" where
  "pq_Len s = length (uc_queue s)"

definition pq_ios :: "users_cache \<Rightarrow> nat \<Rightarrow> int" where
  "pq_ios s i = pnd_pendingIOs (uc_receipts s ! (uc_queue s ! i))"

definition pq_Less :: "users_cache \<Rightarrow> nat \<Rightarrow> nat \<Rightarrow> bool" where
  "pq_Less s i j \<longleftrightarrow> pq_ios s i < pq_ios s j"

definition set_index :: "nat \<Rightarrow> int \<Rightarrow> users_cache \<Rightarrow> users_cache" where
  "set_index p i s = s\<lparr>uc_receipts := (uc_receipts s)[p := (uc_receipts s ! p)\<lparr>pnd_index := i\<rparr>]\<rparr>"

definition pq_Swap :: "nat \<Rightarrow> nat \<Rightarrow> users_cache \<Rightarrow> users_cache" where
  "pq_Swap i j s =
     (let a = uc_queue s ! i; b = uc_queue s ! j
      in set_index a (int j) (set_index b (int i) (s\<lparr>uc_queue := (uc_queue s)[i := b, j := a]\<rparr>)))"

definition pq_Push :: "nat \<Rightarrow> users_cache \<Rightarrow> users_cache" where
  "pq_Push p s = (set_index p (int (length (uc_queue s))) s)\<lparr>uc_queue := uc_queue s @ [p]\<rparr>"

definition pq_Pop :: "users_cache \<Rightarrow> nat \<times> users_cache" where
  "pq_Pop s = (let p = last (uc_queue s) in (p, (set_index p (- 1) s)\<lparr>uc_queue := butlast (uc_queue s)\<rparr>))"

text \<open>For the index of a receipt that is in no queue, \<open>-1\<close>, the loops of the heap stop at once.\<close>

definition pq_fix :: "int \<Rightarrow> users_cache \<Rightarrow> users_cache" where
  "pq_fix i s = (if i < 0 then s else heap_Fix pq_Less pq_Swap pq_Len (nat i) s)"

subsection \<open>Unread counters\<close>

definition unreadUpdateIOPending :: int where "unreadUpdateIOPending = - 1"
definition unreadUpdateError :: int where "unreadUpdateError = - 2"

definition cache_key :: "tenant_id \<Rightarrow> uid \<Rightarrow> user_key" where
  "cache_key tn u = \<lparr>UserKey_TenantID = tn, UserKey_User = u\<rparr>"

text \<open>One user: the state, the count that is reported, and whether the counter has to be read.\<close>

definition unread_one :: "tenant_id \<Rightarrow> bool \<Rightarrow> uid \<Rightarrow> int \<Rightarrow> users_cache \<Rightarrow> users_cache \<times> int \<times> bool" where
  "unread_one tn inc u val s =
     (let key = cache_key tn u
      in case map_of (uc_cache s) key of
           None \<Rightarrow> (s, unreadUpdateError, False)
         | Some uce \<Rightarrow>
             if uce_unread uce < 0 then
               (case map_of (uc_buffers s) key of
                  Some buf \<Rightarrow> (s\<lparr>uc_buffers := AList.update key (buf @ [\<lparr>bu_val = val, bu_inc = inc\<rparr>]) (uc_buffers s)\<rparr>, unreadUpdateIOPending, False)
                | None \<Rightarrow> (s\<lparr>uc_buffers := AList.update key [] (uc_buffers s)\<rparr>, unreadUpdateIOPending, True))
             else
               (let n = (if inc then uce_unread uce + val else val)
                in (s\<lparr>uc_cache := AList.update key (uce\<lparr>uce_unread := n\<rparr>) (uc_cache s)\<rparr>, n, False)))"

fun unread_each :: "tenant_id \<Rightarrow> bool \<Rightarrow> (uid \<times> int) list \<Rightarrow> users_cache \<Rightarrow> users_cache \<times> (uid \<times> int) list \<times> uid list" where
  "unread_each tn inc [] s = (s, [], [])"
| "unread_each tn inc ((u, val) # rest) s =
     (case unread_one tn inc u val s of
        (s, n, rd) \<Rightarrow>
          (case unread_each tn inc rest s of
             (s, counts, db) \<Rightarrow> (s, (u, n) # counts, if rd then u # db else db)))"

definition unreadUpdater :: "tenant_id \<Rightarrow> (uid \<times> int) list \<Rightarrow> bool \<Rightarrow> users_cache \<Rightarrow> users_cache \<times> (uid \<times> int) list" where
  "unreadUpdater tn uids inc s =
     (case unread_each tn inc uids s of
        (s, counts, db) \<Rightarrow> (if db \<noteq> [] then cache_put (ReadUnread tn db) s else s, counts))"

subsection \<open>When a counter has been read\<close>

definition apply_update :: "buffered_update \<Rightarrow> int \<Rightarrow> int" where
  "apply_update u n = (if bu_inc u then n + bu_val u else bu_val u)"

definition io_ready :: "nat \<Rightarrow> users_cache \<Rightarrow> users_cache" where
  "io_ready p s =
     (let r = uc_receipts s ! p; r = r\<lparr>pnd_pendingIOs := pnd_pendingIOs r - 1\<rparr>
      in pq_fix (pnd_index r) (s\<lparr>uc_receipts := (uc_receipts s)[p := r]\<rparr>))"

definition io_one :: "tenant_id \<Rightarrow> bool \<Rightarrow> uid \<times> int \<Rightarrow> users_cache \<Rightarrow> users_cache" where
  "io_one tn failed uc s =
     (case uc of
        (u, n) \<Rightarrow>
          (let key = cache_key tn u; buf = map_of (uc_buffers s) key; s = s\<lparr>uc_buffers := AList.delete key (uc_buffers s)\<rparr>
           in if failed then s
              else
                (let n = (case buf of Some b \<Rightarrow> fold apply_update b n | None \<Rightarrow> n);
                     s = (case map_of (uc_cache s) key of
                         Some uce \<Rightarrow> s\<lparr>uc_cache := AList.update key (uce\<lparr>uce_unread := n\<rparr>) (uc_cache s)\<rparr>
                       | None \<Rightarrow> s)
                 in case map_of (uc_pending s) key of
                      Some ps \<Rightarrow> (fold io_ready ps s)\<lparr>uc_pending := AList.delete key (uc_pending s)\<rparr>
                    | None \<Rightarrow> s)))"

definition fill_unread :: "users_cache \<Rightarrow> push_receipt \<Rightarrow> push_receipt" where
  "fill_unread s r =
     r\<lparr>pr_To := map (\<lambda>(u, rc). (u,
        case map_of (uc_cache s) (cache_key (pr_TenantID r) u) of
          Some uce \<Rightarrow> if 0 \<le> uce_unread uce then rc\<lparr>rcpt_Unread := uce_unread uce\<rparr> else rc
        | None \<Rightarrow> rc)) (pr_To r)\<rparr>"

text \<open>Every round takes a receipt from the queue, so there are at most as many rounds as receipts.\<close>

fun send_ready :: "nat \<Rightarrow> users_cache \<Rightarrow> users_cache" where
  "send_ready 0 s = s"
| "send_ready (Suc n) s =
     (if 0 < pq_Len s \<and> pq_ios s 0 = 0 then
        (case heap_Pop pq_Less pq_Swap pq_Len pq_Pop s of
           (p, s) \<Rightarrow> send_ready n (cache_put (PushOut (fill_unread s (pnd_rcpt (uc_receipts s ! p)))) s))
      else s)"

definition io_done :: "tenant_id \<Rightarrow> (uid \<times> int) list \<Rightarrow> bool \<Rightarrow> users_cache \<Rightarrow> users_cache" where
  "io_done tn counts failed s =
     (let s = fold (io_one tn failed) counts s
      in if failed then s else send_ready (pq_Len s) s)"

subsection \<open>The loop\<close>

definition with_counts :: "(uid \<times> int) list \<Rightarrow> push_receipt \<Rightarrow> push_receipt" where
  "with_counts counts p =
     p\<lparr>pr_To := map (\<lambda>(u, rc). (u,
        case map_of counts u of Some n \<Rightarrow> if 0 \<le> n then rc\<lparr>rcpt_Unread := n\<rparr> else rc | None \<Rightarrow> rc)) (pr_To p)\<rparr>"

definition add_pending :: "nat \<Rightarrow> user_key \<Rightarrow> users_cache \<Rightarrow> users_cache" where
  "add_pending p key s =
     s\<lparr>uc_pending := AList.update key ((case map_of (uc_pending s) key of Some ps \<Rightarrow> ps | None \<Rightarrow> []) @ [p]) (uc_pending s)\<rparr>"

definition cache_push :: "tenant_id \<Rightarrow> push_receipt \<Rightarrow> users_cache \<Rightarrow> users_cache" where
  "cache_push tn p s =
     (case unreadUpdater tn (map (\<lambda>(u, rc). (u, if rcpt_ShouldIncrement rc then 1 else 0)) (pr_To p)) True s of
        (s, counts) \<Rightarrow>
          (let p = with_counts counts p; waiting = map fst (filter (\<lambda>(u, n). n = unreadUpdateIOPending) counts)
           in if waiting = [] then cache_put (PushOut p) s
              else
                (let a = length (uc_receipts s);
                     s = s\<lparr>uc_receipts := uc_receipts s @ [\<lparr>pnd_pendingIOs = int (length waiting), pnd_index = 0, pnd_rcpt = p\<rparr>]\<rparr>
                 in heap_Push pq_Less pq_Swap pq_Len pq_Push a (fold (\<lambda>u. add_pending a (cache_key tn u)) waiting s))))"

definition register_one :: "tenant_id \<Rightarrow> bool \<Rightarrow> uid \<Rightarrow> users_cache \<Rightarrow> users_cache" where
  "register_one tn inc u s =
     (let key = cache_key tn u
      in case map_of (uc_cache s) key of
           None \<Rightarrow> if inc then s\<lparr>uc_cache := AList.update key \<lparr>uce_unread = - 1, uce_topics = 1\<rparr> (uc_cache s)\<rparr> else s
         | Some uce \<Rightarrow>
             if inc then s\<lparr>uc_cache := AList.update key (uce\<lparr>uce_topics := uce_topics uce + 1\<rparr>) (uc_cache s)\<rparr>
             else if 1 < uce_topics uce then s\<lparr>uc_cache := AList.update key (uce\<lparr>uce_topics := uce_topics uce - 1\<rparr>) (uc_cache s)\<rparr>
             else s\<lparr>uc_cache := AList.delete key (uc_cache s)\<rparr>)"

definition cache_update :: "cache_req \<Rightarrow> users_cache \<Rightarrow> users_cache" where
  "cache_update upd s =
     (let tn = cr_TenantID upd
      in case cr_PushRcpt upd of
           Some p \<Rightarrow> cache_push tn p s
         | None \<Rightarrow>
             if cr_UserIdList upd \<noteq> [] then fold (register_one tn (cr_Inc upd)) (cr_UserIdList upd) s
             else if cr_Gone upd then s\<lparr>uc_cache := AList.delete (cache_key tn (cr_UserId upd)) (uc_cache s)\<rparr>
             else fst (unreadUpdater tn [(cr_UserId upd, cr_Unread upd)] (cr_Inc upd) s))"

datatype cache_event =
    IoDone tenant_id "(uid \<times> int) list" bool
  | Update cache_req
  | Ignored
  | Shutdown

text \<open>While the server shuts down requests are ignored; no request at all ends the loop.\<close>

definition userUpdater :: "cache_event \<Rightarrow> users_cache \<Rightarrow> users_cache" where
  "userUpdater ev s =
     (if \<not> uc_running s then s
      else
        (case ev of
           IoDone tn counts failed \<Rightarrow> io_done tn counts failed s
         | Update upd \<Rightarrow> cache_update upd s
         | Ignored \<Rightarrow> s
         | Shutdown \<Rightarrow> s\<lparr>uc_running := False\<rparr>))"

end
