(* ===== verification/UsersCacheProps.thy ===== *)
theory UsersCacheProps
  imports UsersCache
begin

section \<open>What the cache of users promises\<close>

text \<open>
  The queue of receipts is a heap with consistent indices; no notification is lost or sent twice; each is sent once the
  counters it waits for are known; users do not influence each other.
\<close>

subsection \<open>The queue\<close>

lemma nth_update: "xs[p := x] ! q = (if q = p \<and> p < length xs then x else xs ! q)"
  by (cases "p < length xs") (auto simp: list_update_beyond)

lemma index_only:
  "pnd_pendingIOs (rs[p := (rs ! p)\<lparr>pnd_index := i\<rparr>] ! q) = pnd_pendingIOs (rs ! q)"
  "pnd_rcpt (rs[p := (rs ! p)\<lparr>pnd_index := i\<rparr>] ! q) = pnd_rcpt (rs ! q)"
  by (simp_all add: nth_update)

lemma swap_fields:
  "uc_queue (pq_Swap i j s) = (uc_queue s)[i := uc_queue s ! j, j := uc_queue s ! i]"
  "pnd_pendingIOs (uc_receipts (pq_Swap i j s) ! p) = pnd_pendingIOs (uc_receipts s ! p)"
  by (simp_all add: pq_Swap_def set_index_def Let_def index_only)

interpretation pq: heap_interface pq_Len pq_Less pq_Swap pq_ios
proof
  fix i j k :: nat and s :: users_cache
  assume ij: "i < pq_Len s" "j < pq_Len s"
  then show "pq_Less s i j \<longleftrightarrow> pq_ios s i < pq_ios s j" by (simp add: pq_Less_def)
  show "pq_Len (pq_Swap i j s) = pq_Len s" by (simp add: pq_Len_def swap_fields)
  assume "k < pq_Len s"
  with ij show "pq_ios (pq_Swap i j s) k = pq_ios s (if k = i then j else if k = j then i else k)"
    by (cases "k = i"; cases "k = j") (simp_all add: pq_ios_def pq_Len_def swap_fields)
qed

text \<open>Every receipt of the queue knows its position.\<close>

definition queue_ok :: "users_cache \<Rightarrow> bool" where
  "queue_ok s \<longleftrightarrow> distinct (uc_queue s) \<and>
     (\<forall>i < length (uc_queue s). uc_queue s ! i < length (uc_receipts s) \<and> pnd_index (uc_receipts s ! (uc_queue s ! i)) = int i)"

text \<open>The same receipts, in another order.\<close>

definition same_queue :: "users_cache \<Rightarrow> users_cache \<Rightarrow> bool" where
  "same_queue s s' \<longleftrightarrow> mset (uc_queue s') = mset (uc_queue s) \<and> length (uc_receipts s') = length (uc_receipts s) \<and>
     (\<forall>p. pnd_pendingIOs (uc_receipts s' ! p) = pnd_pendingIOs (uc_receipts s ! p) \<and> pnd_rcpt (uc_receipts s' ! p) = pnd_rcpt (uc_receipts s ! p)) \<and>
     uc_cache s' = uc_cache s \<and> uc_buffers s' = uc_buffers s \<and> uc_pending s' = uc_pending s \<and> uc_out s' = uc_out s \<and> uc_running s' = uc_running s"

lemma same_queue_refl [simp]: "same_queue s s"
  by (simp add: same_queue_def)

lemma same_queue_trans: "same_queue s s1 \<Longrightarrow> same_queue s1 s2 \<Longrightarrow> same_queue s s2"
  by (simp add: same_queue_def)

lemma same_len: "same_queue s s' \<Longrightarrow> pq_Len s' = pq_Len s"
  by (auto simp: same_queue_def pq_Len_def dest: mset_eq_length)

lemma same_index: "same_queue s (set_index p i s)"
  by (simp add: same_queue_def set_index_def index_only)

lemma same_swap:
  assumes "i < pq_Len s" "j < pq_Len s"
  shows "same_queue s (pq_Swap i j s)"
proof -
  let ?s = "s\<lparr>uc_queue := (uc_queue s)[i := uc_queue s ! j, j := uc_queue s ! i]\<rparr>"
  have "same_queue s ?s" using assms mset_swap [of j "uc_queue s" i] by (simp add: same_queue_def pq_Len_def)
  then show ?thesis unfolding pq_Swap_def Let_def by (blast intro: same_queue_trans same_index)
qed

lemma queue_ok_swap:
  assumes "queue_ok s" "i < pq_Len s" "j < pq_Len s"
  shows "queue_ok (pq_Swap i j s)"
proof -
  from assms have "distinct (uc_queue (pq_Swap i j s))" "set (uc_queue (pq_Swap i j s)) = set (uc_queue s)"
    using same_swap [OF assms(2,3)] by (auto simp: same_queue_def queue_ok_def dest: mset_eq_setD mset_eq_imp_distinct_iff)
  with assms show ?thesis
    by (auto simp: queue_ok_def pq_Swap_def set_index_def Let_def pq_Len_def nth_list_update nth_eq_iff_index_eq)
qed

lemma swap_keeps:
  "queue_ok s1 \<and> same_queue s s1 \<Longrightarrow> i < pq_Len s1 \<Longrightarrow> j < pq_Len s1 \<Longrightarrow> queue_ok (pq_Swap i j s1) \<and> same_queue s (pq_Swap i j s1)"
  using same_swap queue_ok_swap same_queue_trans by blast

lemma fix_same:
  assumes "queue_ok s" "i < pq_Len s"
  shows "queue_ok (heap_Fix pq_Less pq_Swap pq_Len i s) \<and> same_queue s (heap_Fix pq_Less pq_Swap pq_Len i s)"
  using pq.fix_keeps [of "\<lambda>s'. queue_ok s' \<and> same_queue s s'" s i, OF swap_keeps] assms by simp

lemma up_same:
  assumes "queue_ok s" "i < pq_Len s"
  shows "queue_ok (heap_up pq_Less pq_Swap i s) \<and> same_queue s (heap_up pq_Less pq_Swap i s)"
  using pq.up_keeps [of "\<lambda>s'. queue_ok s' \<and> same_queue s s'" s i, OF swap_keeps] assms by simp

text \<open>The order of the queue depends on the numbers only.\<close>

lemma ordered_cong: "n \<le> m \<Longrightarrow> (\<And>k. k < n \<Longrightarrow> pq_ios s' k = pq_ios s k) \<Longrightarrow> pq.ordered m s \<Longrightarrow> pq.ordered n s'"
  unfolding pq.ordered_but_def by auto

lemma push_queue:
  assumes "queue_ok s" "pq.ordered (pq_Len s) s" "a < length (uc_receipts s)" "a \<notin> set (uc_queue s)"
  shows "let s' = heap_Push pq_Less pq_Swap pq_Len pq_Push a s
    in queue_ok s' \<and> pq.ordered (pq_Len s') s' \<and> same_queue (s\<lparr>uc_queue := uc_queue s @ [a]\<rparr>) s'"
proof -
  let ?s = "pq_Push a s"
  have len: "pq_Len ?s = Suc (pq_Len s)" by (simp add: pq_Len_def pq_Push_def)
  have "queue_ok ?s"
    using assms by (auto simp: queue_ok_def pq_Push_def set_index_def nth_append nth_list_update less_Suc_eq all_conj_distrib)
  moreover have "same_queue (s\<lparr>uc_queue := uc_queue s @ [a]\<rparr>) ?s"
    by (simp add: same_queue_def pq_Push_def set_index_def index_only)
  moreover have "pq.ordered (pq_Len s) ?s"
    by (rule ordered_cong [OF order_refl _ assms(2)]) (simp add: pq_ios_def pq_Len_def pq_Push_def set_index_def nth_append index_only)
  moreover define s' where "s' = heap_up pq_Less pq_Swap (pq_Len s) ?s"
  ultimately have "queue_ok s'" "same_queue (s\<lparr>uc_queue := uc_queue s @ [a]\<rparr>) s'" "pq.ordered (Suc (pq_Len s)) s'" "pq_Len s' = Suc (pq_Len s)"
    using up_same [of ?s "pq_Len s"] pq.last_ordered [of ?s] same_len [of ?s s'] len same_queue_trans by auto
  then show ?thesis by (simp add: heap_Push_def len s'_def)
qed

lemma pop_queue:
  assumes "queue_ok s" "pq.ordered (pq_Len s) s" "0 < pq_Len s"
  obtains p s' where "heap_Pop pq_Less pq_Swap pq_Len pq_Pop s = (p, s')" "p = uc_queue s ! 0" "queue_ok s'" "pq.ordered (pq_Len s') s'"
    "same_queue (s\<lparr>uc_queue := tl (uc_queue s)\<rparr>) s'"
proof -
  obtain n where n: "pq_Len s = Suc n" using assms(3) by (cases "pq_Len s") auto
  let ?s1 = "pq_Swap 0 n s"
  let ?s = "snd (heap_down pq_Less pq_Swap n 0 ?s1)"
  have s1: "queue_ok ?s1" "same_queue s ?s1" "uc_queue ?s1 ! n = uc_queue s ! 0" "pq_Len ?s1 = Suc n"
    using swap_keeps [of s s 0 n] assms(1) n by (simp_all add: swap_fields) (simp_all add: swap_fields pq_Len_def)
  have keep: "queue_ok s2 \<and> same_queue s s2 \<and> uc_queue s2 ! n = uc_queue s ! 0 \<Longrightarrow> i < n \<Longrightarrow> j < n \<Longrightarrow> n \<le> pq_Len s2 \<Longrightarrow>
      queue_ok (pq_Swap i j s2) \<and> same_queue s (pq_Swap i j s2) \<and> uc_queue (pq_Swap i j s2) ! n = uc_queue s ! 0" for i j s2
    using swap_keeps [of s2 s i j] by (simp add: swap_fields)
  have s: "queue_ok ?s" "same_queue s ?s" "uc_queue ?s ! n = uc_queue s ! 0" "pq_Len ?s = Suc n"
    using pq.down_keeps [of "\<lambda>s2. queue_ok s2 \<and> same_queue s s2 \<and> uc_queue s2 ! n = uc_queue s ! 0" n ?s1 0, OF keep] s1 by simp_all
  have len: "length (uc_queue ?s) = Suc n" using s(4) by (simp add: pq_Len_def)
  then have last: "last (uc_queue ?s) = uc_queue s ! 0" using s(3) by (metis Zero_not_Suc diff_Suc_1 last_conv_nth list.size(3))
  let ?s' = "(set_index (uc_queue s ! 0) (- 1) ?s)\<lparr>uc_queue := butlast (uc_queue ?s)\<rparr>"
  have pop: "heap_Pop pq_Less pq_Swap pq_Len pq_Pop s = (uc_queue s ! 0, ?s')"
    by (simp add: heap_Pop_def n pq_Pop_def Let_def last)
  have q: "uc_queue ?s = butlast (uc_queue ?s) @ [uc_queue s ! 0]" using len last by (metis append_butlast_last_id list.size(3) nat.distinct(1))
  have "distinct (uc_queue ?s)" using s(1) by (simp add: queue_ok_def)
  then have notin: "uc_queue s ! 0 \<notin> set (butlast (uc_queue ?s))" using q by (metis distinct_append disjoint_insert(1) list.set(2) not_distinct_conv_prefix q)
  have "queue_ok ?s'"
    unfolding queue_ok_def
  proof (intro conjI allI impI)
    show "distinct (uc_queue ?s')" using \<open>distinct (uc_queue ?s)\<close> by (simp add: distinct_butlast)
    fix i
    assume "i < length (uc_queue ?s')"
    then have i: "i < n" "uc_queue ?s' ! i = uc_queue ?s ! i" "uc_queue ?s' ! i \<in> set (butlast (uc_queue ?s))"
      using len nth_mem [of i "butlast (uc_queue ?s)"] by (auto simp: nth_butlast)
    with notin have "uc_queue ?s ! i \<noteq> uc_queue s ! 0" by auto
    with i s(1) len show "uc_queue ?s' ! i < length (uc_receipts ?s')" "pnd_index (uc_receipts ?s' ! (uc_queue ?s' ! i)) = int i"
      by (auto simp: queue_ok_def set_index_def)
  qed
  moreover have "pq.ordered n ?s" using pq.first_ordered [OF n assms(2)] .
  then have "pq.ordered (pq_Len ?s') ?s'"
    by (rule ordered_cong [rotated 2]) (simp_all add: pq_Len_def len pq_ios_def set_index_def index_only nth_butlast)
  moreover have "mset (butlast (uc_queue ?s)) = mset (tl (uc_queue s))"
  proof -
    have "mset (uc_queue ?s) = mset (uc_queue s)" using s(2) by (simp add: same_queue_def)
    moreover have "uc_queue s = uc_queue s ! 0 # tl (uc_queue s)" using n by (cases "uc_queue s") (auto simp: pq_Len_def)
    ultimately show ?thesis using q by (metis add_mset_add_single add_right_imp_eq mset.simps(2) mset_append mset.simps(1) union_code)
  qed
  then have "same_queue (s\<lparr>uc_queue := tl (uc_queue s)\<rparr>) ?s'"
    using s(2) by (simp add: same_queue_def set_index_def index_only)
  ultimately show ?thesis using that [OF pop refl] by blast
qed

subsection \<open>Receipts and the users they wait for\<close>

definition waits_for :: "users_cache \<Rightarrow> nat \<Rightarrow> nat" where
  "waits_for s p = length (filter (\<lambda>(k, ps). p \<in> set ps) (uc_pending s))"

text \<open>The number of a receipt is the number of users it waits for, less one for those that are just served.\<close>

definition pending_ok :: "nat set \<Rightarrow> users_cache \<Rightarrow> bool" where
  "pending_ok served s \<longleftrightarrow> distinct (map fst (uc_pending s)) \<and>
     (\<forall>(k, ps) \<in> set (uc_pending s). distinct ps \<and> set ps \<subseteq> set (uc_queue s)) \<and>
     (\<forall>p \<in> set (uc_queue s). pnd_pendingIOs (uc_receipts s ! p) = int (waits_for s p) - (if p \<in> served then 1 else 0))"

definition cache_inv :: "users_cache \<Rightarrow> bool" where
  "cache_inv s \<longleftrightarrow> queue_ok s \<and> pq.ordered (pq_Len s) s \<and> pending_ok {} s \<and> (\<forall>p \<in> set (uc_queue s). 0 < waits_for s p)"

text \<open>The same receipts but for their numbers.\<close>

definition same_receipts :: "users_cache \<Rightarrow> users_cache \<Rightarrow> bool" where
  "same_receipts s s' \<longleftrightarrow> mset (uc_queue s') = mset (uc_queue s) \<and> (\<forall>p. pnd_rcpt (uc_receipts s' ! p) = pnd_rcpt (uc_receipts s ! p)) \<and>
     uc_cache s' = uc_cache s \<and> uc_buffers s' = uc_buffers s \<and> uc_pending s' = uc_pending s \<and> uc_out s' = uc_out s \<and> uc_running s' = uc_running s"

lemma same_receipts_refl [simp]: "same_receipts s s"
  by (simp add: same_receipts_def)

lemma same_receipts_trans: "same_receipts s s1 \<Longrightarrow> same_receipts s1 s2 \<Longrightarrow> same_receipts s s2"
  by (simp add: same_receipts_def)

lemma same_receipts_set: "same_receipts s s' \<Longrightarrow> set (uc_queue s') = set (uc_queue s)"
  by (auto simp: same_receipts_def dest: mset_eq_setD)

lemma same_queue_set: "same_queue s s' \<Longrightarrow> set (uc_queue s') = set (uc_queue s)"
  by (auto simp: same_queue_def dest: mset_eq_setD)

text \<open>One user less to wait for: the number of the receipt is lowered and the queue put in order.\<close>

lemma io_ready_step:
  assumes "queue_ok s" "pq.ordered (pq_Len s) s" "pending_ok D s" "p \<in> set (uc_queue s)" "p \<notin> D"
  defines "s' \<equiv> io_ready p s"
  shows "queue_ok s' \<and> pq.ordered (pq_Len s') s' \<and> pending_ok (insert p D) s' \<and> same_receipts s s'"
proof -
  let ?r = "(uc_receipts s ! p)\<lparr>pnd_pendingIOs := pnd_pendingIOs (uc_receipts s ! p) - 1\<rparr>"
  define s1 where "s1 = s\<lparr>uc_receipts := (uc_receipts s)[p := ?r]\<rparr>"
  from assms(4) obtain i where i: "i < pq_Len s" "uc_queue s ! i = p" by (auto simp: in_set_conv_nth pq_Len_def)
  then have p: "p < length (uc_receipts s)" "pnd_index (uc_receipts s ! p) = int i" using assms(1) by (auto simp: queue_ok_def pq_Len_def)
  have s': "s' = heap_Fix pq_Less pq_Swap pq_Len i s1" by (simp add: s'_def io_ready_def pq_fix_def p Let_def s1_def)
  have ok1: "queue_ok s1" using assms(1) p by (auto simp: queue_ok_def s1_def nth_update)
  have len: "pq_Len s1 = pq_Len s" by (simp add: pq_Len_def s1_def)
  have ios: "pq_ios s1 k = (if k = i then pq_ios s i - 1 else pq_ios s k)" if "k < pq_Len s" for k
    using that i p assms(1) by (auto simp: pq_ios_def s1_def nth_update queue_ok_def pq_Len_def nth_eq_iff_index_eq)
  have "pq.ordered_but ({i} \<union> pq.children i) (pq_Len s1) s1"
    unfolding pq.ordered_but_def len
  proof (intro allI impI)
    fix k
    assume k: "k < pq_Len s" "0 < k" "k \<notin> {i} \<union> pq.children i"
    then have "(k - 1) div 2 < pq_Len s" "(k - 1) div 2 \<noteq> i" by (auto simp: pq.children_def)
    with k assms(2) show "pq_ios s1 ((k - 1) div 2) \<le> pq_ios s1 k" by (simp add: ios pq.ordered_but_def)
  qed
  moreover have "pq.bridged i (pq_Len s1) s1"
    unfolding pq.bridged_def len
  proof (intro allI impI)
    fix k
    assume k: "k < pq_Len s" "0 < k" "(k - 1) div 2 = i" "0 < i"
    then have "(i - 1) div 2 < pq_Len s" "(i - 1) div 2 \<noteq> i" "k \<noteq> i" using i(1) by linarith+
    moreover have "pq_ios s ((i - 1) div 2) \<le> pq_ios s i" "pq_ios s i \<le> pq_ios s k"
      using assms(2) k i(1) by (auto simp: pq.ordered_but_def)
    ultimately show "pq_ios s1 ((i - 1) div 2) \<le> pq_ios s1 k" using k(1) by (simp add: ios)
  qed
  ultimately have "pq.ordered (pq_Len s1) s'" unfolding s' by (intro pq.fix_ordered) (simp_all add: len i)
  moreover from fix_same [OF ok1, of i] i len have f: "queue_ok s'" "same_queue s1 s'" by (simp_all add: s')
  moreover have "same_receipts s s'" using f(2) by (auto simp: same_queue_def same_receipts_def s1_def nth_update)
  moreover have "pending_ok (insert p D) s'"
    using assms(3,5) same_queue_set [OF f(2)] f(2) p by (auto simp: pending_ok_def same_queue_def s1_def waits_for_def nth_update)
  ultimately show ?thesis using same_len [OF f(2)] by simp
qed

lemma io_ready_all:
  assumes "queue_ok s" "pq.ordered (pq_Len s) s" "pending_ok D s" "set ps \<subseteq> set (uc_queue s)" "distinct ps" "set ps \<inter> D = {}"
  shows "let s' = fold io_ready ps s
    in queue_ok s' \<and> pq.ordered (pq_Len s') s' \<and> pending_ok (set ps \<union> D) s' \<and> same_receipts s s'"
  using assms
proof (induction ps arbitrary: s D)
  case (Cons p ps)
  let ?s = "io_ready p s"
  from Cons.prems have step: "queue_ok ?s \<and> pq.ordered (pq_Len ?s) ?s \<and> pending_ok (insert p D) ?s \<and> same_receipts s ?s"
    by (intro io_ready_step) auto
  with Cons.IH [of ?s "insert p D"] Cons.prems same_receipts_set [of s ?s] show ?case
    by (auto simp: Let_def intro: same_receipts_trans)
qed simp

subsection \<open>Notifications sent and waiting\<close>

text \<open>A receipt without the unread counters, which are filled in on the way.\<close>

definition bare :: "push_receipt \<Rightarrow> push_receipt" where
  "bare r = r\<lparr>pr_To := map (\<lambda>(u, rc). (u, rc\<lparr>rcpt_Unread := 0\<rparr>)) (pr_To r)\<rparr>"

lemma bare_filled [simp]: "bare (fill_unread s r) = bare r" "bare (with_counts cs r) = bare r"
  by (cases r; auto simp: bare_def fill_unread_def with_counts_def intro!: map_cong split: option.split)+

fun pushed :: "cache_effect list \<Rightarrow> push_receipt list" where
  "pushed [] = []"
| "pushed (PushOut r # xs) = bare r # pushed xs"
| "pushed (ReadUnread _ _ # xs) = pushed xs"

lemma pushed_append [simp]: "pushed (xs @ ys) = pushed xs @ pushed ys"
  by (induction xs rule: pushed.induct) auto

definition in_queue :: "users_cache \<Rightarrow> push_receipt multiset" where
  "in_queue s = image_mset (\<lambda>p. bare (pnd_rcpt (uc_receipts s ! p))) (mset (uc_queue s))"

definition all_receipts :: "users_cache \<Rightarrow> push_receipt multiset" where
  "all_receipts s = mset (pushed (uc_out s)) + in_queue s"

lemma same_all: "same_receipts s s' \<Longrightarrow> all_receipts s' = all_receipts s"
  by (simp add: same_receipts_def all_receipts_def in_queue_def)

lemma same_queue_receipts: "same_queue s s' \<Longrightarrow> same_receipts s s'"
  by (simp add: same_receipts_def same_queue_def)

definition mid_inv :: "users_cache \<Rightarrow> bool" where
  "mid_inv s \<longleftrightarrow> queue_ok s \<and> pq.ordered (pq_Len s) s \<and> pending_ok {} s"

lemma mid_frame:
  assumes "uc_queue s' = uc_queue s" "uc_receipts s' = uc_receipts s" "uc_pending s' = uc_pending s"
  shows "mid_inv s' = mid_inv s" "cache_inv s' = cache_inv s" "in_queue s' = in_queue s"
proof -
  have ios: "pq_ios s' = pq_ios s" "pq_Len s' = pq_Len s" using assms by (auto simp: pq_ios_def pq_Len_def fun_eq_iff)
  then have "pq.ordered n s' = pq.ordered n s" for n by (simp add: pq.ordered_but_def)
  then show "mid_inv s' = mid_inv s" "cache_inv s' = cache_inv s"
    using assms ios by (simp_all add: mid_inv_def cache_inv_def queue_ok_def pending_ok_def waits_for_def)
  show "in_queue s' = in_queue s" using assms by (simp add: in_queue_def)
qed

lemma waits_delete:
  assumes "distinct (map fst (uc_pending s))" "map_of (uc_pending s) key = Some ps"
  shows "waits_for s p = waits_for (s\<lparr>uc_pending := AList.delete key (uc_pending s)\<rparr>) p + (if p \<in> set ps then 1 else 0)"
proof -
  have "length (filter (\<lambda>(k, ps). p \<in> set ps) xs) = length (filter (\<lambda>(k, ps). p \<in> set ps) (AList.delete key xs)) + (if p \<in> set ps then 1 else 0)"
    if "distinct (map fst xs)" "map_of xs key = Some ps" for xs :: "(user_key \<times> nat list) list"
    using that
  proof (induction xs)
    case (Cons x xs)
    show ?case
    proof (cases "fst x = key")
      case True
      with Cons.prems have "key \<notin> fst ` set xs" by (cases x) (auto simp: image_iff)
      then have "AList.delete key xs = xs" by (simp add: AList.delete_id)
      with True Cons.prems show ?thesis by (cases x) (auto simp: AList.delete_eq)
    next
      case False
      with Cons show ?thesis by (cases x) (auto simp: AList.delete_eq)
    qed
  qed simp
  with assms show ?thesis by (simp add: waits_for_def)
qed

lemma serve_user:
  assumes "mid_inv s" "map_of (uc_pending s) key = Some ps"
  defines "s' \<equiv> (fold io_ready ps s)\<lparr>uc_pending := AList.delete key (uc_pending s)\<rparr>"
  shows "mid_inv s' \<and> all_receipts s' = all_receipts s \<and> uc_cache s' = uc_cache s \<and> uc_buffers s' = uc_buffers s \<and> uc_out s' = uc_out s \<and> uc_running s' = uc_running s \<and>
    mset (uc_queue s') = mset (uc_queue s) \<and> (\<forall>q. pnd_rcpt (uc_receipts s' ! q) = pnd_rcpt (uc_receipts s ! q))"
proof -
  have m: "queue_ok s" "pq.ordered (pq_Len s) s" "pending_ok {} s" using assms(1) by (auto simp: mid_inv_def)
  have d: "distinct (map fst (uc_pending s))" "distinct ps" "set ps \<subseteq> set (uc_queue s)"
    using m(3) map_of_SomeD [OF assms(2)] by (auto simp: pending_ok_def)
  define s1 where "s1 = fold io_ready ps s"
  have s1: "queue_ok s1" "pq.ordered (pq_Len s1) s1" "pending_ok (set ps) s1" "same_receipts s s1"
    using io_ready_all [OF m d(3,2), unfolded Let_def] by (simp_all add: s1_def)
  have "uc_pending s1 = uc_pending s" using s1(4) by (simp add: same_receipts_def)
  then have s': "s' = s1\<lparr>uc_pending := AList.delete key (uc_pending s1)\<rparr>" by (simp add: s'_def s1_def)
  have "pq_ios s' = pq_ios s1" "pq_Len s' = pq_Len s1" by (auto simp: s' pq_ios_def pq_Len_def fun_eq_iff)
  then have "pq.ordered (pq_Len s') s'" using s1(2) by (simp add: pq.ordered_but_def)
  moreover have "queue_ok s'" using s1(1) by (simp add: queue_ok_def s')
  moreover have "pending_ok {} s'"
  proof -
    have w: "int (waits_for s1 p) = int (waits_for s' p) + (if p \<in> set ps then 1 else 0)" for p
      using waits_delete [of s1 key ps p] d(1) assms(2) \<open>uc_pending s1 = uc_pending s\<close> by (simp add: s')
    have "distinct (map fst (uc_pending s'))" "set (uc_pending s') \<subseteq> set (uc_pending s1)"
      using d(1) \<open>uc_pending s1 = uc_pending s\<close> by (auto simp: s' AList.delete_eq distinct_map_filter)
    moreover have "distinct qs \<and> set qs \<subseteq> set (uc_queue s1)" if "(k, qs) \<in> set (uc_pending s')" for k qs
      using s1(3) that calculation(2) unfolding pending_ok_def by blast
    moreover have "pnd_pendingIOs (uc_receipts s1 ! p) = int (waits_for s' p)" if "p \<in> set (uc_queue s1)" for p
      using s1(3) w [of p] that by (auto simp: pending_ok_def split: if_splits)
    ultimately show ?thesis unfolding pending_ok_def by (auto simp: s')
  qed
  moreover have "all_receipts s' = all_receipts s" using same_all [OF s1(4)] by (simp add: all_receipts_def in_queue_def s')
  ultimately show ?thesis using s1(4) by (simp add: mid_inv_def same_receipts_def s')
qed

lemma io_one_step:
  assumes "mid_inv s"
  shows "mid_inv (io_one tn failed c s) \<and> all_receipts (io_one tn failed c s) = all_receipts s \<and> mset (uc_queue (io_one tn failed c s)) = mset (uc_queue s) \<and>
    uc_running (io_one tn failed c s) = uc_running s \<and> uc_out (io_one tn failed c s) = uc_out s \<and>
    (\<forall>q. pnd_rcpt (uc_receipts (io_one tn failed c s) ! q) = pnd_rcpt (uc_receipts s ! q)) \<and>
    uc_pending (io_one tn failed c s) = (if failed then uc_pending s else AList.delete (cache_key tn (fst c)) (uc_pending s))"
proof -
  obtain u n where c: "c = (u, n)" by fastforce
  let ?key = "cache_key tn u"
  define s0 where "s0 = s\<lparr>uc_buffers := AList.delete ?key (uc_buffers s)\<rparr>"
  define s1 where "s1 = (case map_of (uc_cache s0) ?key of
      Some uce \<Rightarrow> s0\<lparr>uc_cache := AList.update ?key (uce\<lparr>uce_unread := (case map_of (uc_buffers s) ?key of Some b \<Rightarrow> fold apply_update b n | None \<Rightarrow> n)\<rparr>) (uc_cache s0)\<rparr>
    | None \<Rightarrow> s0)"
  have f: "uc_queue s1 = uc_queue s" "uc_receipts s1 = uc_receipts s" "uc_pending s1 = uc_pending s" "uc_out s1 = uc_out s" "uc_running s1 = uc_running s"
    by (simp_all add: s1_def s0_def split: option.split)
  have m1: "mid_inv s1" "all_receipts s1 = all_receipts s" using mid_frame [OF f(1-3)] assms f(4) by (simp_all add: all_receipts_def)
  have m0: "mid_inv s0" "all_receipts s0 = all_receipts s" using mid_frame [of s0 s] assms by (simp_all add: all_receipts_def s0_def)
  have io: "io_one tn failed c s = (if failed then s0 else case map_of (uc_pending s1) ?key of
      Some ps \<Rightarrow> (fold io_ready ps s1)\<lparr>uc_pending := AList.delete ?key (uc_pending s1)\<rparr> | None \<Rightarrow> s1)"
    by (cases "map_of (uc_cache s) ?key"; cases "map_of (uc_buffers s) ?key"; cases "map_of (uc_pending s) ?key"; simp add: io_one_def c Let_def s0_def s1_def)
  show ?thesis
  proof (cases "map_of (uc_pending s1) ?key")
    case None
    then have "AList.delete ?key (uc_pending s) = uc_pending s" using f(3) by (simp add: AList.delete_id map_of_eq_None_iff)
    with None m0 m1 f show ?thesis unfolding io by (cases failed) (simp_all add: s0_def c)
  next
    case (Some ps)
    with serve_user [OF m1(1) Some] m0 m1 f show ?thesis unfolding io by (cases failed) (simp_all add: s0_def c)
  qed
qed

lemma io_all_step:
  fixes tn failed cs
  assumes "mid_inv s"
  defines "s' \<equiv> fold (io_one tn failed) cs s"
  shows "mid_inv s' \<and> all_receipts s' = all_receipts s \<and> mset (uc_queue s') = mset (uc_queue s) \<and> uc_running s' = uc_running s \<and>
    uc_out s' = uc_out s \<and> (\<forall>q. pnd_rcpt (uc_receipts s' ! q) = pnd_rcpt (uc_receipts s ! q)) \<and>
    uc_pending s' = (if failed then uc_pending s else fold AList.delete (map (\<lambda>c. cache_key tn (fst c)) cs) (uc_pending s))"
  using assms(1) unfolding s'_def by (induction cs arbitrary: s) (auto simp: io_one_step)

lemma no_waits: "pending_ok {} s \<Longrightarrow> waits_for s p = 0 \<Longrightarrow> (k, ps) \<in> set (uc_pending s) \<Longrightarrow> p \<notin> set ps"
  by (auto simp: waits_for_def filter_empty_conv)

lemma pop_step:
  assumes "mid_inv s" "0 < pq_Len s" "pq_ios s 0 = 0"
  obtains p s' where "heap_Pop pq_Less pq_Swap pq_Len pq_Pop s = (p, s')" "mid_inv s'" "uc_queue s = p # tl (uc_queue s)"
    "same_queue (s\<lparr>uc_queue := tl (uc_queue s)\<rparr>) s'" "Suc (pq_Len s') = pq_Len s"
proof -
  have m: "queue_ok s" "pq.ordered (pq_Len s) s" "pending_ok {} s" using assms(1) by (auto simp: mid_inv_def)
  obtain p s' where pop: "heap_Pop pq_Less pq_Swap pq_Len pq_Pop s = (p, s')" "p = uc_queue s ! 0" "queue_ok s'" "pq.ordered (pq_Len s') s'"
    "same_queue (s\<lparr>uc_queue := tl (uc_queue s)\<rparr>) s'"
    using pop_queue [OF m(1,2) assms(2)] by metis
  have q: "uc_queue s = p # tl (uc_queue s)" using assms(2) pop(2) by (cases "uc_queue s") (auto simp: pq_Len_def)
  then have "p \<in> set (uc_queue s)" by (metis list.set_intros(1))
  with m(3) assms(3) pop(2) have "waits_for s p = 0" by (auto simp: pending_ok_def pq_ios_def)
  then have gone: "p \<notin> set ps" if "(k, ps) \<in> set (uc_pending s)" for k ps using no_waits [OF m(3)] that by blast
  have sets: "set (uc_queue s') = set (tl (uc_queue s))" using same_queue_set [OF pop(5)] by simp
  have subs: "set ps \<subseteq> set (tl (uc_queue s))" if "(k, ps) \<in> set (uc_pending s)" for k ps
  proof -
    have "set ps \<subseteq> insert p (set (tl (uc_queue s)))" using m(3) that q unfolding pending_ok_def by (metis (no_types, lifting) case_prodD list.set(2))
    with gone [OF that] show ?thesis by blast
  qed
  have tl: "x \<in> set (uc_queue s)" if "x \<in> set (tl (uc_queue s))" for x using that q by (metis list.set_intros(2))
  have "pending_ok {} s'"
    using m(3) pop(5) subs tl sets unfolding pending_ok_def same_queue_def waits_for_def by fastforce
  moreover have "Suc (pq_Len s') = pq_Len s" using same_len [OF pop(5)] assms(2) by (simp add: pq_Len_def)
  ultimately show ?thesis using that [OF pop(1) _ q pop(5)] pop(3,4) by (simp add: mid_inv_def)
qed

lemma send_ready_step:
  assumes "mid_inv s" "pq_Len s \<le> n"
  defines "s' \<equiv> send_ready n s"
  shows "mid_inv s' \<and> all_receipts s' = all_receipts s \<and> set (uc_queue s') \<subseteq> set (uc_queue s) \<and> (pq_Len s' = 0 \<or> pq_ios s' 0 \<noteq> 0) \<and>
    uc_cache s' = uc_cache s \<and> uc_buffers s' = uc_buffers s \<and> uc_pending s' = uc_pending s \<and> uc_running s' = uc_running s"
  using assms(1,2) unfolding s'_def
proof (induction n arbitrary: s)
  case 0
  then show ?case by simp
next
  case (Suc n)
  show ?case
  proof (cases "0 < pq_Len s \<and> pq_ios s 0 = 0")
    case False
    with Suc.prems show ?thesis by auto
  next
    case True
    then obtain p s1 where pop: "heap_Pop pq_Less pq_Swap pq_Len pq_Pop s = (p, s1)" "mid_inv s1" "uc_queue s = p # tl (uc_queue s)"
      "same_queue (s\<lparr>uc_queue := tl (uc_queue s)\<rparr>) s1" "Suc (pq_Len s1) = pq_Len s"
      using pop_step [OF Suc.prems(1)] by metis
    define s2 where "s2 = cache_put (PushOut (fill_unread s1 (pnd_rcpt (uc_receipts s1 ! p)))) s1"
    have f: "uc_queue s2 = uc_queue s1" "uc_receipts s2 = uc_receipts s1" "uc_pending s2 = uc_pending s1"
      "uc_cache s2 = uc_cache s1" "uc_buffers s2 = uc_buffers s1" "uc_running s2 = uc_running s1" by (simp_all add: s2_def cache_put_def)
    have s1: "mset (uc_queue s1) = mset (tl (uc_queue s))" "pnd_rcpt (uc_receipts s1 ! q) = pnd_rcpt (uc_receipts s ! q)"
      "uc_out s1 = uc_out s" "uc_cache s1 = uc_cache s" "uc_buffers s1 = uc_buffers s" "uc_pending s1 = uc_pending s" "uc_running s1 = uc_running s" for q
      using pop(4) by (simp_all add: same_queue_def)
    have "mset (uc_queue s) = add_mset p (mset (tl (uc_queue s)))" using pop(3) by (metis mset.simps(2))
    then have "all_receipts s2 = all_receipts s"
      using s1 by (simp add: all_receipts_def in_queue_def f) (simp add: s2_def cache_put_def s1)
    moreover have "mid_inv s2" using mid_frame(1) [OF f(1-3)] pop(2) by simp
    moreover have "pq_Len s2 \<le> n" using Suc.prems(2) pop(5) by (simp add: pq_Len_def f)
    moreover have "set (uc_queue s2) \<subseteq> set (uc_queue s)"
      using s1(1) pop(3) f(1) by (metis mset_eq_setD set_subset_Cons)
    ultimately show ?thesis using Suc.IH [of s2] True s1 f by (auto simp: pop(1) s2_def)
  qed
qed

text \<open>When the reading of counters has been dealt with, the receipts that are left have users to wait for.\<close>

lemma io_done_step:
  assumes "cache_inv s"
  shows "cache_inv (io_done tn cs failed s) \<and> all_receipts (io_done tn cs failed s) = all_receipts s \<and> uc_running (io_done tn cs failed s) = uc_running s"
proof -
  define s1 where "s1 = fold (io_one tn failed) cs s"
  have mid: "mid_inv s" using assms by (simp add: cache_inv_def mid_inv_def)
  note s1 = io_all_step [OF mid, of tn failed cs, folded s1_def]
  show ?thesis
  proof (cases failed)
    case True
    with s1 have "set (uc_queue s1) = set (uc_queue s)" "uc_pending s1 = uc_pending s" by (auto dest: mset_eq_setD)
    with assms s1 have "cache_inv s1" by (auto simp: cache_inv_def mid_inv_def waits_for_def)
    with True s1 show ?thesis by (simp add: io_done_def s1_def)
  next
    case False
    define s2 where "s2 = send_ready (pq_Len s1) s1"
    have s2: "mid_inv s2" "all_receipts s2 = all_receipts s1" "pq_Len s2 = 0 \<or> pq_ios s2 0 \<noteq> 0" "uc_running s2 = uc_running s1"
      using send_ready_step [of s1 "pq_Len s1"] s1 by (simp_all add: s2_def)
    have "0 < waits_for s2 p" if p: "p \<in> set (uc_queue s2)" for p
    proof -
      obtain k where k: "k < pq_Len s2" "uc_queue s2 ! k = p" using p by (auto simp: in_set_conv_nth pq_Len_def)
      have w: "pq_ios s2 j = int (waits_for s2 (uc_queue s2 ! j))" if "j < pq_Len s2" for j
        using s2(1) that by (auto simp: mid_inv_def pending_ok_def pq_ios_def pq_Len_def)
      have "pq_ios s2 0 \<le> pq_ios s2 k" using s2(1) k pq.ordered_least by (auto simp: mid_inv_def)
      with s2(3) k w [of 0] w [of k] show ?thesis by auto
    qed
    with s2(1) have "cache_inv s2" by (auto simp: cache_inv_def mid_inv_def)
    with False s1 s2 show ?thesis unfolding io_done_def Let_def s1_def [symmetric] s2_def [symmetric] by simp
  qed
qed

subsection \<open>A new notification\<close>

definition still :: "users_cache \<Rightarrow> users_cache \<Rightarrow> bool" where
  "still s s' \<longleftrightarrow> uc_queue s' = uc_queue s \<and> uc_receipts s' = uc_receipts s \<and> uc_pending s' = uc_pending s \<and>
     pushed (uc_out s') = pushed (uc_out s) \<and> uc_running s' = uc_running s"

lemma still_rules: "still s s" "still s s1 \<Longrightarrow> still s1 s2 \<Longrightarrow> still s s2"
  by (simp_all add: still_def)

lemma still_inv: "still s s' \<Longrightarrow> cache_inv s \<Longrightarrow> cache_inv s' \<and> all_receipts s' = all_receipts s"
  using mid_frame [of s' s] by (simp add: still_def all_receipts_def)

lemma unread_one_still: "unread_one tn inc u val s = (s', n, rd) \<Longrightarrow> still s s'"
  by (auto simp: unread_one_def Let_def still_def split: option.splits if_splits)

lemma unread_each_still: "unread_each tn inc us s = (s', cs, db) \<Longrightarrow> still s s' \<and> map fst cs = map fst us"
proof (induction tn inc us s arbitrary: s' cs db rule: unread_each.induct)
  case (2 tn inc u val rest s)
  obtain s1 n rd where 1: "unread_one tn inc u val s = (s1, n, rd)" by (metis prod_cases3)
  obtain s2 cs2 db2 where 2: "unread_each tn inc rest s1 = (s2, cs2, db2)" by (metis prod_cases3)
  from "2.prems" 1 2 have "s' = s2" "cs = (u, n) # cs2" by auto
  moreover have "still s1 s2 \<and> map fst cs2 = map fst rest" using "2.IH" [OF 1 [symmetric] refl 2] .
  ultimately show ?case using unread_one_still [OF 1] still_rules by auto
qed (simp add: still_rules)

lemma unreadUpdater_still: "unreadUpdater tn us inc s = (s', cs) \<Longrightarrow> still s s' \<and> map fst cs = map fst us"
  by (auto simp: unreadUpdater_def cache_put_def still_def split: prod.splits if_splits dest!: unread_each_still)

lemma register_still: "still s (fold (register_one tn inc) us s)"
proof (induction us arbitrary: s)
  case (Cons u us)
  have "still s (register_one tn inc u s)" by (auto simp: register_one_def Let_def still_def split: option.split)
  with Cons show ?case using still_rules(2) by auto
qed (simp add: still_rules)

lemma cache_key_inj [simp]: "cache_key tn u = cache_key tn' u' \<longleftrightarrow> tn = tn' \<and> u = u'"
  by (simp add: cache_key_def)

lemma waits_update:
  "length (filter (\<lambda>(k, ps). p \<in> set ps) (AList.update key v xs)) + (if \<exists>ps. map_of xs key = Some ps \<and> p \<in> set ps then 1 else 0) =
    length (filter (\<lambda>(k, ps). p \<in> set ps) xs) + (if p \<in> set v then 1 else 0)"
proof (induction xs)
  case (Cons x xs)
  then show ?case by (cases x; cases "fst x = key"; cases "map_of xs key") simp_all
qed simp

lemma add_pending_one:
  fixes key :: user_key
  assumes "distinct (map fst (uc_pending s))" "\<forall>(k, ps) \<in> set (uc_pending s). distinct ps \<and> set ps \<subseteq> insert a Q"
    "\<forall>(k, ps) \<in> set (uc_pending s). a \<in> set ps \<longrightarrow> k \<noteq> key"
  defines "s' \<equiv> add_pending a key s"
  shows "distinct (map fst (uc_pending s')) \<and> (\<forall>(k, ps) \<in> set (uc_pending s'). distinct ps \<and> set ps \<subseteq> insert a Q) \<and>
    (\<forall>(k, ps) \<in> set (uc_pending s'). a \<in> set ps \<longrightarrow> k = key \<or> (\<exists>qs. (k, qs) \<in> set (uc_pending s) \<and> a \<in> set qs)) \<and>
    waits_for s' a = Suc (waits_for s a) \<and> (\<forall>q. q \<noteq> a \<longrightarrow> waits_for s' q = waits_for s q)"
proof -
  define old where "old = (case map_of (uc_pending s) key of Some ps \<Rightarrow> ps | None \<Rightarrow> [])"
  have p: "uc_pending s' = AList.update key (old @ [a]) (uc_pending s)" by (simp add: s'_def add_pending_def old_def)
  have d: "distinct (map fst (uc_pending s'))" using assms(1) by (simp add: p AList.distinct_update)
  have old: "a \<notin> set old" "distinct old" "set old \<subseteq> insert a Q"
    using assms(2,3) by (cases "map_of (uc_pending s) key"; auto simp: old_def dest!: map_of_SomeD)+
  have ent: "(k, ps) \<in> set (uc_pending s') \<Longrightarrow> (k = key \<and> ps = old @ [a]) \<or> (k \<noteq> key \<and> (k, ps) \<in> set (uc_pending s))" for k ps
    using map_of_is_SomeI [OF d, of k ps] by (auto simp: p AList.update_conv' split: if_splits dest: map_of_SomeD)
  have w: "waits_for s' q + (if q \<in> set old then 1 else 0) = waits_for s q + (if q \<in> set (old @ [a]) then 1 else 0)" for q
  proof -
    have "(\<exists>ps. map_of (uc_pending s) key = Some ps \<and> q \<in> set ps) \<longleftrightarrow> q \<in> set old" by (cases "map_of (uc_pending s) key") (simp_all add: old_def)
    then show ?thesis using waits_update [of q key "old @ [a]" "uc_pending s"] by (simp add: waits_for_def p)
  qed
  show ?thesis
  proof (intro conjI)
    show "\<forall>(k, ps) \<in> set (uc_pending s'). distinct ps \<and> set ps \<subseteq> insert a Q" using ent old assms(2) by fastforce
    show "\<forall>(k, ps) \<in> set (uc_pending s'). a \<in> set ps \<longrightarrow> k = key \<or> (\<exists>qs. (k, qs) \<in> set (uc_pending s) \<and> a \<in> set qs)" using ent by fastforce
    show "waits_for s' a = Suc (waits_for s a)" using w [of a] old(1) by simp
    show "\<forall>q. q \<noteq> a \<longrightarrow> waits_for s' q = waits_for s q"
    proof (intro allI impI)
      show "waits_for s' q = waits_for s q" if "q \<noteq> a" for q using w [of q] that by (cases "q \<in> set old") simp_all
    qed
  qed (rule d)
qed

lemma add_pending_frame:
  "uc_queue (add_pending a k s) = uc_queue s" "uc_receipts (add_pending a k s) = uc_receipts s" "uc_out (add_pending a k s) = uc_out s"
  "uc_running (add_pending a k s) = uc_running s"
  by (simp_all add: add_pending_def)

lemma add_pending_all:
  assumes "distinct us" "distinct (map fst (uc_pending s))" "\<forall>(k, ps) \<in> set (uc_pending s). distinct ps \<and> set ps \<subseteq> insert a Q"
    "\<forall>(k, ps) \<in> set (uc_pending s). a \<in> set ps \<longrightarrow> k \<notin> cache_key tn ` set us"
  defines "s' \<equiv> fold (\<lambda>u. add_pending a (cache_key tn u)) us s"
  shows "distinct (map fst (uc_pending s')) \<and> (\<forall>(k, ps) \<in> set (uc_pending s'). distinct ps \<and> set ps \<subseteq> insert a Q) \<and>
    waits_for s' a = waits_for s a + length us \<and> (\<forall>q. q \<noteq> a \<longrightarrow> waits_for s' q = waits_for s q) \<and>
    uc_queue s' = uc_queue s \<and> uc_receipts s' = uc_receipts s \<and> uc_out s' = uc_out s \<and> uc_running s' = uc_running s"
  using assms(1-4) unfolding s'_def
proof (induction us arbitrary: s)
  case (Cons u us)
  let ?s = "add_pending a (cache_key tn u) s"
  have one: "distinct (map fst (uc_pending ?s)) \<and> (\<forall>(k, ps) \<in> set (uc_pending ?s). distinct ps \<and> set ps \<subseteq> insert a Q) \<and>
    (\<forall>(k, ps) \<in> set (uc_pending ?s). a \<in> set ps \<longrightarrow> k = cache_key tn u \<or> (\<exists>qs. (k, qs) \<in> set (uc_pending s) \<and> a \<in> set qs)) \<and>
    waits_for ?s a = Suc (waits_for s a) \<and> (\<forall>q. q \<noteq> a \<longrightarrow> waits_for ?s q = waits_for s q)"
    by (rule add_pending_one [OF Cons.prems(2,3)]) (use Cons.prems(4) in fastforce)
  have "\<forall>(k, ps) \<in> set (uc_pending ?s). a \<in> set ps \<longrightarrow> k \<notin> cache_key tn ` set us"
    using one Cons.prems(1,4) by fastforce
  with Cons.IH [of ?s] Cons.prems(1) one show ?case by (simp add: add_pending_frame)
qed simp

lemma cache_push_step:
  assumes "cache_inv s" "distinct (map fst (pr_To r))"
  shows "cache_inv (cache_push tn r s) \<and> all_receipts (cache_push tn r s) = all_receipts s + {#bare r#} \<and> uc_running (cache_push tn r s) = uc_running s"
proof -
  obtain s1 cs where upd: "unreadUpdater tn (map (\<lambda>(u, rc). (u, if rcpt_ShouldIncrement rc then 1 else 0)) (pr_To r)) True s = (s1, cs)" by fastforce
  define w where "w = map fst (filter (\<lambda>(u, n). n = unreadUpdateIOPending) cs)"
  define p where "p = with_counts cs r"
  from unreadUpdater_still [OF upd] have st: "still s s1" "map fst cs = map fst (pr_To r)" by (auto simp: comp_def case_prod_beta)
  then have dw: "distinct w" using assms(2) by (simp add: w_def distinct_map_filter)
  have inv1: "cache_inv s1" "all_receipts s1 = all_receipts s" "uc_running s1 = uc_running s" using still_inv [OF st(1) assms(1)] st(1) by (auto simp: still_def)
  show ?thesis
  proof (cases "w = []")
    case True
    then have "cache_push tn r s = cache_put (PushOut p) s1" by (simp add: cache_push_def upd w_def p_def)
    moreover have "cache_inv (cache_put (PushOut p) s1)" using mid_frame(2) [of "cache_put (PushOut p) s1" s1] inv1(1) by (simp add: cache_put_def)
    ultimately show ?thesis using inv1 by (simp add: all_receipts_def in_queue_def cache_put_def p_def)
  next
    case False
    define a where "a = length (uc_receipts s1)"
    define s2 where "s2 = s1\<lparr>uc_receipts := uc_receipts s1 @ [\<lparr>pnd_pendingIOs = int (length w), pnd_index = 0, pnd_rcpt = p\<rparr>]\<rparr>"
    define s3 where "s3 = fold (\<lambda>u. add_pending a (cache_key tn u)) w s2"
    define s4 where "s4 = heap_Push pq_Less pq_Swap pq_Len pq_Push a s3"
    have push: "cache_push tn r s = s4" using False
      unfolding s4_def s3_def s2_def a_def p_def w_def cache_push_def upd by (simp add: Let_def)
    have i1: "queue_ok s1" "pq.ordered (pq_Len s1) s1" "pending_ok {} s1" "\<forall>q \<in> set (uc_queue s1). 0 < waits_for s1 q"
      using inv1(1) by (auto simp: cache_inv_def)
    have old: "q < a" if "q \<in> set (uc_queue s1)" for q using i1(1) that by (auto simp: queue_ok_def in_set_conv_nth a_def)
    have ps: "distinct (map fst (uc_pending s1))" "\<forall>(k, ps) \<in> set (uc_pending s1). distinct ps \<and> set ps \<subseteq> set (uc_queue s1)"
      using i1(3) by (auto simp: pending_ok_def)
    have "\<forall>(k, ps) \<in> set (uc_pending s2). distinct ps \<and> set ps \<subseteq> insert a (set (uc_queue s1))"
      "\<forall>(k, ps) \<in> set (uc_pending s2). a \<in> set ps \<longrightarrow> k \<notin> cache_key tn ` set w" "distinct (map fst (uc_pending s2))"
      using ps old by (fastforce simp: s2_def)+
    note s3 = add_pending_all [OF dw this(3,1,2), folded s3_def]
    have a0: "waits_for s2 a = 0" "waits_for s2 q = waits_for s1 q" for q
      using ps(2) old by (fastforce simp: waits_for_def s2_def filter_empty_conv)+
    have f3: "uc_queue s3 = uc_queue s1" "uc_receipts s3 = uc_receipts s2" "uc_out s3 = uc_out s1" "uc_running s3 = uc_running s1"
      using s3 by (simp_all add: s2_def)
    have r2: "uc_receipts s2 ! q = (if q < a then uc_receipts s1 ! q else \<lparr>pnd_pendingIOs = int (length w), pnd_index = 0, pnd_rcpt = p\<rparr>)" if "q \<le> a" for q
      using that by (auto simp: s2_def a_def nth_append)
    have q3: "queue_ok s3" using i1(1) old by (auto simp: queue_ok_def f3 a_def s2_def nth_append less_SucI)
    have "pq.ordered (pq_Len s3) s3"
      by (rule ordered_cong [OF _ _ i1(2)]) (use old in \<open>auto simp: pq_Len_def pq_ios_def f3 r2 less_imp_le\<close>)
    from push_queue [OF q3 this, of a, folded s4_def, unfolded Let_def]
    have s4: "queue_ok s4" "pq.ordered (pq_Len s4) s4" "same_queue (s3\<lparr>uc_queue := uc_queue s1 @ [a]\<rparr>) s4"
      using old by (auto simp: f3 s2_def a_def)
    have set4: "set (uc_queue s4) = insert a (set (uc_queue s1))" using same_queue_set [OF s4(3)] by simp
    have e4: "uc_pending s4 = uc_pending s3" "uc_out s4 = uc_out s1" "uc_running s4 = uc_running s1" "mset (uc_queue s4) = add_mset a (mset (uc_queue s1))"
      "pnd_pendingIOs (uc_receipts s4 ! q) = pnd_pendingIOs (uc_receipts s2 ! q)" "pnd_rcpt (uc_receipts s4 ! q) = pnd_rcpt (uc_receipts s2 ! q)" for q
      using s4(3) by (simp_all add: same_queue_def f3)
    have w4: "waits_for s4 q = (if q = a then length w else waits_for s1 q)" for q
      using s3 a0 e4(1) by (auto simp: waits_for_def)
    have "pending_ok {} s4"
      unfolding pending_ok_def
    proof (intro conjI)
      show "distinct (map fst (uc_pending s4))" using s3 e4(1) by simp
      show "\<forall>(k, ps) \<in> set (uc_pending s4). distinct ps \<and> set ps \<subseteq> set (uc_queue s4)" using s3 e4(1) set4 by simp
      show "\<forall>q \<in> set (uc_queue s4). pnd_pendingIOs (uc_receipts s4 ! q) = int (waits_for s4 q) - (if q \<in> {} then 1 else 0)"
        using i1(3) old by (auto simp: set4 e4 w4 r2 less_imp_le pending_ok_def)
    qed
    then have "cache_inv s4" using s4(1,2) i1(4) False by (auto simp: cache_inv_def set4 w4)
    moreover have "image_mset (\<lambda>q. bare (pnd_rcpt (uc_receipts s4 ! q))) (mset (uc_queue s1)) = in_queue s1"
      unfolding in_queue_def by (rule image_mset_cong) (use old in \<open>auto simp: e4 r2 less_imp_le\<close>)
    then have "all_receipts s4 = all_receipts s1 + {#bare r#}"
      by (simp add: all_receipts_def e4) (simp add: in_queue_def e4 r2 p_def)
    ultimately show ?thesis using push inv1 e4 by simp
  qed
qed

subsection \<open>Runs\<close>

text \<open>The keys of a Go map are different from each other.\<close>

fun event_ok :: "cache_event \<Rightarrow> bool" where
  "event_ok (IoDone _ cs _) = distinct (map fst cs)"
| "event_ok (Update upd) = (case cr_PushRcpt upd of Some r \<Rightarrow> distinct (map fst (pr_To r)) | None \<Rightarrow> True)"
| "event_ok _ = True"

fun accepted :: "cache_event list \<Rightarrow> push_receipt list" where
  "accepted [] = []"
| "accepted (Shutdown # evs) = []"
| "accepted (Update upd # evs) = (case cr_PushRcpt upd of Some r \<Rightarrow> bare r # accepted evs | None \<Rightarrow> accepted evs)"
| "accepted (IoDone tn cs failed # evs) = accepted evs"
| "accepted (Ignored # evs) = accepted evs"

lemma update_step:
  assumes "cache_inv s" "event_ok (Update upd)"
  shows "cache_inv (cache_update upd s) \<and> uc_running (cache_update upd s) = uc_running s \<and>
    all_receipts (cache_update upd s) = all_receipts s + (case cr_PushRcpt upd of Some r \<Rightarrow> {#bare r#} | None \<Rightarrow> {#})"
proof (cases "cr_PushRcpt upd")
  case (Some r)
  with assms cache_push_step show ?thesis by (simp add: cache_update_def)
next
  case None
  have "still s (fst (unreadUpdater tn us inc s))" for tn us inc
    using unreadUpdater_still [of tn us inc s] by (cases "unreadUpdater tn us inc s") auto
  moreover have "still s (s\<lparr>uc_cache := c\<rparr>)" for c by (simp add: still_def)
  ultimately have "still s (cache_update upd s)" using None register_still by (simp add: cache_update_def Let_def)
  from still_inv [OF this assms(1)] this [unfolded still_def] None show ?thesis by simp
qed

lemma stopped_run: "\<not> uc_running s \<Longrightarrow> fold userUpdater evs s = s"
  by (induction evs) (simp_all add: userUpdater_def)

lemma run_inv:
  assumes "cache_inv s" "list_all event_ok evs"
  shows "cache_inv (fold userUpdater evs s) \<and> (uc_running s \<longrightarrow> all_receipts (fold userUpdater evs s) = all_receipts s + mset (accepted evs)) \<and>
    (\<not> uc_running s \<longrightarrow> fold userUpdater evs s = s)"
  using assms
proof (induction evs arbitrary: s rule: accepted.induct)
  case (2 evs)
  have "cache_inv (userUpdater Shutdown s)"
    using 2 mid_frame(2) [of "s\<lparr>uc_running := False\<rparr>" s] by (simp add: userUpdater_def)
  moreover have "all_receipts (userUpdater Shutdown s) = all_receipts s" "\<not> uc_running (userUpdater Shutdown s)"
    by (simp_all add: userUpdater_def all_receipts_def in_queue_def)
  moreover have "\<not> uc_running s \<Longrightarrow> userUpdater Shutdown s = s" by (simp add: userUpdater_def)
  ultimately show ?case using stopped_run [of "userUpdater Shutdown s" evs] by auto
next
  case (3 upd evs)
  let ?s = "userUpdater (Update upd) s"
  have s: "cache_inv ?s" "uc_running ?s = uc_running s"
    "uc_running s \<Longrightarrow> all_receipts ?s = all_receipts s + (case cr_PushRcpt upd of Some r \<Rightarrow> {#bare r#} | None \<Rightarrow> {#})"
    using update_step [OF 3(3), of upd] 3(3,4) by (auto simp: userUpdater_def)
  have same: "\<not> uc_running s \<Longrightarrow> ?s = s" by (simp add: userUpdater_def)
  show ?case
  proof (cases "cr_PushRcpt upd")
    case None
    with 3(1) [of ?s] 3(4) s same show ?thesis by auto
  next
    case (Some r)
    with 3(2) [of r ?s] 3(4) s same show ?thesis by (auto simp: ac_simps)
  qed
next
  case (4 tn cs failed evs)
  let ?s = "userUpdater (IoDone tn cs failed) s"
  have "cache_inv ?s \<and> all_receipts ?s = all_receipts s \<and> uc_running ?s = uc_running s \<and> (\<not> uc_running s \<longrightarrow> ?s = s)"
    using io_done_step [OF 4(2)] 4(2) by (simp add: userUpdater_def)
  with 4(1) [of ?s] 4(3) show ?case by auto
next
  case (5 evs)
  have "userUpdater Ignored s = s" by (simp add: userUpdater_def)
  with 5 show ?case by simp
qed simp

lemma init_inv: "cache_inv usersInit" "all_receipts usersInit = {#}" "uc_running usersInit"
  by (simp_all add: usersInit_def cache_inv_def queue_ok_def pq.ordered_but_def pq_Len_def pending_ok_def all_receipts_def in_queue_def)

text \<open>
  C15. No push notification is lost, sent twice or changed: whatever the cache of users goes through, the receipts it has sent and
  those in its queue are together exactly those it was given, but for the unread counters. A receipt in the queue waits for at
  least one user, for exactly as many as its number says, and the queue is a heap.
\<close>

theorem push_conserved:
  assumes "list_all event_ok evs" "s = fold userUpdater evs usersInit"
  shows "mset (pushed (uc_out s)) + in_queue s = mset (accepted evs) \<and>
    list_all (\<lambda>p. 0 < pnd_pendingIOs (uc_receipts s ! p) \<and> pnd_pendingIOs (uc_receipts s ! p) = int (waits_for s p)) (uc_queue s) \<and>
    list_all (\<lambda>i. pq_ios s ((i - 1) div 2) \<le> pq_ios s i) [1..<pq_Len s]"
  using run_inv [OF init_inv(1) assms(1)] init_inv assms(2)
  by (auto simp: all_receipts_def cache_inv_def pending_ok_def list_all_iff pq.ordered_but_def)

lemma send_ready_sent:
  assumes "mid_inv s" "pq_Len s \<le> n"
  shows "\<exists>new. uc_out (send_ready n s) = uc_out s @ new \<and>
    (\<forall>q \<in> set (uc_queue s). q \<in> set (uc_queue (send_ready n s)) \<or> bare (pnd_rcpt (uc_receipts s ! q)) \<in> set (pushed new))"
  using assms
proof (induction n arbitrary: s)
  case (Suc n)
  show ?case
  proof (cases "0 < pq_Len s \<and> pq_ios s 0 = 0")
    case False
    then show ?thesis by auto
  next
    case True
    then obtain p s1 where pop: "heap_Pop pq_Less pq_Swap pq_Len pq_Pop s = (p, s1)" "mid_inv s1" "uc_queue s = p # tl (uc_queue s)"
      "same_queue (s\<lparr>uc_queue := tl (uc_queue s)\<rparr>) s1" "Suc (pq_Len s1) = pq_Len s"
      using pop_step [OF Suc.prems(1)] by metis
    define s2 where "s2 = cache_put (PushOut (fill_unread s1 (pnd_rcpt (uc_receipts s1 ! p)))) s1"
    have f: "uc_queue s2 = uc_queue s1" "uc_receipts s2 = uc_receipts s1" "uc_pending s2 = uc_pending s1" by (simp_all add: s2_def cache_put_def)
    have s1: "pnd_rcpt (uc_receipts s1 ! q) = pnd_rcpt (uc_receipts s ! q)" "uc_out s1 = uc_out s" for q using pop(4) by (simp_all add: same_queue_def)
    have "mid_inv s2" "pq_Len s2 \<le> n" using mid_frame(1) [OF f] pop(2,5) Suc.prems(2) by (simp_all add: pq_Len_def f)
    from Suc.IH [OF this] obtain new where new: "uc_out (send_ready n s2) = uc_out s2 @ new"
      "\<forall>q \<in> set (uc_queue s2). q \<in> set (uc_queue (send_ready n s2)) \<or> bare (pnd_rcpt (uc_receipts s2 ! q)) \<in> set (pushed new)" by blast
    have "send_ready (Suc n) s = send_ready n s2" using True by (simp add: pop(1) s2_def)
    moreover have "set (uc_queue s) = insert p (set (uc_queue s2))"
      using arg_cong [OF pop(3), of set] same_queue_set [OF pop(4)] f(1) by simp
    ultimately show ?thesis
      using new s1 f by (intro exI [of _ "PushOut (fill_unread s1 (pnd_rcpt (uc_receipts s1 ! p))) # new"]) (auto simp: s2_def cache_put_def)
  qed
qed auto

lemma set_deletes: "set (fold AList.delete ks xs) = {x \<in> set xs. fst x \<notin> set ks}"
  by (induction ks arbitrary: xs) (auto simp: AList.delete_eq)

text \<open>
  C16. A push notification that waits is sent as soon as the counters of all the users it waits for have been read: when a reading
  that covers them succeeds, the receipt leaves the queue and is among the notifications sent by that very step.
\<close>

theorem push_sent_when_read:
  assumes "list_all event_ok evs" "s = fold userUpdater evs usersInit" "uc_running s" "p \<in> set (uc_queue s)"
    and covers: "list_all (\<lambda>(k, ps). p \<in> set ps \<longrightarrow> k \<in> cache_key tn ` set (map fst cs)) (uc_pending s)"
  shows "p \<notin> set (uc_queue (userUpdater (IoDone tn cs False) s)) \<and>
    (\<exists>new. uc_out (userUpdater (IoDone tn cs False) s) = uc_out s @ new \<and> bare (pnd_rcpt (uc_receipts s ! p)) \<in> set (pushed new))"
proof -
  have inv: "cache_inv s" using run_inv [OF init_inv(1) assms(1)] assms(2) by simp
  then have mid: "mid_inv s" by (simp add: cache_inv_def mid_inv_def)
  define s1 where "s1 = fold (io_one tn False) cs s"
  note s1 = io_all_step [OF mid, of tn False cs, folded s1_def]
  have s': "userUpdater (IoDone tn cs False) s = send_ready (pq_Len s1) s1" using assms(3) by (simp add: userUpdater_def io_done_def s1_def Let_def)
  have "waits_for s1 p = 0"
    using s1 covers by (force simp: waits_for_def filter_empty_conv set_deletes list_all_iff)
  then have "waits_for (send_ready (pq_Len s1) s1) p = 0"
    using send_ready_step [of s1 "pq_Len s1"] s1 by (simp add: waits_for_def)
  moreover have "cache_inv (io_done tn cs False s)" using io_done_step [OF inv] by simp
  ultimately have gone: "p \<notin> set (uc_queue (send_ready (pq_Len s1) s1))"
    by (auto simp: cache_inv_def io_done_def s1_def [symmetric] Let_def)
  have "p \<in> set (uc_queue s1)" using assms(4) s1 by (metis mset_eq_setD)
  with send_ready_sent [of s1 "pq_Len s1"] s1 gone show ?thesis unfolding s' by (metis order_refl)
qed

subsection \<open>One user at a time\<close>

text \<open>
  What the cache promises for one user: the entry and, while the counter is being read, the updates that wait for it. An update of a user whose
  counter is not known either starts the reading or waits; when the counter has been read the waiting updates are
  applied to it in their order.
\<close>

type_synonym user_view = "cache_entry option \<times> buffered_update list option"

definition view :: "user_key \<Rightarrow> users_cache \<Rightarrow> user_view" where
  "view k s = (map_of (uc_cache s) k, map_of (uc_buffers s) k)"

fun spec_unread :: "int \<Rightarrow> bool \<Rightarrow> user_view \<Rightarrow> user_view" where
  "spec_unread val inc (None, buf) = (None, buf)"
| "spec_unread val inc (Some uce, buf) =
     (if uce_unread uce < 0 then (Some uce, Some (case buf of None \<Rightarrow> [] | Some b \<Rightarrow> b @ [\<lparr>bu_val = val, bu_inc = inc\<rparr>]))
      else (Some (uce\<lparr>uce_unread := if inc then uce_unread uce + val else val\<rparr>), buf))"

fun spec_register :: "bool \<Rightarrow> user_view \<Rightarrow> user_view" where
  "spec_register inc (None, buf) = (if inc then Some \<lparr>uce_unread = - 1, uce_topics = 1\<rparr> else None, buf)"
| "spec_register inc (Some uce, buf) =
     (if inc then Some (uce\<lparr>uce_topics := uce_topics uce + 1\<rparr>)
      else if 1 < uce_topics uce then Some (uce\<lparr>uce_topics := uce_topics uce - 1\<rparr>) else None, buf)"

fun spec_read :: "int \<Rightarrow> bool \<Rightarrow> user_view \<Rightarrow> user_view" where
  "spec_read n failed (uce, buf) =
     (if failed then uce else map_option (\<lambda>e. e\<lparr>uce_unread := fold apply_update (case buf of Some b \<Rightarrow> b | None \<Rightarrow> []) n\<rparr>) uce, None)"

definition spec_event :: "user_key \<Rightarrow> cache_event \<Rightarrow> user_view \<Rightarrow> user_view" where
  "spec_event k ev v =
     (case ev of
        IoDone tn cs failed \<Rightarrow>
          if tn \<noteq> UserKey_TenantID k then v
          else (case map_of cs (UserKey_User k) of Some n \<Rightarrow> spec_read n failed v | None \<Rightarrow> v)
      | Update upd \<Rightarrow>
          if cr_TenantID upd \<noteq> UserKey_TenantID k then v
          else
            (case cr_PushRcpt upd of
               Some r \<Rightarrow> (case map_of (pr_To r) (UserKey_User k) of
                 Some rc \<Rightarrow> spec_unread (if rcpt_ShouldIncrement rc then 1 else 0) True v | None \<Rightarrow> v)
             | None \<Rightarrow>
                 if cr_UserIdList upd \<noteq> [] then (spec_register (cr_Inc upd) ^^ count_list (cr_UserIdList upd) (UserKey_User k)) v
                 else if cr_UserId upd \<noteq> UserKey_User k then v
                 else if cr_Gone upd then (None, snd v)
                 else spec_unread (cr_Unread upd) (cr_Inc upd) v)
      | _ \<Rightarrow> v)"

lemma cache_key_eq: "k = cache_key tn u \<longleftrightarrow> UserKey_TenantID k = tn \<and> UserKey_User k = u"
  by (cases k) (auto simp: cache_key_def)

lemma unread_one_view:
  "unread_one tn inc u val s = (s', n, rd) \<Longrightarrow> view k s' = (if k = cache_key tn u then spec_unread val inc (view k s) else view k s)"
  by (auto simp: unread_one_def Let_def view_def AList.update_conv' split: option.splits if_splits)

lemma unread_each_view:
  "unread_each tn inc us s = (s', cs, db) \<Longrightarrow> distinct (map fst us) \<Longrightarrow>
    view k s' = (if UserKey_TenantID k \<noteq> tn then view k s else case map_of us (UserKey_User k) of Some val \<Rightarrow> spec_unread val inc (view k s) | None \<Rightarrow> view k s)"
proof (induction tn inc us s arbitrary: s' cs db rule: unread_each.induct)
  case (2 tn inc u val rest s)
  obtain s1 n rd where 1: "unread_one tn inc u val s = (s1, n, rd)" by (metis prod_cases3)
  obtain s2 cs2 db2 where 2: "unread_each tn inc rest s1 = (s2, cs2, db2)" by (metis prod_cases3)
  have "map_of rest u = None" using "2.prems"(2) by (auto simp: map_of_eq_None_iff)
  with unread_one_view [OF 1, of k] "2.IH" [OF 1 [symmetric] refl 2] "2.prems" 1 2 show ?case
    by (auto simp: cache_key_eq split: option.splits)
qed simp

lemma unreadUpdater_view:
  "unreadUpdater tn us inc s = (s', cs) \<Longrightarrow> distinct (map fst us) \<Longrightarrow>
    view k s' = (if UserKey_TenantID k \<noteq> tn then view k s else case map_of us (UserKey_User k) of Some val \<Rightarrow> spec_unread val inc (view k s) | None \<Rightarrow> view k s)"
proof -
  obtain s1 cs1 db where e: "unread_each tn inc us s = (s1, cs1, db)" by (metis prod_cases3)
  assume "unreadUpdater tn us inc s = (s', cs)" "distinct (map fst us)"
  moreover from this(1) have "view k s' = view k s1" by (auto simp: unreadUpdater_def e cache_put_def view_def)
  ultimately show ?thesis using unread_each_view [OF e] by simp
qed

lemma register_view:
  "view k (fold (register_one tn inc) us s) = (if UserKey_TenantID k \<noteq> tn then view k s else (spec_register inc ^^ count_list us (UserKey_User k)) (view k s))"
proof (induction us arbitrary: s)
  case (Cons u us)
  have "view k (register_one tn inc u s) = (if k = cache_key tn u then spec_register inc (view k s) else view k s)"
    by (auto simp: register_one_def Let_def view_def AList.update_conv' AList.delete_conv' split: option.splits)
  with Cons show ?case by (auto simp: cache_key_eq funpow_swap1)
qed simp

lemma gone_view:
  "view k (s\<lparr>uc_cache := AList.delete (cache_key tn u) (uc_cache s)\<rparr>) = (if k = cache_key tn u then (None, snd (view k s)) else view k s)"
  by (simp add: view_def AList.delete_conv')

text \<open>The queues of receipts do not touch the counters.\<close>

lemma queue_view:
  "view k (pq_Swap i j s) = view k s" "view k (pq_Push a s) = view k s" "view k (snd (pq_Pop s)) = view k s" "view k (add_pending a k' s) = view k s"
  "view k (cache_put x s) = view k s"
  by (simp_all add: view_def pq_Swap_def pq_Push_def pq_Pop_def set_index_def Let_def add_pending_def cache_put_def)

lemma heap_view:
  "view k (heap_Push pq_Less pq_Swap pq_Len pq_Push a s) = view k s" "view k (snd (heap_Pop pq_Less pq_Swap pq_Len pq_Pop s)) = view k s"
  "view k (io_ready p s) = view k s" "view k (fold io_ready ps s) = view k s" "view k (fold (\<lambda>u. add_pending a (cache_key tn u)) us s) = view k s"
proof -
  show "view k (heap_Push pq_Less pq_Swap pq_Len pq_Push a s) = view k s"
    unfolding heap_Push_def Let_def by (subst heap_up_frame [of "view k"]) (simp_all add: queue_view)
  have "view k (snd (heap_down pq_Less pq_Swap n i s)) = view k s" for n i s
    by (rule heap_down_frame) (simp add: queue_view)
  then show "view k (snd (heap_Pop pq_Less pq_Swap pq_Len pq_Pop s)) = view k s" by (simp add: heap_Pop_def Let_def queue_view)
  show ready: "view k (io_ready p s) = view k s" for p s
  proof -
    have "view k (heap_Fix pq_Less pq_Swap pq_Len i s) = view k s" for i s by (rule heap_Fix_frame) (simp add: queue_view)
    then show ?thesis by (simp add: io_ready_def pq_fix_def Let_def view_def)
  qed
  show "view k (fold io_ready ps s) = view k s" by (induction ps arbitrary: s) (simp_all add: ready)
  show "view k (fold (\<lambda>u. add_pending a (cache_key tn u)) us s) = view k s" by (induction us arbitrary: s) (simp_all add: queue_view)
qed

lemma send_ready_view: "view k (send_ready n s) = view k s"
proof (induction n arbitrary: s)
  case (Suc n)
  obtain p s1 where pop: "heap_Pop pq_Less pq_Swap pq_Len pq_Pop s = (p, s1)" by fastforce
  then have "view k s1 = view k s" using heap_view(2) [of k s] by simp
  with Suc show ?case by (simp add: pop queue_view)
qed simp

lemma io_one_view:
  "view k (io_one tn failed (u, n) s) = (if k = cache_key tn u then spec_read n failed (view k s) else view k s)"
proof -
  have v: "view k' (s1\<lparr>uc_pending := ps\<rparr>) = view k' s1" for k' s1 ps by (simp add: view_def)
  show ?thesis
    by (cases "map_of (uc_cache s) (cache_key tn u)"; cases "map_of (uc_buffers s) (cache_key tn u)"; cases "map_of (uc_pending s) (cache_key tn u)")
      (auto simp: io_one_def Let_def v heap_view, auto simp: view_def AList.update_conv' AList.delete_conv')
qed

lemma io_all_view:
  "distinct (map fst cs) \<Longrightarrow> view k (fold (io_one tn failed) cs s) =
    (if tn \<noteq> UserKey_TenantID k then view k s else case map_of cs (UserKey_User k) of Some n \<Rightarrow> spec_read n failed (view k s) | None \<Rightarrow> view k s)"
proof (induction cs arbitrary: s)
  case (Cons c cs)
  obtain u n where c: "c = (u, n)" by fastforce
  with Cons.prems have "map_of cs u = None" by (auto simp: map_of_eq_None_iff)
  with Cons c io_one_view show ?case by (auto simp: cache_key_eq split: option.splits)
qed simp

lemma cache_push_view:
  assumes "distinct (map fst (pr_To r))"
  shows "view k (cache_push tn r s) = (if UserKey_TenantID k \<noteq> tn then view k s
    else case map_of (pr_To r) (UserKey_User k) of Some rc \<Rightarrow> spec_unread (if rcpt_ShouldIncrement rc then 1 else 0) True (view k s) | None \<Rightarrow> view k s)"
proof -
  let ?us = "map (\<lambda>(u, rc). (u, if rcpt_ShouldIncrement rc then 1 else 0 :: int)) (pr_To r)"
  obtain s1 cs where upd: "unreadUpdater tn ?us True s = (s1, cs)" by fastforce
  have "view k (cache_push tn r s) = view k s1"
    unfolding cache_push_def upd prod.case Let_def by (auto simp: heap_view queue_view) (simp add: view_def)
  moreover have "map_of ?us u = map_option (\<lambda>rc. if rcpt_ShouldIncrement rc then 1 else 0) (map_of (pr_To r) u)" for u
    by (induction "pr_To r" arbitrary: r) (auto simp: map_of_map)
  moreover have "distinct (map fst ?us)" using assms by (simp add: comp_def case_prod_beta)
  ultimately show ?thesis using unreadUpdater_view [OF upd, of k] by (auto split: option.splits)
qed

lemma step_view:
  assumes "event_ok ev" "uc_running s"
  shows "view k (userUpdater ev s) = spec_event k ev (view k s)"
proof (cases ev)
  case (IoDone tn cs failed)
  with assms show ?thesis
    by (cases failed) (simp_all add: userUpdater_def io_done_def Let_def send_ready_view io_all_view spec_event_def)
next
  case (Update upd)
  show ?thesis
  proof (cases "cr_PushRcpt upd")
    case (Some r)
    with Update assms show ?thesis by (auto simp: userUpdater_def cache_update_def cache_push_view spec_event_def Let_def)
  next
    case None
    show ?thesis
    proof (cases "cr_UserIdList upd \<noteq> [] \<or> cr_Gone upd")
      case True
      with None Update assms show ?thesis
        by (auto simp: userUpdater_def cache_update_def register_view gone_view cache_key_eq spec_event_def Let_def)
    next
      case False
      obtain s1 cs where "unreadUpdater (cr_TenantID upd) [(cr_UserId upd, cr_Unread upd)] (cr_Inc upd) s = (s1, cs)" by fastforce
      with False None Update assms unreadUpdater_view [OF this, of k] show ?thesis
        by (auto simp: userUpdater_def cache_update_def spec_event_def Let_def)
    qed
  qed
qed (use assms in \<open>simp_all add: userUpdater_def spec_event_def view_def\<close>)

text \<open>
  C17. The cache treats every user on its own: over any sequence of events the entry of a user and the updates that wait for its
  counter develop as the description for a single user says, whatever happens to other users, to other tenants and to
  the receipts in the queue.
\<close>

theorem users_independent:
  assumes "list_all event_ok evs" "Shutdown \<notin> set evs"
  shows "view k (fold userUpdater evs usersInit) = fold (spec_event k) evs (None, None)"
proof -
  have "view k (fold userUpdater evs s) = fold (spec_event k) evs (view k s)"
    if "list_all event_ok evs" "Shutdown \<notin> set evs" "cache_inv s" "uc_running s" for evs s
    using that
  proof (induction evs arbitrary: s)
    case (Cons ev evs)
    have "cache_inv (userUpdater ev s) \<and> uc_running (userUpdater ev s)"
      using Cons.prems io_done_step update_step by (cases ev) (simp_all add: userUpdater_def)
    with Cons step_view [of ev s k] show ?case by simp
  qed simp
  from this [OF assms init_inv(1,3)] show ?thesis by (simp add: view_def usersInit_def)
qed

subsection \<open>A reading that fails without counters\<close>

text \<open>An event that brings the counter of a user.\<close>

fun answers_for :: "user_key \<Rightarrow> cache_event \<Rightarrow> bool" where
  "answers_for k (IoDone tn cs failed) = (tn = UserKey_TenantID k \<and> UserKey_User k \<in> set (map fst cs))"
| "answers_for k _ = False"

fun reads_for :: "user_key \<Rightarrow> cache_effect \<Rightarrow> bool" where
  "reads_for k (ReadUnread tn us) = (tn = UserKey_TenantID k \<and> UserKey_User k \<in> set us)"
| "reads_for k (PushOut _) = False"

lemma spec_unread_keeps: "snd v = Some b \<Longrightarrow> \<exists>b'. snd (spec_unread val inc v) = Some b'"
  by (cases v; cases "fst v") auto

lemma spec_register_keeps: "snd ((spec_register inc ^^ n) v) = snd v"
proof (induction n)
  case (Suc n)
  have "snd (spec_register inc w) = snd w" for w by (cases w; cases "fst w") auto
  with Suc show ?case by simp
qed simp

lemma waiting_stays:
  assumes "event_ok ev" "uc_running s" "snd (view k s) \<noteq> None" "\<not> answers_for k ev"
  shows "snd (view k (userUpdater ev s)) \<noteq> None"
proof (cases ev)
  case (IoDone tn cs failed)
  with assms show ?thesis
    unfolding step_view [OF assms(1,2)]
    by (cases "map_of cs (UserKey_User k)") (auto simp: spec_event_def dest!: map_of_SomeD, metis fst_conv image_eqI)
next
  case (Update upd)
  with assms show ?thesis
    unfolding step_view [OF assms(1,2)]
    by (auto simp: spec_event_def spec_register_keeps spec_unread_keeps split: option.splits)
qed (use assms in \<open>simp_all add: userUpdater_def view_def\<close>)

lemma unread_each_reads:
  "unread_each tn inc us s = (s', cs, db) \<Longrightarrow> snd (view (cache_key tn u) s) \<noteq> None \<Longrightarrow> u \<notin> set db"
proof (induction tn inc us s arbitrary: s' cs db rule: unread_each.induct)
  case (2 tn inc v val rest s)
  obtain s1 n rd where 1: "unread_one tn inc v val s = (s1, n, rd)" by (metis prod_cases3)
  obtain s2 cs2 db2 where 2: "unread_each tn inc rest s1 = (s2, cs2, db2)" by (metis prod_cases3)
  have "snd (view (cache_key tn u) s1) \<noteq> None"
    using unread_one_view [OF 1, of "cache_key tn u"] "2.prems"(2) spec_unread_keeps by (auto split: if_splits)
  from "2.IH" [OF 1 [symmetric] refl 2 this] have "u \<notin> set db2" .
  moreover have "rd \<Longrightarrow> u \<noteq> v" using 1 "2.prems"(2) by (auto simp: unread_one_def Let_def view_def split: option.splits if_splits)
  ultimately show ?case using "2.prems"(1) 1 2 by (cases rd) auto
qed simp

text \<open>What a step sends out: while the counter of a user is being read, no other reading of it is started.\<close>

definition no_read :: "user_key \<Rightarrow> users_cache \<Rightarrow> users_cache \<Rightarrow> bool" where
  "no_read k s s' \<longleftrightarrow> (\<exists>new. uc_out s' = uc_out s @ new \<and> \<not> list_ex (reads_for k) new)"

lemma no_read_rules:
  "uc_out s' = uc_out s \<Longrightarrow> no_read k s s'" "no_read k s s1 \<Longrightarrow> no_read k s (cache_put (PushOut r) s1)"
  "no_read k s s1 \<Longrightarrow> no_read k s1 s2 \<Longrightarrow> no_read k s s2"
  by (auto simp: no_read_def cache_put_def)

lemma updater_no_read:
  assumes "unreadUpdater tn us inc s = (s', cs)" "snd (view k s) \<noteq> None"
  shows "no_read k s s'"
proof -
  obtain s1 cs1 db where e: "unread_each tn inc us s = (s1, cs1, db)" by (metis prod_cases3)
  have "uc_out s1 = uc_out s" using e
  proof (induction us arbitrary: s s1 cs1 db)
    case (Cons u us)
    then show ?case
      by (cases u) (auto simp: unread_one_def Let_def split: option.splits if_splits prod.splits)
  qed simp
  moreover have "UserKey_TenantID k = tn \<Longrightarrow> UserKey_User k \<notin> set db"
    using unread_each_reads [OF e, of "UserKey_User k"] assms(2) by (metis cache_key_eq)
  ultimately show ?thesis using assms(1) by (auto simp: unreadUpdater_def e cache_put_def no_read_def)
qed

lemma queue_out:
  "uc_out (pq_Swap i j s) = uc_out s" "uc_out (pq_Push a s) = uc_out s" "uc_out (snd (pq_Pop s)) = uc_out s"
  "uc_out (fold (\<lambda>u. add_pending a (cache_key tn u)) us s) = uc_out s"
proof -
  show "uc_out (fold (\<lambda>u. add_pending a (cache_key tn u)) us s) = uc_out s"
    by (induction us arbitrary: s) (simp_all add: add_pending_def)
qed (simp_all add: pq_Swap_def pq_Push_def pq_Pop_def set_index_def Let_def)

lemma heap_out:
  "uc_out (heap_Push pq_Less pq_Swap pq_Len pq_Push a s) = uc_out s" "uc_out (snd (heap_Pop pq_Less pq_Swap pq_Len pq_Pop s)) = uc_out s"
  "uc_out (fold io_ready ps s) = uc_out s"
proof -
  show "uc_out (heap_Push pq_Less pq_Swap pq_Len pq_Push a s) = uc_out s"
    unfolding heap_Push_def Let_def by (subst heap_up_frame [of uc_out]) (simp_all add: queue_out)
  have "uc_out (snd (heap_down pq_Less pq_Swap n i s)) = uc_out s" for n i s
    by (rule heap_down_frame) (simp add: queue_out)
  then show "uc_out (snd (heap_Pop pq_Less pq_Swap pq_Len pq_Pop s)) = uc_out s" by (simp add: heap_Pop_def Let_def queue_out)
  have "uc_out (heap_Fix pq_Less pq_Swap pq_Len i s) = uc_out s" for i s by (rule heap_Fix_frame) (simp add: queue_out)
  then have "uc_out (io_ready p s) = uc_out s" for p s by (simp add: io_ready_def pq_fix_def Let_def)
  then show "uc_out (fold io_ready ps s) = uc_out s" by (induction ps arbitrary: s) simp_all
qed

lemma send_ready_no_read: "no_read k s (send_ready n s)"
proof (induction n arbitrary: s)
  case (Suc n)
  obtain p s1 where pop: "heap_Pop pq_Less pq_Swap pq_Len pq_Pop s = (p, s1)" by fastforce
  then have "no_read k s (cache_put (PushOut r) s1)" for r using heap_out(2) [of s] by (intro no_read_rules) simp
  then show ?case using Suc no_read_rules(3) by (auto simp: pop no_read_rules(1)) blast
qed (simp add: no_read_rules)

lemma io_all_out: "uc_out (fold (io_one tn failed) cs s) = uc_out s"
proof (induction cs arbitrary: s)
  case (Cons c cs)
  have "uc_out (io_one tn failed c s) = uc_out s"
    by (cases c) (auto simp: io_one_def Let_def heap_out split: option.split)
  with Cons show ?case by simp
qed simp

lemma step_no_read:
  assumes "uc_running s" "snd (view k s) \<noteq> None"
  shows "no_read k s (userUpdater ev s)"
proof (cases ev)
  case (IoDone tn cs failed)
  have "no_read k s (fold (io_one tn failed) cs s)" by (simp add: no_read_rules io_all_out)
  then have "no_read k s (io_done tn cs failed s)"
    using send_ready_no_read no_read_rules(3) by (auto simp: io_done_def Let_def)
  with IoDone assms show ?thesis by (simp add: userUpdater_def)
next
  case (Update upd)
  have reg: "uc_out (fold (register_one tn inc) us s) = uc_out s" for tn inc us
    by (induction us arbitrary: s) (auto simp: register_one_def Let_def split: option.split)
  have push: "no_read k s (cache_push tn r s)" for tn r
  proof -
    let ?us = "map (\<lambda>(u, rc). (u, if rcpt_ShouldIncrement rc then 1 else 0 :: int)) (pr_To r)"
    obtain s1 cs where upd: "unreadUpdater tn ?us True s = (s1, cs)" by fastforce
    have "no_read k s s2" if "uc_out s2 = uc_out s1" for s2
      using updater_no_read [OF upd assms(2)] that by (auto simp: no_read_def)
    then show ?thesis unfolding cache_push_def upd prod.case Let_def
      by (auto simp: heap_out queue_out intro: no_read_rules(2))
  qed
  have one: "no_read k s (fst (unreadUpdater tn us inc s))" for tn us inc
    using updater_no_read [OF _ assms(2), of tn us inc] by (cases "unreadUpdater tn us inc s") simp
  from Update assms(1) show ?thesis
    by (auto simp: userUpdater_def cache_update_def Let_def push one reg intro: no_read_rules split: option.split)
qed (use assms in \<open>simp_all add: userUpdater_def no_read_rules\<close>)

text \<open>
  C34. A counter whose reading fails without an answer is never read again: once the routine that reads it has come back with an
  error and no counters (as it does when the tenant or the store is not available), the user is still marked as being read,
  no event that brings no counter for the user changes that, and no reading of the counter is started, so that nothing
  ever brings it.
\<close>

theorem failed_read_never_retried:
  assumes "list_all event_ok evs" "uc_running s" "map_of (uc_buffers s) k \<noteq> None" "list_all (\<lambda>ev. \<not> answers_for k ev) evs"
  shows "map_of (uc_buffers (fold userUpdater (IoDone tn [] True # evs) s)) k \<noteq> None \<and>
    (\<exists>new. uc_out (fold userUpdater (IoDone tn [] True # evs) s) = uc_out s @ new \<and> \<not> list_ex (reads_for k) new)"
proof -
  have "snd (view k (fold userUpdater evs s)) \<noteq> None \<and> no_read k s (fold userUpdater evs s)"
    if "list_all event_ok evs" "snd (view k s) \<noteq> None" "list_all (\<lambda>ev. \<not> answers_for k ev) evs" for evs s
    using that
  proof (induction evs arbitrary: s)
    case (Cons ev evs)
    show ?case
    proof (cases "uc_running s")
      case True
      have "snd (view k (userUpdater ev s)) \<noteq> None" using waiting_stays [OF _ True, of ev k] Cons.prems by simp
      with Cons.IH [of "userUpdater ev s"] Cons.prems
      have "snd (view k (fold userUpdater (ev # evs) s)) \<noteq> None" "no_read k (userUpdater ev s) (fold userUpdater (ev # evs) s)" by simp_all
      then show ?thesis using no_read_rules(3) [OF step_no_read [OF True Cons.prems(2)]] by blast
    next
      case False
      then show ?thesis using stopped_run [OF False, of "ev # evs"] Cons.prems by (simp add: no_read_rules)
    qed
  qed (simp add: no_read_rules)
  from this [of "IoDone tn [] True # evs" s] assms show ?thesis by (simp add: view_def no_read_def)
qed

subsection \<open>A run of the cache\<close>

definition receipt0 :: push_receipt where
  "receipt0 = \<lparr>pr_TenantID = 1, pr_To = [(5, \<lparr>rcpt_Delivered = 0, rcpt_Unread = 0, rcpt_ShouldIncrement = True\<rparr>)], pr_Channel = [],
     pr_Payload = \<lparr>pp_What = ''msg'', pp_Silent = False, pp_Topic = ''grp'', pp_Timestamp = 0, pp_From = [], pp_SeqId = 3, pp_ContentType = [],
       pp_Content = ANil, pp_Webrtc = [], pp_AudioOnly = False, pp_Replace = [], pp_ModeWant = 0, pp_ModeGiven = 0\<rparr>\<rparr>"

definition cache_run0 :: "cache_event list" where
  "cache_run0 = [Update ((cache_req0 1)\<lparr>cr_UserIdList := [5], cr_Inc := True\<rparr>), Update ((cache_req0 1)\<lparr>cr_PushRcpt := Some receipt0\<rparr>)]"

definition cache0 :: users_cache where
  "cache0 = \<lparr>uc_cache = [(cache_key 1 5, \<lparr>uce_unread = - 1, uce_topics = 1\<rparr>)], uc_buffers = [(cache_key 1 5, [])], uc_pending = [(cache_key 1 5, [0])],
     uc_receipts = [\<lparr>pnd_pendingIOs = 1, pnd_index = 0, pnd_rcpt = receipt0\<rparr>], uc_queue = [0], uc_running = True, uc_out = [ReadUnread 1 [5]]\<rparr>"

lemma receipt0_to: "pr_To receipt0 = [(5, \<lparr>rcpt_Delivered = 0, rcpt_Unread = 0, rcpt_ShouldIncrement = True\<rparr>)]"
  by (simp add: receipt0_def)

lemma cache_run0_ok: "list_all event_ok cache_run0" "Shutdown \<notin> set cache_run0"
  by (simp_all add: cache_run0_def cache_req0_def receipt0_to)

lemma cache_run0_end: "fold userUpdater cache_run0 usersInit = cache0"
proof -
  have "with_counts [(5, - 1)] receipt0 = receipt0" by (simp add: with_counts_def receipt0_def)
  then show ?thesis
    by (simp add: cache_run0_def userUpdater_def usersInit_def cache_update_def cache_req0_def register_one_def cache_push_def receipt0_to unreadUpdater_def
        unread_one_def Let_def unreadUpdateIOPending_def cache_put_def add_pending_def heap_Push_def pq_Push_def pq_Len_def set_index_def cache0_def heap_up.simps)
qed

theorem push_conserved_witness:
  "mset (pushed (uc_out cache0)) + in_queue cache0 = mset (accepted cache_run0) \<and>
    list_all (\<lambda>p. 0 < pnd_pendingIOs (uc_receipts cache0 ! p) \<and> pnd_pendingIOs (uc_receipts cache0 ! p) = int (waits_for cache0 p)) (uc_queue cache0) \<and>
    list_all (\<lambda>i. pq_ios cache0 ((i - 1) div 2) \<le> pq_ios cache0 i) [1..<pq_Len cache0]"
  using push_conserved [OF cache_run0_ok(1) cache_run0_end [symmetric]] .

theorem push_sent_when_read_witness:
  "0 \<notin> set (uc_queue (userUpdater (IoDone 1 [(5, 7)] False) cache0)) \<and>
    (\<exists>new. uc_out (userUpdater (IoDone 1 [(5, 7)] False) cache0) = uc_out cache0 @ new \<and> bare (pnd_rcpt (uc_receipts cache0 ! 0)) \<in> set (pushed new))"
  by (rule push_sent_when_read [OF cache_run0_ok(1) cache_run0_end [symmetric]]) (simp_all add: cache0_def)

theorem users_independent_witness:
  "view (cache_key 1 5) cache0 = fold (spec_event (cache_key 1 5)) cache_run0 (None, None)"
  using users_independent [OF cache_run0_ok] by (simp add: cache_run0_end)

theorem failed_read_never_retried_witness:
  "map_of (uc_buffers (fold userUpdater (IoDone 1 [] True # cache_run0) cache0)) (cache_key 1 5) \<noteq> None \<and>
    (\<exists>new. uc_out (fold userUpdater (IoDone 1 [] True # cache_run0) cache0) = uc_out cache0 @ new \<and> \<not> list_ex (reads_for (cache_key 1 5)) new)"
  by (rule failed_read_never_retried [OF cache_run0_ok(1)]) (simp_all add: cache0_def cache_run0_def)

end
