(* ===== verification/Spec2Isabelle.thy ===== *)
theory Spec2Isabelle
  imports Datamodel RingHash SearchQuery TokenAuth CodeAuth Election TopicRun MetaProps AccountProps SessionStore GroupLife UsersCacheProps
begin

text \<open>
  Verification development of the instant messaging server.

  \<^bold>\<open>The program.\<close> A client talks to a \<^emph>\<open>session\<close>, which decodes messages of the wire data model
  (\<^verbatim>\<open>server/datamodel.go\<close>), authenticates the user through one of the \<^emph>\<open>authenticators\<close>
  (\<^verbatim>\<open>server/auth\<close>) and hands requests to \<^emph>\<open>topics\<close>, directly or through the \<^emph>\<open>hub\<close>, which starts and stops them. Users and topics are named by 64-bit ids
  (\<^verbatim>\<open>server/store/types\<close>) and every name is scoped by a tenant. In a cluster each topic lives on the
  node that a \<^emph>\<open>consistent hash ring\<close> (\<^verbatim>\<open>server/ringhash\<close>) gives for its routing key; the nodes elect
  a leader (\<^verbatim>\<open>server/cluster_leader.go\<close>) which watches the others and makes them rebuild the ring.
  State that outlives a session is kept by the database adapters (\<^verbatim>\<open>server/db\<close>).

  \<^bold>\<open>Theories.\<close>
  \<^item> \<^verbatim>\<open>Prelude\<close>, \<^verbatim>\<open>GoStd\<close>, \<^verbatim>\<open>GoUnicode\<close>, \<^verbatim>\<open>GoValues\<close>, \<^verbatim>\<open>Crypto\<close>: what the code uses of Go. Integers of fixed
    width are words, \<^verbatim>\<open>int\<close> is \<^typ>\<open>int\<close> where it cannot overflow, strings are lists of bytes, an
    interface value is a \<^verbatim>\<open>go_any\<close>, a map is an association list or a function to options. A panic
    is \<open>None\<close>, a returned error is \<open>Inl\<close>.
  \<^item> \<^verbatim>\<open>AccessModes\<close>: the bit sets of permissions of \<^verbatim>\<open>store/types/types.go\<close>, their text forms, deltas and
    mutations. Text forms round-trip, a delta applied to the old mode gives the new one and no
    mutation leaves the valid modes.
  \<^item> \<^verbatim>\<open>Uids\<close>: user ids, user and topic names, tenant routing keys, sorted id slices and the id generator.
    Routing keys are injective, two users share exactly one peer-to-peer name, a slice behaves as
    the set it stands for (an interpretation of the set interface).
  \<^item> \<^verbatim>\<open>StoreTypes\<close>: stored subscriptions, topics and message ranges with their operations.
  \<^item> \<^verbatim>\<open>RingHash\<close>: the ring. Its lookup refines the owner of a key, the order in which nodes are added does
    not matter, and a joining node takes keys only for itself.
  \<^item> \<^verbatim>\<open>Datamodel\<close>: every client and server message, the parsers of the \<^verbatim>\<open>what\<close> fields, message copies and the
    constructors of control messages.
  \<^item> \<^verbatim>\<open>Utils\<close>, \<^verbatim>\<open>SearchQuery\<close>: the pure functions of \<^verbatim>\<open>server/utils.go\<close> (differences of slices, tags, versions,
    credentials, replies to store errors, deep merge) and its parser of search queries.
  \<^item> \<^verbatim>\<open>AuthTypes\<close>, \<^verbatim>\<open>TokenAuth\<close>, \<^verbatim>\<open>CodeAuth\<close>, \<^verbatim>\<open>PCache\<close>: levels, features and records of \<^verbatim>\<open>auth/auth.go\<close>, signed
    tokens, reset codes, and the persistent cache of the MySQL adapter the codes are kept in, with
    its tenant scoping as a locale. Tokens round-trip and an accepted one carries its signature; a reset
    code works once and only within its limit of attempts, and tenants do not see each other's codes.
  \<^item> \<^verbatim>\<open>Cluster\<close>, \<^verbatim>\<open>Election\<close>: one node's handlers of ticks, health checks and votes, topic placement and
    clean-up of proxy sessions; the protocol of all nodes over an unreliable network as a step
    relation, with an inductive invariant that gives at most one leader per term. Majorities enter
    through a locale of quorums, interpreted on the majorities of the code.

  \<^item> \<^verbatim>\<open>TopicState\<close>, \<^verbatim>\<open>Presence\<close>, \<^verbatim>\<open>Membership\<close>, \<^verbatim>\<open>Broadcast\<close>: a running topic of \<^verbatim>\<open>server/topic.go\<close> with \<^verbatim>\<open>pres.go\<close>,
    \<^verbatim>\<open>push.go\<close> and \<^verbatim>\<open>calls.go\<close>. The record \<open>world\<close> has the fields of a topic, the sessions it refers to and the
    effects it had so far in order: packets put into session queues, messages given to the hub, store
    operations, push receipts, plugin calls and timers. A handler takes an \<open>env\<close> with the clock, the
    configuration, the room in session queues and the answers of the store, and returns the new
    world, or \<open>None\<close> if it crashes. The exchange of online status always ends and informs both sides,
    and the unread counters follow deletions exactly.
  \<^item> \<^verbatim>\<open>Frames\<close>, \<^verbatim>\<open>TopicInv\<close>: rules, one per construct of the handlers, for what a handler keeps; the locale
    \<open>frame\<close> has them for any preorder on worlds and is interpreted on the relations of the proofs. Each
    handler numbers messages without gaps, keeps the counters in bounds and keeps the owner.
  \<^item> \<^verbatim>\<open>Delivery\<close>, \<^verbatim>\<open>TopicRun\<close>: what an accepted message does and that a refused one does nothing; how deep
    delivery may call itself; ownership; and the loop of a topic as a step relation, with the
    invariants of all its reachable states.

  \<^item> \<^verbatim>\<open>UserCreds\<close>, \<^verbatim>\<open>TopicMeta\<close>, \<^verbatim>\<open>MetaInv\<close>, \<^verbatim>\<open>MetaProps\<close>: credentials of users (\<^verbatim>\<open>server/user.go\<close>) and every request of a topic that
    reads, sets or deletes descriptions, subscriptions, messages, tags, credentials and auxiliary data. A required
    credential is never lost, history needs the read permission, profiles are changed by those who may; each
    request keeps the invariants of the topic.
  \<^item> \<^verbatim>\<open>SessionTypes\<close>, \<^verbatim>\<open>Accounts\<close>, \<^verbatim>\<open>Dispatch\<close>: a client session of \<^verbatim>\<open>server/session.go\<close>, the handlers of accounts of
    \<^verbatim>\<open>server/user.go\<close>, and the dispatching of every client packet with its guards. A session has its fields and what it has sent out, in
    order; the rest of the server answers through \<open>sess_env\<close>.
  \<^item> \<^verbatim>\<open>DispatchInv\<close>, \<^verbatim>\<open>DispatchProps\<close>, \<^verbatim>\<open>AccountProps\<close>: the locales \<open>session_steps\<close> and \<open>session_effects\<close> have the rules for what the
    handlers keep and emit, once for any relation on sessions and any property of effects. A session acts only for its user, only within its
    tenant and only after it has logged in; a login needs a matching record in good standing; accounts are deleted and
    suspended only by those who may.
  \<^item> \<^verbatim>\<open>SessionStore\<close>: the store of sessions with the list of long polling sessions ordered by use. Expiry by walking
    that list is the same as removing every stale session.
  \<^item> \<^verbatim>\<open>InitTopic\<close>, \<^verbatim>\<open>Hub\<close>, \<^verbatim>\<open>HubProps\<close>: loading and creating of topics of every category (\<^verbatim>\<open>server/init_topic.go\<close>), and the hub (\<^verbatim>\<open>server/hub.go\<close>) with
    its map of topics, their queues and the topics that are on their way out. The states the hub reaches are an inductive
    predicate in which the routines that make topics ready and the topics themselves take steps of their own: tenants
    stay apart, requests to join are not lost, topics are deleted only for those who may delete them.
  \<^item> \<^verbatim>\<open>GroupLife\<close>: the hub, the routine that makes a group ready and the loop of the topic together: a group is in order
    from the request that creates it to every state it reaches.
  \<^item> \<^verbatim>\<open>GoHeap\<close>, \<^verbatim>\<open>UsersCache\<close>, \<^verbatim>\<open>UsersCacheProps\<close>: the loops of Go's \<^verbatim>\<open>container/heap\<close> over the operations the client gives, with the locale
    \<open>heap_interface\<close> for what they promise; the cache of users of \<^verbatim>\<open>server/user.go\<close> with the unread counters, the requests to it from this node
    and others, and the queue of push receipts, on which the locale is interpreted. Receipts that wait are objects in a store
    because several queues share them. No receipt is lost or sent twice, each is sent once the counters it waits for
    are known, and a user develops independently of the others.

  \<^bold>\<open>Bounds and fuel.\<close> The only fuel is the depth of the stack in \<^verbatim>\<open>broadcastToSessions\<close>, which may call itself
  through dropped sessions and ended calls; it stands for the stack of the Go runtime, whose
  exhaustion is a crash. Without a call one frame is enough (\<open>broadcast_depth\<close>); with a stuck party of a call no
  depth is enough (\<open>stuck_call_party_crashes\<close>). All other loops are structural recursions or functions with a
  termination measure; the rounds that send receipts are bounded by the length of their queue, from which each takes one. Elections are modelled for any finite set of nodes and any interleaving,
  loss and duplication of messages; ring sizes, name lengths and numbers of attempts are arbitrary.

  \<^bold>\<open>Parameters.\<close> Unicode tables of runes outside ASCII, the Snowflake and XTEA packages behind the id
  generator, random numbers, clocks and the answers of the store are arguments of the
  definitions that use them. The order in which Go iterates over a map is the order of an
  association list, which no theorem fixes.

  \<^bold>\<open>Not modelled.\<close> The topics of a proxy node; basic and anonymous
  logins. SQL and document queries other than the persistent cache, sockets, RPC connections,
  logging and statistics, generated protobuf code, push and media services, plugins and tools are input
  and output or code of others.
\<close>

end
